(* ===== verification/Prelude.thy ===== *)
theory Prelude
  imports Main "HOL-Library.AList"
begin

text \<open>
  Shared vocabulary of the development: computations that may raise (a sum whose left
  side is the exception), Python dictionaries as association lists with distinct keys
  in insertion order, and the loops the components share.  The collections
  \<open>raise_simps\<close> and \<open>dict_simps\<close> carry the proofs of the components.
\<close>

named_theorems raise_simps "evaluation and inversion of computations that may raise"
named_theorems dict_simps "lookup, update and deletion on dictionaries"


section \<open>Computations that may raise\<close>

text \<open>
  A Python function that returns \<open>'a\<close> or raises \<open>'e\<close> is a value of \<open>'e + 'a\<close>.
  \<open>ebind\<close> is sequencing, \<open>emap\<close> a list comprehension whose body may raise, \<open>efold\<close>
  a \<open>for\<close> loop over a list with loop state.
\<close>

definition ebind :: "'e + 'a \<Rightarrow> ('a \<Rightarrow> 'e + 'b) \<Rightarrow> 'e + 'b" where
  "ebind m f = (case m of Inl e \<Rightarrow> Inl e | Inr a \<Rightarrow> f a)"

lemma ebind_Inl [simp, raise_simps]: "ebind (Inl e) f = Inl e"
  by (simp add: ebind_def)

lemma ebind_Inr [simp, raise_simps]: "ebind (Inr a) f = f a"
  by (simp add: ebind_def)

lemma ebind_eq_Inr [raise_simps]:
  "ebind m f = Inr b \<longleftrightarrow> (\<exists>a. m = Inr a \<and> f a = Inr b)"
  by (cases m) auto

lemma ebind_eq_Inl [raise_simps]:
  "ebind m f = Inl e \<longleftrightarrow> m = Inl e \<or> (\<exists>a. m = Inr a \<and> f a = Inl e)"
  by (cases m) auto

lemma ebind_assoc: "ebind (ebind m f) g = ebind m (\<lambda>a. ebind (f a) g)"
  by (cases m) auto

lemma ebind_cong [fundef_cong]:
  "m = m' \<Longrightarrow> (\<And>a. m' = Inr a \<Longrightarrow> f a = f' a) \<Longrightarrow> ebind m f = ebind m' f'"
  by (cases m') auto

definition guard_else :: "bool \<Rightarrow> 'e \<Rightarrow> 'e + unit" where
  "guard_else b e = (if b then Inr () else Inl e)"

lemma guard_else_simps [simp, raise_simps]:
  "guard_else True e = Inr ()" "guard_else False e = Inl e"
  by (simp_all add: guard_else_def)

lemma guard_else_Inr [raise_simps]: "guard_else b e = Inr u \<longleftrightarrow> b"
  by (simp add: guard_else_def)

definition of_option :: "'e \<Rightarrow> 'a option \<Rightarrow> 'e + 'a" where
  "of_option e x = (case x of None \<Rightarrow> Inl e | Some a \<Rightarrow> Inr a)"

lemma of_option_simps [simp, raise_simps]:
  "of_option e None = Inl e" "of_option e (Some a) = Inr a"
  by (simp_all add: of_option_def)

lemma of_option_Inr [raise_simps]: "of_option e x = Inr a \<longleftrightarrow> x = Some a"
  by (simp add: of_option_def split: option.split)

lemma of_option_Inl [raise_simps]: "of_option e x = Inl e' \<longleftrightarrow> x = None \<and> e' = e"
  by (auto simp: of_option_def split: option.split)

fun emap :: "('a \<Rightarrow> 'e + 'b) \<Rightarrow> 'a list \<Rightarrow> 'e + 'b list" where
  "emap f [] = Inr []"
| "emap f (x # xs) = ebind (f x) (\<lambda>y. ebind (emap f xs) (\<lambda>ys. Inr (y # ys)))"

lemma emap_cong [fundef_cong]:
  "xs = ys \<Longrightarrow> (\<And>x. x \<in> set ys \<Longrightarrow> f x = g x) \<Longrightarrow> emap f xs = emap g ys"
  by (induction xs arbitrary: ys) (auto intro!: ebind_cong)

lemma emap_eq_Inr: "emap f xs = Inr ys \<longleftrightarrow> list_all2 (\<lambda>x y. f x = Inr y) xs ys"
proof (induction xs arbitrary: ys)
  case Nil
  then show ?case by auto
next
  case (Cons x xs)
  then show ?case by (cases ys) (auto simp: raise_simps)
qed

lemma emap_total: "(\<And>x. x \<in> set xs \<Longrightarrow> f x = Inr (g x)) \<Longrightarrow> emap f xs = Inr (map g xs)"
  by (induction xs) auto

lemma emap_map: "emap f (map g xs) = emap (\<lambda>x. f (g x)) xs"
  by (induction xs) auto

lemma emap_Inr_length: "emap f xs = Inr ys \<Longrightarrow> length ys = length xs"
  by (auto simp: emap_eq_Inr dest: list_all2_lengthD)

fun efold :: "('a \<Rightarrow> 's \<Rightarrow> 'e + 's) \<Rightarrow> 'a list \<Rightarrow> 's \<Rightarrow> 'e + 's" where
  "efold f [] s = Inr s"
| "efold f (x # xs) s = ebind (f x s) (efold f xs)"

lemma efold_append: "efold f (xs @ ys) s = ebind (efold f xs s) (efold f ys)"
  by (induction xs arbitrary: s) (auto simp: ebind_assoc intro!: ebind_cong)

text \<open>The invariant rule of a loop that may raise.\<close>

lemma efold_invariant:
  assumes "efold f xs s = Inr t" and "I s"
    and "\<And>x s s'. x \<in> set xs \<Longrightarrow> I s \<Longrightarrow> f x s = Inr s' \<Longrightarrow> I s'"
  shows "I t"
  using assms
proof (induction xs arbitrary: s)
  case Nil
  then show ?case by simp
next
  case (Cons x xs)
  from Cons.prems(1) obtain u where u: "f x s = Inr u" "efold f xs u = Inr t"
    by (auto simp: raise_simps)
  then show ?case using Cons.IH[of u] Cons.prems(2,3) by auto
qed


section \<open>Dictionaries\<close>

text \<open>
  A Python dictionary keeps insertion order: an association list with distinct keys.
  Assigning to a key replaces in place or appends (\<open>AList.update\<close>), \<open>del\<close> removes.
\<close>

type_synonym ('k, 'v) pydict = "('k \<times> 'v) list"

abbreviation dget :: "('k, 'v) pydict \<Rightarrow> 'k \<Rightarrow> 'v option" where
  "dget \<equiv> map_of"

abbreviation dkeys :: "('k, 'v) pydict \<Rightarrow> 'k list" where
  "dkeys d \<equiv> map fst d"

definition dset :: "'k \<Rightarrow> 'v \<Rightarrow> ('k, 'v) pydict \<Rightarrow> ('k, 'v) pydict" where
  "dset k v d = AList.update k v d"

definition ddel :: "'k \<Rightarrow> ('k, 'v) pydict \<Rightarrow> ('k, 'v) pydict" where
  "ddel k d = filter (\<lambda>p. fst p \<noteq> k) d"

definition dget_or :: "('k, 'v) pydict \<Rightarrow> 'k \<Rightarrow> 'v \<Rightarrow> 'v" where
  "dget_or d k v = (case dget d k of None \<Rightarrow> v | Some w \<Rightarrow> w)"

definition dict_ok :: "('k, 'v) pydict \<Rightarrow> bool" where
  "dict_ok d \<longleftrightarrow> distinct (dkeys d)"

lemma dset_Nil [simp]: "dset k v [] = [(k, v)]"
  by (simp add: dset_def)

lemma dset_Cons [simp]:
  "dset k v (p # d) = (if fst p = k then (k, v) # d else p # dset k v d)"
  by (cases p) (simp add: dset_def)

lemma dget_dset [simp, dict_simps]: "dget (dset k v d) = (dget d)(k \<mapsto> v)"
  by (simp add: dset_def update_conv')

lemma dget_ddel [simp, dict_simps]: "dget (ddel k d) = (dget d)(k := None)"
  by (induction d) (auto simp: ddel_def)

lemma dict_ok_Nil [simp]: "dict_ok []"
  by (simp add: dict_ok_def)

lemma dict_ok_Cons [simp]: "dict_ok ((k, v) # d) \<longleftrightarrow> k \<notin> set (dkeys d) \<and> dict_ok d"
  by (simp add: dict_ok_def)

lemma dkeys_dset [dict_simps]:
  "dkeys (dset k v d) = (if k \<in> set (dkeys d) then dkeys d else dkeys d @ [k])"
  by (induction d) auto

lemma set_dkeys_dset [simp, dict_simps]: "set (dkeys (dset k v d)) = insert k (set (dkeys d))"
  by (auto simp: dkeys_dset)

lemma dict_ok_dset [simp]: "dict_ok d \<Longrightarrow> dict_ok (dset k v d)"
  by (auto simp: dict_ok_def dkeys_dset)

lemma dict_ok_ddel [simp]: "dict_ok d \<Longrightarrow> dict_ok (ddel k d)"
  by (auto simp: dict_ok_def ddel_def distinct_map inj_on_def)

lemma dset_fresh [dict_simps]: "k \<notin> set (dkeys d) \<Longrightarrow> dset k v d = d @ [(k, v)]"
  by (induction d) auto

lemma dget_None_iff: "dget d k = None \<longleftrightarrow> k \<notin> set (dkeys d)"
  by (simp add: map_of_eq_None_iff)

lemma dict_ok_map_values [simp]: "dict_ok (map (\<lambda>(k, v). (k, f k v)) d) = dict_ok d"
proof -
  have "dkeys (map (\<lambda>(k, v). (k, f k v)) d) = dkeys d" by (induction d) auto
  then show ?thesis by (simp only: dict_ok_def)
qed

lemma dict_ok_mapI: "dict_ok d \<Longrightarrow> (k, v) \<in> set d \<Longrightarrow> dget d k = Some v"
  by (simp add: dict_ok_def)

subsection \<open>The contract of a mutable mapping\<close>

text \<open>
  What the components rely on when they build a dictionary in a loop: the state of the
  mapping after an assignment and a deletion, and that both keep it well-formed.
\<close>

locale mapping_contract =
  fixes get :: "'m \<Rightarrow> 'k \<Rightarrow> 'v option"
    and set_item :: "'k \<Rightarrow> 'v \<Rightarrow> 'm \<Rightarrow> 'm"
    and del_item :: "'k \<Rightarrow> 'm \<Rightarrow> 'm"
    and ok :: "'m \<Rightarrow> bool"
  assumes get_set: "ok m \<Longrightarrow> get (set_item k v m) k' = (if k' = k then Some v else get m k')"
    and get_del: "ok m \<Longrightarrow> get (del_item k m) k' = (if k' = k then None else get m k')"
    and ok_set: "ok m \<Longrightarrow> ok (set_item k v m)"
    and ok_del: "ok m \<Longrightarrow> ok (del_item k m)"
begin

text \<open>A loop that assigns \<open>f x\<close> to key \<open>g x\<close> for every element: the last writer wins.\<close>

lemma ok_fold: "ok m \<Longrightarrow> ok (fold (\<lambda>x. set_item (g x) (f x)) xs m)"
  by (induction xs arbitrary: m) (auto simp: ok_set)

lemma get_fold_other:
  "ok m \<Longrightarrow> k \<notin> g ` set xs \<Longrightarrow> get (fold (\<lambda>x. set_item (g x) (f x)) xs m) k = get m k"
  by (induction xs arbitrary: m) (auto simp: ok_set get_set)

lemma get_fold_last:
  "ok m \<Longrightarrow> g x \<notin> g ` set zs \<Longrightarrow>
   get (fold (\<lambda>x. set_item (g x) (f x)) (ys @ x # zs) m) (g x) = Some (f x)"
  by (simp add: get_fold_other ok_fold ok_set get_set)

lemma get_fold_distinct:
  assumes "ok m" and "distinct (map g xs)" and "x \<in> set xs"
  shows "get (fold (\<lambda>x. set_item (g x) (f x)) xs m) (g x) = Some (f x)"
proof -
  obtain ys zs where xs: "xs = ys @ x # zs" using assms(3) by (auto dest: split_list)
  then have "g x \<notin> g ` set zs" using assms(2) by auto
  then show ?thesis using get_fold_last[OF assms(1)] xs by simp
qed

end

interpretation dict: mapping_contract dget dset ddel dict_ok
  by unfold_locales (auto simp: dict_simps)

end
