(* ===== verification/PyStr.thy ===== *)
theory PyStr
  imports Prelude "HOL-Library.Sublist" "HOL-Library.Char_ord"
begin

text \<open>
  The Python string operations the code calls, on ASCII text: \<open>split\<close>, \<open>join\<close>,
  \<open>strip\<close>, \<open>replace\<close>, \<open>in\<close>, \<open>find\<close>, decimal and hexadecimal conversion, with
  the lemmas that joining undoes splitting and that parsing a printed number gives it back.
\<close>

named_theorems str_simps "evaluation of the string operations"


section \<open>Characters\<close>

abbreviation code :: "char \<Rightarrow> nat" where
  "code c \<equiv> of_char c"

definition is_digit :: "char \<Rightarrow> bool" where
  "is_digit c \<longleftrightarrow> 48 \<le> code c \<and> code c \<le> 57"

definition is_lower :: "char \<Rightarrow> bool" where
  "is_lower c \<longleftrightarrow> 97 \<le> code c \<and> code c \<le> 122"

definition is_upper :: "char \<Rightarrow> bool" where
  "is_upper c \<longleftrightarrow> 65 \<le> code c \<and> code c \<le> 90"

text \<open>\<open>str.isspace\<close> and the regular expression class \<open>\s\<close> on ASCII.\<close>

definition is_space :: "char \<Rightarrow> bool" where
  "is_space c \<longleftrightarrow> 9 \<le> code c \<and> code c \<le> 13 \<or> 28 \<le> code c \<and> code c \<le> 32"

text \<open>The class \<open>\w\<close>: letters, digits and the underscore (character 95).\<close>

definition is_word :: "char \<Rightarrow> bool" where
  "is_word c \<longleftrightarrow> is_digit c \<or> is_lower c \<or> is_upper c \<or> code c = 95"

definition lower_char :: "char \<Rightarrow> char" where
  "lower_char c = (if is_upper c then char_of (code c + 32) else c)"

definition lower :: "string \<Rightarrow> string" where
  "lower s = map lower_char s"

abbreviation newline :: char where
  "newline \<equiv> CHR 0x0A"


section \<open>Splitting and joining\<close>

fun split_on :: "char \<Rightarrow> string \<Rightarrow> string list" where
  "split_on c [] = [[]]"
| "split_on c (x # xs) =
     (if x = c then [] # split_on c xs
      else case split_on c xs of [] \<Rightarrow> [[x]] | w # ws \<Rightarrow> (x # w) # ws)"

text \<open>\<open>sep.join(ws)\<close>.\<close>

fun join :: "string \<Rightarrow> string list \<Rightarrow> string" where
  "join sep [] = []"
| "join sep [w] = w"
| "join sep (w # v # ws) = w @ sep @ join sep (v # ws)"

text \<open>\<open>s.split(c, 1)\<close>: at most one split, at the first occurrence.\<close>

fun split1 :: "char \<Rightarrow> string \<Rightarrow> string \<times> string option" where
  "split1 c [] = ([], None)"
| "split1 c (x # xs) =
     (if x = c then ([], Some xs)
      else let (a, b) = split1 c xs in (x # a, b))"

text \<open>\<open>for line in handle\<close>: the lines of a text, each with its newline.\<close>

fun lines_acc :: "string \<Rightarrow> string \<Rightarrow> string list" where
  "lines_acc w [] = (if w = [] then [] else [w])"
| "lines_acc w (c # cs) =
     (if c = newline then (w @ [c]) # lines_acc [] cs else lines_acc (w @ [c]) cs)"

definition file_lines :: "string \<Rightarrow> string list" where
  "file_lines s = lines_acc [] s"

text \<open>\<open>s.split()\<close>: the maximal runs of non-space characters.\<close>

fun split_ws_acc :: "string \<Rightarrow> string \<Rightarrow> string list" where
  "split_ws_acc w [] = (if w = [] then [] else [w])"
| "split_ws_acc w (c # cs) =
     (if is_space c then (if w = [] then split_ws_acc [] cs else w # split_ws_acc [] cs)
      else split_ws_acc (w @ [c]) cs)"

definition split_ws :: "string \<Rightarrow> string list" where
  "split_ws s = split_ws_acc [] s"

definition lstrip :: "string \<Rightarrow> string" where
  "lstrip s = dropWhile is_space s"

definition rstrip :: "string \<Rightarrow> string" where
  "rstrip s = rev (dropWhile is_space (rev s))"

definition strip :: "string \<Rightarrow> string" where
  "strip s = rstrip (lstrip s)"

lemma split_on_nonempty [simp]: "split_on c s \<noteq> []"
  by (induction s) (auto split: list.splits)

lemma join_Cons: "ws \<noteq> [] \<Longrightarrow> join sep (w # ws) = w @ sep @ join sep ws"
  by (cases ws) auto

lemma join_split_on: "join [c] (split_on c s) = s"
proof (induction s)
  case Nil
  then show ?case by simp
next
  case (Cons x xs)
  obtain w ws where s: "split_on c xs = w # ws"
    by (meson neq_Nil_conv split_on_nonempty)
  show ?case
  proof (cases "x = c")
    case True
    then show ?thesis using Cons by (simp add: join_Cons)
  next
    case False
    then show ?thesis using Cons s by (cases ws) auto
  qed
qed

lemma split_on_absent: "c \<notin> set w \<Longrightarrow> split_on c w = [w]"
  by (induction w) auto

lemma split_on_append: "c \<notin> set w \<Longrightarrow> split_on c (w @ c # s) = w # split_on c s"
  by (induction w) auto

lemma split_on_join:
  "ws \<noteq> [] \<Longrightarrow> \<forall>w \<in> set ws. c \<notin> set w \<Longrightarrow> split_on c (join [c] ws) = ws"
proof (induction ws)
  case Nil
  then show ?case by simp
next
  case (Cons w ws)
  then show ?case
    by (cases ws) (auto simp: split_on_absent split_on_append)
qed

lemma split_on_no_sep: "w \<in> set (split_on c s) \<Longrightarrow> c \<notin> set w"
proof (induction s arbitrary: w)
  case Nil
  then show ?case by simp
next
  case (Cons x xs)
  obtain v vs where s: "split_on c xs = v # vs"
    by (meson neq_Nil_conv split_on_nonempty)
  then show ?case using Cons by (auto split: if_splits)
qed

lemma split1_append: "c \<notin> set w \<Longrightarrow> split1 c (w @ c # s) = (w, Some s)"
  by (induction w) auto

lemma split1_absent: "c \<notin> set w \<Longrightarrow> split1 c w = (w, None)"
  by (induction w) auto

definition word_ok :: "string \<Rightarrow> bool" where
  "word_ok w \<longleftrightarrow> w \<noteq> [] \<and> list_all (\<lambda>c. \<not> is_space c) w"

lemma split_ws_acc_words:
  "list_all (\<lambda>c. \<not> is_space c) v \<Longrightarrow> list_all word_ok (split_ws_acc v s)"
proof (induction s arbitrary: v)
  case Nil
  then show ?case by (simp add: word_ok_def)
next
  case (Cons c s)
  have "list_all word_ok (split_ws_acc [] s)" by (rule Cons.IH) simp
  moreover have "\<not> is_space c \<Longrightarrow> list_all word_ok (split_ws_acc (v @ [c]) s)"
    by (rule Cons.IH) (use Cons.prems in simp)
  ultimately show ?case using Cons.prems by (auto simp: word_ok_def[of v])
qed

lemma split_ws_words: "list_all word_ok (split_ws s)"
  by (simp add: split_ws_def split_ws_acc_words)


section \<open>Searching and replacing\<close>

text \<open>\<open>p in s\<close>.\<close>

fun contains :: "string \<Rightarrow> string \<Rightarrow> bool" where
  "contains p [] = (p = [])"
| "contains p (c # cs) = (prefix p (c # cs) \<or> contains p cs)"

lemma contains_sublist: "contains p s = sublist p s"
  by (induction s) (auto simp: sublist_Cons_right)

text \<open>The position of the last occurrence of a character, \<open>s.rfind(c)\<close>, and the text after it.\<close>

definition after_last :: "char \<Rightarrow> string \<Rightarrow> string" where
  "after_last c s = rev (takeWhile (\<lambda>x. x \<noteq> c) (rev s))"

definition upto_last :: "char \<Rightarrow> string \<Rightarrow> string" where
  "upto_last c s = rev (dropWhile (\<lambda>x. x \<noteq> c) (rev s))"

lemma upto_after_last: "upto_last c s @ after_last c s = s"
proof -
  have "rev (upto_last c s @ after_last c s) = rev s"
    by (simp add: upto_last_def after_last_def)
  then show ?thesis using rev_is_rev_conv by blast
qed

text \<open>\<open>s.replace(old, new)\<close>: left to right, without overlap; an empty \<open>old\<close> matches
  before every character and at the end.\<close>

function replace_at :: "string \<Rightarrow> string \<Rightarrow> string \<Rightarrow> string" where
  "replace_at old new [] = []"
| "replace_at old new (c # cs) =
     (if old \<noteq> [] \<and> prefix old (c # cs)
      then new @ replace_at old new (drop (length old) (c # cs))
      else c # replace_at old new cs)"
  by pat_completeness auto
termination
  by (relation "measure (\<lambda>(old, new, s). length s)") auto

definition replace :: "string \<Rightarrow> string \<Rightarrow> string \<Rightarrow> string" where
  "replace old new s =
     (if old = [] then concat (map (\<lambda>c. new @ [c]) s) @ new else replace_at old new s)"

lemma replace_at_absent: "\<not> contains old s \<Longrightarrow> replace_at old new s = s"
  by (induction s) auto

lemma replace_absent: "\<not> contains old s \<Longrightarrow> replace old new s = s"
  by (cases s) (auto simp: replace_def replace_at_absent)

lemma replace_at_Cons_other: "\<not> prefix old (c # cs) \<Longrightarrow>
    replace_at old new (c # cs) = c # replace_at old new cs"
  by simp

lemma replace_at_hit: "old \<noteq> [] \<Longrightarrow> replace_at old new (old @ s) = new @ replace_at old new s"
  by (cases old) auto

declare replace_at.simps(2) [simp del]

lemma replace_at_skip:
  assumes "old = h # hs" and "h \<notin> set w"
  shows "replace_at old new (w @ s) = w @ replace_at old new s"
  using assms(2)
proof (induction w)
  case Nil
  then show ?case by simp
next
  case (Cons c w)
  then show ?case using assms(1) by (auto simp: replace_at_Cons_other)
qed


section \<open>Numbers\<close>

definition digit_char :: "nat \<Rightarrow> char" where
  "digit_char d = char_of (if d < 10 then 48 + d else 87 + d)"

text \<open>\<open>str(n)\<close> in base \<open>b\<close>, most significant digit first.\<close>

fun show_base :: "nat \<Rightarrow> nat \<Rightarrow> string" where
  "show_base b n =
     (if b < 2 \<or> n < b then [digit_char n] else show_base b (n div b) @ [digit_char (n mod b)])"

declare show_base.simps [simp del]

definition show_nat :: "nat \<Rightarrow> string" where
  "show_nat n = show_base 10 n"

definition show_int :: "int \<Rightarrow> string" where
  "show_int i = (if i < 0 then CHR ''-'' # show_nat (nat (- i)) else show_nat (nat i))"

text \<open>\<open>hex(i)\<close>.\<close>

definition hex :: "int \<Rightarrow> string" where
  "hex i = (if i < 0 then ''-0x'' @ show_base 16 (nat (- i)) else ''0x'' @ show_base 16 (nat i))"

text \<open>The value of a digit in bases up to 36, letters in either case.\<close>

definition digit_val :: "char \<Rightarrow> nat option" where
  "digit_val c =
     (if is_digit c then Some (code c - 48)
      else if is_lower c then Some (code c - 87)
      else if is_upper c then Some (code c - 55)
      else None)"

text \<open>
  The digits of \<open>int(s, b)\<close>: at least one digit, single underscores between digits.
  The flag says that the previous character was a digit.
\<close>

fun read_digits :: "nat \<Rightarrow> bool \<Rightarrow> nat \<Rightarrow> string \<Rightarrow> nat option" where
  "read_digits b after acc [] = (if after then Some acc else None)"
| "read_digits b after acc (c # cs) =
     (if code c = 95 then (if after then read_digits b False acc cs else None)
      else case digit_val c of
             None \<Rightarrow> None
           | Some d \<Rightarrow> if d < b then read_digits b True (acc * b + d) cs else None)"

definition drop_base_prefix :: "nat \<Rightarrow> string \<Rightarrow> string" where
  "drop_base_prefix b s =
     (if b = 16 \<and> length s > 1 \<and> hd s = CHR ''0'' \<and> (s ! 1 = CHR ''x'' \<or> s ! 1 = CHR ''X'')
      then (if length s > 2 \<and> code (s ! 2) = 95 then drop 3 s else drop 2 s) else s)"

definition read_nat :: "nat \<Rightarrow> string \<Rightarrow> nat option" where
  "read_nat b s = read_digits b False 0 (drop_base_prefix b s)"

text \<open>\<open>int(s, b)\<close> for \<open>b\<close> 10 or 16: surrounding space, a sign, the digits; \<open>None\<close> is
  \<open>ValueError\<close>.\<close>

definition read_int :: "nat \<Rightarrow> string \<Rightarrow> int option" where
  "read_int b s =
     (case strip s of
        [] \<Rightarrow> None
      | c # cs \<Rightarrow>
          if c = CHR ''-'' then map_option (\<lambda>n. - int n) (read_nat b cs)
          else if c = CHR ''+'' then map_option int (read_nat b cs)
          else map_option int (read_nat b (c # cs)))"

lemma code_digit_char: "d < 36 \<Longrightarrow> code (digit_char d) = (if d < 10 then 48 + d else 87 + d)"
  by (simp add: digit_char_def)

lemma digit_val_digit_char: "d < 36 \<Longrightarrow> digit_val (digit_char d) = Some d"
  by (auto simp: digit_val_def is_digit_def is_lower_def code_digit_char)

lemma digit_char_props:
  assumes "d < 36"
  shows "\<not> is_space (digit_char d)" "digit_char d \<noteq> CHR ''-''" "digit_char d \<noteq> CHR ''+''"
    "code (digit_char d) \<noteq> 95" "is_word (digit_char d)"
proof -
  have c: "code (digit_char d) = (if d < 10 then 48 + d else 87 + d)"
    using assms by (rule code_digit_char)
  show "\<not> is_space (digit_char d)" "code (digit_char d) \<noteq> 95" "is_word (digit_char d)"
    using c assms by (auto simp: is_space_def is_word_def is_digit_def is_lower_def)
  show "digit_char d \<noteq> CHR ''-''" "digit_char d \<noteq> CHR ''+''"
    using c by (auto split: if_splits)
qed

lemma show_base_digits:
  "1 < b \<Longrightarrow> b \<le> 36 \<Longrightarrow> c \<in> set (show_base b n) \<Longrightarrow> \<exists>d < 36. c = digit_char d"
proof (induction b n rule: show_base.induct)
  case (1 b n)
  show ?case
  proof (cases "n < b")
    case True
    with "1.prems" show ?thesis by (subst (asm) show_base.simps) (auto intro!: exI[of _ n])
  next
    case False
    have "n mod b < b" using "1.prems"(1) by simp
    then have "n mod b < 36" using "1.prems"(2) by (rule less_le_trans)
    with False "1.prems" "1.IH" show ?thesis by (subst (asm) show_base.simps) auto
  qed
qed

lemma show_base_nonempty [simp]: "show_base b n \<noteq> []"
  by (subst show_base.simps) simp

lemma read_digits_show_base_aux:
  "1 < b \<Longrightarrow> b \<le> 36 \<Longrightarrow>
   \<exists>k. \<forall>f acc s. read_digits b f acc (show_base b n @ s) = read_digits b True (acc * b ^ k + n) s"
proof (induction b n rule: show_base.induct)
  case (1 b n)
  show ?case
  proof (cases "n < b")
    case True
    then have n36: "n < 36" using "1.prems" by simp
    have sb: "show_base b n = [digit_char n]" using True by (subst show_base.simps) simp
    show ?thesis
      using True n36 "1.prems" by (intro exI[of _ 1])
        (simp add: sb digit_val_digit_char digit_char_props(4))
  next
    case False
    have m: "n mod b < b" "n mod b < 36" using "1.prems"
      by (auto intro: less_le_trans[OF mod_less_divisor])
    from False "1.prems" obtain k where k: "\<And>f acc s. read_digits b f acc (show_base b (n div b) @ s)
        = read_digits b True (acc * b ^ k + n div b) s"
      using "1.IH" by auto
    have sb: "show_base b n = show_base b (n div b) @ [digit_char (n mod b)]"
      using False "1.prems" by (subst show_base.simps) simp
    show ?thesis
    proof (intro exI[of _ "Suc k"] allI)
      fix f acc s
      have "(acc * b ^ k + n div b) * b + n mod b = acc * b ^ Suc k + n"
        by (simp add: algebra_simps)
      then show "read_digits b f acc (show_base b n @ s) =
          read_digits b True (acc * b ^ Suc k + n) s"
        using m by (simp add: sb k digit_val_digit_char digit_char_props(4))
    qed
  qed
qed

lemma read_digits_show_base:
  "1 < b \<Longrightarrow> b \<le> 36 \<Longrightarrow> read_digits b False 0 (show_base b n) = Some n"
  using read_digits_show_base_aux[of b n] by (metis append_Nil2 mult_zero_left add_0
    read_digits.simps(1))

lemma strip_id: "(\<forall>c \<in> set s. \<not> is_space c) \<Longrightarrow> strip s = s"
proof -
  assume a: "\<forall>c \<in> set s. \<not> is_space c"
  have l: "lstrip s = s" unfolding lstrip_def using a by (cases s) auto
  have "dropWhile is_space (rev s) = rev s" using a by (cases "rev s") (auto simp: rev_eq_Cons_iff)
  then show ?thesis by (simp add: strip_def l rstrip_def)
qed

text \<open>\<open>int(str(i)) == i\<close>.\<close>

lemma read_int_show_int: "read_int 10 (show_int i) = Some i"
proof -
  have ds: "\<exists>d < 36. c = digit_char d" if "c \<in> set (show_nat n)" for c n
    using that show_base_digits[of 10 c n] by (simp add: show_nat_def)
  have ne: "show_nat n \<noteq> []" for n by (simp add: show_nat_def)
  have rn: "read_nat 10 (show_nat n) = Some n" for n
    by (simp add: read_nat_def drop_base_prefix_def show_nat_def read_digits_show_base)
  have sp: "\<forall>c \<in> set (show_int i). \<not> is_space c"
  proof
    fix c assume "c \<in> set (show_int i)"
    then consider "c = CHR ''-''" | "c \<in> set (show_nat (nat (- i)))" | "c \<in> set (show_nat (nat i))"
      by (auto simp: show_int_def split: if_splits)
    then show "\<not> is_space c"
    proof cases
      case 1
      then show ?thesis by (simp add: is_space_def)
    qed (use ds digit_char_props(1) in blast)+
  qed
  show ?thesis
  proof (cases "i < 0")
    case True
    then show ?thesis using sp rn by (simp add: read_int_def strip_id show_int_def)
  next
    case False
    obtain c cs where c: "show_nat (nat i) = c # cs" using ne by (meson neq_Nil_conv)
    have "c \<noteq> CHR ''-''" "c \<noteq> CHR ''+''" using ds[of c "nat i"] c digit_char_props(2,3)
      by (metis list.set_intros(1))+
    then show ?thesis using False sp rn[of "nat i"] c by (simp add: read_int_def strip_id show_int_def)
  qed
qed

lemma show_nat_digits: "list_all is_digit (show_nat n)"
proof -
  have "b = 10 \<Longrightarrow> list_all is_digit (show_base b n)" for b n
  proof (induction b n rule: show_base.induct)
    case (1 b n)
    have "d < 10 \<Longrightarrow> is_digit (digit_char d)" for d by (simp add: is_digit_def digit_char_def)
    then show ?case using 1 by (subst show_base.simps) auto
  qed
  then show ?thesis by (simp add: show_nat_def)
qed

lemma show_int_no_dot: "CHR ''.'' \<notin> set (show_int i)"
proof -
  have "CHR ''.'' \<notin> set (show_nat n)" for n
    using show_nat_digits[of n] by (auto simp: list_all_iff is_digit_def)
  then show ?thesis by (simp add: show_int_def)
qed

lemma show_int_inj: "show_int i = show_int j \<longleftrightarrow> i = j"
  using read_int_show_int[of i] read_int_show_int[of j] by (metis option.inject)

lemma show_int_chars: "c \<in> set (show_int i) \<Longrightarrow> c = CHR ''-'' \<or> is_digit c"
  using show_nat_digits by (auto simp: show_int_def list_all_iff split: if_splits)

lemma show_nat_inj: "show_nat m = show_nat n \<longleftrightarrow> m = n"
  using show_int_inj[of "int m" "int n"] by (simp add: show_int_def)

text \<open>A line appended to a text is the last of its lines.\<close>

lemma lines_acc_word:
  "newline \<notin> set w \<Longrightarrow> lines_acc v (w @ newline # s) = (v @ w @ [newline]) # lines_acc [] s"
  by (induction w arbitrary: v) auto

lemma lines_acc_after: "lines_acc v (w @ newline # s) = lines_acc v (w @ [newline]) @ lines_acc [] s"
proof (induction w arbitrary: v)
  case (Cons c w)
  then show ?case by (cases "c = newline") simp_all
qed simp

lemma file_lines_add:
  assumes "s = [] \<or> last s = newline" and "newline \<notin> set w"
  shows "file_lines (s @ w @ [newline]) = file_lines s @ [w @ [newline]]"
proof (cases s rule: rev_cases)
  case Nil
  then show ?thesis using lines_acc_word[OF assms(2), of "[]" "[]"] by (simp add: file_lines_def)
next
  case (snoc s' c)
  then have s: "s = s' @ [newline]" using assms(1) by simp
  have "lines_acc [] (s @ w @ [newline]) = lines_acc [] s @ lines_acc [] (w @ [newline])"
    using lines_acc_after[of "[]" s' "w @ [newline]"] by (simp add: s)
  then show ?thesis using lines_acc_word[OF assms(2), of "[]" "[]"] by (simp add: file_lines_def)
qed

lemma file_lines_concat:
  assumes "\<And>w. w \<in> set ws \<Longrightarrow> newline \<notin> set w"
  shows "file_lines (concat (map (\<lambda>w. w @ [newline]) ws)) = map (\<lambda>w. w @ [newline]) ws"
  using assms
proof (induction ws)
  case (Cons w ws)
  then show ?case using lines_acc_word[of w "[]"] by (simp add: file_lines_def)
qed (simp add: file_lines_def)

end
