(* ===== verification/ArgParse.thy ===== *)
theory ArgParse
  imports PyStr
begin

text \<open>
  The command lines of the scripts: what they use of \<^verbatim>\<open>argparse\<close> (Python 3.12).  A parser is a
  list of arguments, as data; the words of a command line are classified, options and
  positionals are consumed alternately, and the result lists the words each argument was
  given, in order, or says how the program ends.
\<close>

section \<open>Arguments\<close>

text \<open>
  \<^verbatim>\<open>nargs\<close> None, \<^verbatim>\<open>'*'\<close>, \<^verbatim>\<open>'+'\<close>, 0 for switches, and \<^verbatim>\<open>PARSER\<close> for the name of a parser with all the
  words after it.
\<close>

datatype nargs = One | Any_number | At_least_one | No_words | Sub_command

datatype act = Store | Store_true | Append | Show_help

text \<open>
  How a program ends without a result: the usage error (status 2), or the help (status 0).  A second
  pair of dashes is removed from the words of a positional as well; where that leaves a single
  positional without its word, its value is the empty list, which the scripts cannot use, and
  there is no result either.
\<close>

datatype arg_exit = Bad_usage | Help_shown | No_text

definition exit_status :: "arg_exit \<Rightarrow> int" where
  "exit_status e = (case e of Bad_usage \<Rightarrow> 2 | Help_shown \<Rightarrow> 0 | No_text \<Rightarrow> 1)"

text \<open>
  An argument without flags is positional.  \<open>accepts\<close> is what the words of an argument lead to: an
  end of the program, or nothing where its \<^verbatim>\<open>type\<close> converts each of them without an error, to one of
  its \<^verbatim>\<open>choices\<close> where it has any.
\<close>

record argument =
  flags :: "string list"
  dest :: string
  nargs :: nargs
  act :: act
  accepts :: "string list \<Rightarrow> arg_exit option"
  required :: bool

text \<open>The name of an option in the result: its first long flag, or its first one.\<close>

definition dest_of :: "string list \<Rightarrow> string" where
  "dest_of fs =
     (let f = (case filter (prefix ''--'') fs of [] \<Rightarrow> hd fs | g # _ \<Rightarrow> g)
      in map (\<lambda>c. if c = CHR ''-'' then CHR ''_'' else c) (dropWhile (\<lambda>c. c = CHR ''-'') f))"

definition each :: "(string \<Rightarrow> bool) \<Rightarrow> string list \<Rightarrow> arg_exit option" where
  "each ok ws = (if list_all ok ws then None else Some Bad_usage)"

definition any_text :: "string \<Rightarrow> bool" where
  "any_text w = True"

lemma each_any_text [simp]: "each any_text ws = None"
  by (simp add: each_def any_text_def list_all_iff)

definition int_text :: "string \<Rightarrow> bool" where
  "int_text w = (read_int 10 w \<noteq> None)"

definition positional :: "string \<Rightarrow> nargs \<Rightarrow> (string \<Rightarrow> bool) \<Rightarrow> argument" where
  "positional d n ok = \<lparr>flags = [], dest = d, nargs = n, act = Store, accepts = each ok, required = True\<rparr>"

definition valued :: "string list \<Rightarrow> (string \<Rightarrow> bool) \<Rightarrow> bool \<Rightarrow> argument" where
  "valued fs ok req = \<lparr>flags = fs, dest = dest_of fs, nargs = One, act = Store, accepts = each ok, required = req\<rparr>"

definition many_valued :: "string list \<Rightarrow> (string \<Rightarrow> bool) \<Rightarrow> argument" where
  "many_valued fs ok = \<lparr>flags = fs, dest = dest_of fs, nargs = Any_number, act = Store, accepts = each ok, required = False\<rparr>"

definition switch :: "string list \<Rightarrow> argument" where
  "switch fs = \<lparr>flags = fs, dest = dest_of fs, nargs = No_words, act = Store_true, accepts = each any_text, required = False\<rparr>"

definition appended :: "string list \<Rightarrow> string \<Rightarrow> (string \<Rightarrow> bool) \<Rightarrow> argument" where
  "appended fs d ok = \<lparr>flags = fs, dest = d, nargs = One, act = Append, accepts = each ok, required = False\<rparr>"

text \<open>Every parser of the scripts has the option that shows the help, before its own arguments.\<close>

definition argument_parser :: "argument list \<Rightarrow> argument list" where
  "argument_parser args =
     \<lparr>flags = [''-h'', ''--help''], dest = ''help'', nargs = No_words, act = Show_help, accepts = each any_text,
      required = False\<rparr> # args"

definition find_flag :: "argument list \<Rightarrow> string \<Rightarrow> argument option" where
  "find_flag args f = List.find (\<lambda>a. f \<in> set (flags a)) args"

definition option_strings :: "argument list \<Rightarrow> (string \<times> argument) list" where
  "option_strings args = concat (map (\<lambda>a. map (\<lambda>f. (f, a)) (flags a)) args)"

section \<open>Classifying the words\<close>

text \<open>
  A word, the two dashes that end the options, or an option: its text, the argument and the flag
  it stands for unless it is unknown, and the separator and the value that are part of it.
\<close>

datatype token =
    Word string
  | Dashes
  | Flagged string "(argument \<times> string) option" "string option" "string option"

fun token_text :: "token \<Rightarrow> string" where
  "token_text (Word w) = w"
| "token_text Dashes = ''--''"
| "token_text (Flagged w _ _ _) = w"

fun is_plain :: "token \<Rightarrow> bool" where
  "is_plain (Word _) = True"
| "is_plain _ = False"

fun is_dashes :: "token \<Rightarrow> bool" where
  "is_dashes Dashes = True"
| "is_dashes _ = False"

fun is_option :: "token \<Rightarrow> bool" where
  "is_option (Flagged _ _ _ _) = True"
| "is_option _ = False"

text \<open>\<open>_negative_number_matcher\<close>: the end may be before a last newline.\<close>

definition negative_number :: "string \<Rightarrow> bool" where
  "negative_number s =
     (case s of
        [] \<Rightarrow> False
      | c # t \<Rightarrow>
          c = CHR ''-'' \<and>
          (case split1 CHR ''.'' (if t \<noteq> [] \<and> last t = newline then butlast t else t) of
             (ds, None) \<Rightarrow> ds \<noteq> [] \<and> list_all is_digit ds
           | (ds, Some fs) \<Rightarrow> list_all is_digit ds \<and> fs \<noteq> [] \<and> list_all is_digit fs))"

text \<open>
  \<open>_get_option_tuples\<close>: the options a text may abbreviate, and a short option with its value
  attached.
\<close>

definition option_tuples :: "argument list \<Rightarrow> string \<Rightarrow> token list" where
  "option_tuples args s =
     (if prefix ''--'' s
      then (case split1 CHR ''='' s of (pre, explicit) \<Rightarrow>
              map (\<lambda>(f, a). Flagged s (Some (a, f)) (map_option (\<lambda>_. ''='') explicit) explicit)
                (filter (\<lambda>(f, a). prefix pre f) (option_strings args)))
      else map (\<lambda>(f, a). if f = take 2 s then Flagged s (Some (a, f)) (Some []) (Some (drop 2 s))
                         else Flagged s (Some (a, f)) None None)
             (filter (\<lambda>(f, a). f = take 2 s \<or> prefix s f) (option_strings args)))"

definition unmatched :: "argument list \<Rightarrow> string \<Rightarrow> token" where
  "unmatched args s =
     (if negative_number s \<and> \<not> list_ex negative_number (map fst (option_strings args)) \<or> CHR '' '' \<in> set s
      then Word s else Flagged s None None None)"

definition guessed :: "argument list \<Rightarrow> string \<Rightarrow> arg_exit + token" where
  "guessed args s =
     (case option_tuples args s of [] \<Rightarrow> Inr (unmatched args s) | [t] \<Rightarrow> Inr t | _ \<Rightarrow> Inl Bad_usage)"

text \<open>\<open>_parse_optional\<close>\<close>

definition parse_optional :: "argument list \<Rightarrow> string \<Rightarrow> arg_exit + token" where
  "parse_optional args s =
     (if s = [] \<or> hd s \<noteq> CHR ''-'' then Inr (Word s)
      else case find_flag args s of
        Some a \<Rightarrow> Inr (Flagged s (Some (a, s)) None None)
      | None \<Rightarrow>
          if length s = 1 then Inr (Word s)
          else (case split1 CHR ''='' s of
                  (f, None) \<Rightarrow> guessed args s
                | (f, Some explicit) \<Rightarrow>
                    (case find_flag args f of
                       Some a \<Rightarrow> Inr (Flagged s (Some (a, f)) (Some ''='') (Some explicit))
                     | None \<Rightarrow> guessed args s)))"

fun tokens :: "argument list \<Rightarrow> string list \<Rightarrow> arg_exit + token list" where
  "tokens args [] = Inr []"
| "tokens args (w # ws) =
     (if w = ''--'' then Inr (Dashes # map Word ws)
      else ebind (parse_optional args w) (\<lambda>t. ebind (tokens args ws) (\<lambda>ts. Inr (t # ts))))"

section \<open>Matching\<close>

text \<open>
  The patterns of the positionals: the words, with the two dashes anywhere between them.  A group
  takes as many tokens as it can, fewer where the groups after it need them.
\<close>

fun group_fits :: "nargs \<Rightarrow> token list \<Rightarrow> bool" where
  "group_fits One ts = (\<not> list_ex is_option ts \<and> length (filter is_plain ts) = 1)"
| "group_fits Any_number ts = (\<not> list_ex is_option ts)"
| "group_fits At_least_one ts = (\<not> list_ex is_option ts \<and> list_ex is_plain ts)"
| "group_fits No_words ts = list_all is_dashes ts"
| "group_fits Sub_command ts = (case dropWhile is_dashes ts of [] \<Rightarrow> False | t # _ \<Rightarrow> is_plain t)"

fun first_some :: "('a \<Rightarrow> 'b option) \<Rightarrow> 'a list \<Rightarrow> 'b option" where
  "first_some f [] = None"
| "first_some f (x # xs) = (case f x of None \<Rightarrow> first_some f xs | Some y \<Rightarrow> Some y)"

lemma first_some_cong [fundef_cong]:
  "xs = ys \<Longrightarrow> (\<And>x. x \<in> set ys \<Longrightarrow> f x = g x) \<Longrightarrow> first_some f xs = first_some g ys"
  by (induction xs arbitrary: ys) (auto split: option.splits)

fun match_groups :: "nargs list \<Rightarrow> token list \<Rightarrow> nat list option" where
  "match_groups [] ts = Some []"
| "match_groups (n # ns) ts =
     first_some (\<lambda>k. map_option (Cons k) (match_groups ns (drop k ts)))
       (filter (\<lambda>k. group_fits n (take k ts)) (rev [0..<Suc (length ts)]))"

text \<open>\<open>_match_arguments_partial\<close>: as many of the positionals as match.\<close>

definition match_partial :: "nargs list \<Rightarrow> token list \<Rightarrow> nat list" where
  "match_partial ns ts =
     (case first_some (\<lambda>i. match_groups (take i ns) ts) (rev [1..<Suc (length ns)]) of
        None \<Rightarrow> [] | Some ks \<Rightarrow> ks)"

text \<open>The patterns of the options, which the two dashes end; \<open>None\<close> is a missing value.\<close>

definition option_count :: "nargs \<Rightarrow> token list \<Rightarrow> nat option" where
  "option_count n ts =
     (let k = length (takeWhile is_plain ts)
      in case n of
           One \<Rightarrow> if k = 0 then None else Some 1
         | Any_number \<Rightarrow> Some k
         | At_least_one \<Rightarrow> if k = 0 then None else Some k
         | No_words \<Rightarrow> Some 0
         | Sub_command \<Rightarrow> if k = 0 then None else Some (length (takeWhile (\<lambda>t. \<not> is_dashes t) ts)))"

section \<open>Consuming\<close>

text \<open>What was found so far, and the words that no argument takes.\<close>

type_synonym namespace = "(string \<times> string list) list"

record arg_state =
  found :: namespace
  surplus :: "string list"

definition take_action :: "argument \<times> string list \<Rightarrow> arg_state \<Rightarrow> arg_exit + arg_state" where
  "take_action aw st =
     (case aw of (a, ws) \<Rightarrow>
        case accepts a ws of
          Some e \<Rightarrow> Inl e
        | None \<Rightarrow> if act a = Show_help then Inl Help_shown
                  else Inr (st\<lparr>found := found st @ [(dest a, ws)]\<rparr>))"

text \<open>An option whose value, if it takes any, is in the words after it.\<close>

definition following :: "argument \<Rightarrow> token list \<Rightarrow> arg_exit + (argument \<times> string list) list \<times> string list \<times> nat" where
  "following a rest =
     (case option_count (nargs a) rest of
        None \<Rightarrow> Inl Bad_usage
      | Some k \<Rightarrow> Inr ([(a, map token_text (take k rest))], [], k))"

text \<open>
  An option with a value attached: the value, or, after a short switch, further short options.
  The result is the actions, the surplus text and how many of the tokens after it are taken.
\<close>

function attached :: "argument list \<Rightarrow> argument \<Rightarrow> string \<Rightarrow> string \<Rightarrow> string \<Rightarrow> token list \<Rightarrow>
    arg_exit + (argument \<times> string list) list \<times> string list \<times> nat" where
  "attached args a f sep explicit rest =
     (if nargs a = No_words
      then (case explicit of
              [] \<Rightarrow> Inl Bad_usage
            | c # others \<Rightarrow>
                if drop 1 f = [] \<or> f ! 1 = CHR ''-'' then Inl Bad_usage
                else if sep \<noteq> [] \<or> c = CHR ''-'' then Inl Bad_usage
                else (case find_flag args [CHR ''-'', c] of
                        None \<Rightarrow> Inr ([(a, [])], [CHR ''-'' # explicit], 0)
                      | Some a' \<Rightarrow>
                          ebind (case others of
                                   [] \<Rightarrow> following a' rest
                                 | d # value \<Rightarrow>
                                     if d = CHR ''='' then attached args a' [CHR ''-'', c] ''='' value rest
                                     else attached args a' [CHR ''-'', c] [] others rest)
                            (\<lambda>(acts, extra, k). Inr ((a, []) # acts, extra, k))))
      else Inr ([(a, [explicit])], [], 0))"
  by pat_completeness auto
termination
  by (relation "measure (\<lambda>(args, a, f, sep, explicit, rest). length explicit)") auto

declare attached.simps [simp del]

text \<open>\<open>consume_optional\<close>\<close>

definition consume_optional :: "argument list \<Rightarrow> token \<Rightarrow> token list \<Rightarrow> arg_state \<Rightarrow> arg_exit + arg_state \<times> nat" where
  "consume_optional args t rest st =
     (case t of
        Flagged s (Some (a, f)) sep explicit \<Rightarrow>
          ebind (case explicit of
                   None \<Rightarrow> following a rest
                 | Some v \<Rightarrow> attached args a f (case sep of None \<Rightarrow> [] | Some x \<Rightarrow> x) v rest)
            (\<lambda>(acts, extra, k). ebind (efold take_action acts (st\<lparr>surplus := surplus st @ extra\<rparr>)) (\<lambda>st'. Inr (st', k)))
      | _ \<Rightarrow> Inr (st\<lparr>surplus := surplus st @ [token_text t]\<rparr>, 0))"

text \<open>The words of a positional are without the first two dashes, but for those of a parser.\<close>

definition group_words :: "argument \<Rightarrow> token list \<Rightarrow> string list" where
  "group_words a ts = (if nargs a = Sub_command then map token_text ts else remove1 ''--'' (map token_text ts))"

fun take_groups :: "argument list \<Rightarrow> nat list \<Rightarrow> token list \<Rightarrow> arg_state \<Rightarrow> arg_exit + arg_state" where
  "take_groups (a # as) (k # ks) ts st =
     ebind (take_action (a, group_words a (take k ts)) st) (take_groups as ks (drop k ts))"
| "take_groups _ _ _ st = Inr st"

text \<open>\<open>consume_positionals\<close>: the positionals left, what was found, and how many tokens were taken.\<close>

definition consume_positionals :: "argument list \<Rightarrow> token list \<Rightarrow> arg_state \<Rightarrow>
    arg_exit + argument list \<times> arg_state \<times> nat" where
  "consume_positionals ps ts st =
     (let ks = match_partial (map nargs ps) ts
      in ebind (take_groups ps ks ts st) (\<lambda>st'. Inr (drop (length ks) ps, st', sum_list ks)))"

definition leading :: "token list \<Rightarrow> nat" where
  "leading ts = length (takeWhile (\<lambda>t. \<not> is_option t) ts)"

definition add_surplus :: "token list \<Rightarrow> arg_state \<Rightarrow> arg_state" where
  "add_surplus ts st = st\<lparr>surplus := surplus st @ map token_text ts\<rparr>"

text \<open>
  The loop of \<open>_parse_known_args\<close>: positionals before the next option, then the option with its
  words, and after the last option the positionals that are left.
\<close>

function consume :: "argument list \<Rightarrow> argument list \<Rightarrow> arg_state \<Rightarrow> token list \<Rightarrow> arg_exit + arg_state" where
  "consume args ps st ts =
     (if \<not> list_ex is_option ts
      then ebind (consume_positionals ps ts st) (\<lambda>(ps', st', k). Inr (add_surplus (drop k ts) st'))
      else if is_option (hd ts)
      then ebind (consume_optional args (hd ts) (tl ts) st) (\<lambda>(st', k). consume args ps st' (drop k (tl ts)))
      else ebind (consume_positionals ps ts st) (\<lambda>(ps', st', k).
             if 0 < k then consume args ps' st' (drop k ts)
             else consume args ps' (add_surplus (take (leading ts) ts) st') (drop (leading ts) ts)))"
  by pat_completeness auto
termination
proof (relation "measure (\<lambda>(args, ps, st, ts). length ts)", goal_cases)
  case 1
  show ?case by simp
next
  case (2 args ps st ts)
  then show ?case by (cases ts) auto
next
  case (3 args ps st ts)
  then show ?case by (cases ts) auto
next
  case (4 args ps st ts)
  then show ?case by (cases ts) (auto simp: leading_def)
qed

declare consume.simps [simp del]

text \<open>\<open>parse_args\<close>: every argument that has to be given is, and no word is left over.\<close>

definition parse_args :: "argument list \<Rightarrow> string list \<Rightarrow> arg_exit + namespace" where
  "parse_args args ws =
     ebind (tokens args ws) (\<lambda>ts.
     ebind (consume args (filter (\<lambda>a. flags a = []) args) \<lparr>found = [], surplus = []\<rparr> ts) (\<lambda>st.
       if list_all (\<lambda>a. \<not> required a \<or> dest a \<in> set (map fst (found st))) args \<and> surplus st = []
       then Inr (found st) else Inl Bad_usage))"

text \<open>
  The argument that chooses among parsers: the first of its words is the name of one, which parses
  the others.
\<close>

definition chooses :: "(string \<times> argument list) list \<Rightarrow> string list \<Rightarrow> arg_exit option" where
  "chooses parsers ws =
     (case ws of
        [] \<Rightarrow> Some Bad_usage
      | w # rest \<Rightarrow>
          (case map_of parsers w of
             None \<Rightarrow> Some Bad_usage
           | Some args \<Rightarrow> (case parse_args args rest of Inl e \<Rightarrow> Some e | Inr _ \<Rightarrow> None)))"

definition subparsers :: "string \<Rightarrow> (string \<times> argument list) list \<Rightarrow> argument" where
  "subparsers d parsers =
     \<lparr>flags = [], dest = d, nargs = Sub_command, act = Store, accepts = chooses parsers, required = False\<rparr>"

text \<open>
  Reading the result: the words of the last time an argument was given, and of every time.
\<close>

definition given :: "namespace \<Rightarrow> string \<Rightarrow> string list option" where
  "given ns d = map_of (rev ns) d"

definition given_all :: "namespace \<Rightarrow> string \<Rightarrow> string list" where
  "given_all ns d = concat (map snd (filter (\<lambda>(k, ws). k = d) ns))"

definition text_of :: "namespace \<Rightarrow> string \<Rightarrow> arg_exit + string" where
  "text_of ns d = (case given ns d of Some [w] \<Rightarrow> Inr w | _ \<Rightarrow> Inl No_text)"

definition text_or_None :: "namespace \<Rightarrow> string \<Rightarrow> string option" where
  "text_or_None ns d = (case given ns d of Some [w] \<Rightarrow> Some w | _ \<Rightarrow> None)"

definition text_or :: "string \<Rightarrow> namespace \<Rightarrow> string \<Rightarrow> string" where
  "text_or fallback ns d = (case text_or_None ns d of None \<Rightarrow> fallback | Some w \<Rightarrow> w)"

definition int_or :: "int \<Rightarrow> namespace \<Rightarrow> string \<Rightarrow> int" where
  "int_or fallback ns d =
     (case text_or_None ns d of None \<Rightarrow> fallback | Some w \<Rightarrow> (case read_int 10 w of None \<Rightarrow> fallback | Some i \<Rightarrow> i))"

definition is_given :: "namespace \<Rightarrow> string \<Rightarrow> bool" where
  "is_given ns d = (given ns d \<noteq> None)"

text \<open>The rest of a program, for the arguments it got.\<close>

definition with_args :: "arg_exit + 'a \<Rightarrow> ('a \<Rightarrow> 'b) \<Rightarrow> arg_exit + 'b" where
  "with_args args main = ebind args (\<lambda>a. Inr (main a))"

section \<open>What every parser guarantees\<close>

text \<open>Every token names an argument of the parser, and what is found was accepted.\<close>

fun token_of :: "argument list \<Rightarrow> token \<Rightarrow> bool" where
  "token_of args (Flagged s (Some (a, f)) sep explicit) = (a \<in> set args)"
| "token_of args t = True"

definition accepted :: "argument list \<Rightarrow> namespace \<Rightarrow> bool" where
  "accepted args ns = list_all (\<lambda>(d, ws). list_ex (\<lambda>a. dest a = d \<and> accepts a ws = None) args) ns"

lemma find_flag_in: "find_flag args f = Some a \<Longrightarrow> a \<in> set args"
  by (auto simp: find_flag_def find_Some_iff)

lemma option_tuples_of: "t \<in> set (option_tuples args s) \<Longrightarrow> token_of args t"
  by (auto simp: option_tuples_def option_strings_def split: prod.splits if_splits)

lemma guessed_of: "guessed args s = Inr t \<Longrightarrow> token_of args t"
  using option_tuples_of[of _ args s]
  by (auto simp: guessed_def unmatched_def split: list.splits if_splits)

lemma parse_optional_of: "parse_optional args s = Inr t \<Longrightarrow> token_of args t"
  by (auto simp: parse_optional_def find_flag_in guessed_of split: if_splits option.splits prod.splits)

lemma tokens_of: "tokens args ws = Inr ts \<Longrightarrow> list_all (token_of args) ts"
proof (induction ws arbitrary: ts)
  case Nil
  then show ?case by simp
next
  case (Cons w ws)
  show ?case
  proof (cases "w = ''--''")
    case True
    then show ?thesis using Cons.prems by (auto simp: list_all_iff)
  next
    case False
    then show ?thesis using Cons by (auto simp: raise_simps parse_optional_of)
  qed
qed

lemma take_action_accepted:
  assumes "take_action (a, ws) st = Inr st'" and "a \<in> set args" and "accepted args (found st)"
  shows "accepted args (found st')"
  using assms by (auto simp: take_action_def accepted_def list_ex_iff split: option.splits if_splits)

lemma take_actions_accepted:
  assumes "efold take_action acts st = Inr st'" and "list_all (\<lambda>(a, ws). a \<in> set args) acts"
    and "accepted args (found st)"
  shows "accepted args (found st')"
  using assms
proof (induction acts arbitrary: st)
  case Nil
  then show ?case by simp
next
  case (Cons x acts)
  then show ?case by (cases x) (auto simp: raise_simps dest: take_action_accepted)
qed

lemma following_in: "following a rest = Inr (acts, extra, k) \<Longrightarrow> a \<in> set args \<Longrightarrow> list_all (\<lambda>(a, ws). a \<in> set args) acts"
  by (auto simp: following_def split: option.splits)

lemma attached_value: "nargs a \<noteq> No_words \<Longrightarrow> attached args a f sep explicit rest = Inr ([(a, [explicit])], [], 0)"
  by (subst attached.simps) simp

lemma attached_nothing: "nargs a = No_words \<Longrightarrow> attached args a f sep [] rest = Inl Bad_usage"
  by (subst attached.simps) simp

lemma attached_unknown:
  "nargs a = No_words \<Longrightarrow> find_flag args [CHR ''-'', c] = None \<Longrightarrow>
   attached args a f sep (c # cs) rest = Inr (acts, extra, k) \<Longrightarrow> acts = [(a, [])]"
  by (subst (asm) attached.simps) (auto split: if_splits)

lemma attached_short:
  assumes "nargs a = No_words" and "find_flag args [CHR ''-'', c] = Some a'"
    and "attached args a f sep (c # cs) rest = Inr (acts, extra, k)"
  shows "drop 1 f \<noteq> [] \<and> f ! 1 \<noteq> CHR ''-'' \<and> sep = [] \<and> c \<noteq> CHR ''-'' \<and> (\<exists>acts'. acts = (a, []) # acts' \<and>
     (case cs of [] \<Rightarrow> following a' rest
      | d # v \<Rightarrow> if d = CHR ''='' then attached args a' [CHR ''-'', c] ''='' v rest
                else attached args a' [CHR ''-'', c] [] cs rest) = Inr (acts', extra, k))"
  using assms(3) by (subst (asm) attached.simps) (auto simp: assms(1,2) raise_simps split: if_splits)

lemma attached_in:
  "attached args a f sep explicit rest = Inr (acts, extra, k) \<Longrightarrow> a \<in> set args \<Longrightarrow>
   list_all (\<lambda>(a, ws). a \<in> set args) acts"
proof (induction "length explicit" arbitrary: a f sep explicit acts rule: less_induct)
  case less
  show ?case
  proof (cases "nargs a = No_words \<and> explicit \<noteq> []")
    case False
    then have "acts = [(a, [explicit])]"
      using less.prems(1) attached_value[of a args f sep explicit rest] attached_nothing[of a args f sep rest]
      by (cases "nargs a = No_words") auto
    then show ?thesis using less.prems(2) by simp
  next
    case True
    then obtain c cs where ex: "explicit = c # cs" by (cases explicit) auto
    show ?thesis
    proof (cases "find_flag args [CHR ''-'', c]")
      case None
      then have "acts = [(a, [])]" using attached_unknown[OF _ None] True less.prems(1) ex by blast
      then show ?thesis using less.prems(2) by simp
    next
      case (Some a')
      have a': "a' \<in> set args" using find_flag_in[OF Some] .
      obtain acts' where acts: "acts = (a, []) # acts'"
        and next_one: "(case cs of [] \<Rightarrow> following a' rest
          | d # v \<Rightarrow> if d = CHR ''='' then attached args a' [CHR ''-'', c] ''='' v rest
                    else attached args a' [CHR ''-'', c] [] cs rest) = Inr (acts', extra, k)"
        using attached_short[OF _ Some] True less.prems(1) ex by blast
      have "list_all (\<lambda>(a, ws). a \<in> set args) acts'"
      proof (cases cs)
        case Nil
        then show ?thesis using next_one following_in a' by simp
      next
        case (Cons d v)
        then show ?thesis
          using next_one ex less.hyps[OF _ _ a', of v _ "''=''"] less.hyps[OF _ _ a', of cs _ "[]"]
          by (auto split: if_splits)
      qed
      then show ?thesis using acts less.prems(2) by simp
    qed
  qed
qed

lemma consume_optional_accepted:
  assumes "consume_optional args t rest st = Inr (st', k)" and "token_of args t" and "accepted args (found st)"
  shows "accepted args (found st')"
proof (cases t)
  case (Flagged s hit sep explicit)
  show ?thesis
  proof (cases hit)
    case None
    then show ?thesis using assms Flagged by (auto simp: consume_optional_def)
  next
    case (Some af)
    then obtain a f where af: "hit = Some (a, f)" by (cases af) auto
    then have a: "a \<in> set args" using assms(2) Flagged by simp
    from assms(1) Flagged af obtain acts extra where
      "(case explicit of None \<Rightarrow> following a rest
        | Some v \<Rightarrow> attached args a f (case sep of None \<Rightarrow> [] | Some x \<Rightarrow> x) v rest) = Inr (acts, extra, k)"
      and fold: "efold take_action acts (st\<lparr>surplus := surplus st @ extra\<rparr>) = Inr st'"
      by (auto simp: consume_optional_def raise_simps)
    then have "list_all (\<lambda>(a, ws). a \<in> set args) acts"
      using following_in a attached_in by (auto split: option.splits)
    then show ?thesis using take_actions_accepted[OF fold] assms(3) by simp
  qed
qed (use assms in \<open>auto simp: consume_optional_def\<close>)

lemma take_groups_accepted:
  "take_groups ps ks ts st = Inr st' \<Longrightarrow> set ps \<subseteq> set args \<Longrightarrow> accepted args (found st) \<Longrightarrow>
   accepted args (found st')"
  by (induction ps ks ts st arbitrary: st' rule: take_groups.induct)
    (auto simp: raise_simps dest: take_action_accepted)

lemma consume_positionals_accepted:
  assumes "consume_positionals ps ts st = Inr (ps', st', k)" and "set ps \<subseteq> set args" and "accepted args (found st)"
  shows "set ps' \<subseteq> set args \<and> accepted args (found st')"
  using assms take_groups_accepted set_drop_subset
  by (fastforce simp: consume_positionals_def Let_def raise_simps)

lemma add_surplus_found [simp]: "found (add_surplus ts st) = found st"
  by (simp add: add_surplus_def)

lemma token_of_drop: "list_all (token_of args) ts \<Longrightarrow> list_all (token_of args) (drop k ts)"
  by (auto simp: list_all_iff dest: in_set_dropD)

lemma consume_accepted:
  "consume args ps st ts = Inr st' \<Longrightarrow> set ps \<subseteq> set args \<Longrightarrow> list_all (token_of args) ts \<Longrightarrow>
   accepted args (found st) \<Longrightarrow> accepted args (found st')"
proof (induction "length ts" arbitrary: ps st ts rule: less_induct)
  case less
  show ?case
  proof (cases "list_ex is_option ts")
    case False
    then show ?thesis using less.prems consume_positionals_accepted[of ps ts st]
      by (auto simp: consume.simps[of args ps] raise_simps)
  next
    case True
    then obtain t rest where ts: "ts = t # rest" by (cases ts) auto
    show ?thesis
    proof (cases "is_option t")
      case opt: True
      from less.prems(1) True opt ts obtain st1 k where step: "consume_optional args t rest st = Inr (st1, k)"
        and rest: "consume args ps st1 (drop k rest) = Inr st'"
        by (auto simp: consume.simps[of args ps] raise_simps)
      have "accepted args (found st1)"
        using consume_optional_accepted[OF step] less.prems(3,4) ts by simp
      moreover have "length (drop k rest) < length ts" by (simp add: ts)
      moreover have "list_all (token_of args) (drop k rest)"
        using token_of_drop[of args rest k] less.prems(3) ts by simp
      ultimately show ?thesis using less.hyps[OF _ rest less.prems(2)] by blast
    next
      case False
      then have lead: "0 < leading ts" by (simp add: leading_def ts)
      from less.prems(1) True False ts obtain ps1 st1 k where step: "consume_positionals ps ts st = Inr (ps1, st1, k)"
        and rest: "(if 0 < k then consume args ps1 st1 (drop k ts)
          else consume args ps1 (add_surplus (take (leading ts) ts) st1) (drop (leading ts) ts)) = Inr st'"
        by (auto simp: consume.simps[of args ps] raise_simps)
      note ok = consume_positionals_accepted[OF step less.prems(2,4)]
      define n where "n = (if 0 < k then k else leading ts)"
      define st2 where "st2 = (if 0 < k then st1 else add_surplus (take (leading ts) ts) st1)"
      have "consume args ps1 st2 (drop n ts) = Inr st'" using rest by (simp add: n_def st2_def split: if_splits)
      moreover have "length (drop n ts) < length ts" using lead ts by (simp add: n_def)
      moreover have "found st2 = found st1" by (simp add: st2_def)
      ultimately show ?thesis
        using less.hyps[of "drop n ts" ps1 st2] ok token_of_drop[OF less.prems(3), of n] by metis
    qed
  qed
qed

text \<open>
  A result has every argument that must be given, only arguments of the parser, and only words
  that were accepted.
\<close>

lemma parse_args_sound:
  assumes "parse_args args ws = Inr ns"
  shows "accepted args ns \<and> list_all (\<lambda>a. required a \<longrightarrow> dest a \<in> set (map fst ns)) args"
proof -
  from assms obtain ts st where ts: "tokens args ws = Inr ts"
    and st: "consume args (filter (\<lambda>a. flags a = []) args) \<lparr>found = [], surplus = []\<rparr> ts = Inr st"
    and req: "list_all (\<lambda>a. \<not> required a \<or> dest a \<in> set (map fst (found st))) args" and ns: "ns = found st"
    by (auto simp: parse_args_def raise_simps split: if_splits)
  have "set (filter (\<lambda>a. flags a = []) args) \<subseteq> set args" by (rule filter_is_subset)
  moreover have "accepted args (found \<lparr>found = [], surplus = []\<rparr>)" by (simp add: accepted_def)
  ultimately have "accepted args (found st)" using consume_accepted[OF st _ tokens_of[OF ts]] by blast
  then show ?thesis using req ns by simp
qed

lemma given_accepted:
  assumes "parse_args args ws = Inr ns" and "given ns d = Some vs"
  shows "\<exists>a\<in>set args. dest a = d \<and> accepts a vs = None"
proof -
  have "(d, vs) \<in> set ns" using assms(2) map_of_SomeD by (fastforce simp: given_def)
  then show ?thesis using parse_args_sound[OF assms(1)] by (auto simp: accepted_def list_all_iff list_ex_iff)
qed

section \<open>Command lines that programs make\<close>

text \<open>A word that no parser takes for an option.\<close>

definition plain_word :: "string \<Rightarrow> bool" where
  "plain_word w \<longleftrightarrow> take 1 w \<noteq> ''-''"

lemma plain_not_dashes: "plain_word w \<Longrightarrow> w \<noteq> ''--''"
  by (auto simp: plain_word_def)

lemma plain_append: "plain_word w \<Longrightarrow> w \<noteq> [] \<Longrightarrow> plain_word (w @ v)"
  by (cases w) (auto simp: plain_word_def)

lemma parse_plain: "plain_word w \<Longrightarrow> parse_optional args w = Inr (Word w)"
  by (cases w) (auto simp: plain_word_def parse_optional_def)

lemma tokens_word: "plain_word w \<Longrightarrow> tokens args (w # ws) = ebind (tokens args ws) (\<lambda>ts. Inr (Word w # ts))"
  by (simp add: plain_not_dashes parse_plain)

lemma tokens_words: "list_all plain_word ws \<Longrightarrow> tokens args ws = Inr (map Word ws)"
proof (induction ws)
  case Nil
  then show ?case by simp
next
  case (Cons w ws)
  then show ?case using tokens_word[of w args ws] by simp
qed

text \<open>A flag in full, followed by its value.\<close>

definition takes_value :: "argument list \<Rightarrow> string \<Rightarrow> string \<Rightarrow> string \<Rightarrow> bool" where
  "takes_value args f d w \<longleftrightarrow>
     take 1 f = ''-'' \<and> f \<noteq> ''--'' \<and>
     (\<exists>a. find_flag args f = Some a \<and> dest a = d \<and> nargs a = One \<and> act a \<noteq> Show_help \<and> accepts a [w] = None)"

definition option_token :: "argument list \<Rightarrow> string \<Rightarrow> token" where
  "option_token args f = Flagged f (map_option (\<lambda>a. (a, f)) (find_flag args f)) None None"

lemma tokens_option:
  assumes "takes_value args f d w" and "plain_word w"
  shows "tokens args (f # w # ws) = ebind (tokens args ws) (\<lambda>ts. Inr (option_token args f # Word w # ts))"
proof -
  from assms(1) obtain a where a: "find_flag args f = Some a" and f: "take 1 f = ''-''" "f \<noteq> ''--''"
    by (auto simp: takes_value_def)
  from f(1) obtain cs where cs: "f = CHR ''-'' # cs" by (cases f) auto
  have "parse_optional args f = Inr (option_token args f)"
    using a by (simp add: parse_optional_def option_token_def cs)
  then show ?thesis using f(2) tokens_word[OF assms(2), of args ws] by (simp add: ebind_assoc)
qed

lemma consume_option:
  assumes "takes_value args f d w"
  shows "consume args ps st (option_token args f # Word w # ts) =
    consume args ps (st\<lparr>found := found st @ [(d, [w])]\<rparr>) ts"
proof -
  from assms obtain a where a: "find_flag args f = Some a" "dest a = d" "nargs a = One" "act a \<noteq> Show_help"
      "accepts a [w] = None"
    by (auto simp: takes_value_def)
  have "consume_optional args (option_token args f) (Word w # ts) st = Inr (st\<lparr>found := found st @ [(d, [w])]\<rparr>, 1)"
    using a by (simp add: consume_optional_def option_token_def following_def option_count_def Let_def take_action_def)
  then show ?thesis by (subst consume.simps) (simp add: option_token_def a(1))
qed

section \<open>Matching words\<close>

lemma filter_one: "1 \<le> n \<Longrightarrow> (\<And>k. k \<le> n \<Longrightarrow> P k \<longleftrightarrow> k = 1) \<Longrightarrow> filter P (rev [0..<Suc n]) = [1]"
proof -
  assume n: "1 \<le> n" and P: "\<And>k. k \<le> n \<Longrightarrow> P k \<longleftrightarrow> k = 1"
  have "filter P [0..<Suc n] = filter (\<lambda>k. k = 1) [0..<Suc n]" using P by (intro filter_cong) auto
  also have "\<dots> = [1]"
  proof -
    have "[0..<Suc n] = 0 # 1 # [2..<Suc n]" using n by (simp add: upt_conv_Cons numeral_2_eq_2)
    then show ?thesis by (simp add: filter_empty_conv del: upt_Suc)
  qed
  finally show ?thesis by (simp del: upt_Suc flip: rev_filter)
qed

lemma match_one:
  assumes "\<And>k. k \<le> Suc (length ts) \<Longrightarrow> group_fits One (take k (Word w # ts)) \<longleftrightarrow> k = 1"
  shows "match_groups (One # ns) (Word w # ts) = map_option (Cons 1) (match_groups ns ts)"
proof -
  have "filter (\<lambda>k. group_fits One (take k (Word w # ts))) (rev [0..<Suc (Suc (length ts))]) = [1]"
    using assms by (intro filter_one) auto
  then show ?thesis by (simp del: group_fits.simps upt_Suc split: option.split)
qed

lemma words_plain [simp]: "list_ex is_option (map Word ws) = False" "filter is_plain (map Word ws) = map Word ws"
  by (induction ws) auto

lemma one_word: "group_fits One (map Word ws) \<longleftrightarrow> length ws = 1"
  by simp

lemma match_first_word: "match_groups (One # ns) (map Word (w # ws)) = map_option (Cons 1) (match_groups ns (map Word ws))"
proof -
  have "group_fits One (take k (Word w # map Word ws)) \<longleftrightarrow> k = 1" if "k \<le> Suc (length (map Word ws))" for k
    using one_word[of "take k (w # ws)"] that by (simp add: take_map flip: list.map(2))
  then show ?thesis using match_one[of "map Word ws" w ns] by simp
qed

lemma match_all_words: "match_groups [Any_number] (map Word ws) = Some [length ws]"
  by simp

lemma match_partial_all: "ns \<noteq> [] \<Longrightarrow> match_groups ns ts = Some ks \<Longrightarrow> match_partial ns ts = ks"
  by (cases ns) (simp_all add: match_partial_def)

lemma consume_words:
  assumes "ps \<noteq> []" and "match_groups (map nargs ps) (map Word ws) = Some ks" and "sum_list ks = length ws"
    and "take_groups ps ks (map Word ws) st = Inr st'"
  shows "consume args ps st (map Word ws) = Inr st'"
  using assms match_partial_all[of "map nargs ps" "map Word ws" ks]
  by (subst consume.simps) (simp add: consume_positionals_def Let_def add_surplus_def)

lemma consume_nothing: "consume args [] st [] = Inr st"
  by (subst consume.simps) (simp add: consume_positionals_def match_partial_def Let_def add_surplus_def)

section \<open>Lines of options and words\<close>

text \<open>Options in full with their values, then words for the positionals.\<close>

type_synonym given_option = "string \<times> string \<times> string"

definition options_ok :: "argument list \<Rightarrow> given_option list \<Rightarrow> bool" where
  "options_ok args os \<longleftrightarrow> list_all (\<lambda>(f, d, w). takes_value args f d w \<and> plain_word w) os"

definition option_words :: "given_option list \<Rightarrow> string list" where
  "option_words os = concat (map (\<lambda>(f, d, w). [f, w]) os)"

definition option_values :: "given_option list \<Rightarrow> namespace" where
  "option_values os = map (\<lambda>(f, d, w). (d, [w])) os"

lemma options_ok_Cons [simp]:
  "options_ok args [] = True"
  "options_ok args ((f, d, w) # os) = (takes_value args f d w \<and> plain_word w \<and> options_ok args os)"
  by (simp_all add: options_ok_def)

lemma option_values_Cons [simp]:
  "option_values [] = []" "option_values ((f, d, w) # os) = (d, [w]) # option_values os"
  by (simp_all add: option_values_def)

lemma option_words_Cons [simp]:
  "option_words [] = []" "option_words ((f, d, w) # os) = f # w # option_words os"
  by (simp_all add: option_words_def)

lemma tokens_options:
  "options_ok args os \<Longrightarrow> tokens args (option_words os @ ws) =
   ebind (tokens args ws) (\<lambda>ts. Inr (concat (map (\<lambda>(f, d, w). [option_token args f, Word w]) os) @ ts))"
proof (induction os)
  case Nil
  then show ?case by (cases "tokens args ws") simp_all
next
  case (Cons x os)
  obtain f d w where x: "x = (f, d, w)" by (cases x)
  then have "takes_value args f d w" "plain_word w" and os: "options_ok args os" using Cons.prems by simp_all
  then have "tokens args (option_words (x # os) @ ws) =
      ebind (tokens args (option_words os @ ws)) (\<lambda>ts. Inr (option_token args f # Word w # ts))"
    using tokens_option[of args f d w] by (simp add: x)
  then show ?case using Cons.IH[OF os] by (simp add: x ebind_assoc)
qed

lemma consume_options:
  "options_ok args os \<Longrightarrow>
   consume args ps st (concat (map (\<lambda>(f, d, w). [option_token args f, Word w]) os) @ ts) =
   consume args ps (st\<lparr>found := found st @ option_values os\<rparr>) ts"
proof (induction os arbitrary: st)
  case Nil
  then show ?case by simp
next
  case (Cons x os)
  obtain f d w where x: "x = (f, d, w)" by (cases x)
  then have v: "takes_value args f d w" and os: "options_ok args os" using Cons.prems by simp_all
  show ?case using Cons.IH[OF os] by (simp add: x consume_option[OF v])
qed

text \<open>A line is parsed when its words fill the positionals and every argument that must be given is.\<close>

lemma parse_line:
  assumes "options_ok args os" and "tokens args ws = Inr ts"
    and "consume args (filter (\<lambda>a. flags a = []) args) \<lparr>found = option_values os, surplus = []\<rparr> ts = Inr st"
    and "surplus st = []" and "list_all (\<lambda>a. \<not> required a \<or> dest a \<in> set (map fst (found st))) args"
  shows "parse_args args (option_words os @ ws) = Inr (found st)"
  using assms by (simp add: parse_args_def tokens_options consume_options)

text \<open>A parser that has only options: it reads back the options a program was given.\<close>

locale option_parser =
  fixes args :: "argument list"
  assumes no_positional: "filter (\<lambda>a. flags a = []) args = []"
begin

lemma reads:
  assumes "options_ok args os" and "list_all (\<lambda>a. \<not> required a \<or> dest a \<in> set (map fst (option_values os))) args"
  shows "parse_args args (option_words os) = Inr (option_values os)"
  using parse_line[OF assms(1), of "[]" "[]"] assms(2) by (simp add: no_positional consume_nothing)

end

section \<open>The words of a printed line\<close>

lemma split_ws_acc_word: "list_all (\<lambda>c. \<not> is_space c) v \<Longrightarrow> split_ws_acc w (v @ s) = split_ws_acc (w @ v) s"
  by (induction v arbitrary: w) simp_all

lemma split_printed: "list_all word_ok ws \<Longrightarrow> split_ws (join '' '' ws @ [newline]) = ws"
proof (induction ws rule: induct_list012)
  case 1
  then show ?case by (simp add: split_ws_def is_space_def)
next
  case (2 w)
  then show ?case using split_ws_acc_word[of w "[]" "[newline]"] by (simp add: split_ws_def word_ok_def is_space_def)
next
  case (3 w v ws)
  then have "split_ws (join '' '' (v # ws) @ [newline]) = v # ws" by simp
  then show ?case
    using split_ws_acc_word[of w "[]" "CHR '' '' # join '' '' (v # ws) @ [newline]"] 3(3)
    by (simp add: split_ws_def word_ok_def is_space_def)
qed

end
