(* ===== verification/PyVal.thy ===== *)
theory PyVal
  imports PyStr
begin

text \<open>
  The dynamically typed values that reach the scripts from YAML files: \<open>None\<close>, booleans,
  integers, strings, lists and dictionaries, with Python's \<open>isinstance\<close>, \<open>==\<close> (under
  which \<open>True == 1\<close>), \<open>in\<close>, \<open>str\<close> and \<open>repr\<close>.  Floats and dates, which the
  repository's YAML files do not use, are not modelled.
\<close>

datatype pyval =
    PNone
  | PBool bool
  | PInt int
  | PStr string
  | PList "pyval list"
  | PDict "(pyval \<times> pyval) list"

fun is_str :: "pyval \<Rightarrow> bool" where
  "is_str (PStr _) = True"
| "is_str _ = False"

fun is_bool :: "pyval \<Rightarrow> bool" where
  "is_bool (PBool _) = True"
| "is_bool _ = False"

text \<open>\<open>isinstance(v, int)\<close> holds of booleans: \<open>bool\<close> is a subclass of \<open>int\<close>.\<close>

fun is_int :: "pyval \<Rightarrow> bool" where
  "is_int (PInt _) = True"
| "is_int (PBool _) = True"
| "is_int _ = False"

fun is_dict :: "pyval \<Rightarrow> bool" where
  "is_dict (PDict _) = True"
| "is_dict _ = False"

fun int_value :: "pyval \<Rightarrow> int option" where
  "int_value (PInt i) = Some i"
| "int_value (PBool b) = Some (if b then 1 else 0)"
| "int_value _ = None"

lemma int_value_None: "int_value v = None \<longleftrightarrow> \<not> is_int v"
  by (cases v) auto

lemma int_value_Some: "int_value v = Some i \<Longrightarrow> is_int v"
  by (cases v) auto

text \<open>Truth value testing, \<open>bool(v)\<close>.\<close>

fun truthy :: "pyval \<Rightarrow> bool" where
  "truthy PNone = False"
| "truthy (PBool b) = b"
| "truthy (PInt i) = (i \<noteq> 0)"
| "truthy (PStr s) = (s \<noteq> [])"
| "truthy (PList vs) = (vs \<noteq> [])"
| "truthy (PDict d) = (d \<noteq> [])"

text \<open>
  \<open>v == w\<close>: numbers by value (so \<open>True == 1\<close>), sequences elementwise, dictionaries by
  the keys of one, each with an equal value in the other, and the same size.
\<close>

function (sequential) py_eq :: "pyval \<Rightarrow> pyval \<Rightarrow> bool"
  and py_eqs :: "pyval list \<Rightarrow> pyval list \<Rightarrow> bool"
  and py_sub :: "(pyval \<times> pyval) list \<Rightarrow> (pyval \<times> pyval) list \<Rightarrow> bool" where
  "py_eq PNone w = (w = PNone)"
| "py_eq (PStr s) w = (w = PStr s)"
| "py_eq (PBool b) w = (int_value w = Some (if b then 1 else 0))"
| "py_eq (PInt i) w = (int_value w = Some i)"
| "py_eq (PList vs) w = (case w of PList ws \<Rightarrow> py_eqs vs ws | _ \<Rightarrow> False)"
| "py_eq (PDict d) w = (case w of PDict e \<Rightarrow> length d = length e \<and> py_sub d e | _ \<Rightarrow> False)"
| "py_eqs [] ws = (ws = [])"
| "py_eqs (v # vs) ws = (case ws of [] \<Rightarrow> False | w # ws' \<Rightarrow> py_eq v w \<and> py_eqs vs ws')"
| "py_sub [] e = True"
| "py_sub ((k, v) # d) e =
     ((case List.find (\<lambda>p. py_eq k (fst p)) e of None \<Rightarrow> False | Some p \<Rightarrow> py_eq v (snd p))
      \<and> py_sub d e)"
  by pat_completeness auto
termination
  by (relation "measure (case_sum (size \<circ> fst) (case_sum (size_list size \<circ> fst)
       (size_list (size_prod size size) \<circ> fst)))") auto

lemma py_eq_PStr' [simp]: "py_eq w (PStr s) \<longleftrightarrow> w = PStr s"
  by (cases w) auto

lemma py_eq_int: "int_value v = Some i \<Longrightarrow> py_eq v w \<longleftrightarrow> int_value w = Some i"
  by (cases v) auto

lemma py_eq_int_value: "py_eq v w \<Longrightarrow> int_value v = int_value w"
  by (cases v; cases w) auto

text \<open>\<open>v in ws\<close> for a list \<open>ws\<close>.\<close>

definition py_in :: "pyval \<Rightarrow> pyval list \<Rightarrow> bool" where
  "py_in v ws \<longleftrightarrow> list_ex (py_eq v) ws"

text \<open>\<open>d.get(k)\<close> for a string key.\<close>

definition dict_get :: "(pyval \<times> pyval) list \<Rightarrow> string \<Rightarrow> pyval option" where
  "dict_get d k = map_of d (PStr k)"

section \<open>Printing\<close>

text \<open>\<open>repr\<close> of a string: single quotes unless the text holds a single quote and no
  double quote; the escapes of \<open>repr\<close> for control characters.\<close>

definition hex_digits2 :: "nat \<Rightarrow> string" where
  "hex_digits2 n = [digit_char (n div 16), digit_char (n mod 16)]"

definition repr_char :: "char \<Rightarrow> char \<Rightarrow> string" where
  "repr_char q c =
     (if c = q \<or> c = CHR 0x5C then [CHR 0x5C, c]
      else if c = CHR 0x0A then [CHR 0x5C, CHR ''n'']
      else if c = CHR 0x0D then [CHR 0x5C, CHR ''r'']
      else if c = CHR 0x09 then [CHR 0x5C, CHR ''t'']
      else if code c < 32 \<or> code c = 127 then [CHR 0x5C, CHR ''x''] @ hex_digits2 (code c)
      else [c])"

definition repr_str :: "string \<Rightarrow> string" where
  "repr_str s =
     (let q = (if CHR 0x27 \<in> set s \<and> CHR 0x22 \<notin> set s then CHR 0x22 else CHR 0x27)
      in [q] @ concat (map (repr_char q) s) @ [q])"

fun py_repr :: "pyval \<Rightarrow> string" where
  "py_repr PNone = ''None''"
| "py_repr (PBool b) = (if b then ''True'' else ''False'')"
| "py_repr (PInt i) = show_int i"
| "py_repr (PStr s) = repr_str s"
| "py_repr (PList vs) = ''['' @ join '', '' (map py_repr vs) @ '']''"
| "py_repr (PDict d) =
     ''{'' @ join '', '' (map (\<lambda>(k, v). py_repr k @ '': '' @ py_repr v) d) @ ''}''"

fun py_str :: "pyval \<Rightarrow> string" where
  "py_str (PStr s) = s"
| "py_str v = py_repr v"

text \<open>\<open>int(v)\<close>: numbers by value, strings parsed in base 10, anything else raises.\<close>

fun py_int :: "pyval \<Rightarrow> int option" where
  "py_int (PInt i) = Some i"
| "py_int (PBool b) = Some (if b then 1 else 0)"
| "py_int (PStr s) = read_int 10 s"
| "py_int _ = None"

end
