(* ===== verification/GenTestlist.thy ===== *)
theory GenTestlist
  imports PyVal
begin

text \<open>
  \<^verbatim>\<open>directed_tests/gen_testlist.py\<close>: the list of the directed tests is written anew, with the
  configurations and the tests written by hand first and then an entry for every file of the
  chosen test suites.  The listing of a directory, done by a shell command, is a parameter.
\<close>

section \<open>Configurations and tests written by hand\<close>

text \<open>The texts of the script, taken apart into the entries they spell.\<close>

record hand_config =
  hc_name :: string
  hc_ld_script :: string
  hc_gcc_opts :: "string list"

record hand_test =
  ht_name :: string
  ht_desc :: "string list"
  ht_rtl_test :: "string option"
  ht_srcs :: string
  ht_config :: string
  ht_gcc_opts :: "string list"

definition header_lines :: "string list" where
  "header_lines =
     [''# Copyright lowRISC contributors.'',
      ''# Licensed under the Apache License, Version 2.0, see LICENSE for details.'',
      ''# SPDX-License-Identifier: Apache-2.0'',
      '''',
      ''##########################################################'',
      '''',
      ''# This file is generated by gen_testlist.py script and largely copies'',
      ''# the formatting of the testlist.yaml used by riscv-dv, but only specifies'',
      ''# directed tests.'',
      ''#'',
      ''# - All paths are relative to THIS FILE.'',
      ''# - Each 'test' can specify a config by name to re-use common configuration'',
      ''# - If a test redefines a key already in the config, the test option takes priority.'',
      '''',
      ''##########################################################'',
      '''']"

definition hand_configs :: "hand_config list" where
  "hand_configs =
     [\<lparr>hc_name = ''riscv-tests'',
         hc_ld_script = ''link.ld'',
         hc_gcc_opts =
           [''-static -mcmodel=medany -fvisibility=hidden -nostdlib -nostartfiles'',
            ''-I../../../vendor/riscv-test-env/'',
            ''-I../../../vendor/riscv-test-env/p/'',
            ''-I../../../vendor/riscv-tests/isa/macros/scalar/'']\<rparr>,
      \<lparr>hc_name = ''riscv-arch-tests'',
         hc_ld_script = ''link.ld'',
         hc_gcc_opts =
           [''-static -mcmodel=medany -fvisibility=hidden -nostdlib -nostartfiles'',
            ''-I../../../vendor/riscv-arch-tests/riscv-test-suite/env/'',
            ''-I../../../vendor/riscv-isa-sim/arch_test_target/spike/'']\<rparr>,
      \<lparr>hc_name = ''epmp-tests'',
         hc_ld_script = ''../../../../vendor/riscv-isa-sim/tests/mseccfg/mseccfg_test.ld'',
         hc_gcc_opts =
           [''-march=rv32imc -O2 -I . -I ./. -I ../softfloat -I ../riscv -fno-builtin-printf'',
            ''-fdata-sections -fno-section-anchors -DPRINTF_SUPPORTED=1'',
            ''../../../vendor/riscv-isa-sim/tests/mseccfg/crt.S'',
            ''../../../vendor/riscv-isa-sim/tests/mseccfg/syscalls.c'',
            ''-mcmodel=medany -static -nostdlib -nostartfiles -lm -lgcc'',
            ''-Wl,-M -Wl,-Map=link.log'']\<rparr>]"

definition isa_gcc_opts :: "string list" where
  "isa_gcc_opts =
     [''-static -mcmodel=medany -fvisibility=hidden -nostdlib -nostartfiles'',
      ''-I../../../vendor/riscv-test-env/'',
      ''-I../../../vendor/riscv-test-env/p/'',
      ''-I../../../vendor/riscv-tests/isa/macros/scalar/'']"

definition plain_test :: "string \<Rightarrow> string list \<Rightarrow> string option \<Rightarrow> string \<Rightarrow> hand_test" where
  "plain_test name desc rtl_test srcs =
     \<lparr>ht_name = name, ht_desc = desc, ht_rtl_test = rtl_test, ht_srcs = srcs, ht_config = ''riscv-tests'', ht_gcc_opts = []\<rparr>"

definition pmp_test :: "string \<Rightarrow> string list \<Rightarrow> hand_test" where
  "pmp_test name flags =
     \<lparr>ht_name = ''pmp_mseccfg_test_'' @ name, ht_desc = [''mseccfg test''], ht_rtl_test = None,
      ht_srcs = ''pmp_mseccfg_test/pmp_mseccfg_test.S'', ht_config = ''riscv-tests'',
      ht_gcc_opts = isa_gcc_opts @ [join '' '' flags]\<rparr>"

definition first_tests :: "hand_test list" where
  "first_tests =
     [plain_test ''empty''
         [''Empty directed test'']
         None ''empty/empty.S'',
      plain_test ''mcounteren_test''
         [''Tests the mcounteren CSR: reset value, hardwired-zero bit 1 (time),'',
          ''and U-mode counter access gating.'']
         None ''mcounteren_test/mcounteren_test.S'',
      plain_test ''mcounteren_lock_test''
         [''Tests that mcounteren retains its value after mcounteren_writable_i is'',
          ''de-asserted mid-simulation (write-lock).'']
         (Some ''core_ibex_mcounteren_lock_test'') ''mcounteren_test/mcounteren_lock_test.S'']"

definition pmp_u0_tests :: "hand_test list" where
  "pmp_u0_tests =
     [pmp_test ''rlb1_l0_0_u0'' [''-DPMP_REGION=4'', ''-DRLB'', ''-DSET_PMP_L=0'', ''-DSET_PMP_L_PREV=0''],
      pmp_test ''rlb1_l0_1_u0'' [''-DPMP_REGION=4'', ''-DRLB'', ''-DSET_PMP_L=1'', ''-DSET_PMP_L_PREV=0''],
      pmp_test ''rlb1_l1_0_u0'' [''-DPMP_REGION=4'', ''-DRLB'', ''-DSET_PMP_L=0'', ''-DSET_PMP_L_PREV=1''],
      pmp_test ''rlb1_l1_1_u0'' [''-DPMP_REGION=4'', ''-DRLB'', ''-DSET_PMP_L=1'', ''-DSET_PMP_L_PREV=1''],
      pmp_test ''rlb0_l0_0_u0'' [''-DPMP_REGION=4'', ''-DSET_PMP_L=0'', ''-DSET_PMP_L_PREV=0''],
      pmp_test ''rlb0_l0_1_next_l1_u0'' [''-DSET_PMP_L=1'', ''-DSET_PMP_L_PREV=0'', ''-DPMP_NEXT_L1''],
      pmp_test ''rlb0_l0_1_next_l1_r1_u0'' [''-DSET_PMP_L=1'', ''-DSET_PMP_L_PREV=0'', ''-DPMP_NEXT_L1_R1''],
      pmp_test ''rlb0_l0_1_next_l1_w1_u0'' [''-DSET_PMP_L=1'', ''-DSET_PMP_L_PREV=0'', ''-DPMP_NEXT_L1_W1''],
      pmp_test ''rlb0_l0_1_next_l1_x1_u0'' [''-DSET_PMP_L=1'', ''-DSET_PMP_L_PREV=0'', ''-DPMP_NEXT_L1_X1''],
      pmp_test ''rlb0_l0_1_next_l1_r1_w1_u0'' [''-DSET_PMP_L=1'', ''-DSET_PMP_L_PREV=0'', ''-DPMP_NEXT_L1_R1_W1''],
      pmp_test ''rlb0_l0_1_next_l1_r1_x1_u0'' [''-DSET_PMP_L=1'', ''-DSET_PMP_L_PREV=0'', ''-DPMP_NEXT_L1_R1_X1''],
      pmp_test ''rlb0_l0_1_next_l1_w1_x1_u0'' [''-DSET_PMP_L=1'', ''-DSET_PMP_L_PREV=0'', ''-DPMP_NEXT_L1_W1_X1''],
      pmp_test ''rlb0_l0_1_next_l1_r1_w1_x1_u0'' [''-DSET_PMP_L=1'', ''-DSET_PMP_L_PREV=0'', ''-DPMP_NEXT_L1_R1_W1_X1'']]"

definition pmp_u1_tests :: "hand_test list" where
  "pmp_u1_tests =
     [pmp_test ''rlb1_l0_0_u1'' [''-DPMP_REGION=4'', ''-DRLB'', ''-DSET_PMP_L=0'', ''-DSET_PMP_L_PREV=0'', ''-DU_MODE''],
      pmp_test ''rlb1_l0_1_u1'' [''-DPMP_REGION=4'', ''-DRLB'', ''-DSET_PMP_L=1'', ''-DSET_PMP_L_PREV=0'', ''-DU_MODE''],
      pmp_test ''rlb1_l1_0_u1'' [''-DPMP_REGION=4'', ''-DRLB'', ''-DSET_PMP_L=0'', ''-DSET_PMP_L_PREV=1'', ''-DU_MODE''],
      pmp_test ''rlb1_l1_1_u1'' [''-DPMP_REGION=4'', ''-DRLB'', ''-DSET_PMP_L=1'', ''-DSET_PMP_L_PREV=1'', ''-DU_MODE''],
      pmp_test ''rlb0_l0_0_u1'' [''-DPMP_REGION=4'', ''-DSET_PMP_L=0'', ''-DSET_PMP_L_PREV=0'', ''-DU_MODE''],
      pmp_test ''rlb0_l0_1_next_l1_u1'' [''-DSET_PMP_L=1'', ''-DSET_PMP_L_PREV=0'', ''-DPMP_NEXT_L1'', ''-DU_MODE''],
      pmp_test ''rlb0_l0_1_next_l1_r1_u1'' [''-DSET_PMP_L=1'', ''-DSET_PMP_L_PREV=0'', ''-DPMP_NEXT_L1_R1'', ''-DU_MODE''],
      pmp_test ''rlb0_l0_1_next_l1_w1_u1'' [''-DSET_PMP_L=1'', ''-DSET_PMP_L_PREV=0'', ''-DPMP_NEXT_L1_W1'', ''-DU_MODE''],
      pmp_test ''rlb0_l0_1_next_l1_x1_u1'' [''-DSET_PMP_L=1'', ''-DSET_PMP_L_PREV=0'', ''-DPMP_NEXT_L1_X1'', ''-DU_MODE''],
      pmp_test ''rlb0_l0_1_next_l1_r1_w1_u1'' [''-DSET_PMP_L=1'', ''-DSET_PMP_L_PREV=0'', ''-DPMP_NEXT_L1_R1_W1'', ''-DU_MODE''],
      pmp_test ''rlb0_l0_1_next_l1_r1_x1_u1'' [''-DSET_PMP_L=1'', ''-DSET_PMP_L_PREV=0'', ''-DPMP_NEXT_L1_R1_X1'', ''-DU_MODE''],
      pmp_test ''rlb0_l0_1_next_l1_w1_x1_u1'' [''-DSET_PMP_L=1'', ''-DSET_PMP_L_PREV=0'', ''-DPMP_NEXT_L1_W1_X1'', ''-DU_MODE''],
      pmp_test ''rlb0_l0_1_next_l1_r1_w1_x1_u1'' [''-DSET_PMP_L=1'', ''-DSET_PMP_L_PREV=0'', ''-DPMP_NEXT_L1_R1_W1_X1'', ''-DU_MODE'']]"

definition last_tests :: "hand_test list" where
  "last_tests =
     [plain_test ''access_pmp_overlap''
         [''PMP access basic test'']
         None ''access_pmp_overlap/access_pmp_overlap.S'',
      plain_test ''u_mode_exec_test''
         [''PMP U mode exec test'']
         None ''u_mode_exec_test/u_mode_exec_test.S'']"

definition hand_tests :: "hand_test list" where
  "hand_tests = first_tests @ pmp_u0_tests @ pmp_u1_tests @ last_tests"

definition lines :: "string list \<Rightarrow> string" where
  "lines ls = concat (map (\<lambda>s. s @ [newline]) ls)"

text \<open>A value that goes on over several lines is indented below its first.\<close>

definition folded :: "string list \<Rightarrow> string" where
  "folded ls = join (newline # replicate 12 CHR '' '') ls"

definition config_text :: "hand_config \<Rightarrow> string" where
  "config_text c =
     lines [[], ''- config: '' @ hc_name c, ''  ld_script: '' @ hc_ld_script c, ''  includes: .'',
       ''  gcc_opts: '' @ folded (hc_gcc_opts c), ''  rtl_test: core_ibex_base_test'', ''  rtl_params:'',
       ''    PMPEnable: 1'', ''  timeout_s: 300'']"

definition hand_test_text :: "hand_test \<Rightarrow> string" where
  "hand_test_text t =
     lines ([[], ''- test: '' @ ht_name t, ''  desc: >''] @ map (\<lambda>d. ''    '' @ d) (ht_desc t) @
       [''  iterations: 1''] @ (case ht_rtl_test t of None \<Rightarrow> [] | Some r \<Rightarrow> [''  rtl_test: '' @ r]) @
       [''  test_srcs: '' @ ht_srcs t, ''  config: '' @ ht_config t] @
       (if ht_gcc_opts t = [] then [] else [''  gcc_opts: '' @ folded (ht_gcc_opts t)]))"

definition hand_written_text :: string where
  "hand_written_text =
     join [newline] header_lines @ concat (map config_text hand_configs) @
     lines [[], ''# Custom directed tests''] @ concat (map hand_test_text hand_tests)"

section \<open>Test suites\<close>

text \<open>\<open>s.split(sep)[0]\<close>\<close>

fun before_sep :: "string \<Rightarrow> string \<Rightarrow> string" where
  "before_sep sep [] = []"
| "before_sep sep (c # cs) = (if prefix sep (c # cs) then [] else c # before_sep sep cs)"

definition suite_entry :: "string \<Rightarrow> string \<Rightarrow> string \<Rightarrow> string \<Rightarrow> string \<Rightarrow> string" where
  "suite_entry test_suite group_name config extension name =
     lines [[], ''- test: '' @ name, ''  desc: >'', ''    riscv test - '' @ name, ''  iterations: 1'',
       ''  test_srcs: '' @ test_suite @ group_name @ ''/'' @ name @ extension, ''  config: '' @ config]"

definition extension_of :: "bool \<Rightarrow> string" where
  "extension_of is_assembly = (if is_assembly then ''.S'' else ''.c'')"

definition list_command :: "string \<Rightarrow> string \<Rightarrow> bool \<Rightarrow> string" where
  "list_command test_suite group_name is_assembly =
     ''ls '' @ test_suite @ group_name @ (if is_assembly then '' | egrep .S'' else '' | egrep .c'')"

definition listed :: "string \<Rightarrow> string list" where
  "listed out = butlast (split_on newline out)"

definition group_names_of :: "(string \<Rightarrow> string) \<Rightarrow> string \<Rightarrow> bool \<Rightarrow> string \<Rightarrow> string list" where
  "group_names_of popen test_suite is_assembly group_name =
     map (before_sep (extension_of is_assembly)) (listed (popen (list_command test_suite group_name is_assembly)))"

definition suite_text :: "(string \<Rightarrow> string) \<Rightarrow> string list \<Rightarrow> string \<Rightarrow> string \<Rightarrow> bool \<Rightarrow> string" where
  "suite_text popen groups test_suite suite_name is_assembly =
     lines [[], ''# Test-suite: '' @ suite_name] @
     concat (map (\<lambda>g. concat (map (suite_entry test_suite g suite_name (extension_of is_assembly))
                                (group_names_of popen test_suite is_assembly g))) groups)"

text \<open>The suites in the order in which they are added: name, groups, directory, and whether it is in assembly.\<close>

definition suites :: "(string \<times> string list \<times> string \<times> bool) list" where
  "suites =
     [(''riscv-tests'', [''rv32mi'', ''rv32uc'', ''rv32um'', ''rv32ui''], ''../../../../vendor/riscv-tests/isa/'', True),
      (''riscv-arch-tests'', [''rv32i_m/M/src'', ''rv32i_m/C/src'', ''rv32i_m/Zifencei/src'', ''rv32i_m/I/src'', ''rv32i_m/B/src''],
       ''../../../../vendor/riscv-arch-tests/riscv-test-suite/'', True),
      (''epmp-tests'', [''outputs''], ''../../../../vendor/riscv-isa-sim/tests/mseccfg/gengen_src/'', False)]"

definition chosen :: "string \<Rightarrow> string \<Rightarrow> bool" where
  "chosen test_suite name \<longleftrightarrow> name \<in> set (split_on CHR '','' test_suite) \<or> test_suite = ''all''"

text \<open>
  The content of the list after the run; without the file there is none to truncate, and the
  run fails with the name of the file.
\<close>

definition gen_testlist :: "(string \<Rightarrow> string) \<Rightarrow> string \<Rightarrow> string option \<Rightarrow> string + string \<times> int" where
  "gen_testlist popen test_suite file =
     (case file of
        None \<Rightarrow> Inl ''directed_testlist.yaml''
      | Some _ \<Rightarrow>
          Inr (hand_written_text @
               concat (map (\<lambda>(name, groups, dir, is_assembly). suite_text popen groups dir name is_assembly)
                 (filter (\<lambda>(name, _). chosen test_suite name) suites)), 0))"

text \<open>The listing of a directory that nothing calls.\<close>

definition list_tests :: "(string \<Rightarrow> string) \<Rightarrow> string \<Rightarrow> string list" where
  "list_tests popen dir = listed (popen (''ls '' @ dir))"

section \<open>The tests written by hand\<close>

text \<open>What the name of a test of the PMP says of its flags.\<close>

definition pmp_tests :: "hand_test list" where
  "pmp_tests = pmp_u0_tests @ pmp_u1_tests"

definition name_parts :: "string \<Rightarrow> string list" where
  "name_parts name = split_on CHR ''_'' (drop (length ''pmp_mseccfg_test_'') name)"

definition upper_char :: "char \<Rightarrow> char" where
  "upper_char c = (if is_lower c then char_of (code c - 32) else c)"

definition flags_of_name :: "string \<Rightarrow> string list" where
  "flags_of_name name =
     (let ps = name_parts name; continued = ''next'' \<in> set ps
      in (if continued then [] else [''-DPMP_REGION=4'']) @
         (if hd ps = ''rlb1'' then [''-DRLB''] else []) @
         [''-DSET_PMP_L='' @ ps ! 2, ''-DSET_PMP_L_PREV='' @ tl (ps ! 1)] @
         (if continued then [''-DPMP_NEXT_'' @ map upper_char (join ''_'' (butlast (drop 4 ps)))] else []) @
         (if last ps = ''u1'' then [''-DU_MODE''] else []))"

definition follows_name :: "hand_test \<Rightarrow> bool" where
  "follows_name t \<longleftrightarrow> ht_gcc_opts t = isa_gcc_opts @ [join '' '' (flags_of_name (ht_name t))]"

lemmas hand_test_defs =
  hand_tests_def first_tests_def pmp_u0_tests_def pmp_u1_tests_def last_tests_def plain_test_def pmp_test_def

lemma hand_names: "distinct (map ht_name hand_tests)"
  by (simp add: hand_test_defs)

lemma u0_follow: "list_all follows_name pmp_u0_tests"
  by code_simp

lemma u1_follow: "list_all follows_name pmp_u1_tests"
  by code_simp

text \<open>
  The tests written by hand have names of their own and configurations that are given, and
  the name of every test of the PMP says which flags its program is compiled with.
\<close>

theorem hand_tests_named:
  "distinct (map ht_name hand_tests) \<and> set (map ht_config hand_tests) \<subseteq> set (map hc_name hand_configs) \<and>
   map ht_gcc_opts pmp_tests =
     map (\<lambda>t. isa_gcc_opts @ [join '' '' (flags_of_name (ht_name t))]) pmp_tests"
proof (intro conjI hand_names)
  show "set (map ht_config hand_tests) \<subseteq> set (map hc_name hand_configs)"
    by (simp add: hand_test_defs hand_configs_def)
  show "map ht_gcc_opts pmp_tests =
      map (\<lambda>t. isa_gcc_opts @ [join '' '' (flags_of_name (ht_name t))]) pmp_tests"
    using u0_follow u1_follow by (simp add: pmp_tests_def follows_name_def list_all_iff)
qed

section \<open>The suites\<close>

lemma listed_lines:
  assumes "\<And>l. l \<in> set ls \<Longrightarrow> newline \<notin> set l"
  shows "listed (lines ls) = ls"
proof -
  have "split_on newline (lines ls) = ls @ [[]]"
    using assms by (induction ls) (auto simp: lines_def split_on_append)
  then show ?thesis by (simp add: listed_def)
qed

lemma before_sep_stem:
  assumes "CHR ''.'' \<notin> set s"
  shows "before_sep (extension_of a) (s @ extension_of a) = s"
  using assms by (induction s) (auto simp: extension_of_def)

text \<open>A directory listing: the names of the files of the group, one a line.\<close>

definition stem_ok :: "string \<Rightarrow> bool" where
  "stem_ok s \<longleftrightarrow> newline \<notin> set s \<and> CHR ''.'' \<notin> set s"

lemma group_names_listed:
  assumes "popen (list_command dir g a) = lines (map (\<lambda>s. s @ extension_of a) ss)" and "list_all stem_ok ss"
  shows "group_names_of popen dir a g = ss"
proof -
  have "listed (lines (map (\<lambda>s. s @ extension_of a) ss)) = map (\<lambda>s. s @ extension_of a) ss"
    using assms(2) by (intro listed_lines) (auto simp: list_all_iff stem_ok_def extension_of_def split: if_splits)
  then show ?thesis
    using assms by (auto simp: group_names_of_def list_all_iff stem_ok_def before_sep_stem o_def intro!: map_idI)
qed

text \<open>What a suite contributes: its header, and an entry for every file of every group.\<close>

definition suite_of_files :: "(string \<Rightarrow> string \<Rightarrow> string list) \<Rightarrow> string \<times> string list \<times> string \<times> bool \<Rightarrow> string" where
  "suite_of_files stems = (\<lambda>(name, groups, dir, a).
     lines [[], ''# Test-suite: '' @ name] @
     concat (map (\<lambda>g. concat (map (suite_entry dir g name (extension_of a)) (stems dir g))) groups))"

definition lists_suites :: "(string \<Rightarrow> string) \<Rightarrow> (string \<Rightarrow> string \<Rightarrow> string list) \<Rightarrow> bool" where
  "lists_suites popen stems \<longleftrightarrow>
     (\<forall>(name, groups, dir, a) \<in> set suites. \<forall>g \<in> set groups.
        list_all stem_ok (stems dir g) \<and>
        popen (list_command dir g a) = lines (map (\<lambda>s. s @ extension_of a) (stems dir g)))"

lemma suite_text_listed:
  assumes "lists_suites popen stems" and "(name, groups, dir, a) \<in> set suites"
  shows "suite_text popen groups dir name a = suite_of_files stems (name, groups, dir, a)"
proof -
  have "group_names_of popen dir a g = stems dir g" if "g \<in> set groups" for g
    using assms that by (intro group_names_listed) (auto simp: lists_suites_def)
  then show ?thesis
    by (simp add: suite_text_def suite_of_files_def cong: map_cong)
qed

text \<open>
  C38. Whatever the file held before, the list has the tests written by hand and then, for each
  suite that is named and in the order of the script, exactly one entry for every file of its groups.
\<close>

theorem suites_listed:
  assumes "lists_suites popen stems" and "names \<noteq> []"
    and "list_all (\<lambda>n. CHR '','' \<notin> set n) names" and "names \<noteq> [''all'']"
  shows "gen_testlist popen (join '','' names) (Some old) =
    Inr (hand_written_text @
         concat (map (suite_of_files stems) (filter (\<lambda>(name, _). name \<in> set names) suites)), 0)"
proof -
  have split: "split_on CHR '','' (join '','' names) = names"
    using assms(2,3) by (intro split_on_join) (auto simp: list_all_iff)
  have "join '','' names \<noteq> ''all''"
    using split assms(4) by auto
  then have "chosen (join '','' names) = (\<lambda>n. n \<in> set names)"
    by (auto simp: chosen_def split)
  then show ?thesis
    using suite_text_listed [OF assms(1)]
    by (auto simp: gen_testlist_def intro!: arg_cong [where f = concat] map_cong)
qed

text \<open>A tree in which the suite of the enhanced PMP has two files and the others none.\<close>

definition demo_stems :: "string \<Rightarrow> string \<Rightarrow> string list" where
  "demo_stems dir g = (if g = ''outputs'' then [''test_1'', ''test_2''] else [])"

definition demo_popen :: "string \<Rightarrow> string" where
  "demo_popen cmd =
     (if last cmd = CHR ''c'' then lines (map (\<lambda>s. s @ ''.c'') [''test_1'', ''test_2'']) else [])"

lemma demo_lists: "lists_suites demo_popen demo_stems"
  by (simp add: lists_suites_def suites_def demo_stems_def demo_popen_def list_command_def stem_ok_def
      extension_of_def lines_def)

theorem suites_listed_witness:
  "gen_testlist demo_popen ''epmp-tests'' (Some ''old'') =
     Inr (hand_written_text @
          suite_of_files demo_stems
            (''epmp-tests'', [''outputs''], ''../../../../vendor/riscv-isa-sim/tests/mseccfg/gengen_src/'', False), 0)"
  using suites_listed [OF demo_lists, of "[''epmp-tests'']" "''old''"] by (simp add: suites_def)

end
