(* ===== verification/PyRe.thy ===== *)
theory PyRe
  imports PyStr
begin

text \<open>
  The regular expressions of the scripts, as Python's \<^verbatim>\<open>re\<close> runs them: a backtracking
  search whose alternatives are tried in order.  \<open>run r\<close> lists every way \<open>r\<close> can match
  at a position, the preferred one first (longest first for a greedy repetition, shortest
  first for a lazy one), each with the groups it captures and the position it reaches.
  Repetitions are of single characters, which is all the scripts use.
\<close>

datatype re =
    Empty
  | Lit string
  | Rep "char \<Rightarrow> bool" nat "nat option" bool  \<comment> \<open>class, least and greatest count, greedy\<close>
  | Seq re re
  | Alt re re
  | Opt re
  | Grp string re
  | Bos
  | Eos
  | Word_edge

text \<open>A position: the character before it, if any, and the text after it.\<close>

type_synonym pos = "char option \<times> string"

type_synonym groups = "(string \<times> string) list"

definition advance :: "nat \<Rightarrow> pos \<Rightarrow> pos" where
  "advance k p =
     (if k = 0 then p
      else (if length (snd p) < k then fst p else Some (snd p ! (k - 1)), drop k (snd p)))"

definition rep_counts :: "(char \<Rightarrow> bool) \<Rightarrow> nat \<Rightarrow> nat option \<Rightarrow> bool \<Rightarrow> string \<Rightarrow> nat list" where
  "rep_counts c least greatest greedy s =
     (let n = length (takeWhile c s);
          most = (case greatest of None \<Rightarrow> n | Some k \<Rightarrow> min k n)
      in if greedy then rev [least..<Suc most] else [least..<Suc most])"

definition word_edge :: "pos \<Rightarrow> bool" where
  "word_edge p \<longleftrightarrow>
     (case fst p of None \<Rightarrow> False | Some c \<Rightarrow> is_word c) \<noteq>
     (case snd p of [] \<Rightarrow> False | c # _ \<Rightarrow> is_word c)"

fun run :: "re \<Rightarrow> pos \<Rightarrow> (groups \<times> pos) list" where
  "run Empty p = [([], p)]"
| "run (Lit w) p = (if prefix w (snd p) then [([], advance (length w) p)] else [])"
| "run (Rep c least greatest greedy) p =
     map (\<lambda>k. ([], advance k p)) (rep_counts c least greatest greedy (snd p))"
| "run (Seq r s) p =
     concat (map (\<lambda>(g, q). map (\<lambda>(h, q'). (g @ h, q')) (run s q)) (run r p))"
| "run (Alt r s) p = run r p @ run s p"
| "run (Opt r) p = run r p @ [([], p)]"
| "run (Grp name r) p =
     map (\<lambda>(g, q). (g @ [(name, take (length (snd p) - length (snd q)) (snd p))], q)) (run r p)"
| "run Bos p = (if fst p = None then [([], p)] else [])"
| "run Eos p = (if snd p = [] \<or> snd p = [newline] then [([], p)] else [])"
| "run Word_edge p = (if word_edge p then [([], p)] else [])"

text \<open>\<open>r.match(s)\<close>, \<open>r.fullmatch(s)\<close> and \<open>r.search(s)\<close>: the groups of the first match.\<close>

definition re_match :: "re \<Rightarrow> string \<Rightarrow> groups option" where
  "re_match r s = (case run r (None, s) of [] \<Rightarrow> None | (g, _) # _ \<Rightarrow> Some g)"

definition re_fullmatch :: "re \<Rightarrow> string \<Rightarrow> groups option" where
  "re_fullmatch r s =
     (case filter (\<lambda>m. snd (snd m) = []) (run r (None, s)) of [] \<Rightarrow> None | (g, _) # _ \<Rightarrow> Some g)"

fun search_from :: "re \<Rightarrow> char option \<Rightarrow> string \<Rightarrow> groups option" where
  "search_from r c [] = (case run r (c, []) of [] \<Rightarrow> None | (g, _) # _ \<Rightarrow> Some g)"
| "search_from r c (x # xs) =
     (case run r (c, x # xs) of [] \<Rightarrow> search_from r (Some x) xs | (g, _) # _ \<Rightarrow> Some g)"

definition re_search :: "re \<Rightarrow> string \<Rightarrow> groups option" where
  "re_search r s = search_from r None s"

text \<open>\<open>m.group(name)\<close>: \<open>None\<close> for a group that took no part.\<close>

definition grp :: "groups \<Rightarrow> string \<Rightarrow> string option" where
  "grp g name = map_of g name"

definition the_grp :: "groups \<Rightarrow> string \<Rightarrow> string" where
  "the_grp g name = (case grp g name of None \<Rightarrow> [] | Some s \<Rightarrow> s)"

definition seqs :: "re list \<Rightarrow> re" where
  "seqs rs = foldr Seq rs Empty"

section \<open>The usual classes\<close>

definition any_char :: "char \<Rightarrow> bool" where
  "any_char c \<longleftrightarrow> c \<noteq> newline"

definition plus :: "(char \<Rightarrow> bool) \<Rightarrow> re" where
  "plus c = Rep c 1 None True"

definition star :: "(char \<Rightarrow> bool) \<Rightarrow> re" where
  "star c = Rep c 0 None True"

definition lazy_plus :: "(char \<Rightarrow> bool) \<Rightarrow> re" where
  "lazy_plus c = Rep c 1 None False"

definition lazy_star :: "(char \<Rightarrow> bool) \<Rightarrow> re" where
  "lazy_star c = Rep c 0 None False"

definition one_of :: "(char \<Rightarrow> bool) \<Rightarrow> re" where
  "one_of c = Rep c 1 (Some 1) True"

lemmas re_classes = plus_def star_def lazy_plus_def lazy_star_def one_of_def

section \<open>Lemmas\<close>

lemma advance_0 [simp]: "advance 0 p = p"
  by (simp add: advance_def)

lemma snd_advance [simp]: "snd (advance k p) = drop k (snd p)"
  by (simp add: advance_def)

text \<open>Where a class is followed by a literal outside it, there is one way to match.\<close>

lemma takeWhile_run:
  "list_all c w \<Longrightarrow> (t = [] \<or> \<not> c (hd t)) \<Longrightarrow> takeWhile c (w @ t) = w"
  by (induction w) (cases t; auto)+

lemma run_Seq_nil: "run r p = [] \<Longrightarrow> run (Seq r s) p = []"
  by simp

lemma run_Lit_other: "t \<noteq> [] \<Longrightarrow> w \<noteq> [] \<Longrightarrow> hd w \<noteq> hd t \<Longrightarrow> run (Lit w) (q, t) = []"
  by (cases w; cases t) auto

text \<open>A match at the start is a prefix of the text: the position reached is a suffix.\<close>

lemma run_suffix: "(g, q) \<in> set (run r p) \<Longrightarrow> \<exists>k. snd q = drop k (snd p)"
proof (induction r arbitrary: p g q)
  case (Seq r s)
  then obtain g1 q1 g2 where m: "(g1, q1) \<in> set (run r p)" "(g2, q) \<in> set (run s q1)"
    by auto
  obtain k1 k2 where "snd q1 = drop k1 (snd p)" "snd q = drop k2 (snd q1)"
    using Seq.IH(1)[OF m(1)] Seq.IH(2)[OF m(2)] by blast
  then show ?case by (intro exI[of _ "k2 + k1"]) simp
next
  case (Grp name r)
  then obtain g' where g': "(g', q) \<in> set (run r p)" by auto
  show ?case by (rule Grp.IH[OF g'])
next
  case (Lit w)
  then show ?case by (auto split: if_splits)
next
  case (Rep c l u b)
  then show ?case by auto
next
  case (Opt r)
  then have "(g, q) \<in> set (run r p) \<or> q = p" by auto
  then show ?case using Opt.IH[of g q p] by (auto intro: exI[of _ 0])
next
  case (Alt r s)
  then have "(g, q) \<in> set (run r p) \<or> (g, q) \<in> set (run s p)" by simp
  then show ?case using Alt.IH(1)[of g q p] Alt.IH(2)[of g q p] by argo
qed (auto split: if_splits intro: exI[of _ 0])

text \<open>What a group captures is part of the text.\<close>

lemma run_groups_sublist:
  "(g, q) \<in> set (run r p) \<Longrightarrow> (name, w) \<in> set g \<Longrightarrow> sublist w (snd p)"
proof (induction r arbitrary: p g q)
  case (Seq r s)
  then obtain g1 q1 g2 where m: "(g1, q1) \<in> set (run r p)" "(g2, q) \<in> set (run s q1)" "g = g1 @ g2"
    by auto
  obtain k where "snd q1 = drop k (snd p)" using run_suffix[OF m(1)] by blast
  then have "sublist (snd q1) (snd p)" by (simp add: sublist_drop)
  then show ?case
    using Seq.prems(2) m(3) Seq.IH(1)[OF m(1)] Seq.IH(2)[OF m(2)] by (auto intro: sublist_order.order.trans)
next
  case (Grp n r)
  then obtain g' where g': "(g', q) \<in> set (run r p)"
      "(name, w) \<in> set g' \<or> w = take (length (snd p) - length (snd q)) (snd p)"
    by auto
  with Grp.IH[OF g'(1)] show ?case by (auto simp: sublist_take)
qed (auto split: if_splits)

lemma re_match_run: "re_match r s = Some g \<Longrightarrow> \<exists>q. (g, q) \<in> set (run r (None, s))"
  by (cases "run r (None, s)") (auto simp: re_match_def)

lemma re_match_groups:
  assumes "re_match r s = Some g" and "(name, w) \<in> set g"
  shows "sublist w s"
proof -
  obtain q where "(g, q) \<in> set (run r (None, s))" using re_match_run[OF assms(1)] by blast
  then show ?thesis using run_groups_sublist[OF _ assms(2)] by fastforce
qed

text \<open>A group whose body is a repetition holds only characters of its class.\<close>

fun group_over :: "string \<Rightarrow> (char \<Rightarrow> bool) \<Rightarrow> nat \<Rightarrow> re \<Rightarrow> bool" where
  "group_over name c least (Seq r s) \<longleftrightarrow> group_over name c least r \<and> group_over name c least s"
| "group_over name c least (Alt r s) \<longleftrightarrow> group_over name c least r \<and> group_over name c least s"
| "group_over name c least (Opt r) \<longleftrightarrow> group_over name c least r"
| "group_over name c least (Grp n r) \<longleftrightarrow>
     (if n = name then (case r of Rep d l u b \<Rightarrow> d = c \<and> l = least | _ \<Rightarrow> False)
      else group_over name c least r)"
| "group_over name c least _ \<longleftrightarrow> True"

lemma rep_counts_bound:
  "k \<in> set (rep_counts c l u b s) \<Longrightarrow> l \<le> k \<and> k \<le> length (takeWhile c s)"
  by (auto simp: rep_counts_def Let_def split: if_splits option.splits)

lemma take_takeWhile_all: "k \<le> length (takeWhile c s) \<Longrightarrow> list_all c (take k s)"
  by (metis list_all_iff set_takeWhileD set_take_subset subsetD take_all takeWhile_eq_take
      take_take min.absorb1)

lemma group_over_run:
  "group_over name c least r \<Longrightarrow> (g, q) \<in> set (run r p) \<Longrightarrow> (name, w) \<in> set g \<Longrightarrow>
    list_all c w \<and> least \<le> length w"
proof (induction r arbitrary: p g q)
  case (Seq r s)
  then obtain g1 q1 g2 where m: "(g1, q1) \<in> set (run r p)" "(g2, q) \<in> set (run s q1)" "g = g1 @ g2"
    by auto
  show ?case using Seq.IH(1)[OF _ m(1)] Seq.IH(2)[OF _ m(2)] Seq.prems m(3) by auto
next
  case (Alt r s)
  then have "(g, q) \<in> set (run r p) \<or> (g, q) \<in> set (run s p)" by simp
  then show ?case using Alt.IH(1)[of g q p] Alt.IH(2)[of g q p] Alt.prems by (simp, argo)
next
  case (Opt r)
  then have "(g, q) \<in> set (run r p)" by auto
  then show ?case using Opt.IH[of g q p] Opt.prems by simp
next
  case (Grp n r)
  then obtain g' where g': "(g', q) \<in> set (run r p)"
      "g = g' @ [(n, take (length (snd p) - length (snd q)) (snd p))]"
    by auto
  show ?case
  proof (cases "n = name")
    case True
    then obtain u b where r: "r = Rep c least u b"
      using Grp.prems(1) by (auto split: re.splits)
    then obtain k where k: "k \<in> set (rep_counts c least u b (snd p))" "q = advance k p" "g' = []"
      using g'(1) by auto
    have b: "least \<le> k" "k \<le> length (takeWhile c (snd p))" using rep_counts_bound[OF k(1)] by auto
    have "k \<le> length (snd p)" using b(2) length_takeWhile_le[of c "snd p"] by linarith
    then have "w = take k (snd p)" using Grp.prems(3) g'(2) k by simp
    then show ?thesis using b take_takeWhile_all[OF b(2)] \<open>k \<le> length (snd p)\<close> by simp
  next
    case False
    then show ?thesis using Grp.IH[OF _ g'(1)] Grp.prems g'(2) by auto
  qed
qed (auto split: if_splits)

lemma re_match_group:
  assumes "re_match r s = Some g" and "group_over name c least r" and "grp g name = Some w"
  shows "list_all c w \<and> least \<le> length w"
proof -
  obtain q where "(g, q) \<in> set (run r (None, s))" using re_match_run[OF assms(1)] by blast
  from group_over_run[OF assms(2) this map_of_SomeD[OF assms(3)[unfolded grp_def]]] show ?thesis .
qed

lemma search_from_run: "search_from r c s = Some g \<Longrightarrow> \<exists>p q. (g, q) \<in> set (run r p)"
proof (induction s arbitrary: c)
  case Nil
  then obtain q ms where "run r (c, []) = (g, q) # ms"
    by (cases "run r (c, [])") auto
  then have "(g, q) \<in> set (run r (c, []))" by simp
  then show ?case by blast
next
  case (Cons x xs)
  show ?case
  proof (cases "run r (c, x # xs)")
    case Nil
    then show ?thesis using Cons by simp
  next
    case m: (Cons gq ms)
    then have "(g, snd gq) \<in> set (run r (c, x # xs))" using Cons.prems by (cases gq) auto
    then show ?thesis by blast
  qed
qed

lemma re_search_group:
  assumes "re_search r s = Some g" and "group_over name c least r" and "grp g name = Some w"
  shows "list_all c w \<and> least \<le> length w"
proof -
  obtain p q where "(g, q) \<in> set (run r p)"
    using search_from_run assms(1) unfolding re_search_def by blast
  from group_over_run[OF assms(2) this map_of_SomeD[OF assms(3)[unfolded grp_def]]] show ?thesis .
qed

section \<open>The first match\<close>

text \<open>A greedy class followed by text outside it takes all of its characters first.\<close>

lemma rep_counts_first:
  assumes "list_all c w" "t = [] \<or> \<not> c (hd t)" "l \<le> length w"
  shows "rep_counts c l None True (w @ t) = length w # rev [l..<length w]"
  using takeWhile_run[OF assms(1,2)] assms(3) by (simp add: rep_counts_def Let_def)

lemma advance_append: "\<exists>p'. advance (length w) (p, w @ t) = (p', t)"
  by (simp add: advance_def)

lemma run_group_first:
  assumes "list_all c w" "t = [] \<or> \<not> c (hd t)" "l \<le> length w"
  shows "\<exists>p' ms. run (Grp n (Rep c l None True)) (p, w @ t) = ([(n, w)], (p', t)) # ms"
  using advance_append[of w p t] by (auto simp: rep_counts_first[OF assms])

lemma run_rep_first:
  assumes "list_all c w" "t = [] \<or> \<not> c (hd t)" "l \<le> length w"
  shows "\<exists>p' ms. run (Rep c l None True) (p, w @ t) = ([], (p', t)) # ms"
  using advance_append[of w p t] by (auto simp: rep_counts_first[OF assms])

lemma run_Lit_first: "\<exists>p' ms. run (Lit w) (p, w @ t) = ([], (p', t)) # ms"
  using advance_append[of w p t] by auto

lemma run_Seq_first:
  "\<exists>ms. run r p = (g, q) # ms \<Longrightarrow> \<exists>ms. run s q = (h, q') # ms \<Longrightarrow>
    \<exists>ms. run (Seq r s) p = (g @ h, q') # ms"
  by auto

end
