(* ===== verification/RiscvDvLib.thy ===== *)
theory RiscvDvLib
  imports PyRe PyVal "HOL-Library.Word"
begin

unbundle bit_operations_syntax

text \<open>
  \<^verbatim>\<open>vendor/google_riscv-dv/scripts/lib.py\<close>: the helpers of the trace converters (register
  names, two's complement printing, expansion of pseudo instructions), the selection of
  tests from a regression list, and the execution of commands.
\<close>

section \<open>Exit codes\<close>

definition RET_SUCCESS :: int where "RET_SUCCESS = 0"

definition RET_FAIL :: int where "RET_FAIL = 1"

definition RET_FATAL :: int where "RET_FATAL = -1"

datatype lib_error =
    Index_error
  | Value_error string
  | Key_error string
  | Type_error
  | Sys_exit int
  | Unbound_local string
  | Process_failed int

section \<open>Registers and numbers\<close>

definition gpr_switcher :: "(string, string) pydict" where
  "gpr_switcher =
    [
     (''x0'', ''zero''), (''x1'', ''ra''), (''x2'', ''sp''), (''x3'', ''gp''),
     (''x4'', ''tp''), (''x5'', ''t0''), (''x6'', ''t1''), (''x7'', ''t2''),
     (''x8'', ''s0''), (''x9'', ''s1''), (''x10'', ''a0''), (''x11'', ''a1''),
     (''x12'', ''a2''), (''x13'', ''a3''), (''x14'', ''a4''), (''x15'', ''a5''),
     (''x16'', ''a6''), (''x17'', ''a7''), (''x18'', ''s2''), (''x19'', ''s3''),
     (''x20'', ''s4''), (''x21'', ''s5''), (''x22'', ''s6''), (''x23'', ''s7''),
     (''x24'', ''s8''), (''x25'', ''s9''), (''x26'', ''s10''), (''x27'', ''s11''),
     (''x28'', ''t3''), (''x29'', ''t4''), (''x30'', ''t5''), (''x31'', ''t6''),
     (''f0'', ''ft0''), (''f1'', ''ft1''), (''f2'', ''ft2''), (''f3'', ''ft3''),
     (''f4'', ''ft4''), (''f5'', ''ft5''), (''f6'', ''ft6''), (''f7'', ''ft7''),
     (''f8'', ''fs0''), (''f9'', ''fs1''), (''f10'', ''fa0''), (''f11'', ''fa1''),
     (''f12'', ''fa2''), (''f13'', ''fa3''), (''f14'', ''fa4''), (''f15'', ''fa5''),
     (''f16'', ''fa6''), (''f17'', ''fa7''), (''f18'', ''fs2''), (''f19'', ''fs3''),
     (''f20'', ''fs4''), (''f21'', ''fs5''), (''f22'', ''fs6''), (''f23'', ''fs7''),
     (''f24'', ''fs8''), (''f25'', ''fs9''), (''f26'', ''fs10''), (''f27'', ''fs11''),
     (''f28'', ''ft8''), (''f29'', ''ft9''), (''f30'', ''ft10''), (''f31'', ''ft11'')]"

definition gpr_to_abi :: "string \<Rightarrow> string" where
  "gpr_to_abi gpr = dget_or gpr_switcher gpr ''na''"

definition sint_to_hex :: "int \<Rightarrow> string" where
  "sint_to_hex val = hex ((val + 2 ^ 32) mod 2 ^ 32)"

text \<open>
  \<open>BASE_RE\<close> of this file and \<open>ADDR_RE\<close> of the converters, which differ in whether the
  immediate may be empty.
\<close>

definition reg_char :: "char \<Rightarrow> bool" where
  "reg_char c \<longleftrightarrow> is_lower c \<or> is_digit c"

definition imm_char :: "char \<Rightarrow> bool" where
  "imm_char c \<longleftrightarrow> c = CHR ''-'' \<or> is_digit c"

definition BASE_RE :: re where
  "BASE_RE = seqs [Grp ''rd'' (lazy_plus reg_char), Lit '','', Grp ''imm'' (lazy_star imm_char),
     Lit ''('', Grp ''rs1'' (lazy_plus reg_char), Lit '')'']"

definition ADDR_RE :: re where
  "ADDR_RE = seqs [Grp ''rd'' (lazy_plus reg_char), Lit '','', Grp ''imm'' (lazy_plus imm_char),
     Lit ''('', Grp ''rs1'' (plus reg_char), Lit '')'']"

section \<open>Pseudo instructions\<close>

text \<open>\<open>o = operands.split(",")\<close> and the indices read from it.\<close>

definition op_at :: "string \<Rightarrow> nat \<Rightarrow> lib_error + string" where
  "op_at operands i =
     (let parts = split_on CHR '','' operands
      in if i < length parts then Inr (parts ! i) else Inl Index_error)"

definition zero_middle :: "string \<Rightarrow> lib_error + string" where
  "zero_middle operands =
     ebind (op_at operands 0) (\<lambda>o0. ebind (op_at operands 1) (\<lambda>o1.
       Inr (o0 @ '',zero,'' @ o1)))"

definition swap_first :: "string \<Rightarrow> lib_error + string" where
  "swap_first operands =
     ebind (op_at operands 1) (\<lambda>o1. ebind (op_at operands 0) (\<lambda>o0. ebind (op_at operands 2) (\<lambda>o2.
       Inr (o1 @ '','' @ o0 @ '','' @ o2))))"

text \<open>The branches that only append to the operands, in the order of the code.\<close>

definition rv32b_pseudo :: "(string, string \<times> string) pydict" where
  "rv32b_pseudo =
    [
     (''rev.p'', ''grevi'', '',1''), (''rev2.n'', ''grevi'', '',2''),
     (''rev.n'', ''grevi'', '',3''), (''rev4.b'', ''grevi'', '',4''),
     (''rev2.b'', ''grevi'', '',6''), (''rev.b'', ''grevi'', '',7''),
     (''rev8.h'', ''grevi'', '',8''), (''rev4.h'', ''grevi'', '',12''),
     (''rev2.h'', ''grevi'', '',14''), (''rev.h'', ''grevi'', '',15''),
     (''rev16'', ''grevi'', '',16''), (''rev8'', ''grevi'', '',24''),
     (''rev4'', ''grevi'', '',28''), (''rev2'', ''grevi'', '',30''),
     (''rev'', ''grevi'', '',31''), (''orc.p'', ''gorci'', '',1''),
     (''orc2.n'', ''gorci'', '',2''), (''orc.n'', ''gorci'', '',3''),
     (''orc4.b'', ''gorci'', '',4''), (''orc2.b'', ''gorci'', '',6''),
     (''orc.b'', ''gorci'', '',7''), (''orc8.h'', ''gorci'', '',8''),
     (''orc4.h'', ''gorci'', '',12''), (''orc2.h'', ''gorci'', '',14''),
     (''orc.h'', ''gorci'', '',15''), (''orc16'', ''gorci'', '',16''),
     (''orc8'', ''gorci'', '',24''), (''orc4'', ''gorci'', '',28''),
     (''orc2'', ''gorci'', '',30''), (''orc'', ''gorci'', '',31''),
     (''zext.b'', ''andi'', '',255''), (''zext.h'', ''pack'', '',zero''),
     (''zext.w'', ''pack'', '',zero''), (''sext.w'', ''addiw'', '',0''),
     (''zip.n'', ''shfli'', '',1''), (''unzip.n'', ''unshfli'', '',1''),
     (''zip2.b'', ''shfli'', '',2''), (''unzip2.b'', ''unshfli'', '',2''),
     (''zip.b'', ''shfli'', '',3''), (''unzip.b'', ''unshfli'', '',3''),
     (''zip4.h'', ''shfli'', '',4''), (''unzip4.h'', ''unshfli'', '',4''),
     (''zip2.h'', ''shfli'', '',6''), (''unzip2.h'', ''unshfli'', '',6''),
     (''zip.h'', ''shfli'', '',7''), (''unzip.h'', ''unshfli'', '',7''),
     (''zip8'', ''shfli'', '',8''), (''unzip8'', ''unshfli'', '',8''),
     (''zip4'', ''shfli'', '',12''), (''unzip4'', ''unshfli'', '',12''),
     (''zip2'', ''shfli'', '',14''), (''unzip2'', ''unshfli'', '',14''),
     (''zip'', ''shfli'', '',15''), (''unzip'', ''unshfli'', '',15'')]"

definition jalr_operands :: "string \<Rightarrow> string" where
  "jalr_operands operands =
     (let ops = (case re_search BASE_RE operands of
                   None \<Rightarrow> operands
                 | Some m \<Rightarrow> the_grp m ''rd'' @ '','' @ the_grp m ''rs1'' @ '','' @ the_grp m ''imm'')
      in if CHR '','' \<in> set ops then ops else ''ra,'' @ ops @ '',0'')"

definition convert_pseudo_instr :: "string \<Rightarrow> string \<Rightarrow> string \<Rightarrow> lib_error + string \<times> string" where
  "convert_pseudo_instr instr_name operands binary =
     (let named = (\<lambda>name ops. Inr (name, ops));
          with_ops = (\<lambda>name m. ebind m (\<lambda>ops. Inr (name, ops)))
      in if instr_name = ''nop'' then named ''addi'' ''zero,zero,0''
         else if instr_name = ''mv'' then named ''addi'' (operands @ '',0'')
         else if instr_name = ''not'' then named ''xori'' (operands @ '',-1'')
         else if instr_name = ''neg'' then with_ops ''sub'' (zero_middle operands)
         else if instr_name = ''negw'' then with_ops ''subw'' (zero_middle operands)
         else if instr_name = ''sext.w'' then named ''addiw'' (operands @ '',0'')
         else if instr_name = ''seqz'' then named ''sltiu'' (operands @ '',1'')
         else if instr_name = ''snez'' then with_ops ''sltu'' (zero_middle operands)
         else if instr_name = ''sltz'' then named ''slt'' (operands @ '',zero'')
         else if instr_name = ''sgtz'' then with_ops ''slt'' (zero_middle operands)
         else if instr_name \<in> {''beqz'', ''bnez'', ''bgez'', ''bltz''}
              then with_ops (take 3 instr_name) (zero_middle operands)
         else if instr_name = ''blez'' then named ''bge'' (''zero,'' @ operands)
         else if instr_name = ''bgtz'' then named ''blt'' (''zero,'' @ operands)
         else if instr_name = ''bgt'' then with_ops ''blt'' (swap_first operands)
         else if instr_name = ''ble'' then with_ops ''bge'' (swap_first operands)
         else if instr_name = ''bgtu'' then with_ops ''bltu'' (swap_first operands)
         else if instr_name = ''bleu'' then with_ops ''bgeu'' (swap_first operands)
         else if instr_name = ''csrr'' then named ''csrrw'' (operands @ '',zero'')
         else if instr_name \<in> {''csrw'', ''csrs'', ''csrc''}
              then named (''csrr'' @ drop 3 instr_name) (''zero,'' @ operands)
         else if instr_name \<in> {''csrwi'', ''csrsi'', ''csrci''}
              then named (''csrr'' @ drop 3 instr_name) (''zero,'' @ operands)
         else if instr_name = ''jr'' then named ''jalr'' (''zero,'' @ operands @ '',0'')
         else if instr_name = ''j'' then named ''jal'' (''zero,'' @ operands)
         else if instr_name = ''jal''
              then named ''jal'' (if CHR '','' \<in> set operands then operands else ''ra,'' @ operands)
         else if instr_name = ''jalr'' then named ''jalr'' (jalr_operands operands)
         else if instr_name = ''ret''
              then (if binary = [] then Inl Index_error
                    else if last binary = CHR ''2'' then named ''c.jr'' ''ra''
                    else named ''jalr'' ''zero,ra,0'')
         else case dget rv32b_pseudo instr_name of
                Some (name, appended) \<Rightarrow> named name (operands @ appended)
              | None \<Rightarrow> named instr_name operands)"

section \<open>Regression lists\<close>

type_synonym entry = "(pyval \<times> pyval) list"

definition key :: "entry \<Rightarrow> string \<Rightarrow> lib_error + pyval" where
  "key e k = of_option (Key_error k) (dict_get e k)"

definition int_of :: "pyval \<Rightarrow> lib_error + int" where
  "int_of v = of_option Type_error (int_value v)"

text \<open>\<open>read_yaml\<close>: a file that does not decode ends the program.\<close>

definition read_yaml :: "(string \<Rightarrow> pyval option) \<Rightarrow> string \<Rightarrow> lib_error + pyval" where
  "read_yaml yaml_file f = of_option (Sys_exit RET_FAIL) (yaml_file f)"

text \<open>The body of the loop for an entry that is a test: the matched list grows by at most it.\<close>

definition match_entry :: "string \<Rightarrow> int \<Rightarrow> entry \<Rightarrow> lib_error + entry list" where
  "match_entry test iterations e =
     ebind (key e ''test'') (\<lambda>name.
       if name \<in> set (map PStr (split_on CHR '','' test)) \<or> test = ''all''
       then ebind (if iterations > 0
                   then ebind (key e ''iterations'') (\<lambda>v. ebind (int_of v) (\<lambda>n.
                     Inr (if n > 0 then dset (PStr ''iterations'') (PInt iterations) e else e)))
                   else Inr e) (\<lambda>e'.
            ebind (key e' ''iterations'') (\<lambda>v. ebind (int_of v) (\<lambda>n.
              Inr (if n > 0 then [e'] else []))))
       else Inr [])"

text \<open>
  \<open>process_regression_list\<close> follows the imports of a list depth first.  Lists that import
  each other make it recurse for ever, so the depth of imports is bounded by fuel and \<open>None\<close>
  is a recursion that was not finished.  The entries of a list are dictionaries.  The root
  directory is a text, or \<open>None\<close> for a value that \<open>re.sub\<close> does not take.
\<close>

definition obind :: "('e + 'a) option \<Rightarrow> ('a \<Rightarrow> ('e + 'b) option) \<Rightarrow> ('e + 'b) option" where
  "obind m f = (case m of None \<Rightarrow> None | Some (Inl e) \<Rightarrow> Some (Inl e) | Some (Inr a) \<Rightarrow> f a)"

fun collect :: "('a \<Rightarrow> ('e + 'b list) option) \<Rightarrow> 'a list \<Rightarrow> ('e + 'b list) option" where
  "collect f [] = Some (Inr [])"
| "collect f (x # xs) = obind (f x) (\<lambda>ys. obind (collect f xs) (\<lambda>zs. Some (Inr (ys @ zs))))"

definition import_path :: "string option \<Rightarrow> pyval \<Rightarrow> lib_error + string" where
  "import_path root v =
     (case (root, v) of
        (Some r, PStr s) \<Rightarrow> Inr (replace ''<riscv_dv_root>'' r s)
      | _ \<Rightarrow> Inl Type_error)"

fun process_regression_list :: "(string \<Rightarrow> lib_error + entry list) \<Rightarrow> nat \<Rightarrow> string \<Rightarrow> string \<Rightarrow> int \<Rightarrow>
    string option \<Rightarrow> (lib_error + entry list) option" where
  "process_regression_list yaml 0 testlist test iterations root = None"
| "process_regression_list yaml (Suc n) testlist test iterations root =
     obind (Some (yaml testlist)) (collect (\<lambda>e.
       case dict_get e ''import'' of
         Some v \<Rightarrow> obind (Some (import_path root v)) (\<lambda>sub.
                    process_regression_list yaml n sub test iterations root)
       | None \<Rightarrow> Some (match_entry test iterations e)))"

section \<open>Running commands\<close>

text \<open>
  What a child process does: it ends with an output and a return code, or it is still
  running after the timeout, is killed, and has no return code yet.
\<close>

datatype child = Ended string int | Timed_out

definition get_env_var :: "(string \<rightharpoonup> string) \<Rightarrow> string \<Rightarrow> bool \<Rightarrow> lib_error + string" where
  "get_env_var environ var debug_cmd =
     (case environ var of
        Some v \<Rightarrow> Inr v
      | None \<Rightarrow> if debug_cmd then Inr var else Inl (Sys_exit RET_FAIL))"

text \<open>With \<open>debug_cmd\<close> the command is only written to a file: the second result is that text.\<close>

definition run_cmd :: "(string \<Rightarrow> child) \<Rightarrow> string \<Rightarrow> bool \<Rightarrow> bool \<Rightarrow> bool \<Rightarrow>
    lib_error + string option \<times> string" where
  "run_cmd popen cmd exit_on_error check_return_code debug_cmd =
     (if debug_cmd then Inr (None, cmd @ [newline, newline])
      else case popen (''exec '' @ cmd) of
             Timed_out \<Rightarrow> Inr (Some [], [])
           | Ended output rc \<Rightarrow>
               if check_return_code \<and> rc > 0 \<and> exit_on_error then Inl (Sys_exit RET_FAIL)
               else Inr (Some output, []))"

text \<open>
  The loop of \<open>run_parallel_cmd\<close> over the children, which are all started before it; the state
  is the local variable \<open>output\<close>, unset until a child has ended.
\<close>

definition wait_child :: "bool \<Rightarrow> bool \<Rightarrow> child \<Rightarrow> string option \<Rightarrow> lib_error + string option" where
  "wait_child exit_on_error check_return_code c out =
     (let (out', rc) = (case c of Timed_out \<Rightarrow> (out, 0) | Ended s r \<Rightarrow> (Some s, r))
      in if check_return_code \<and> rc > 0 \<and> exit_on_error then Inl (Sys_exit RET_FAIL)
         else case out' of None \<Rightarrow> Inl (Unbound_local ''output'') | Some _ \<Rightarrow> Inr out')"

definition run_parallel_cmd :: "(string \<Rightarrow> child) \<Rightarrow> string list \<Rightarrow> bool \<Rightarrow> bool \<Rightarrow> bool \<Rightarrow>
    lib_error + string" where
  "run_parallel_cmd popen cmd_list exit_on_error check_return_code debug_cmd =
     (if debug_cmd then Inr (concat (map (\<lambda>cmd. cmd @ [newline, newline]) cmd_list))
      else ebind (efold (wait_child exit_on_error check_return_code)
             (map (\<lambda>cmd. popen (''exec '' @ cmd)) cmd_list) None) (\<lambda>_. Inr []))"

text \<open>\<open>run_cmd_output\<close>: what a command writes is only logged; the result is the text for a debug file.\<close>

definition run_cmd_output :: "(string list \<Rightarrow> string \<times> int) \<Rightarrow> string list \<Rightarrow> bool \<Rightarrow> lib_error + string" where
  "run_cmd_output check_output cmd debug_cmd =
     (if debug_cmd then Inr (join '' '' cmd @ [newline, newline])
      else let (output, rc) = check_output cmd
           in if rc = 0 then Inr [] else Inl (Process_failed rc))"

text \<open>\<open>create_output\<close>: the directory, and the commands that prepare it.\<close>

definition create_output :: "string \<Rightarrow> string option \<Rightarrow> bool \<Rightarrow> string \<Rightarrow> string \<times> string list" where
  "create_output today output noclean pre =
     (let dir = (case output of None \<Rightarrow> pre @ today | Some d \<Rightarrow> d)
      in (dir, (if noclean then [] else [''rm -rf '' @ dir]) @ [''mkdir -p '' @ dir]))"

section \<open>Two's complement printing\<close>

lemma read_int_hex:
  assumes "0 \<le> i"
  shows "read_int 16 (hex i) = Some i"
proof -
  have ds: "\<exists>d < 36. c = digit_char d" if "c \<in> set (show_base 16 n)" for c n
    using that show_base_digits[of 16 c n] by simp
  have ns: "\<not> is_space c" if "c \<in> set (hex i)" for c
    using that assms ds[of c "nat i"] digit_char_props(1)
    by (auto simp: hex_def is_space_def[of "CHR ''0''"] is_space_def[of "CHR ''x''"])
  have h: "hex i = CHR ''0'' # CHR ''x'' # show_base 16 (nat i)" using assms by (simp add: hex_def)
  have "code (show_base 16 (nat i) ! 0) \<noteq> 95"
    using ds[of "show_base 16 (nat i) ! 0" "nat i"] digit_char_props(4) by (metis nth_mem length_greater_0_conv
      show_base_nonempty)
  then have "drop_base_prefix 16 (hex i) = show_base 16 (nat i)"
    by (auto simp: h drop_base_prefix_def)
  then show ?thesis
    using strip_id[of "hex i"] ns assms
    by (simp add: read_int_def read_nat_def read_digits_show_base h)
qed

lemma sint_to_hex_value: "read_int 16 (sint_to_hex v) = Some (v mod 2 ^ 32)"
  by (simp add: sint_to_hex_def read_int_hex)

text \<open>
  C39. \<open>sint_to_hex\<close> prints the 32-bit two's complement of any integer: the text reads back
  as the unsigned value of the word, and two integers print alike exactly if they are the
  same word.
\<close>

theorem sint_to_hex_word:
  "read_int 16 (sint_to_hex v) = Some (uint (word_of_int v :: 32 word)) \<and>
   (sint_to_hex v = sint_to_hex w \<longleftrightarrow> (word_of_int v :: 32 word) = word_of_int w)"
proof -
  have u: "uint (word_of_int x :: 32 word) = x mod 2 ^ 32" for x
    by (simp add: uint_word_of_int)
  have "(word_of_int v :: 32 word) = word_of_int w \<longleftrightarrow> v mod 2 ^ 32 = w mod 2 ^ 32"
    using u by (metis word_of_int_uint)
  moreover have "sint_to_hex v = sint_to_hex w \<longleftrightarrow> v mod 2 ^ 32 = w mod 2 ^ 32"
    using sint_to_hex_value by (metis option.inject sint_to_hex_def mod_add_self2)
  ultimately show ?thesis using u sint_to_hex_value by simp
qed

section \<open>Meaning of the pseudo instructions\<close>

text \<open>
  The effect of an instruction on registers and CSRs held in two environments: a register is set;
  a branch to a target is taken or not; a jump to a label or to an address, with the register of
  the return address; or a CSR is read into a register, and written unless there is no value.
  \<open>pseudo_sem\<close> follows the assembler manual's reading of the pseudo instructions of the 32-bit
  base instruction set and of the CSRs, and of \<^verbatim>\<open>zext.b\<close> and \<^verbatim>\<open>zext.h\<close>; \<open>base_sem\<close> the instructions
  they stand for.  Not covered are the 64-bit pseudo instructions (\<^verbatim>\<open>negw\<close>, \<^verbatim>\<open>sext.w\<close>, \<^verbatim>\<open>zext.w\<close>) and
  those that permute bits (\<^verbatim>\<open>rev\<close>, \<^verbatim>\<open>orc\<close>, \<^verbatim>\<open>zip\<close>, \<^verbatim>\<open>unzip\<close>), which are names for an immediate.
\<close>

datatype effect =
    Set_reg string "32 word"
  | Branch_if bool string
  | Jump_label string string
  | Jump_address string "32 word"
  | Csr_access string string "32 word option"

type_synonym word_env = "string \<Rightarrow> 32 word"

definition imm_word :: "string \<Rightarrow> 32 word option" where
  "imm_word s = map_option word_of_int (read_int 10 s)"

definition bit01 :: "bool \<Rightarrow> 32 word" where
  "bit01 b = (if b then 1 else 0)"

text \<open>A jump to an address leaves its lowest bit out; setting no bits of a CSR is not a write.\<close>

definition jump :: "string \<Rightarrow> 32 word \<Rightarrow> effect" where
  "jump link w = Jump_address link (w AND NOT 1)"

definition csr_bits :: "string \<Rightarrow> string \<Rightarrow> bool \<Rightarrow> 32 word \<Rightarrow> effect" where
  "csr_bits rd csr_name none w = Csr_access rd csr_name (if none then None else Some w)"

definition pseudo_sem :: "word_env \<Rightarrow> word_env \<Rightarrow> string \<Rightarrow> string list \<Rightarrow> effect option" where
  "pseudo_sem env csr name ops =
     (case ops of
        [] \<Rightarrow> map_of
          [(''nop'', Set_reg ''zero'' (env ''zero'')), (''ret'', jump ''zero'' (env ''ra''))] name
      | [a] \<Rightarrow> map_of
          [(''j'', Jump_label ''zero'' a), (''jal'', Jump_label ''ra'' a),
           (''jr'', jump ''zero'' (env a)), (''jalr'', jump ''ra'' (env a))] name
      | [a, b] \<Rightarrow>
          if name = ''csrwi'' then map_option (\<lambda>k. Csr_access ''zero'' a (Some k)) (imm_word b)
          else if name = ''csrsi'' then map_option (\<lambda>k. csr_bits ''zero'' a (k = 0) (csr a OR k)) (imm_word b)
          else if name = ''csrci'' then map_option (\<lambda>k. csr_bits ''zero'' a (k = 0) (csr a AND NOT k)) (imm_word b)
          else map_of
          [(''mv'', Set_reg a (env b)), (''not'', Set_reg a (NOT (env b))),
           (''neg'', Set_reg a (- env b)), (''seqz'', Set_reg a (bit01 (env b = 0))),
           (''snez'', Set_reg a (bit01 (env b \<noteq> 0))),
           (''sltz'', Set_reg a (bit01 (sint (env b) < 0))),
           (''sgtz'', Set_reg a (bit01 (0 < sint (env b)))),
           (''zext.b'', Set_reg a (env b AND 255)), (''zext.h'', Set_reg a (env b AND 65535)),
           (''beqz'', Branch_if (env a = 0) b), (''bnez'', Branch_if (env a \<noteq> 0) b),
           (''bgez'', Branch_if (0 \<le> sint (env a)) b), (''bltz'', Branch_if (sint (env a) < 0) b),
           (''blez'', Branch_if (sint (env a) \<le> 0) b), (''bgtz'', Branch_if (0 < sint (env a)) b),
           (''csrr'', Csr_access a b None), (''csrw'', Csr_access ''zero'' a (Some (env b))),
           (''csrs'', csr_bits ''zero'' a (b = ''zero'') (csr a OR env b)),
           (''csrc'', csr_bits ''zero'' a (b = ''zero'') (csr a AND NOT (env b)))] name
      | [a, b, c] \<Rightarrow> map_of
          [(''bgt'', Branch_if (sint (env a) > sint (env b)) c),
           (''ble'', Branch_if (sint (env a) \<le> sint (env b)) c),
           (''bgtu'', Branch_if (uint (env a) > uint (env b)) c),
           (''bleu'', Branch_if (uint (env a) \<le> uint (env b)) c)] name
      | _ \<Rightarrow> None)"

definition base_sem :: "word_env \<Rightarrow> word_env \<Rightarrow> string \<Rightarrow> string list \<Rightarrow> effect option" where
  "base_sem env csr name ops =
     (case ops of
        [a] \<Rightarrow> map_of [(''c.jr'', jump ''zero'' (env a))] name
      | [a, b] \<Rightarrow> map_of [(''jal'', Jump_label a b)] name
      | [a, b, c] \<Rightarrow>
          if name = ''addi'' then map_option (\<lambda>k. Set_reg a (env b + k)) (imm_word c)
          else if name = ''xori'' then map_option (\<lambda>k. Set_reg a (env b XOR k)) (imm_word c)
          else if name = ''andi'' then map_option (\<lambda>k. Set_reg a (env b AND k)) (imm_word c)
          else if name = ''sltiu'' then map_option (\<lambda>k. Set_reg a (bit01 (uint (env b) < uint k))) (imm_word c)
          else if name = ''jalr'' then map_option (\<lambda>k. jump a (env b + k)) (imm_word c)
          else if name = ''csrrwi'' then map_option (\<lambda>k. Csr_access a b (Some k)) (imm_word c)
          else if name = ''csrrsi'' then map_option (\<lambda>k. csr_bits a b (k = 0) (csr b OR k)) (imm_word c)
          else if name = ''csrrci'' then map_option (\<lambda>k. csr_bits a b (k = 0) (csr b AND NOT k)) (imm_word c)
          else map_of
            [(''sub'', Set_reg a (env b - env c)),
             (''sltu'', Set_reg a (bit01 (uint (env b) < uint (env c)))),
             (''slt'', Set_reg a (bit01 (sint (env b) < sint (env c)))),
             (''pack'', Set_reg a ((env b AND 65535) OR push_bit 16 (env c AND 65535))),
             (''beq'', Branch_if (env a = env b) c), (''bne'', Branch_if (env a \<noteq> env b) c),
             (''blt'', Branch_if (sint (env a) < sint (env b)) c),
             (''bge'', Branch_if (sint (env a) \<ge> sint (env b)) c),
             (''bltu'', Branch_if (uint (env a) < uint (env b)) c),
             (''bgeu'', Branch_if (uint (env a) \<ge> uint (env b)) c),
             (''csrrw'', Csr_access a b (Some (env c))),
             (''csrrs'', csr_bits a b (c = ''zero'') (csr b OR env c)),
             (''csrrc'', csr_bits a b (c = ''zero'') (csr b AND NOT (env c)))] name
      | _ \<Rightarrow> None)"

text \<open>The conversion on lists of operands; \<open>short\<close> says that the return is compressed.\<close>

definition expand_list :: "bool \<Rightarrow> string \<Rightarrow> string list \<Rightarrow> string \<times> string list" where
  "expand_list short name ops =
     (case ops of
        [] \<Rightarrow> the (map_of
          [(''nop'', ''addi'', [''zero'', ''zero'', ''0'']),
           (''ret'', if short then (''c.jr'', [''ra'']) else (''jalr'', [''zero'', ''ra'', ''0'']))] name)
      | [a] \<Rightarrow> the (map_of
          [(''j'', ''jal'', [''zero'', a]), (''jal'', ''jal'', [''ra'', a]),
           (''jr'', ''jalr'', [''zero'', a, ''0'']), (''jalr'', ''jalr'', [''ra'', a, ''0''])] name)
      | [a, b] \<Rightarrow> the (map_of
          [(''mv'', ''addi'', [a, b, ''0'']), (''not'', ''xori'', [a, b, ''-1'']),
           (''neg'', ''sub'', [a, ''zero'', b]), (''seqz'', ''sltiu'', [a, b, ''1'']),
           (''snez'', ''sltu'', [a, ''zero'', b]), (''sltz'', ''slt'', [a, b, ''zero'']),
           (''sgtz'', ''slt'', [a, ''zero'', b]), (''zext.b'', ''andi'', [a, b, ''255'']),
           (''zext.h'', ''pack'', [a, b, ''zero'']),
           (''beqz'', ''beq'', [a, ''zero'', b]), (''bnez'', ''bne'', [a, ''zero'', b]),
           (''bgez'', ''bge'', [a, ''zero'', b]), (''bltz'', ''blt'', [a, ''zero'', b]),
           (''blez'', ''bge'', [''zero'', a, b]), (''bgtz'', ''blt'', [''zero'', a, b]),
           (''csrr'', ''csrrw'', [a, b, ''zero'']),
           (''csrw'', ''csrrw'', [''zero'', a, b]), (''csrs'', ''csrrs'', [''zero'', a, b]),
           (''csrc'', ''csrrc'', [''zero'', a, b]), (''csrwi'', ''csrrwi'', [''zero'', a, b]),
           (''csrsi'', ''csrrsi'', [''zero'', a, b]), (''csrci'', ''csrrci'', [''zero'', a, b])] name)
      | [a, b, c] \<Rightarrow> the (map_of
          [(''bgt'', ''blt'', [b, a, c]), (''ble'', ''bge'', [b, a, c]),
           (''bgtu'', ''bltu'', [b, a, c]), (''bleu'', ''bgeu'', [b, a, c])] name)
      | _ \<Rightarrow> (name, ops))"

lemma op_at_two:
  assumes "CHR '','' \<notin> set a" "CHR '','' \<notin> set b"
  shows "op_at (a @ CHR '','' # b) 0 = Inr a" "op_at (a @ CHR '','' # b) 1 = Inr b"
  using assms by (simp_all add: op_at_def split_on_append split_on_absent)

lemma op_at_three:
  assumes "CHR '','' \<notin> set a" "CHR '','' \<notin> set b" "CHR '','' \<notin> set c"
  shows "op_at (a @ CHR '','' # b @ CHR '','' # c) 0 = Inr a"
    "op_at (a @ CHR '','' # b @ CHR '','' # c) 1 = Inr b"
    "op_at (a @ CHR '','' # b @ CHR '','' # c) 2 = Inr c"
  using assms by (simp_all add: op_at_def split_on_append split_on_absent)

lemma imm_words: "imm_word ''0'' = Some 0" "imm_word ''1'' = Some 1" "imm_word ''-1'' = Some (-1)"
  "imm_word ''255'' = Some 255"
proof -
  have "read_int 10 ''0'' = Some 0" "read_int 10 ''1'' = Some 1" "read_int 10 ''-1'' = Some (-1)"
    "read_int 10 ''255'' = Some 255" by code_simp+
  then show "imm_word ''0'' = Some 0" "imm_word ''1'' = Some 1" "imm_word ''-1'' = Some (-1)"
    "imm_word ''255'' = Some 255" by (simp_all add: imm_word_def)
qed

text \<open>An expression that has a literal does not match where its characters are not in the text.\<close>

fun needs :: "char \<Rightarrow> re \<Rightarrow> bool" where
  "needs c (Lit w) \<longleftrightarrow> c \<in> set w"
| "needs c (Seq r s) \<longleftrightarrow> needs c r \<or> needs c s"
| "needs c (Grp n r) \<longleftrightarrow> needs c r"
| "needs c _ \<longleftrightarrow> False"

lemma run_needs: "(g, q) \<in> set (run r p) \<Longrightarrow> needs c r \<Longrightarrow> c \<in> set (snd p)"
proof (induction r arbitrary: g p q)
  case (Lit w)
  then show ?case by (auto split: if_splits dest: set_mono_prefix)
next
  case (Seq r s)
  then obtain g1 q1 g2 where m: "(g1, q1) \<in> set (run r p)" "(g2, q) \<in> set (run s q1)" by auto
  obtain k where "snd q1 = drop k (snd p)" using run_suffix[OF m(1)] by blast
  then show ?case using Seq.IH(1)[OF m(1)] Seq.IH(2)[OF m(2)] Seq.prems(2) by (auto dest: in_set_dropD)
next
  case (Grp n r)
  then obtain g' where "(g', q) \<in> set (run r p)" by auto
  then show ?case using Grp by simp
qed auto

lemma search_needs: "needs c r \<Longrightarrow> c \<notin> set s \<Longrightarrow> search_from r b s = None"
proof (induction s arbitrary: b)
  case Nil
  then have "run r (b, []) = []" using run_needs[of _ _ r "(b, [])" c] by (cases "run r (b, [])") auto
  then show ?case by simp
next
  case (Cons x s)
  then have "run r (b, x # s) = []" using run_needs[of _ _ r "(b, x # s)" c] by (cases "run r (b, x # s)") auto
  then show ?case using Cons by simp
qed

lemma jalr_one: "CHR '','' \<notin> set a \<Longrightarrow> jalr_operands a = ''ra,'' @ a @ '',0''"
  using search_needs[of "CHR '',''" BASE_RE a None]
  by (simp add: jalr_operands_def re_search_def BASE_RE_def seqs_def)

definition pseudo_none :: "string list" where
  "pseudo_none = [''nop'', ''ret'']"

definition pseudo_one :: "string list" where
  "pseudo_one = [''j'', ''jal'', ''jr'', ''jalr'']"

definition pseudo_two :: "string list" where
  "pseudo_two = [''mv'', ''not'', ''neg'', ''seqz'', ''snez'', ''sltz'', ''sgtz'', ''zext.b'', ''zext.h'',
     ''beqz'', ''bnez'', ''bgez'', ''bltz'', ''blez'', ''bgtz'', ''csrr'', ''csrw'', ''csrs'', ''csrc'',
     ''csrwi'', ''csrsi'', ''csrci'']"

definition pseudo_three :: "string list" where
  "pseudo_three = [''bgt'', ''ble'', ''bgtu'', ''bleu'']"

definition short_return :: "string \<Rightarrow> bool" where
  "short_return binary \<longleftrightarrow> last binary = CHR ''2''"

lemma convert_none:
  assumes "name \<in> set pseudo_none" and "binary \<noteq> []"
  shows "convert_pseudo_instr name (join '','' []) binary =
    Inr (fst (expand_list (short_return binary) name []), join '','' (snd (expand_list (short_return binary) name [])))"
  using assms unfolding pseudo_none_def list.set insert_iff empty_iff
  by (elim disjE; simp add: convert_pseudo_instr_def expand_list_def short_return_def)

lemma convert_one:
  assumes "name \<in> set pseudo_one" "CHR '','' \<notin> set a"
  shows "convert_pseudo_instr name (join '','' [a]) binary =
    Inr (fst (expand_list short name [a]), join '','' (snd (expand_list short name [a])))"
  using assms(1) unfolding pseudo_one_def list.set insert_iff empty_iff
  by (elim disjE; simp add: convert_pseudo_instr_def expand_list_def assms(2) jalr_one)

lemma convert_two:
  assumes "name \<in> set pseudo_two" "CHR '','' \<notin> set a" "CHR '','' \<notin> set b"
  shows "convert_pseudo_instr name (join '','' [a, b]) binary =
    Inr (fst (expand_list short name [a, b]), join '','' (snd (expand_list short name [a, b])))"
  using assms(1) unfolding pseudo_two_def list.set insert_iff empty_iff
  by (elim disjE; simp add: convert_pseudo_instr_def expand_list_def zero_middle_def
    op_at_two[OF assms(2,3), simplified] rv32b_pseudo_def)

lemma convert_three:
  assumes "name \<in> set pseudo_three" "CHR '','' \<notin> set a" "CHR '','' \<notin> set b" "CHR '','' \<notin> set c"
  shows "convert_pseudo_instr name (join '','' [a, b, c]) binary =
    Inr (fst (expand_list short name [a, b, c]), join '','' (snd (expand_list short name [a, b, c])))"
  using assms(1) unfolding pseudo_three_def list.set insert_iff empty_iff
  by (elim disjE; simp add: convert_pseudo_instr_def expand_list_def swap_first_def
    op_at_three[OF assms(2-4), simplified])

lemma sltiu_one: "uint (w :: 32 word) < 1 \<longleftrightarrow> w = 0"
proof -
  have "uint w < 1 \<longleftrightarrow> uint w = 0" using uint_ge_0[of w] by presburger
  then show ?thesis by (simp add: uint_0_iff)
qed

lemma map_of_keys: "map_of xs k = Some v \<Longrightarrow> k \<in> fst ` set xs"
  by (metis domI dom_map_of_conv_image_fst)

lemma pseudo_none_names: "pseudo_sem env csr name [] = Some e \<Longrightarrow> name \<in> set pseudo_none"
  unfolding pseudo_sem_def list.case by (drule map_of_keys) (simp add: pseudo_none_def)

lemma pseudo_one_names: "pseudo_sem env csr name [a] = Some e \<Longrightarrow> name \<in> set pseudo_one"
  unfolding pseudo_sem_def list.case by (drule map_of_keys) (simp add: pseudo_one_def)

lemma pseudo_two_names:
  assumes "pseudo_sem env csr name [a, b] = Some e"
  shows "name \<in> set pseudo_two"
proof (cases "name \<in> {''csrwi'', ''csrsi'', ''csrci''}")
  case False
  then show ?thesis
    using assms unfolding pseudo_sem_def list.case insert_iff empty_iff if_distrib[of "\<lambda>x. x = Some e"]
    by (simp only: de_Morgan_disj if_False simp_thms) (drule map_of_keys, simp add: pseudo_two_def)
qed (auto simp: pseudo_two_def)

lemma pseudo_three_names:
  "pseudo_sem env csr name [a, b, c] = Some e \<Longrightarrow> name \<in> set pseudo_three"
  unfolding pseudo_sem_def list.case by (drule map_of_keys) (simp add: pseudo_three_def)

lemma expand_none_sem:
  assumes "env ''zero'' = 0" "name \<in> set pseudo_none"
  shows "base_sem env csr (fst (expand_list short name [])) (snd (expand_list short name [])) = pseudo_sem env csr name []"
  using assms(2) unfolding pseudo_none_def list.set insert_iff empty_iff
  by (elim disjE; cases short; simp add: pseudo_sem_def base_sem_def expand_list_def imm_words assms(1))

lemma expand_one_sem:
  assumes "name \<in> set pseudo_one"
  shows "base_sem env csr (fst (expand_list short name [a])) (snd (expand_list short name [a])) = pseudo_sem env csr name [a]"
  using assms unfolding pseudo_one_def list.set insert_iff empty_iff
  by (elim disjE; simp add: pseudo_sem_def base_sem_def expand_list_def imm_words)

lemma expand_two_sem:
  assumes "env ''zero'' = 0" "name \<in> set pseudo_two" "name \<noteq> ''csrr''"
  shows "base_sem env csr (fst (expand_list short name [a, b])) (snd (expand_list short name [a, b])) =
    pseudo_sem env csr name [a, b]"
  using assms(2,3) unfolding pseudo_two_def list.set insert_iff empty_iff
  by (elim disjE; simp add: pseudo_sem_def base_sem_def expand_list_def imm_words bit01_def
    sltiu_one assms(1) eq_commute[of 0] word_neq_0_conv word_less_def)

lemma expand_three_sem:
  assumes "name \<in> set pseudo_three"
  shows "base_sem env csr (fst (expand_list short name [a, b, c])) (snd (expand_list short name [a, b, c])) =
    pseudo_sem env csr name [a, b, c]"
  using assms unfolding pseudo_three_def list.set insert_iff empty_iff
  by (elim disjE; simp add: pseudo_sem_def base_sem_def expand_list_def)

lemma expand_sem:
  assumes "env ''zero'' = 0" and "pseudo_sem env csr name ops = Some e" and "list_all (\<lambda>s. CHR '','' \<notin> set s) ops"
    and "binary \<noteq> []"
  shows "convert_pseudo_instr name (join '','' ops) binary =
      Inr (fst (expand_list (short_return binary) name ops), join '','' (snd (expand_list (short_return binary) name ops))) \<and>
    (name \<noteq> ''csrr'' \<longrightarrow>
      base_sem env csr (fst (expand_list (short_return binary) name ops)) (snd (expand_list (short_return binary) name ops)) = Some e)"
proof -
  consider (none) "ops = []" | (one) a where "ops = [a]" | (two) a b where "ops = [a, b]" | (three) a b c where "ops = [a, b, c]"
    using assms(2) by (auto simp: pseudo_sem_def split: list.splits)
  then show ?thesis
  proof cases
    case none
    then have n: "name \<in> set pseudo_none" using assms(2) pseudo_none_names by blast
    show ?thesis using convert_none[OF n assms(4)] expand_none_sem[of env name csr, OF assms(1) n] assms(2) none by metis
  next
    case one
    then have n: "name \<in> set pseudo_one" using assms(2) pseudo_one_names by blast
    show ?thesis
      using convert_one[OF n, of a binary] expand_one_sem[OF n, of env csr _ a] assms(2,3) one by (metis list.pred_inject(2))
  next
    case two
    then have n: "name \<in> set pseudo_two" using assms(2) pseudo_two_names by blast
    show ?thesis
      using convert_two[OF n, of a b binary] expand_two_sem[of env name csr _ a b, OF assms(1) n] assms(2,3) two
      by (metis list.pred_inject(2))
  next
    case three
    then have n: "name \<in> set pseudo_three" using assms(2) pseudo_three_names by blast
    show ?thesis
      using convert_three[OF n, of a b c binary] expand_three_sem[OF n, of env csr _ a b c] assms(2,3) three
      by (metis list.pred_inject(2))
  qed
qed

text \<open>
  C15. The conversion of the pseudo instructions of the 32-bit base instruction set and of the
  CSRs, and of \<^verbatim>\<open>zext.b\<close> and \<^verbatim>\<open>zext.h\<close>, keeps their meaning, with one exception: the instruction
  that is returned sets the same register to the same word, takes the same branch under the same
  condition, jumps to the same place with the same return register, or reads and writes the same
  CSR in the same way.  The exception is \<^verbatim>\<open>csrr\<close>, which only reads a CSR: what is returned for it
  also writes zero to the CSR.
\<close>

theorem convert_pseudo_sem:
  assumes "env ''zero'' = 0" and "pseudo_sem env csr name ops = Some e"
    and "list_all (\<lambda>s. CHR '','' \<notin> set s) ops" and "binary \<noteq> []"
  shows "\<exists>name' ops'. convert_pseudo_instr name (join '','' ops) binary = Inr (name', join '','' ops') \<and>
    (if name = ''csrr''
     then e = Csr_access (ops ! 0) (ops ! 1) None \<and> base_sem env csr name' ops' = Some (Csr_access (ops ! 0) (ops ! 1) (Some 0))
     else base_sem env csr name' ops' = Some e)"
proof (cases "name = ''csrr''")
  case True
  then obtain a b where ops: "ops = [a, b]" "e = Csr_access a b None"
    using assms(2) by (auto simp: pseudo_sem_def split: list.splits)
  have "convert_pseudo_instr name (join '','' ops) binary = Inr (''csrrw'', join '','' [a, b, ''zero''])"
    using expand_sem[OF assms] True ops(1) by (simp add: expand_list_def)
  moreover have "base_sem env csr ''csrrw'' [a, b, ''zero''] = Some (Csr_access a b (Some 0))"
    using assms(1) by (simp add: base_sem_def)
  ultimately show ?thesis
    using True ops by (intro exI[of _ "''csrrw''"] exI[of _ "[a, b, ''zero'']"]) simp
next
  case False
  then show ?thesis using expand_sem[OF assms] by auto
qed

lemma convert_pseudo_sem_witness:
  "\<exists>name' ops'. convert_pseudo_instr ''bgtz'' (join '','' [''a0'', ''8'']) ''x'' =
      Inr (name', join '','' ops') \<and>
    base_sem (\<lambda>r. if r = ''a0'' then 7 else 0) (\<lambda>r. 0) name' ops' = Some (Branch_if True ''8'')"
proof -
  have "pseudo_sem (\<lambda>r. if r = ''a0'' then 7 else 0) (\<lambda>r. 0) ''bgtz'' [''a0'', ''8''] = Some (Branch_if True ''8'')"
    by (simp add: pseudo_sem_def)
  from convert_pseudo_sem[OF _ this, of "''x''"] show ?thesis by simp
qed

text \<open>
  \<open>csrr rd, csr\<close> only reads a CSR, which is \<open>csrrs rd, csr, zero\<close>; the conversion gives
  \<open>csrrw\<close>, the same as for the instruction that writes zero to it.
\<close>

theorem convert_csrr_writes:
  "convert_pseudo_instr ''csrr'' (join '','' [rd, csr]) binary =
     Inr (''csrrw'', join '','' [rd, csr, ''zero''])"
  by (simp add: convert_pseudo_instr_def)

section \<open>Register names\<close>

definition reg_names :: "string list" where
  "reg_names = map (\<lambda>i. CHR ''x'' # show_nat i) [0..<32] @ map (\<lambda>i. CHR ''f'' # show_nat i) [0..<32]"

lemma gpr_switcher_keys: "dkeys gpr_switcher = reg_names"
  by code_simp

lemma gpr_switcher_distinct: "distinct (map snd gpr_switcher)" "''na'' \<notin> set (map snd gpr_switcher)"
  "distinct reg_names"
  by code_simp+

text \<open>
  The ABI names of the integer and floating point registers are distinct and known:
  \<open>gpr_to_abi\<close> is injective on \<open>x0\<close>..\<open>x31\<close> and \<open>f0\<close>..\<open>f31\<close>, and gives \<open>na\<close> for any other
  text and for no register.
\<close>

theorem gpr_to_abi_injective:
  "inj_on gpr_to_abi (set reg_names) \<and> (gpr_to_abi r = ''na'' \<longleftrightarrow> r \<notin> set reg_names)"
proof -
  have d: "distinct (dkeys gpr_switcher)" using gpr_switcher_keys gpr_switcher_distinct(3) by simp
  have look: "\<exists>a. (x, a) \<in> set gpr_switcher \<and> gpr_to_abi x = a" if "x \<in> set reg_names" for x
  proof -
    obtain a where a: "(x, a) \<in> set gpr_switcher" using \<open>x \<in> set reg_names\<close> gpr_switcher_keys
      by (metis (no_types, lifting) imageE list.set_map prod.collapse)
    then have "dget gpr_switcher x = Some a" using d by simp
    then show ?thesis using a by (auto simp: gpr_to_abi_def dget_or_def)
  qed
  have inj: "x = y" if "(x, a) \<in> set gpr_switcher" "(y, a) \<in> set gpr_switcher" for x y a
    using that gpr_switcher_distinct(1) eq_key_imp_eq_value[of "map (\<lambda>(k, v). (v, k)) gpr_switcher" a x y]
    by (force simp: comp_def case_prod_beta)
  have na: "gpr_to_abi r = ''na'' \<longleftrightarrow> r \<notin> set reg_names" for r
  proof (cases "r \<in> set reg_names")
    case True
    then show ?thesis using look[OF True] gpr_switcher_distinct(2) by force
  next
    case False
    have "r \<notin> fst ` set gpr_switcher" using False gpr_switcher_keys by (metis list.set_map)
    then have "dget gpr_switcher r = None" by (simp add: map_of_eq_None_iff)
    then show ?thesis using False by (simp add: gpr_to_abi_def dget_or_def)
  qed
  have "inj_on gpr_to_abi (set reg_names)"
  proof (rule inj_onI)
    fix x y assume xy: "x \<in> set reg_names" "y \<in> set reg_names" "gpr_to_abi x = gpr_to_abi y"
    have "(x, gpr_to_abi x) \<in> set gpr_switcher" "(y, gpr_to_abi x) \<in> set gpr_switcher"
      using look[OF xy(1)] look[OF xy(2)] xy(3) by auto
    then show "x = y" by (rule inj)
  qed
  then show ?thesis using na by blast
qed

section \<open>Regression lists end\<close>

lemma collect_total: "(\<And>x. x \<in> set xs \<Longrightarrow> \<exists>r. f x = Some r) \<Longrightarrow> \<exists>r. collect f xs = Some r"
proof (induction xs)
  case Nil
  then show ?case by simp
next
  case (Cons x xs)
  obtain r where r: "f x = Some r" using Cons.prems by auto
  obtain q where q: "collect f xs = Some q" using Cons.IH Cons.prems by auto
  show ?case using r q by (cases r; cases q) (auto simp: obind_def)
qed

lemma collect_cong: "(\<And>x. x \<in> set xs \<Longrightarrow> f x = g x) \<Longrightarrow> collect f xs = collect g xs"
  by (induction xs) (auto simp: obind_def split: option.splits sum.splits)

text \<open>One entry of a list, once the list it may import ends.\<close>

definition entry_step :: "(string \<Rightarrow> lib_error + entry list) \<Rightarrow> string \<Rightarrow> int \<Rightarrow> string option \<Rightarrow> nat \<Rightarrow> entry \<Rightarrow>
    (lib_error + entry list) option" where
  "entry_step yaml test iterations root n e =
     (case dict_get e ''import'' of
        Some v \<Rightarrow> obind (Some (import_path root v)) (\<lambda>sub. process_regression_list yaml n sub test iterations root)
      | None \<Rightarrow> Some (match_entry test iterations e))"

lemma entry_ends:
  assumes "\<And>r s. root = Some r \<Longrightarrow> dict_get e ''import'' = Some (PStr s) \<Longrightarrow>
      \<exists>x. \<forall>n \<ge> k. process_regression_list yaml n (replace ''<riscv_dv_root>'' r s) test iterations root = Some x"
  shows "\<exists>x. \<forall>n \<ge> k. entry_step yaml test iterations root n e = Some x"
proof (cases "dict_get e ''import''")
  case (Some v)
  show ?thesis
  proof (cases "\<exists>r s. root = Some r \<and> v = PStr s")
    case True
    then obtain r s where r: "root = Some r" "v = PStr s" by blast
    then show ?thesis using assms[OF r(1)] Some by (simp add: entry_step_def obind_def import_path_def)
  qed (use Some in \<open>auto simp: entry_step_def obind_def import_path_def split: option.splits pyval.splits\<close>)
qed (simp add: entry_step_def)

text \<open>
  C40. If no list imports itself, directly or through others (each import has a smaller
  rank), the recursion through the imports ends: any fuel above the rank of the list gives
  the same answer, a list of matched tests or an error.
\<close>

theorem process_regression_ends:
  assumes "\<forall>r f es e s. root = Some r \<and> yaml f = Inr es \<and> e \<in> set es \<and> dict_get e ''import'' = Some (PStr s) \<longrightarrow>
      rank (replace ''<riscv_dv_root>'' r s) < (rank f :: nat)"
  shows "\<exists>r. \<forall>n > rank f. process_regression_list yaml n f test iterations root = Some r"
proof (induction "rank f" arbitrary: f rule: less_induct)
  case less
  let ?step = "entry_step yaml test iterations root"
  have ends: "\<exists>x. \<forall>n \<ge> rank f. ?step n e = Some x" if y: "yaml f = Inr es" and e: "e \<in> set es" for es e
  proof (rule entry_ends)
    fix r s assume i: "root = Some r" "dict_get e ''import'' = Some (PStr s)"
    let ?g = "replace ''<riscv_dv_root>'' r s"
    have lt: "rank ?g < rank f" using assms y e i by blast
    then show "\<exists>x. \<forall>n \<ge> rank f. process_regression_list yaml n ?g test iterations root = Some x"
      using less[OF lt] by (meson less_le_trans)
  qed
  have unfold: "process_regression_list yaml (Suc n) f test iterations root =
      obind (Some (yaml f)) (collect (?step n))" for n
    by (simp add: entry_step_def[abs_def])
  show ?case
  proof (cases "yaml f")
    case (Inl e)
    then have "process_regression_list yaml n f test iterations root = Some (Inl e)" if "n > rank f" for n
      using that by (cases n) (auto simp: obind_def)
    then show ?thesis by blast
  next
    case (Inr es)
    have stable: "?step n e = ?step (rank f) e" if "n \<ge> rank f" "e \<in> set es" for n e
      using ends[OF Inr that(2)] that(1) by force
    obtain r where r: "collect (?step (rank f)) es = Some r"
      using collect_total[of es "?step (rank f)"] ends[OF Inr] by blast
    have "process_regression_list yaml n f test iterations root = Some r" if "n > rank f" for n
    proof -
      obtain m where m: "n = Suc m" using \<open>n > rank f\<close> by (cases n) auto
      have "collect (?step m) es = collect (?step (rank f)) es"
        by (rule collect_cong, rule stable) (use that m in simp_all)
      then have "collect (?step m) es = Some r" using r by simp
      then show ?thesis by (simp add: m unfold Inr obind_def del: process_regression_list.simps)
    qed
    then show ?thesis by blast
  qed
qed

lemma process_regression_ends_witness:
  "\<exists>r. \<forall>n > (if ''all.yaml'' = ''all.yaml'' then 1 else 0 :: nat). process_regression_list
     (\<lambda>f. if f = ''all.yaml'' then Inr [[(PStr ''import'', PStr ''<riscv_dv_root>/base.yaml'')]] else Inr [])
     n ''all.yaml'' ''all'' 0 (Some ''/dv'') = Some r"
proof (rule process_regression_ends[where rank = "\<lambda>f. if f = ''all.yaml'' then 1 else 0"])
  have "replace ''<riscv_dv_root>'' ''/dv'' ''<riscv_dv_root>/base.yaml'' = ''/dv/base.yaml''"
    by code_simp
  then show "\<forall>r f es e s. Some ''/dv'' = Some r \<and> (if f = ''all.yaml''
        then Inr [[(PStr ''import'', PStr ''<riscv_dv_root>/base.yaml'')]] else Inr []) = Inr es \<and>
      e \<in> set es \<and> dict_get e ''import'' = Some (PStr s) \<longrightarrow>
      (if replace ''<riscv_dv_root>'' r s = ''all.yaml'' then 1 else 0) <
      (if f = ''all.yaml'' then 1 else (0 :: nat))"
    by (auto simp: dict_get_def)
qed

section \<open>Timeouts\<close>

text \<open>
  When the first of several commands times out, \<open>run_parallel_cmd\<close> does not go on to
  the others: it fails on the variable \<open>output\<close>, which no command has set.  After a command
  that ended, a timeout is passed over.
\<close>

theorem run_parallel_first_timeout:
  "(popen (''exec '' @ c) = Timed_out \<longleftrightarrow>
    run_parallel_cmd popen (c # cs) False True False = Inl (Unbound_local ''output''))"
proof -
  have rest: "\<exists>s'. efold (wait_child False True) xs (Some s) = Inr (Some s')" for xs s
    by (induction xs arbitrary: s) (auto simp: wait_child_def split: child.splits)
  show ?thesis
  proof (cases "popen (''exec '' @ c)")
    case (Ended out rc)
    obtain s' where "efold (wait_child False True) (map (\<lambda>cmd. popen (''exec '' @ cmd)) cs) (Some out) = Inr s'"
      using rest by blast
    then show ?thesis using Ended by (simp add: run_parallel_cmd_def wait_child_def)
  qed (simp add: run_parallel_cmd_def wait_child_def)
qed

end
