(* ===== verification/TraceCompare.thy ===== *)
theory TraceCompare
  imports RiscvDvLib
begin

text \<open>
  \<^verbatim>\<open>vendor/google_riscv-dv/scripts/riscv_trace_csv.py\<close> and \<^verbatim>\<open>instr_trace_compare.py\<close>: the
  trace entries, their CSV form, and the comparison of the register updates of two traces,
  with the specification of what it counts.  A CSV file is the list of its rows.
\<close>

section \<open>Trace entries\<close>

record trace_entry =
  gpr :: "string list"
  csr :: "string list"
  instr :: string
  operand :: string
  pc :: string
  binary :: string
  instr_str :: string
  mode :: string

definition new_entry :: trace_entry where
  "new_entry = \<lparr>gpr = [], csr = [], instr = [], operand = [], pc = [], binary = [],
     instr_str = [], mode = []\<rparr>"

definition get_trace_string :: "trace_entry \<Rightarrow> string" where
  "get_trace_string e =
     ''pc['' @ pc e @ ''] '' @ instr_str e @ '': '' @ join '' '' (gpr e) @ '' '' @ join '' '' (csr e)"

section \<open>The CSV form\<close>

definition csv_fields :: "string list" where
  "csv_fields = [''pc'', ''instr'', ''gpr'', ''csr'', ''binary'', ''mode'', ''instr_str'',
     ''operand'', ''pad'']"

text \<open>\<open>csv.DictWriter\<close>: the values in the order of the field names, nothing for a missing one.\<close>

definition dict_row :: "(string, string) pydict \<Rightarrow> string list" where
  "dict_row d = map (\<lambda>f. dget_or d f []) csv_fields"

definition start_new_trace :: "string list list" where
  "start_new_trace = [csv_fields]"

definition write_trace_entry :: "trace_entry \<Rightarrow> string list" where
  "write_trace_entry e =
     dict_row [(''instr_str'', instr_str e), (''gpr'', join '';'' (gpr e)),
       (''csr'', join '';'' (csr e)), (''operand'', operand e), (''pc'', pc e),
       (''binary'', binary e), (''instr'', instr e), (''mode'', mode e)]"

text \<open>\<open>csv.DictReader\<close>: the first row names the columns, empty rows are skipped.\<close>

definition cell :: "string list \<Rightarrow> string list \<Rightarrow> string \<Rightarrow> lib_error + string" where
  "cell header row f =
     (if f \<notin> set header then Inl (Key_error f)
      else of_option Type_error (map_of (rev (zip header row)) f))"

definition read_row :: "string list \<Rightarrow> string list \<Rightarrow> lib_error + trace_entry" where
  "read_row header row =
     ebind (cell header row ''gpr'') (\<lambda>g.
     ebind (cell header row ''csr'') (\<lambda>c.
     ebind (cell header row ''pc'') (\<lambda>p.
     ebind (cell header row ''operand'') (\<lambda>oper.
     ebind (cell header row ''binary'') (\<lambda>b.
     ebind (cell header row ''instr_str'') (\<lambda>s.
     ebind (cell header row ''instr'') (\<lambda>i.
     ebind (cell header row ''mode'') (\<lambda>m.
       Inr \<lparr>gpr = split_on CHR '';'' g, csr = split_on CHR '';'' c, instr = i, operand = oper,
            pc = p, binary = b, instr_str = s, mode = m\<rparr>))))))))"

definition read_trace :: "string list list \<Rightarrow> lib_error + trace_entry list" where
  "read_trace rows =
     (case rows of
        [] \<Rightarrow> Inr []
      | header # body \<Rightarrow> emap (read_row header) (filter (\<lambda>r. r \<noteq> []) body))"

section \<open>Immediates\<close>

text \<open>\<open>int(s, 0)\<close>: the base from the prefix, no leading zeros without one.\<close>

definition prefix_base :: "string \<Rightarrow> nat option" where
  "prefix_base s =
     (case s of
        c0 # c1 # _ \<Rightarrow>
          if c0 \<noteq> CHR ''0'' then None
          else map_of [(CHR ''x'', 16), (CHR ''o'', 8), (CHR ''b'', 2)] (lower_char c1)
      | _ \<Rightarrow> None)"

definition read_nat0 :: "string \<Rightarrow> nat option" where
  "read_nat0 s =
     (case prefix_base s of
        Some b \<Rightarrow> (case drop 2 s of
                     c # cs \<Rightarrow> if code c = 95 then read_digits b False 0 cs else read_digits b False 0 (c # cs)
                   | [] \<Rightarrow> None)
      | None \<Rightarrow>
          (case read_digits 10 False 0 s of
             Some n \<Rightarrow> if n \<noteq> 0 \<and> take 1 s = ''0'' then None else Some n
           | None \<Rightarrow> None))"

definition read_int0 :: "string \<Rightarrow> int option" where
  "read_int0 s =
     (case strip s of
        [] \<Rightarrow> None
      | c # cs \<Rightarrow>
          if c = CHR ''-'' then map_option (\<lambda>n. - int n) (read_nat0 cs)
          else if c = CHR ''+'' then map_option int (read_nat0 cs)
          else map_option int (read_nat0 (c # cs)))"

definition get_imm_hex_val :: "string \<Rightarrow> lib_error + string" where
  "get_imm_hex_val imm =
     (case imm of
        [] \<Rightarrow> Inl Index_error
      | c # cs \<Rightarrow>
          let is_negative = (c = CHR ''-''); digits = (if is_negative then cs else imm)
          in ebind (of_option (Value_error digits) (read_int0 digits)) (\<lambda>imm_val.
               Inr (drop 2 (sint_to_hex (if is_negative then - imm_val else imm_val)))))"

section \<open>Register updates\<close>

text \<open>
  \<open>check_update_gpr\<close> returns whether the updates change the registers seen so far, and the
  registers after them; a register not seen before holds zero.  An empty update ends the
  loop with no change.
\<close>

type_synonym regs = "(string, string) pydict"

fun update_loop :: "string list \<Rightarrow> bool \<Rightarrow> regs \<Rightarrow> lib_error + bool \<times> regs" where
  "update_loop [] change g = Inr (change, g)"
| "update_loop (u # us) change g =
     (if u = [] then Inr (False, g)
      else case split_on CHR '':'' u of
             [rd, rd_val] \<Rightarrow>
               (case dget g rd of
                  Some v \<Rightarrow> update_loop us (change \<or> rd_val \<noteq> v) (dset rd rd_val g)
                | None \<Rightarrow>
                    ebind (of_option (Value_error rd_val) (read_int 16 rd_val)) (\<lambda>n.
                      update_loop us (change \<or> n \<noteq> 0) (dset rd rd_val g)))
           | _ \<Rightarrow> Inl (Sys_exit 1))"

definition check_update_gpr :: "string list \<Rightarrow> regs \<Rightarrow> lib_error + bool \<times> regs" where
  "check_update_gpr updates g = update_loop updates False g"

section \<open>The comparison\<close>

text \<open>The local variables of the in-order loop, with what it has written.\<close>

record cmp_state =
  trace_1_index :: nat
  trace_2_index :: nat
  gpr_val_1 :: regs
  gpr_val_2 :: regs
  matched_cnt :: nat
  mismatch_cnt :: nat
  fd :: "string list"

definition cmp_init :: cmp_state where
  "cmp_init = \<lparr>trace_1_index = 0, trace_2_index = 0, gpr_val_1 = [], gpr_val_2 = [],
     matched_cnt = 0, mismatch_cnt = 0, fd = []\<rparr>"

text \<open>The inner loop: forward in the second trace until an update, or to its end.\<close>

fun forward :: "trace_entry list \<Rightarrow> nat \<Rightarrow> regs \<Rightarrow> lib_error + bool \<times> nat \<times> regs" where
  "forward [] i g = Inr (False, i, g)"
| "forward (t # ts) i g =
     ebind (check_update_gpr (gpr t) g) (\<lambda>(change, g').
       if change then Inr (True, Suc i, g') else forward ts (Suc i) g')"

definition mismatch :: "string list \<Rightarrow> nat \<Rightarrow> cmp_state \<Rightarrow> cmp_state" where
  "mismatch lines limit s =
     (let n = Suc (mismatch_cnt s)
      in s\<lparr>mismatch_cnt := n,
           fd := fd s @ (if n \<le> limit then (''Mismatch['' @ show_nat n @ '']:'' @ [newline]) # lines else [])\<rparr>)"

definition line_at :: "string \<Rightarrow> nat \<Rightarrow> trace_entry \<Rightarrow> string" where
  "line_at name i t = name @ ''['' @ show_nat i @ ''] : '' @ get_trace_string t @ [newline]"

definition left_line :: "nat \<Rightarrow> string \<Rightarrow> string" where
  "left_line n name = show_nat n @ '' instructions left in trace '' @ name @ [newline]"

text \<open>One update of the first trace against the next update of the second.\<close>

definition compare_update :: "string \<Rightarrow> string \<Rightarrow> nat \<Rightarrow> trace_entry list \<Rightarrow> trace_entry list \<Rightarrow>
    trace_entry \<Rightarrow> bool \<Rightarrow> cmp_state \<Rightarrow> cmp_state" where
  "compare_update name1 name2 limit trace1 trace2 t change2 s =
     (let i1 = trace_1_index s; i2 = trace_2_index s - 1; t2 = trace2 ! i2;
          lines = [line_at name1 i2 t, line_at name2 i2 t2]
      in if \<not> change2
         then s\<lparr>mismatch_cnt := Suc (mismatch_cnt s),
                fd := fd s @ [''Mismatch['' @ show_nat (Suc (mismatch_cnt s)) @ '']:'' @ [newline] @ ''['' @
                  show_nat i1 @ ''] '' @ name1 @ '' : '' @ get_trace_string t @ [newline],
                  left_line (length trace1 - i1 + 1) name1]\<rparr>
         else if length (gpr t) \<noteq> length (gpr t2) then mismatch lines limit s
         else if \<not> list_all2 (=) (gpr t) (gpr t2) then mismatch lines limit s
         else s\<lparr>matched_cnt := Suc (matched_cnt s)\<rparr>)"

fun compare_loop :: "string \<Rightarrow> string \<Rightarrow> nat \<Rightarrow> trace_entry list \<Rightarrow> trace_entry list \<Rightarrow>
    trace_entry list \<Rightarrow> cmp_state \<Rightarrow> lib_error + cmp_state" where
  "compare_loop name1 name2 limit trace1 trace2 [] s = Inr s"
| "compare_loop name1 name2 limit trace1 trace2 (t # ts) s =
     (let s = s\<lparr>trace_1_index := Suc (trace_1_index s)\<rparr>
      in if gpr t = [] then compare_loop name1 name2 limit trace1 trace2 ts s
         else ebind (check_update_gpr (gpr t) (gpr_val_1 s)) (\<lambda>(change1, g1).
           let s = s\<lparr>gpr_val_1 := g1\<rparr>
           in if \<not> change1 then compare_loop name1 name2 limit trace1 trace2 ts s
              else ebind (forward (drop (trace_2_index s) trace2) (trace_2_index s) (gpr_val_2 s))
                     (\<lambda>(change2, i2, g2).
                let s = compare_update name1 name2 limit trace1 trace2 t change2
                          (s\<lparr>trace_2_index := i2, gpr_val_2 := g2\<rparr>)
                in if trace_2_index s = length trace2 then Inr s
                   else compare_loop name1 name2 limit trace1 trace2 ts s)))"

text \<open>The second trace may hold further updates: all its remaining instructions are counted.\<close>

definition compare_rest :: "string \<Rightarrow> trace_entry list \<Rightarrow> cmp_state \<Rightarrow> lib_error + cmp_state" where
  "compare_rest name2 trace2 s =
     ebind (forward (drop (trace_2_index s) trace2) (trace_2_index s) (gpr_val_2 s))
       (\<lambda>(change2, i2, g2).
          if change2
          then let left = length trace2 - (i2 - 1)
               in Inr (s\<lparr>mismatch_cnt := mismatch_cnt s + left, trace_2_index := i2 - 1,
                         gpr_val_2 := g2, fd := fd s @ [left_line left name2]\<rparr>)
          else Inr (s\<lparr>trace_2_index := i2, gpr_val_2 := g2\<rparr>))"

definition compare_traces :: "string \<Rightarrow> string \<Rightarrow> nat \<Rightarrow> trace_entry list \<Rightarrow> trace_entry list \<Rightarrow>
    lib_error + cmp_state" where
  "compare_traces name1 name2 limit trace1 trace2 =
     ebind (compare_loop name1 name2 limit trace1 trace2 trace1 cmp_init)
       (compare_rest name2 trace2)"

definition result_line :: "cmp_state \<Rightarrow> string" where
  "result_line s =
     (if mismatch_cnt s = 0 then ''[PASSED]: '' @ show_nat (matched_cnt s) @ '' matched'' @ [newline]
      else ''[FAILED]: '' @ show_nat (matched_cnt s) @ '' matched, '' @ show_nat (mismatch_cnt s) @
           '' mismatch'' @ [newline])"

text \<open>The result and what is written to the log; comparing final values only is not done yet.\<close>

definition compare_trace_csv :: "(string \<Rightarrow> string list list) \<Rightarrow> string \<Rightarrow> string \<Rightarrow> string \<Rightarrow> string \<Rightarrow>
    bool \<Rightarrow> nat \<Rightarrow> bool \<Rightarrow> lib_error + string \<times> string list" where
  "compare_trace_csv csv_rows csv1 csv2 name1 name2 in_order_mode mismatch_print_limit
       compare_final_value_only =
     ebind (read_trace (csv_rows csv1)) (\<lambda>trace1.
     ebind (read_trace (csv_rows csv2)) (\<lambda>trace2.
     ebind (if in_order_mode \<and> \<not> compare_final_value_only
            then compare_traces name1 name2 mismatch_print_limit trace1 trace2
            else Inr cmp_init) (\<lambda>s.
       Inr (result_line s, [name1 @ '' : '' @ csv1 @ [newline], name2 @ '' : '' @ csv2 @ [newline]] @
              fd s @ [result_line s @ [newline]]))))"

section \<open>What the comparison counts\<close>

text \<open>
  The abstract view of a trace: for each instruction, whether it changes the registers, and
  its updates.  \<open>counts\<close> consumes the updates of the first trace against the marks of the
  second and gives the numbers of matches and of mismatches.
\<close>

fun marks :: "trace_entry list \<Rightarrow> regs \<Rightarrow> lib_error + (bool \<times> string list) list" where
  "marks [] g = Inr []"
| "marks (t # ts) g =
     ebind (check_update_gpr (gpr t) g) (\<lambda>(change, g').
       ebind (marks ts g') (\<lambda>ms. Inr ((change, gpr t) # ms)))"

definition updates :: "(bool \<times> string list) list \<Rightarrow> string list list" where
  "updates ms = map snd (filter fst ms)"

fun until_update :: "(bool \<times> string list) list \<Rightarrow> (bool \<times> string list) list" where
  "until_update [] = []"
| "until_update ((change, u) # ms) = (if change then (change, u) # ms else until_update ms)"

fun counts :: "string list list \<Rightarrow> (bool \<times> string list) list \<Rightarrow> nat \<times> nat" where
  "counts [] ms = (0, length (until_update ms))"
| "counts (u # us) ms =
     (case until_update ms of
        [] \<Rightarrow> (0, 1)
      | (_, v) # ms' \<Rightarrow>
          let (matched, mism) = (if ms' = [] then (0, 0) else counts us ms')
          in if u = v then (Suc matched, mism) else (matched, Suc mism))"

lemma until_update_length: "length (until_update ms) \<le> length ms"
  by (induction ms rule: until_update.induct) auto

lemma marks_length: "marks ts g = Inr ms \<Longrightarrow> length ms = length ts"
  by (induction ts arbitrary: g ms) (auto simp: raise_simps)

lemma marks_Cons_Inr: "marks (t # ts) g = Inr ms \<longleftrightarrow>
    (\<exists>change g' ms'. check_update_gpr (gpr t) g = Inr (change, g') \<and> marks ts g' = Inr ms' \<and>
      ms = (change, gpr t) # ms')"
  by (auto simp: raise_simps)

lemma forward_marks:
  assumes "marks ts g = Inr ms"
  shows "\<exists>g'. let rest = until_update ms; i' = i + (length ms - length (tl rest)) in
    forward ts i g = Inr (rest \<noteq> [], i', g') \<and>
    marks (drop (i' - i) ts) g' = Inr (tl rest) \<and>
    (rest \<noteq> [] \<longrightarrow> i < i' \<and> i' - 1 - i < length ts \<and> gpr (ts ! (i' - 1 - i)) = snd (hd rest))"
  using assms
proof (induction ts arbitrary: g ms i)
  case Nil
  then show ?case by simp
next
  case (Cons t ts)
  from Cons.prems obtain ch g1 ms1 where
    c: "check_update_gpr (gpr t) g = Inr (ch, g1)" "marks ts g1 = Inr ms1" "ms = (ch, gpr t) # ms1"
    unfolding marks_Cons_Inr by blast
  show ?case
  proof (cases ch)
    case True
    then show ?thesis using c by (auto simp: Let_def)
  next
    case False
    have le: "length (tl (until_update ms1)) \<le> length ms1"
      using until_update_length[of ms1] by simp
    obtain g' where IH: "let rest = until_update ms1; i' = Suc i + (length ms1 - length (tl rest)) in
        forward ts (Suc i) g1 = Inr (rest \<noteq> [], i', g') \<and>
        marks (drop (i' - Suc i) ts) g' = Inr (tl rest) \<and>
        (rest \<noteq> [] \<longrightarrow> Suc i < i' \<and> i' - 1 - Suc i < length ts \<and>
          gpr (ts ! (i' - 1 - Suc i)) = snd (hd rest))"
      using Cons.IH[OF c(2)] by blast
    define r where "r = until_update ms1"
    define k where "k = length ms1 - length (tl r)"
    have d: "length ms - length (tl r) = Suc k" using le c(3) by (simp add: k_def r_def)
    have "forward (t # ts) i g = Inr (r \<noteq> [], i + Suc k, g') \<and> marks (drop k ts) g' = Inr (tl r) \<and>
        (r \<noteq> [] \<longrightarrow> 0 < k \<and> k - 1 < length ts \<and> gpr (ts ! (k - 1)) = snd (hd r))"
      using IH[folded r_def, unfolded Let_def, folded k_def] False c(1) by simp
    moreover have "until_update ms = r" using False c(3) by (simp add: r_def)
    ultimately show ?thesis
      unfolding Let_def by (intro exI[of _ g'], simp only: d) (auto simp: nth_Cons' simp del: forward.simps)
  qed
qed

lemma compare_update_fields [simp]:
  "trace_2_index (compare_update n1 n2 l tr1 tr2 t change2 s) = trace_2_index s"
  "gpr_val_1 (compare_update n1 n2 l tr1 tr2 t change2 s) = gpr_val_1 s"
  "gpr_val_2 (compare_update n1 n2 l tr1 tr2 t change2 s) = gpr_val_2 s"
  "matched_cnt (compare_update n1 n2 l tr1 tr2 t change2 s) = matched_cnt s +
     (if change2 \<and> gpr t = gpr (tr2 ! (trace_2_index s - 1)) then 1 else 0)"
  "mismatch_cnt (compare_update n1 n2 l tr1 tr2 t change2 s) = mismatch_cnt s +
     (if change2 \<and> gpr t = gpr (tr2 ! (trace_2_index s - 1)) then 0 else 1)"
  by (simp_all add: compare_update_def mismatch_def Let_def list.rel_eq)

lemma compare_rest_counts:
  assumes "marks (drop (trace_2_index s) tr2) (gpr_val_2 s) = Inr ms" "trace_2_index s \<le> length tr2"
  shows "\<exists>s'. compare_rest n2 tr2 s = Inr s' \<and> matched_cnt s' = matched_cnt s \<and>
    mismatch_cnt s' = mismatch_cnt s + length (until_update ms)"
proof -
  let ?r = "until_update ms"
  let ?i = "trace_2_index s + (length ms - length (tl ?r))"
  obtain g' where f: "forward (drop (trace_2_index s) tr2) (trace_2_index s) (gpr_val_2 s) =
      Inr (?r \<noteq> [], ?i, g')"
    using forward_marks[OF assms(1), of "trace_2_index s"] by (auto simp: Let_def)
  have len: "length ms = length tr2 - trace_2_index s"
    using marks_length[OF assms(1)] by simp
  have "length ?r \<le> length ms" by (rule until_update_length)
  then have "?r \<noteq> [] \<Longrightarrow> length tr2 - (?i - 1) = length ?r"
    using len assms(2) by (cases ?r) auto
  then show ?thesis using f by (auto simp: compare_rest_def Let_def)
qed

declare compare_loop.simps(2) [simp del]

text \<open>An instruction of the first trace that updates nothing, and where the search for the next
  update in the second one ends.\<close>

lemma compare_loop_skip:
  assumes "check_update_gpr (gpr t) (gpr_val_1 s) = Inr (False, g1)"
  shows "compare_loop n1 n2 l tr1 tr2 (t # ts) s =
    compare_loop n1 n2 l tr1 tr2 ts (s\<lparr>trace_1_index := Suc (trace_1_index s), gpr_val_1 := g1\<rparr>)"
proof (cases "gpr t = []")
  case True
  then have "g1 = gpr_val_1 s" using assms by (simp add: check_update_gpr_def)
  then show ?thesis using True by (simp add: compare_loop.simps(2) Let_def)
qed (use assms in \<open>simp add: compare_loop.simps(2) Let_def\<close>)

lemma until_update_index:
  assumes "marks (drop k tr2) g = Inr m2" and "k \<le> length tr2"
  shows "k + (length m2 - length (tl (until_update m2))) \<le> length tr2"
    and "k + (length m2 - length (tl (until_update m2))) = length tr2 \<longleftrightarrow> tl (until_update m2) = []"
proof -
  have len: "length m2 = length tr2 - k"
    using marks_length[OF assms(1)] by simp
  then show "k + (length m2 - length (tl (until_update m2))) \<le> length tr2" using assms(2) by simp
  show "k + (length m2 - length (tl (until_update m2))) = length tr2 \<longleftrightarrow> tl (until_update m2) = []"
  proof (cases "m2 = []")
    case False
    then have "length (tl (until_update m2)) < length m2"
      using until_update_length[of m2] by (cases "until_update m2") auto
    then show ?thesis using len assms(2) by (cases "tl (until_update m2)") auto
  qed (use len assms(2) in simp)
qed

lemma compare_loop_counts:
  assumes "marks ts (gpr_val_1 s) = Inr m1"
    and "marks (drop (trace_2_index s) tr2) (gpr_val_2 s) = Inr m2"
    and "trace_2_index s \<le> length tr2"
  shows "\<exists>s'. ebind (compare_loop n1 n2 l tr1 tr2 ts s) (compare_rest n2 tr2) = Inr s' \<and>
    matched_cnt s' = matched_cnt s + fst (counts (updates m1) m2) \<and>
    mismatch_cnt s' = mismatch_cnt s + snd (counts (updates m1) m2)"
  using assms
proof (induction ts arbitrary: s m1 m2)
  case Nil
  then show ?case using compare_rest_counts[of s tr2 m2 n2] by (auto simp: updates_def)
next
  case (Cons t ts)
  from Cons.prems(1) obtain ch g1 ms1 where
    c: "check_update_gpr (gpr t) (gpr_val_1 s) = Inr (ch, g1)" "marks ts g1 = Inr ms1"
       "m1 = (ch, gpr t) # ms1"
    unfolding marks_Cons_Inr by blast
  let ?s1 = "s\<lparr>trace_1_index := Suc (trace_1_index s), gpr_val_1 := g1\<rparr>"
  show ?case
  proof (cases ch)
    case False
    have skip: "compare_loop n1 n2 l tr1 tr2 (t # ts) s = compare_loop n1 n2 l tr1 tr2 ts ?s1"
      by (rule compare_loop_skip) (use c(1) False in simp)
    show ?thesis
      using Cons.IH[of ?s1 ms1 m2] Cons.prems(2,3) c(2,3) False
      by (simp add: skip updates_def)
  next
    case True
    then have ne: "gpr t \<noteq> []" using c(1) by (auto simp: check_update_gpr_def)
    let ?r = "until_update m2"
    let ?i = "trace_2_index s + (length m2 - length (tl ?r))"
    obtain g2 where f: "forward (drop (trace_2_index s) tr2) (trace_2_index s) (gpr_val_2 s) =
        Inr (?r \<noteq> [], ?i, g2)"
      and m: "marks (drop (?i - trace_2_index s) (drop (trace_2_index s) tr2)) g2 = Inr (tl ?r)"
      and e: "?r \<noteq> [] \<longrightarrow> trace_2_index s < ?i \<and>
        ?i - 1 - trace_2_index s < length (drop (trace_2_index s) tr2) \<and>
        gpr (drop (trace_2_index s) tr2 ! (?i - 1 - trace_2_index s)) = snd (hd ?r)"
      using forward_marks[OF Cons.prems(2), of "trace_2_index s"] by (auto simp: Let_def)
    let ?s2 = "compare_update n1 n2 l tr1 tr2 t (?r \<noteq> []) (?s1\<lparr>trace_2_index := ?i, gpr_val_2 := g2\<rparr>)"
    note ile = until_update_index(1)[OF Cons.prems(2,3)] and iend = until_update_index(2)[OF Cons.prems(2,3)]
    have same: "?r \<noteq> [] \<Longrightarrow> gpr (tr2 ! (?i - 1)) = snd (hd ?r)" using e by auto
    have m': "marks (drop (trace_2_index ?s2) tr2) (gpr_val_2 ?s2) = Inr (tl ?r)"
      using m Cons.prems(3) by (simp add: add.commute)
    have step: "compare_loop n1 n2 l tr1 tr2 (t # ts) s =
        (if ?i = length tr2 then Inr ?s2 else compare_loop n1 n2 l tr1 tr2 ts ?s2)"
      using ne c(1) True f by (simp add: compare_loop.simps(2) Let_def)
    show ?thesis
    proof (cases "?i = length tr2")
      case i: True
      obtain s' where s': "compare_rest n2 tr2 ?s2 = Inr s'" "matched_cnt s' = matched_cnt ?s2"
          "mismatch_cnt s' = mismatch_cnt ?s2"
        using compare_rest_counts[OF m', of n2] i iend by auto
      show ?thesis
        using s' i iend same True
        by (cases ?r) (auto simp: step c(3) updates_def Let_def split: prod.splits)
    next
      case i: False
      then obtain v ms' where r: "?r = v # ms'" "ms' \<noteq> []" using iend by (cases ?r) auto
      show ?thesis
        using Cons.IH[of ?s2 ms1 "tl ?r"] m' ile i same r c(2) True
        by (cases v) (auto simp: step c(3) updates_def Let_def split: prod.splits)
    qed
  qed
qed

lemma compare_traces_counts_aux:
  assumes "marks trace1 [] = Inr m1" and "marks trace2 [] = Inr m2"
  shows "\<exists>s. compare_traces name1 name2 limit trace1 trace2 = Inr s \<and>
    matched_cnt s = fst (counts (updates m1) m2) \<and> mismatch_cnt s = snd (counts (updates m1) m2)"
  using compare_loop_counts[of trace1 cmp_init m1 trace2 m2 name1 name2 limit trace1] assms
  by (simp add: compare_traces_def cmp_init_def)

text \<open>
  C14. The in-order comparison of two traces whose updates are well formed ends, and the
  numbers of matches and mismatches it reports are those of the abstract comparison of the
  register updates of the first trace with the marks of the second.
\<close>

theorem compare_traces_counts:
  assumes "marks trace1 [] = Inr m1" and "marks trace2 [] = Inr m2"
  shows "\<exists>s. compare_traces name1 name2 limit trace1 trace2 = Inr s \<and>
    (matched_cnt s, mismatch_cnt s) = counts (updates m1) m2"
  using compare_traces_counts_aux[OF assms, of name1 name2 limit] by (auto simp: prod_eq_iff)

definition entry_of :: "string list \<Rightarrow> trace_entry" where
  "entry_of us = new_entry\<lparr>gpr := us\<rparr>"

definition marks_ref :: "(bool \<times> string list) list" where
  "marks_ref = [(True, [''a0:1'']), (True, [''a1:2''])]"

definition marks_core :: "(bool \<times> string list) list" where
  "marks_core = [(False, [[]]), (True, [''a0:1'']), (True, [''a1:3''])]"

lemma compare_traces_counts_witness:
  "\<exists>s. compare_traces ''spike'' ''ibex'' 5 (map (entry_of \<circ> snd) marks_ref)
      (map (entry_of \<circ> snd) marks_core) = Inr s \<and>
    (matched_cnt s, mismatch_cnt s) = counts (updates marks_ref) marks_core"
  by (rule compare_traces_counts) code_simp+

text \<open>When no mismatch is counted.\<close>

lemma until_update_Cons:
  "until_update ms = (c, v) # ms' \<Longrightarrow>
    c \<and> updates ms = v # updates ms' \<and> ms \<noteq> [] \<and> last ms = last ((True, v) # ms')"
  by (induction ms rule: until_update.induct) (auto simp: updates_def split: if_splits)

lemma until_update_Nil: "until_update ms = [] \<longleftrightarrow> updates ms = []"
  by (induction ms rule: until_update.induct) (auto simp: updates_def)

lemma updates_last: "ms \<noteq> [] \<Longrightarrow> fst (last ms) \<Longrightarrow> updates ms \<noteq> []"
  by (auto simp: updates_def filter_empty_conv intro!: bexI[of _ "last ms"])

lemma counts_zero:
  "snd (counts us ms) = 0 \<longleftrightarrow>
     us = updates ms \<or> prefix (updates ms) us \<and> ms \<noteq> [] \<and> fst (last ms)"
proof (induction us ms rule: counts.induct)
  case (1 ms)
  then show ?case using until_update_Nil[of ms] updates_last[of ms] by auto
next
  case (2 u us ms)
  show ?case
  proof (cases "until_update ms")
    case Nil
    then show ?thesis using until_update_Nil[of ms] updates_last[of ms] by auto
  next
    case (Cons cv ms')
    obtain c v where cv: "cv = (c, v)" by (cases cv)
    note m = until_update_Cons[OF Cons[unfolded cv]]
    show ?thesis
    proof (cases "ms' = []")
      case True
      then show ?thesis using m Cons cv by (auto simp: updates_def)
    next
      case False
      then have "snd (counts us ms') = 0 \<longleftrightarrow>
          us = updates ms' \<or> prefix (updates ms') us \<and> ms' \<noteq> [] \<and> fst (last ms')"
        using 2 Cons cv by auto
      then show ?thesis using m Cons cv False by (auto simp: Let_def split: prod.splits)
    qed
  qed
qed

text \<open>
  The comparison passes exactly if the two traces make the same register updates in the
  same order, or if the second makes a proper part of them, from the start, and its last
  instruction is an update.
\<close>

theorem compare_passes:
  assumes "marks trace1 [] = Inr m1" and "marks trace2 [] = Inr m2"
  shows "\<exists>s. compare_traces name1 name2 limit trace1 trace2 = Inr s \<and>
    (mismatch_cnt s = 0 \<longleftrightarrow> updates m1 = updates m2 \<or>
       prefix (updates m2) (updates m1) \<and> m2 \<noteq> [] \<and> fst (last m2))"
  using compare_traces_counts_aux[OF assms, of name1 name2 limit] by (auto simp: counts_zero)

lemma compare_passes_witness:
  "\<exists>s. compare_traces ''spike'' ''ibex'' 5 (map (entry_of \<circ> snd) marks_ref)
      (map (entry_of \<circ> snd) marks_core) = Inr s \<and>
    (mismatch_cnt s = 0 \<longleftrightarrow> updates marks_ref = updates marks_core \<or>
      prefix (updates marks_core) (updates marks_ref) \<and> marks_core \<noteq> [] \<and> fst (last marks_core))"
  by (rule compare_passes) code_simp+

text \<open>
  A core whose trace stops after an update that matches passes: the updates that the
  reference made after it are never looked at.
\<close>

theorem compare_truncated_passes:
  "compare_trace_csv
     (\<lambda>f. start_new_trace @ map write_trace_entry
        (if f = ''spike.csv'' then [entry_of [''a0:1''], entry_of [''a1:2''], entry_of [''a2:3'']]
         else [entry_of [''a0:1'']]))
     ''spike.csv'' ''ibex.csv'' ''spike'' ''ibex'' True 5 False =
   Inr (''[PASSED]: 1 matched'' @ [newline],
     [''spike : spike.csv'' @ [newline], ''ibex : ibex.csv'' @ [newline],
      ''[PASSED]: 1 matched'' @ [newline, newline]])"
  by code_simp

section \<open>The CSV round trip\<close>

definition norm_list :: "string list \<Rightarrow> string list" where
  "norm_list ws = (if ws = [] then [[]] else ws)"

lemma split_join_norm:
  "list_all (\<lambda>w. c \<notin> set w) ws \<Longrightarrow> split_on c (join [c] ws) = norm_list ws"
  by (cases "ws = []") (auto simp: norm_list_def list_all_iff intro!: split_on_join)

text \<open>
  Writing entries to a CSV file and reading the file back gives the same entries, except
  that a list without registers is read as one empty update, which the comparison treats
  alike.
\<close>

theorem trace_csv_roundtrip:
  assumes "list_all (\<lambda>e. list_all (\<lambda>w. CHR '';'' \<notin> set w) (gpr e) \<and>
      list_all (\<lambda>w. CHR '';'' \<notin> set w) (csr e)) es"
  shows "read_trace (start_new_trace @ map write_trace_entry es) =
    Inr (map (\<lambda>e. e\<lparr>gpr := norm_list (gpr e), csr := norm_list (csr e)\<rparr>) es)"
proof -
  have ne: "filter (\<lambda>r. r \<noteq> []) (map write_trace_entry es) = map write_trace_entry es"
    by (auto simp: write_trace_entry_def dict_row_def csv_fields_def filter_id_conv)
  have row: "read_row csv_fields (write_trace_entry e) =
      Inr (e\<lparr>gpr := norm_list (gpr e), csr := norm_list (csr e)\<rparr>)"
    if "list_all (\<lambda>w. CHR '';'' \<notin> set w) (gpr e)" "list_all (\<lambda>w. CHR '';'' \<notin> set w) (csr e)" for e
    using that
    by (simp add: read_row_def cell_def write_trace_entry_def dict_row_def csv_fields_def dget_or_def
      split_join_norm)
  show ?thesis
    using assms unfolding start_new_trace_def
    by (simp add: read_trace_def ne emap_map) (auto simp: list_all_iff intro!: emap_total row)
qed

lemma trace_csv_roundtrip_witness:
  "read_trace (start_new_trace @ map write_trace_entry [entry_of [''a0:1'', ''a1:2''], entry_of []]) =
    Inr (map (\<lambda>e. e\<lparr>gpr := norm_list (gpr e), csr := norm_list (csr e)\<rparr>)
      [entry_of [''a0:1'', ''a1:2''], entry_of []])"
  by (rule trace_csv_roundtrip) code_simp

end
