(* ===== verification/SpikeTrace.thy ===== *)
theory SpikeTrace
  imports TraceCompare
begin

text \<open>
  \<^verbatim>\<open>vendor/google_riscv-dv/scripts/spike_log_to_trace_csv.py\<close>: reading the log of the
  instruction set simulator.  The reader is a state machine over the lines of the log; it is
  shown to compute a direct description of the instructions of the log, and the register
  updates it writes are shown to be ones the comparison accepts.
\<close>

section \<open>The lines of the log\<close>

definition hex_lower :: "char \<Rightarrow> bool" where
  "hex_lower c \<longleftrightarrow> is_digit c \<or> 97 \<le> code c \<and> code c \<le> 102"

definition not_space :: "char \<Rightarrow> bool" where
  "not_space c \<longleftrightarrow> \<not> is_space c"

definition core_prefix :: re where
  "core_prefix = seqs [Lit ''core'', plus is_space, plus is_digit, Lit '':'', plus is_space]"

definition RD_RE :: re where
  "RD_RE = seqs [Opt core_prefix, Grp ''pri'' (one_of is_digit), plus is_space, Lit ''0x'',
     Grp ''addr'' (lazy_plus hex_lower), plus is_space, Lit ''('', Grp ''bin'' (lazy_star any_char),
     Lit '')'', plus is_space,
     Grp ''reg'' (seqs [one_of (\<lambda>c. c = CHR ''x'' \<or> c = CHR ''f''), star is_space, lazy_star is_digit]),
     plus is_space, Lit ''0x'', Grp ''val'' (plus hex_lower),
     Opt (seqs [plus is_space, Grp ''csr'' (plus not_space), plus is_space, Lit ''0x'',
       Grp ''csr_val'' (plus hex_lower)])]"

definition CORE_RE :: re where
  "CORE_RE = seqs [Lit ''core'', plus is_space, plus is_digit, Lit '':'', plus is_space, Lit ''0x'',
     Grp ''addr'' (lazy_plus hex_lower), plus is_space, Lit ''(0x'', Grp ''bin'' (lazy_star any_char),
     Lit '')'', plus is_space, Grp ''instr'' (lazy_star any_char), Eos]"

definition end_trampoline_re :: re where
  "end_trampoline_re = seqs [Lit ''core'', star any_char, Lit '': 0x'', star (\<lambda>c. c = CHR ''0''),
     Lit ''1010 '']"

section \<open>Reading an instruction\<close>

definition jal_imm :: "string \<Rightarrow> lib_error + string" where
  "jal_imm imm =
     (case imm of
        [] \<Rightarrow> Inl Index_error
      | c # cs \<Rightarrow>
          if c = CHR ''-''
          then ebind (of_option (Value_error cs) (read_int 16 cs)) (\<lambda>n. Inr (CHR ''-'' # show_int n))
          else ebind (of_option (Value_error imm) (read_int 16 imm)) (\<lambda>n. Inr (show_int n)))"

definition process_instr :: "trace_entry \<Rightarrow> lib_error + trace_entry" where
  "process_instr trace =
     ebind (if instr trace = ''jal''
            then ebind (jal_imm (after_last CHR '','' (operand trace))) (\<lambda>imm.
              Inr (upto_last CHR '','' (operand trace) @ imm))
            else Inr (operand trace)) (\<lambda>ops.
       Inr (trace\<lparr>operand :=
         (case re_search ADDR_RE ops of
            None \<Rightarrow> ops
          | Some m \<Rightarrow> the_grp m ''rd'' @ '','' @ the_grp m ''rs1'' @ '','' @ the_grp m ''imm'')\<rparr>))"

definition clean_disasm :: "string \<Rightarrow> string" where
  "clean_disasm s = replace ''pc - '' ''-'' (replace ''pc + '' [] s)"

definition read_spike_instr :: "groups \<Rightarrow> bool \<Rightarrow> lib_error + trace_entry" where
  "read_spike_instr m full_trace =
     (let disasm = clean_disasm (the_grp m ''instr'');
          e = new_entry\<lparr>pc := the_grp m ''addr'', instr_str := disasm, binary := the_grp m ''bin''\<rparr>
      in if \<not> full_trace then Inr e
         else let opcode = hd (split_on CHR '' '' disasm);
                  oper = replace '' '' [] (drop (length opcode) disasm)
              in ebind (convert_pseudo_instr opcode oper (binary e)) (\<lambda>(name, ops).
                   process_instr (e\<lparr>instr := name, operand := ops\<rparr>)))"

section \<open>The state machine\<close>

text \<open>What a commit line adds to the instruction in hand.\<close>

definition commit :: "groups \<Rightarrow> trace_entry \<Rightarrow> trace_entry" where
  "commit m e =
     e\<lparr>gpr := gpr e @ [gpr_to_abi (replace '' '' [] (the_grp m ''reg'')) @ '':'' @ the_grp m ''val''],
       csr := csr e @ (if the_grp m ''csr'' \<noteq> [] \<and> the_grp m ''csr_val'' \<noteq> []
                       then [the_grp m ''csr'' @ '':'' @ the_grp m ''csr_val''] else []),
       mode := the_grp m ''pri''\<rparr>"

definition effect_line :: "string \<Rightarrow> trace_entry \<Rightarrow> trace_entry" where
  "effect_line line e = (case re_match RD_RE line of None \<Rightarrow> e | Some m \<Rightarrow> commit m e)"

text \<open>
  The loop of \<open>read_spike_trace\<close>: in the trampoline or not, and the instruction in hand.  The
  entries it yields carry whether the instruction was illegal; \<open>ecall\<close> ends the loop.
\<close>

fun spike_loop :: "bool \<Rightarrow> bool \<Rightarrow> trace_entry option \<Rightarrow> string list \<Rightarrow>
    lib_error + (trace_entry \<times> bool) list" where
  "spike_loop full in_trampoline cur [] =
     Inr (case cur of None \<Rightarrow> [] | Some e \<Rightarrow> [(e, False)])"
| "spike_loop full in_trampoline cur (line # ls) =
     (if in_trampoline then spike_loop full (re_match end_trampoline_re line = None) cur ls
      else case cur of
             None \<Rightarrow>
               (case re_match CORE_RE line of
                  None \<Rightarrow> spike_loop full False None ls
                | Some m \<Rightarrow> ebind (read_spike_instr m full) (\<lambda>e.
                    if instr_str e = ''ecall'' then Inr [(e, False)]
                    else spike_loop full False (Some e) ls))
           | Some e0 \<Rightarrow>
               (case re_match CORE_RE line of
                  Some m \<Rightarrow> ebind (read_spike_instr m full) (\<lambda>e.
                    if instr_str e = ''ecall'' then Inr [(e0, False), (e, False)]
                    else ebind (spike_loop full False (Some e) ls) (\<lambda>ys. Inr ((e0, False) # ys)))
                | None \<Rightarrow>
                    if contains ''trap_illegal_instruction'' line
                    then ebind (spike_loop full False None ls) (\<lambda>ys. Inr ((e0, True) # ys))
                    else spike_loop full False (Some (effect_line line e0)) ls))"

definition read_spike_trace :: "bool \<Rightarrow> string \<Rightarrow> lib_error + (trace_entry \<times> bool) list" where
  "read_spike_trace full_trace log = spike_loop full_trace True None (file_lines log)"

text \<open>The rows written to the CSV file and the number of instructions among them.\<close>

definition keep_entry :: "bool \<Rightarrow> trace_entry \<Rightarrow> bool" where
  "keep_entry full_trace e \<longleftrightarrow> full_trace \<or> gpr e \<noteq> [] \<or> instr_str e \<in> {''wfi'', ''ecall''}"

definition process_spike_sim_log :: "bool \<Rightarrow> string \<Rightarrow> lib_error + nat \<times> string list list" where
  "process_spike_sim_log full_trace log =
     ebind (read_spike_trace full_trace log) (\<lambda>ys.
       let kept = filter (keep_entry full_trace) (map fst ys)
       in Inr (length kept, start_new_trace @ map write_trace_entry kept))"

section \<open>The instructions of a log\<close>

text \<open>
  The direct description: from a line that starts an instruction, the lines up to the next
  instruction or to an illegal-instruction trap are its effects; the trap makes it illegal;
  \<open>ecall\<close> is the last instruction.
\<close>

abbreviation core_line :: "string \<Rightarrow> bool" where
  "core_line l \<equiv> re_match CORE_RE l \<noteq> None"

definition effects_of :: "string list \<Rightarrow> string list" where
  "effects_of ls = takeWhile (\<lambda>l. \<not> core_line l \<and> \<not> contains ''trap_illegal_instruction'' l) ls"

definition after_effects :: "string list \<Rightarrow> string list" where
  "after_effects ls = dropWhile (\<lambda>l. \<not> core_line l \<and> \<not> contains ''trap_illegal_instruction'' l) ls"

lemma effects_simps [simp]:
  "effects_of [] = []" "after_effects [] = []"
  "effects_of (l # ls) =
     (if core_line l \<or> contains ''trap_illegal_instruction'' l then [] else l # effects_of ls)"
  "after_effects (l # ls) =
     (if core_line l \<or> contains ''trap_illegal_instruction'' l then l # ls else after_effects ls)"
  by (simp_all add: effects_of_def after_effects_def)

lemma after_effects_length: "length (after_effects ls) \<le> length ls"
  unfolding after_effects_def by (rule length_dropWhile_le)

fun next_core :: "string list \<Rightarrow> string list" where
  "next_core [] = []"
| "next_core (l # ls) = (if core_line l then l # ls else next_core ls)"

lemma next_core_Cons: "next_core ls = l # rest \<Longrightarrow> core_line l \<and> length rest < length ls"
  by (induction ls) (auto split: if_splits)

function episodes :: "bool \<Rightarrow> string list \<Rightarrow> lib_error + (trace_entry \<times> bool) list" where
  "episodes full ls =
     (case next_core ls of
        [] \<Rightarrow> Inr []
      | l # rest \<Rightarrow>
          ebind (read_spike_instr (the (re_match CORE_RE l)) full) (\<lambda>e.
            if instr_str e = ''ecall'' then Inr [(e, False)]
            else let e' = fold effect_line (effects_of rest) e
                 in case after_effects rest of
                      [] \<Rightarrow> Inr [(e', False)]
                    | l' # rest' \<Rightarrow>
                        if core_line l' then ebind (episodes full (l' # rest')) (\<lambda>ys. Inr ((e', False) # ys))
                        else ebind (episodes full rest') (\<lambda>ys. Inr ((e', True) # ys))))"
  by pat_completeness auto
termination
proof (relation "measure (length \<circ> snd)")
  fix full ls l rest e e' l' rest'
  assume a: "next_core ls = l # rest" "after_effects rest = l' # rest'"
  then have "length (l' # rest') \<le> length rest" using after_effects_length[of rest] by simp
  then show "((full, l' # rest'), full, ls) \<in> measure (length \<circ> snd)"
    "((full, rest'), full, ls) \<in> measure (length \<circ> snd)"
    using next_core_Cons[OF a(1)] by auto
qed auto

declare episodes.simps [simp del]

lemma spike_loop_some:
  "spike_loop full False (Some e) ls =
     (case after_effects ls of
        [] \<Rightarrow> Inr [(fold effect_line (effects_of ls) e, False)]
      | l' # rest' \<Rightarrow>
          if core_line l'
          then ebind (spike_loop full False None (l' # rest')) (\<lambda>ys.
                 Inr ((fold effect_line (effects_of ls) e, False) # ys))
          else ebind (spike_loop full False None rest') (\<lambda>ys.
                 Inr ((fold effect_line (effects_of ls) e, True) # ys)))"
proof (induction ls arbitrary: e)
  case Nil
  then show ?case by simp
next
  case (Cons line ls)
  show ?case
  proof (cases "core_line line")
    case True
    then obtain m where "re_match CORE_RE line = Some m" by auto
    then show ?thesis
      by (auto simp: ebind_assoc intro!: ebind_cong)
  next
    case False
    show ?thesis
    proof (cases "contains ''trap_illegal_instruction'' line")
      case True
      then show ?thesis using False by simp
    next
      case trap: False
      have "fold effect_line (effects_of (line # ls)) e = fold effect_line (effects_of ls) (effect_line line e)"
        "after_effects (line # ls) = after_effects ls" using False trap by simp_all
      then show ?thesis using False trap Cons.IH by (simp only: spike_loop.simps) simp
    qed
  qed
qed

lemma spike_loop_skip:
  "spike_loop full False None ls = spike_loop full False None (next_core ls)"
  by (induction ls) auto

lemma spike_loop_episodes: "spike_loop full False None ls = episodes full ls"
proof (induction full ls rule: episodes.induct)
  case (1 full ls)
  show ?case
  proof (cases "next_core ls")
    case Nil
    then show ?thesis by (simp add: episodes.simps[of full ls] spike_loop_skip[of full ls])
  next
    case (Cons l rest)
    obtain m where c: "re_match CORE_RE l = Some m" using next_core_Cons[OF Cons] by auto
    show ?thesis
      unfolding spike_loop_skip[of full ls] episodes.simps[of full ls] Cons
      using c 1[OF Cons]
      by (auto simp: spike_loop_some Let_def intro!: ebind_cong split: list.splits)
  qed
qed

lemma spike_loop_trampoline:
  "spike_loop full True None ls =
     episodes full (drop 1 (dropWhile (\<lambda>l. re_match end_trampoline_re l = None) ls))"
  by (induction ls) (auto simp: spike_loop_episodes episodes.simps[of full "[]"])

text \<open>
  C23. The state machine of \<open>read_spike_trace\<close> yields exactly the instructions of the log after
  the trampoline, each with the effects logged for it, and it fails exactly if the reading of
  one of them fails.
\<close>

theorem read_spike_trace_episodes:
  "read_spike_trace full log =
     episodes full (drop 1 (dropWhile (\<lambda>l. re_match end_trampoline_re l = None) (file_lines log)))"
  by (simp add: read_spike_trace_def spike_loop_trampoline)

section \<open>The updates are well formed\<close>

definition good_update :: "string \<Rightarrow> bool" where
  "good_update u \<longleftrightarrow> (\<exists>r v. u = r @ '':'' @ v \<and> CHR '':'' \<notin> set r \<and> v \<noteq> [] \<and> list_all hex_lower v)"

definition good_entry :: "trace_entry \<Rightarrow> bool" where
  "good_entry e \<longleftrightarrow> list_all good_update (gpr e)"

lemma hex_lower_digit:
  assumes "hex_lower c"
  shows "\<exists>d < 16. digit_val c = Some d" "code c \<noteq> 95" "\<not> is_space c" "c \<noteq> CHR ''-''" "c \<noteq> CHR ''+''"
    "c \<noteq> CHR ''x''" "c \<noteq> CHR ''X''" "c \<noteq> CHR '':''"
  using assms by (auto simp: hex_lower_def is_digit_def digit_val_def is_lower_def is_space_def)

lemma read_digits_hex: "list_all hex_lower v \<Longrightarrow> \<exists>n. read_digits 16 True acc v = Some n"
proof (induction v arbitrary: acc)
  case Nil
  then show ?case by simp
next
  case (Cons c cs)
  then obtain d where "d < 16" "digit_val c = Some d" using hex_lower_digit(1)[of c] by auto
  then show ?case using Cons hex_lower_digit(2)[of c] by auto
qed

lemma read_int_hex_lower:
  assumes "list_all hex_lower v" "v \<noteq> []"
  shows "\<exists>n. read_int 16 v = Some n"
proof -
  obtain c cs where v: "v = c # cs" using assms(2) by (cases v) auto
  have all: "\<forall>x \<in> set v. hex_lower x" using assms(1) by (simp add: list_all_iff)
  have "\<exists>n. read_digits 16 False 0 v = Some n"
    using read_digits_hex[of cs] assms(1) hex_lower_digit(1)[of c] hex_lower_digit(2)[of c] v by auto
  moreover have "drop_base_prefix 16 v = v"
  proof -
    have "length v > 1 \<Longrightarrow> v ! 1 \<noteq> CHR ''x'' \<and> v ! 1 \<noteq> CHR ''X''"
      using all hex_lower_digit(6,7)[of "v ! 1"] by auto
    then show ?thesis unfolding drop_base_prefix_def by metis
  qed
  moreover have "strip v = v" using all hex_lower_digit(3) by (intro strip_id) blast
  ultimately show ?thesis
    using v all hex_lower_digit(4,5)[of c] by (auto simp: read_int_def read_nat_def)
qed

lemma update_loop_good:
  "list_all good_update us \<Longrightarrow> \<exists>r. update_loop us ch g = Inr r"
proof (induction us arbitrary: ch g)
  case Nil
  then show ?case by simp
next
  case (Cons u us)
  then obtain r v where u: "u = r @ '':'' @ v" "CHR '':'' \<notin> set r" "v \<noteq> []" "list_all hex_lower v"
    by (auto simp: good_update_def)
  have "CHR '':'' \<notin> set v" using u(4) hex_lower_digit(8) by (auto simp: list_all_iff)
  then have "split_on CHR '':'' u = [r, v]" using u(1,2) by (simp add: split_on_append split_on_absent)
  moreover obtain n where "read_int 16 v = Some n" using read_int_hex_lower[OF u(4,3)] by blast
  ultimately show ?case using Cons u(1) by (auto split: option.splits)
qed

lemma marks_good:
  "list_all good_entry es \<Longrightarrow> \<exists>m. marks es g = Inr m"
proof (induction es arbitrary: g)
  case Nil
  then show ?case by simp
next
  case (Cons e es)
  obtain ch g' where "check_update_gpr (gpr e) g = Inr (ch, g')"
    using update_loop_good[of "gpr e" False g] Cons.prems by (auto simp: check_update_gpr_def good_entry_def)
  then show ?case using Cons.IH[of g'] Cons.prems by auto
qed

lemma gpr_to_abi_no_colon: "CHR '':'' \<notin> set (gpr_to_abi r)"
proof -
  have "list_all (\<lambda>p. CHR '':'' \<notin> set (snd p)) gpr_switcher" by code_simp
  then show ?thesis
    by (fastforce simp: gpr_to_abi_def dget_or_def list_all_iff dest: map_of_SomeD split: option.splits)
qed

lemma the_grp_over:
  assumes "re_match r s = Some g" "group_over name c least r" "grp g name \<noteq> None"
  shows "list_all c (the_grp g name) \<and> least \<le> length (the_grp g name)"
  using re_match_group[OF assms(1,2)] assms(3) by (auto simp: the_grp_def)

text \<open>The groups that a commit line always has.\<close>

lemma run_seqs_Cons: "run (seqs (r # rs)) p = run (Seq r (seqs rs)) p"
  by (simp add: seqs_def)

fun has_group :: "string \<Rightarrow> re \<Rightarrow> bool" where
  "has_group name (Seq r s) \<longleftrightarrow> has_group name r \<or> has_group name s"
| "has_group name (Alt r s) \<longleftrightarrow> has_group name r \<and> has_group name s"
| "has_group name (Grp n r) \<longleftrightarrow> n = name \<or> has_group name r"
| "has_group name _ \<longleftrightarrow> False"

lemma has_group_run:
  "has_group name r \<Longrightarrow> (g, q) \<in> set (run r p) \<Longrightarrow> name \<in> fst ` set g"
proof (induction r arbitrary: p g q)
  case (Seq r s)
  then obtain g1 q1 g2 where m: "(g1, q1) \<in> set (run r p)" "(g2, q) \<in> set (run s q1)" "g = g1 @ g2"
    by auto
  show ?case using Seq.IH(1)[OF _ m(1)] Seq.IH(2)[OF _ m(2)] Seq.prems(1) m(3) by auto
next
  case (Alt r s)
  then have "(g, q) \<in> set (run r p) \<or> (g, q) \<in> set (run s p)" by simp
  then show ?case using Alt.IH(1)[of g q p] Alt.IH(2)[of g q p] Alt.prems by (simp, argo)
next
  case (Grp n r)
  then obtain g' where g': "(g', q) \<in> set (run r p)"
      "g = g' @ [(n, take (length (snd p) - length (snd q)) (snd p))]"
    by auto
  show ?case using Grp.IH[OF _ g'(1)] Grp.prems(1) g'(2) by auto
qed auto

lemma re_match_has_group: "re_match r s = Some g \<Longrightarrow> has_group name r \<Longrightarrow> grp g name \<noteq> None"
  using re_match_run[of r s g] has_group_run[of name r g] by (auto simp: grp_def map_of_eq_None_iff)

lemma re_search_has_group: "re_search r s = Some g \<Longrightarrow> has_group name r \<Longrightarrow> grp g name \<noteq> None"
  using search_from_run[of r None s g] has_group_run[of name r g]
  by (auto simp: grp_def re_search_def map_of_eq_None_iff)

lemma good_update_abi:
  "list_all hex_lower v \<Longrightarrow> 1 \<le> length v \<Longrightarrow> good_update (gpr_to_abi r @ '':'' @ v)"
  using gpr_to_abi_no_colon[of r] unfolding good_update_def
  by (intro exI[of _ "gpr_to_abi r"] exI[of _ v]) auto

lemma effect_line_good: "good_entry e \<Longrightarrow> good_entry (effect_line line e)"
proof (cases "re_match RD_RE line")
  case (Some m)
  assume e: "good_entry e"
  have g: "group_over ''val'' hex_lower 1 RD_RE" "has_group ''val'' RD_RE"
    by (simp_all add: RD_RE_def core_prefix_def seqs_def re_classes)
  have "list_all hex_lower (the_grp m ''val'') \<and> 1 \<le> length (the_grp m ''val'')"
    using the_grp_over[OF Some g(1) re_match_has_group[OF Some g(2)]] .
  then show ?thesis
    using e Some good_update_abi by (simp add: effect_line_def commit_def good_entry_def)
qed (simp add: effect_line_def)

lemma read_spike_instr_good: "read_spike_instr m full = Inr e \<Longrightarrow> good_entry e"
  by (auto simp: read_spike_instr_def process_instr_def new_entry_def good_entry_def Let_def raise_simps
    split: if_splits)

lemma fold_effects_good: "good_entry e \<Longrightarrow> good_entry (fold effect_line ls e)"
  by (induction ls arbitrary: e) (auto simp: effect_line_good)

lemma episodes_good:
  "episodes full ls = Inr ys \<Longrightarrow> list_all (\<lambda>y. good_entry (fst y)) ys"
proof (induction full ls arbitrary: ys rule: episodes.induct)
  case (1 full ls)
  show ?case
  proof (cases "next_core ls")
    case Nil
    then show ?thesis using 1(3) by (simp add: episodes.simps[of full ls])
  next
    case (Cons l rest)
    obtain e where e: "read_spike_instr (the (re_match CORE_RE l)) full = Inr e" "good_entry e"
      using 1(3) Cons read_spike_instr_good by (auto simp: episodes.simps[of full ls] raise_simps)
    note f = fold_effects_good[OF e(2)]
    show ?thesis
    proof (cases "instr_str e = ''ecall''")
      case True
      then show ?thesis using 1(3) Cons e by (auto simp: episodes.simps[of full ls])
    next
      case False
      show ?thesis
        using 1(3) 1(1)[OF Cons e(1) False refl] 1(2)[OF Cons e(1) False refl] Cons e False f
        by (cases "after_effects rest") (auto simp: episodes.simps[of full ls] raise_simps Let_def split: if_splits)
    qed
  qed
qed

text \<open>
  The comparison never stops on the register updates of a log that was read: every
  update of every entry has the form it expects, whatever the log holds.
\<close>

theorem spike_updates_accepted:
  assumes "read_spike_trace full log = Inr ys"
  shows "\<exists>m. marks (map fst ys) [] = Inr m"
proof -
  have "list_all good_entry (map fst ys)"
    using assms episodes_good
    by (auto simp: read_spike_trace_def spike_loop_trampoline list_all_iff)
  then show ?thesis by (rule marks_good)
qed

definition small_log :: string where
  "small_log = ''core   0: 0x00001010 (0x00028067) jr t0'' @ [newline] @
     ''core   0: 0x80000000 (0x00150513) addi a0, a0, 1'' @ [newline] @
     ''3 0x80000000 (0x00150513) x10 0x00000001'' @ [newline] @
     ''core   0: 0x80000004 (0x00000073) ecall'' @ [newline]"

lemma spike_updates_accepted_witness:
  "\<exists>m. marks (map fst
     [(new_entry\<lparr>gpr := [''a0:00000001''], instr := ''addi'', operand := ''a0,a0,1'', pc := ''80000000'',
         binary := ''00150513'', instr_str := ''addi a0, a0, 1'', mode := ''3''\<rparr>, False),
      (new_entry\<lparr>instr := ''ecall'', pc := ''80000004'', binary := ''00000073'',
         instr_str := ''ecall''\<rparr>, False)]) [] = Inr m"
  by (rule spike_updates_accepted[where full = True and log = small_log]) code_simp

end
