(* ===== verification/Shlex.thy ===== *)
theory Shlex
  imports PyStr
begin

text \<open>
  The two functions of Python's \<open>shlex\<close> module that the scripts use: \<open>quote\<close> and
  \<open>split\<close> (POSIX mode, no comments).  The contract between a script that prints a
  command line and the shell or script that reads it back is the locale
  \<open>command_line\<close>: splitting the quoted words joined by spaces gives the words.
\<close>

section \<open>Quoting\<close>

definition safe_char :: "char \<Rightarrow> bool" where
  "safe_char c \<longleftrightarrow> is_word c \<or> c \<in> set ''@%+=:,./-''"

definition single_quote :: char where "single_quote = CHR 0x27"
definition double_quote :: char where "double_quote = CHR 0x22"
definition backslash :: char where "backslash = CHR 0x5C"

text \<open>\<open>"'" + s.replace("'", "'\"'\"'") + "'"\<close>: a quote inside the text closes the quotation,
  is written between double quotes, and opens it again.\<close>

fun quote_body :: "string \<Rightarrow> string" where
  "quote_body [] = []"
| "quote_body (c # cs) =
     (if c = single_quote
      then [single_quote, double_quote, single_quote, double_quote, single_quote] @ quote_body cs
      else c # quote_body cs)"

definition quote :: "string \<Rightarrow> string" where
  "quote s =
     (if s = [] then [single_quote, single_quote]
      else if list_all safe_char s then s
      else [single_quote] @ quote_body s @ [single_quote])"

section \<open>Splitting\<close>

datatype shlex_error = No_closing_quotation | No_escaped_character

text \<open>The lexer's state: between words, inside a word, inside a quotation, after a backslash
  (with the quotation it occurred in, if any).\<close>

datatype lexer = Between | In_word | In_quote char | Escaped "char option"

definition shlex_space :: "char \<Rightarrow> bool" where
  "shlex_space c \<longleftrightarrow> c = CHR '' '' \<or> c = CHR 0x09 \<or> c = CHR 0x0D \<or> c = CHR 0x0A"

definition quote_char :: "char \<Rightarrow> bool" where
  "quote_char c \<longleftrightarrow> c = single_quote \<or> c = double_quote"

fun lex :: "lexer \<Rightarrow> string \<Rightarrow> string \<Rightarrow> shlex_error + string list" where
  "lex Between tok [] = Inr []"
| "lex Between tok (c # cs) =
     (if shlex_space c then lex Between [] cs
      else if c = backslash then lex (Escaped None) [] cs
      else if quote_char c then lex (In_quote c) [] cs
      else lex In_word [c] cs)"
| "lex In_word tok [] = Inr [tok]"
| "lex In_word tok (c # cs) =
     (if shlex_space c then ebind (lex Between [] cs) (\<lambda>ws. Inr (tok # ws))
      else if quote_char c then lex (In_quote c) tok cs
      else if c = backslash then lex (Escaped None) tok cs
      else lex In_word (tok @ [c]) cs)"
| "lex (In_quote q) tok [] = Inl No_closing_quotation"
| "lex (In_quote q) tok (c # cs) =
     (if c = q then lex In_word tok cs
      else if c = backslash \<and> q = double_quote then lex (Escaped (Some q)) tok cs
      else lex (In_quote q) (tok @ [c]) cs)"
| "lex (Escaped e) tok [] = Inl No_escaped_character"
| "lex (Escaped None) tok (c # cs) = lex In_word (tok @ [c]) cs"
| "lex (Escaped (Some q)) tok (c # cs) =
     lex (In_quote q) (if c \<noteq> backslash \<and> c \<noteq> q then tok @ [backslash, c] else tok @ [c]) cs"

definition shlex_split :: "string \<Rightarrow> shlex_error + string list" where
  "shlex_split s = lex Between [] s"

section \<open>Splitting undoes quoting\<close>

lemmas shlex_chars = single_quote_def double_quote_def backslash_def

lemma safe_char_not_special:
  "safe_char c \<Longrightarrow> \<not> shlex_space c \<and> \<not> quote_char c \<and> c \<noteq> backslash"
proof -
  assume s: "safe_char c"
  have "\<not> safe_char d" if "d \<in> {CHR '' '', CHR 0x09, CHR 0x0D, CHR 0x0A, single_quote,
      double_quote, backslash}" for d
    using that by (auto simp: safe_char_def is_word_def is_digit_def is_lower_def is_upper_def
      shlex_chars)
  then show ?thesis using s by (auto simp: shlex_space_def quote_char_def)
qed

lemma lex_safe: "list_all safe_char w \<Longrightarrow> lex In_word tok (w @ s) = lex In_word (tok @ w) s"
  by (induction w arbitrary: tok) (auto dest: safe_char_not_special)

lemma lex_quote_body:
  "lex (In_quote single_quote) tok (quote_body w @ single_quote # s) = lex In_word (tok @ w) s"
proof (induction w arbitrary: tok)
  case Nil
  show ?case by simp
next
  case (Cons c w)
  then show ?case
    by (cases "c = single_quote") (auto simp: shlex_chars quote_char_def shlex_space_def)
qed

lemma lex_quote: "lex Between [] (quote w @ s) = lex In_word w s"
proof -
  consider "w = []" | "w \<noteq> []" "list_all safe_char w" | "w \<noteq> []" "\<not> list_all safe_char w"
    by blast
  then show ?thesis
  proof cases
    case 1
    then show ?thesis by (simp add: quote_def shlex_chars quote_char_def shlex_space_def)
  next
    case 2
    then obtain c cs where w: "w = c # cs" by (cases w) auto
    then have "\<not> shlex_space c \<and> \<not> quote_char c \<and> c \<noteq> backslash"
      using 2 by (auto dest: safe_char_not_special)
    then show ?thesis using 2 w lex_safe[of cs "[c]" s] by (simp add: quote_def)
  next
    case 3
    then have "lex Between [] (quote w @ s) =
        lex (In_quote single_quote) [] (quote_body w @ single_quote # s)"
      by (simp add: quote_def quote_char_def) (simp add: shlex_chars shlex_space_def)
    then show ?thesis using lex_quote_body[of "[]"] by simp
  qed
qed

lemma lex_quoted_words: "lex Between [] (join '' '' (map quote ws)) = Inr ws"
proof (induction ws)
  case Nil
  then show ?case by simp
next
  case (Cons w ws)
  show ?case
  proof (cases ws)
    case Nil
    then show ?thesis using lex_quote[of w "[]"] by simp
  next
    case (Cons v vs)
    then have "join '' '' (map quote (w # ws)) = quote w @ CHR '' '' # join '' '' (map quote ws)"
      by simp
    then show ?thesis using Cons.IH by (simp add: lex_quote shlex_space_def)
  qed
qed

section \<open>The contract between the writer and the reader of a command line\<close>

locale command_line =
  fixes quote_word :: "string \<Rightarrow> string"
    and split_line :: "string \<Rightarrow> 'e + string list"
  assumes split_quoted: "split_line (join '' '' (map quote_word ws)) = Inr ws"
begin

definition render :: "string list \<Rightarrow> string" where
  "render ws = join '' '' (map quote_word ws)"

lemma split_render: "split_line (render ws) = Inr ws"
  by (simp add: render_def split_quoted)

lemma render_inject: "render ws = render vs \<longleftrightarrow> ws = vs"
  by (metis split_render sum.inject(2))

lemma quote_word_inject: "quote_word w = quote_word v \<longleftrightarrow> w = v"
  using render_inject[of "[w]" "[v]"] by (simp add: render_def)

end

interpretation sh: command_line quote shlex_split
  by unfold_locales (simp add: shlex_split_def lex_quoted_words)

end
