(* ===== verification/PyPath.thy ===== *)
theory PyPath
  imports PyStr
begin

text \<open>
  The paths of the scripts: \<^verbatim>\<open>pathlib\<close> paths, which are normalised when they are made, and
  the string functions of \<^verbatim>\<open>os.path\<close>.
\<close>

section \<open>pathlib\<close>

text \<open>Absolute or not, and the components; empty and dot components are dropped.\<close>

datatype path = Path bool "string list"

definition components :: "string \<Rightarrow> string list" where
  "components s = filter (\<lambda>w. w \<noteq> [] \<and> w \<noteq> ''.'') (split_on CHR ''/'' s)"

definition path_of :: "string \<Rightarrow> path" where
  "path_of s = Path (take 1 s = ''/'') (components s)"

fun path_str :: "path \<Rightarrow> string" where
  "path_str (Path absolute ps) =
     (if absolute then CHR ''/'' # join ''/'' ps
      else if ps = [] then ''.'' else join ''/'' ps)"

text \<open>\<open>p / q\<close>\<close>

fun path_join :: "path \<Rightarrow> path \<Rightarrow> path" where
  "path_join (Path a ps) (Path b qs) = (if b then Path b qs else Path a (ps @ qs))"

definition child_of :: "path \<Rightarrow> string \<Rightarrow> path" where
  "child_of p s = path_join p (path_of s)"

fun parent :: "path \<Rightarrow> path" where
  "parent (Path a ps) = Path a (butlast ps)"

fun path_name :: "path \<Rightarrow> string" where
  "path_name (Path a ps) = (if ps = [] then [] else last ps)"

fun relative_to :: "path \<Rightarrow> path \<Rightarrow> path option" where
  "relative_to (Path a ps) (Path b qs) =
     (if a = b \<and> prefix qs ps then Some (Path False (drop (length qs) ps)) else None)"

definition component_ok :: "string \<Rightarrow> bool" where
  "component_ok w \<longleftrightarrow> w \<noteq> [] \<and> w \<noteq> ''.'' \<and> CHR ''/'' \<notin> set w"

fun path_ok :: "path \<Rightarrow> bool" where
  "path_ok (Path a ps) = list_all component_ok ps"

lemma components_ok: "list_all component_ok (components s)"
  using split_on_no_sep[of _ "CHR ''/''" s] by (auto simp: components_def component_ok_def list_all_iff)

lemma path_of_ok [simp]: "path_ok (path_of s)"
  by (simp add: path_of_def components_ok)

lemma path_join_ok [simp]: "path_ok p \<Longrightarrow> path_ok q \<Longrightarrow> path_ok (path_join p q)"
  by (cases p; cases q) auto

lemma child_of_ok [simp]: "path_ok p \<Longrightarrow> path_ok (child_of p s)"
  by (simp add: child_of_def)

lemma components_join: "list_all component_ok ps \<Longrightarrow> components (join ''/'' ps) = ps"
  by (cases "ps = []")
    (auto simp: components_def split_on_join component_ok_def list_all_iff filter_id_conv)

lemma join_first: "list_all component_ok ps \<Longrightarrow> take 1 (join ''/'' ps) \<noteq> ''/''"
proof (cases ps)
  case (Cons w ws)
  assume "list_all component_ok ps"
  then obtain c cs where "w = c # cs" "c \<noteq> CHR ''/''"
    using Cons by (cases w) (auto simp: component_ok_def)
  then show ?thesis using Cons by (cases ws) auto
qed simp

text \<open>A path reads back from its text.\<close>

lemma path_of_str: "path_ok p \<Longrightarrow> path_of (path_str p) = p"
proof (cases p)
  case (Path a ps)
  assume "path_ok p"
  then have ok: "list_all component_ok ps" using Path by simp
  have slash: "components (CHR ''/'' # join ''/'' ps) = components (join ''/'' ps)"
    by (simp add: components_def)
  show ?thesis
    using ok slash join_first[OF ok]
    by (auto simp: Path path_of_def components_join) (auto simp: components_def)
qed

lemma path_str_inj: "path_ok p \<Longrightarrow> path_ok q \<Longrightarrow> path_str p = path_str q \<Longrightarrow> p = q"
  by (metis path_of_str)

lemma child_of_component: "component_ok w \<Longrightarrow> child_of (Path a ps) w = Path a (ps @ [w])"
  by (cases w) (auto simp: child_of_def path_of_def components_def component_ok_def split_on_absent)

lemma child_of_inj:
  assumes "component_ok v" "component_ok w" "child_of p v = child_of p w"
  shows "v = w"
  using assms by (cases p) (simp add: child_of_component)

section \<open>os.path\<close>

definition os_join :: "string \<Rightarrow> string \<Rightarrow> string" where
  "os_join a b =
     (if take 1 b = ''/'' then b
      else if a = [] \<or> last a = CHR ''/'' then a @ b else a @ ''/'' @ b)"

text \<open>The normalisation of an absolute path: \<open>..\<close> removes the component before it.\<close>

definition norm_step :: "string \<Rightarrow> string list \<Rightarrow> string list" where
  "norm_step w ps = (if w = ''..'' then butlast ps else ps @ [w])"

text \<open>Two slashes at the start, and no more than two, are kept.\<close>

definition leading_slashes :: "string \<Rightarrow> string" where
  "leading_slashes s = (if take 2 s = ''//'' \<and> take 3 s \<noteq> ''///'' then ''//'' else ''/'')"

definition abspath :: "string \<Rightarrow> string \<Rightarrow> string" where
  "abspath cwd s =
     (let full = os_join cwd s
      in leading_slashes full @ join ''/'' (fold norm_step (components full) []))"

end
