(* ===== verification/ScriptsLib.thy ===== *)
theory ScriptsLib
  imports Shlex PyVal PyPath
begin

text \<open>
  \<^verbatim>\<open>dv/uvm/core_ibex/scripts/scripts_lib.py\<close>: running a command, formatting values and
  commands, substituting template parameters, printing a dictionary, and the objects that
  the steps of a regression pass on through files, with the contract of such a store.
\<close>

datatype script_error =
    Runtime_error string
  | Type_error string
  | Key_error string
  | Value_error string
  | Index_error
  | Assertion_error
  | Timeout_expired
  | Sys_exit int
  | Os_error string

text \<open>A value that reaches the formatting functions: one from YAML, or a path.\<close>

datatype fmt_value = Val pyval | PathV path

section \<open>Formatting\<close>

definition format_to_str :: "(path \<Rightarrow> path) \<Rightarrow> fmt_value \<Rightarrow> script_error + string" where
  "format_to_str resolve arg =
     (case arg of
        PathV p \<Rightarrow> Inr (path_str (resolve p))
      | Val v \<Rightarrow>
          if is_int v \<or> is_str v then Inr (py_str v)
          else if v = PNone then Inr []
          else Inl (Type_error ''Couldn't format element to str!''))"

definition format_to_cmd :: "(path \<Rightarrow> path) \<Rightarrow> fmt_value list \<Rightarrow> script_error + string list" where
  "format_to_cmd resolve input_arg =
     emap (\<lambda>item. case format_to_str resolve item of
             Inl _ \<Rightarrow> Inl (Runtime_error ''Can't format item to str when constructing a cmd'')
           | Inr s \<Rightarrow> Inr s) input_arg"

definition yaml_multiline_chars :: "char list" where
  "yaml_multiline_chars = [CHR ''['', CHR '']'', CHR '':'', CHR 0x27, CHR 0x22, newline]"

definition yaml_value_format :: "pyval \<Rightarrow> string" where
  "yaml_value_format val =
     (case val of
        PStr s \<Rightarrow>
          if list_ex (\<lambda>c. c \<in> set s) yaml_multiline_chars
          then ''|-'' @ [newline] @ join [newline] (map (\<lambda>line. ''  '' @ line) (split_on newline s))
          else s
      | PNone \<Rightarrow> []
      | v \<Rightarrow> py_str v)"

definition pprint_line :: "nat \<Rightarrow> string \<times> pyval \<Rightarrow> string" where
  "pprint_line klen kv =
     fst kv @ '':'' @ replicate (klen - length (fst kv)) CHR '' '' @ '' '' @
     yaml_value_format (snd kv) @ [newline]"

definition key_width :: "(string \<times> pyval) list \<Rightarrow> nat" where
  "key_width d = foldl (\<lambda>n kv. max n (length (fst kv))) 1 d"

definition pprint_dict :: "(string \<times> pyval) list \<Rightarrow> string" where
  "pprint_dict d = concat (map (pprint_line (key_width d)) d)"

text \<open>\<open>str\<close> of a value that has no other form; the paths inside a list are resolved.\<close>

datatype field_value = Field fmt_value | Field_list "fmt_value list" | Field_other string

definition format_field :: "(path \<Rightarrow> path) \<Rightarrow> field_value \<Rightarrow> string" where
  "format_field resolve f =
     (case f of
        Field (Val (PDict d)) \<Rightarrow> py_str (PDict d)
      | Field (Val (PList vs)) \<Rightarrow>
          (case emap (\<lambda>v. format_to_str resolve (Val v)) vs of
             Inr ws \<Rightarrow> join '' '' ws | Inl _ \<Rightarrow> py_str (PList vs))
      | Field v \<Rightarrow> (case format_to_str resolve v of Inr s \<Rightarrow> s | Inl _ \<Rightarrow> [])
      | Field_list vs \<Rightarrow>
          (case emap (format_to_str resolve) vs of
             Inr ws \<Rightarrow> join '' '' ws | Inl _ \<Rightarrow> [])
      | Field_other s \<Rightarrow> s)"

definition format_dict_to_printable_dict :: "(path \<Rightarrow> path) \<Rightarrow> (string \<times> field_value) list \<Rightarrow>
    (string \<times> string) list" where
  "format_dict_to_printable_dict resolve arg = map (\<lambda>(k, v). (k, format_field resolve v)) arg"

section \<open>Template parameters\<close>

definition parameter_format :: "string \<Rightarrow> string" where
  "parameter_format name = ''<'' @ name @ ''>''"

definition subst_opt :: "string \<Rightarrow> string \<Rightarrow> string \<Rightarrow> string" where
  "subst_opt s name replacement =
     (if contains (parameter_format name) s then replace (parameter_format name) replacement s else s)"

definition subst_value :: "(path \<Rightarrow> path) \<Rightarrow> string + path \<Rightarrow> string" where
  "subst_value resolve v = (case v of Inl s \<Rightarrow> s | Inr p \<Rightarrow> path_str (resolve p))"

definition subst_dict :: "(path \<Rightarrow> path) \<Rightarrow> string \<Rightarrow> (string \<times> (string + path)) list \<Rightarrow> string" where
  "subst_dict resolve s var_dict =
     foldl (\<lambda>s kv. subst_opt s (fst kv) (subst_value resolve (snd kv))) s var_dict"

definition subst_env_vars :: "(string \<rightharpoonup> string) \<Rightarrow> string \<Rightarrow> string list \<Rightarrow> script_error + string" where
  "subst_env_vars environ s env_vars =
     efold (\<lambda>var s. ebind (of_option (Runtime_error (''Cannot substitute '' @ var @ '' in command because '' @
         ''the environment variable $'' @ var @ '' is not set.'')) (environ var))
       (\<lambda>value. Inr (subst_opt s var value))) env_vars s"

section \<open>Running a command\<close>

text \<open>
  Where the streams of the command go: a file object has a name and takes text or is binary.
  What the command does: it ends with a status, it cannot be run, or it runs out of time.
\<close>

datatype redirect = No_redirect | Redirect_str string | Redirect_path path | Redirect_file string bool

datatype ran = Returned int | Os_failed string | Timed_out

record run_report =
  status :: "script_error + int"
  stderr_lines :: "string list"
  dest_lines :: "string list"
  closed :: bool

definition redirect_word :: "redirect \<Rightarrow> string" where
  "redirect_word r =
     (case r of
        No_redirect \<Rightarrow> []
      | Redirect_str s \<Rightarrow> ''>'' @ quote s
      | Redirect_path p \<Rightarrow> ''>>'' @ quote (path_name p)
      | Redirect_file name is_text \<Rightarrow> ''>>'' @ quote name)"

definition cmd_line :: "string list \<Rightarrow> string" where
  "cmd_line cmd = join '' '' (map quote cmd)"

definition echo_line :: "string list \<Rightarrow> redirect \<Rightarrow> string" where
  "echo_line cmd r =
     ''+ '' @ cmd_line cmd @ (if r = No_redirect then [] else '' '' @ redirect_word r @ '' 2>&1'')"

definition run_status :: "bool \<Rightarrow> ran \<Rightarrow> script_error + int" where
  "run_status reraise outcome =
     (case outcome of
        Returned rc \<Rightarrow> Inr rc
      | Os_failed _ \<Rightarrow> Inr 1
      | Timed_out \<Rightarrow> if reraise then Inl Timeout_expired else Inr 1)"

definition bad_redirect :: "redirect \<Rightarrow> string option" where
  "bad_redirect r = (case r of Redirect_str s \<Rightarrow> if s = ''/dev/null'' then None else Some s | _ \<Rightarrow> None)"

text \<open>A path is opened for bytes, so the line is echoed into text files only.\<close>

definition run_one :: "bool \<Rightarrow> string list \<Rightarrow> redirect \<Rightarrow> bool \<Rightarrow> ran \<Rightarrow> run_report" where
  "run_one verbose cmd r reraise outcome =
     (case bad_redirect r of
        Some s \<Rightarrow>
          \<lparr>status = Inl (Runtime_error (''redirect_stdstream called as '' @ s @
             '' but that argument is invalid.'')),
           stderr_lines = [], dest_lines = [], closed = False\<rparr>
      | None \<Rightarrow>
          \<lparr>status = run_status reraise outcome,
           stderr_lines = (if verbose then [echo_line cmd r] else []),
           dest_lines = (case r of
               Redirect_file name is_text \<Rightarrow> if verbose \<and> is_text then [echo_line cmd r] else []
             | _ \<Rightarrow> []),
           closed = (case r of Redirect_path _ \<Rightarrow> True | _ \<Rightarrow> False)\<rparr>)"

text \<open>
  The loop of the steps over their commands: it stops at the first command that does not
  return zero and returns its status.
\<close>

fun run_all :: "(string list \<Rightarrow> script_error + int) \<Rightarrow> string list list \<Rightarrow> script_error + int" where
  "run_all run [] = Inr 0"
| "run_all run (cmd # cmds) = ebind (run cmd) (\<lambda>rc. if rc \<noteq> 0 then Inr rc else run_all run cmds)"

section \<open>Objects in files\<close>

text \<open>
  The files the objects are kept in: pickles hold the object, yaml files a text for people.
\<close>

record 'a store =
  pickles :: "(path, 'a) pydict"
  yamls :: "(path, string) pydict"

definition construct_from_pickle :: "'a store \<Rightarrow> path \<Rightarrow> script_error + 'a" where
  "construct_from_pickle st metadata_pickle =
     of_option (Os_error (path_str metadata_pickle)) (dget (pickles st) metadata_pickle)"

definition export :: "('a \<Rightarrow> path option) \<Rightarrow> ('a \<Rightarrow> path option) \<Rightarrow> ('a \<Rightarrow> (string \<times> string) list) \<Rightarrow>
    bool \<Rightarrow> 'a \<Rightarrow> 'a store \<Rightarrow> script_error + 'a store" where
  "export pickle_file yaml_file printable write_yaml obj st =
     (case pickle_file obj of
        None \<Rightarrow> Inl (Runtime_error [])
      | Some pf \<Rightarrow>
          (case yaml_file obj of
             None \<Rightarrow> Inl (Runtime_error [])
           | Some yf \<Rightarrow>
               let st' = st\<lparr>pickles := dset pf obj (pickles st)\<rparr>
               in Inr (if write_yaml
                       then st'\<lparr>yamls := dset yf (pprint_dict (map (\<lambda>(k, v). (k, PStr v)) (printable obj)))
                              (yamls st')\<rparr>
                       else st')))"

text \<open>
  What the steps rely on: an object that was exported loads back from its file, and the
  export leaves every other file alone.
\<close>

locale testdata =
  fixes file_of :: "'a \<Rightarrow> path option"
    and save :: "'a \<Rightarrow> 'st \<Rightarrow> 'e + 'st"
    and load :: "'st \<Rightarrow> path \<Rightarrow> 'e + 'a"
  assumes save_load: "save x st = Inr st' \<Longrightarrow> \<exists>f. file_of x = Some f \<and> load st' f = Inr x"
    and save_other: "save x st = Inr st' \<Longrightarrow> file_of x \<noteq> Some f \<Longrightarrow> load st' f = load st f"
begin

lemma save_all_other:
  "efold save xs st = Inr st' \<Longrightarrow> (\<And>x. x \<in> set xs \<Longrightarrow> file_of x \<noteq> Some f) \<Longrightarrow> load st' f = load st f"
proof (induction xs arbitrary: st)
  case Nil
  then show ?case by simp
next
  case (Cons x xs)
  then obtain st1 where "save x st = Inr st1" "efold save xs st1 = Inr st'"
    by (auto simp: raise_simps)
  then show ?case using Cons.IH[of st1] Cons.prems(2) save_other[of x st st1 f] by simp
qed

text \<open>Objects with files of their own all load back after they were all saved.\<close>

lemma save_all_load:
  assumes "efold save xs st = Inr st'" and "distinct (map file_of xs)" and "x \<in> set xs"
  shows "\<exists>f. file_of x = Some f \<and> load st' f = Inr x"
  using assms
proof (induction xs arbitrary: st)
  case Nil
  then show ?case by simp
next
  case (Cons y ys)
  then obtain st1 where st1: "save y st = Inr st1" "efold save ys st1 = Inr st'"
    by (auto simp: raise_simps)
  show ?case
  proof (cases "x = y")
    case True
    obtain f where f: "file_of y = Some f" "load st1 f = Inr y" using save_load[OF st1(1)] by blast
    have "load st' f = load st1 f"
      using Cons.prems(2) f(1) by (intro save_all_other[OF st1(2)]) force
    then show ?thesis using f True by simp
  next
    case False
    then show ?thesis using Cons.IH[OF st1(2)] Cons.prems by simp
  qed
qed

end

interpretation td: testdata pickle_file "export pickle_file yaml_file printable write_yaml"
    construct_from_pickle
  for pickle_file yaml_file printable write_yaml
  by unfold_locales
    (auto simp: export_def construct_from_pickle_def Let_def raise_simps split: option.splits if_splits)

section \<open>Lemmas and properties\<close>

text \<open>
  What \<open>run_one\<close> echoes for a command without redirection is the command: a shell that
  splits the line after the prompt gets the words of the command.
\<close>

theorem run_one_echo:
  "map (\<lambda>l. shlex_split (drop 2 l)) (stderr_lines (run_one True cmd No_redirect reraise outcome)) =
     [Inr cmd]"
  by (simp add: run_one_def bad_redirect_def echo_line_def cmd_line_def sh.split_quoted)

text \<open>
  The loop over the commands returns zero exactly if every command returns zero, and
  otherwise the status or the error of the first that does not, without running the others.
\<close>

theorem run_all_first_failure:
  "run_all run cmds =
     (case filter (\<lambda>cmd. run cmd \<noteq> Inr 0) cmds of [] \<Rightarrow> Inr 0 | cmd # _ \<Rightarrow> run cmd)"
proof (induction cmds)
  case (Cons c cs)
  then show ?case by (cases "run c") auto
qed simp

end
