(* ===== verification/TestRunResult.thy ===== *)
theory TestRunResult
  imports ScriptsLib PyRe
begin

text \<open>
  \<^verbatim>\<open>test_run_result.py\<close> and \<^verbatim>\<open>test_entry.py\<close>: the record of a test and its results, which
  every step of a regression loads, completes and exports, and the names of tests.
\<close>

section \<open>The record\<close>

datatype TestType = RISCVDV | DIRECTED

datatype Failure_Modes = NO_FAILURE | TIMEOUT | FILE_ERROR | LOG_ERROR

text \<open>\<open>Failure_Modes.__str__\<close>\<close>

definition failure_str :: "Failure_Modes \<Rightarrow> string" where
  "failure_str m =
     (case m of NO_FAILURE \<Rightarrow> ''NONE(0)'' | TIMEOUT \<Rightarrow> ''TIMEOUT(1)''
      | FILE_ERROR \<Rightarrow> ''FILE_ERROR(2)'' | LOG_ERROR \<Rightarrow> ''LOG_ERROR(3)'')"

definition testtype_str :: "TestType \<Rightarrow> string" where
  "testtype_str t = (case t of RISCVDV \<Rightarrow> ''TestType.RISCVDV'' | DIRECTED \<Rightarrow> ''TestType.DIRECTED'')"

text \<open>
  The fields in the order of the class; the last three name the files of the object.  Where the
  steps store values of other types than the class declares, the field holds any such value: a
  timeout and options as they are read from a test list.
\<close>

record test_run_result =
  passed :: "bool option"
  failure_mode :: "Failure_Modes option"
  failure_message :: "string option"
  timeout_s :: "pyval option"
  testtype :: "TestType option"
  testdotseed :: "string option"
  testname :: "string option"
  seed :: "int option"
  binary :: "path option"
  rtl_simulator :: "string option"
  iss_cosim :: "string option"
  is_discrete_debug_module :: "bool option"
  binary_main :: "path option"
  binary_dm :: "path option"
  vmem_main :: "path option"
  vmem_dm :: "path option"
  ddm_sim_opts :: "pyval option"
  gen_test :: "string list option"
  gen_opts :: "string list option"
  rtl_test :: "pyval option"
  sim_opts :: "string list option"
  directed_data :: "(pyval \<times> pyval) list option"
  dir_test :: "path option"
  assembly :: "path option"
  objectfile :: "path option"
  riscvdv_run_gen_log :: "path option"
  riscvdv_run_gen_stdout :: "path option"
  riscvdv_run_log :: "path option"
  riscvdv_run_stdout :: "path option"
  compile_asm_gen_log :: "path option"
  compile_asm_log :: "path option"
  rtl_log :: "path option"
  rtl_stdout :: "path option"
  rtl_trace :: "path option"
  iss_cosim_log :: "path option"
  iss_cosim_trace :: "path option"
  dir_fcov :: "path option"
  riscvdv_run_gen_cmds :: "string list list option"
  riscvdv_run_cmds :: "string list list option"
  compile_asm_gen_cmds :: "string list list option"
  compile_asm_cmds :: "string list list option"
  rtl_cmds :: "string list list option"
  metadata_pickle_file :: "path option"
  pickle_file :: "path option"
  yaml_file :: "path option"

definition new_result :: test_run_result where
  "new_result =
     \<lparr>
      passed = None, failure_mode = None, failure_message = None, timeout_s = None,
      testtype = None, testdotseed = None, testname = None, seed = None, binary = None,
      rtl_simulator = None, iss_cosim = None, is_discrete_debug_module = None,
      binary_main = None, binary_dm = None, vmem_main = None, vmem_dm = None,
      ddm_sim_opts = None, gen_test = None, gen_opts = None, rtl_test = None,
      sim_opts = None, directed_data = None, dir_test = None, assembly = None,
      objectfile = None, riscvdv_run_gen_log = None, riscvdv_run_gen_stdout = None,
      riscvdv_run_log = None, riscvdv_run_stdout = None, compile_asm_gen_log = None,
      compile_asm_log = None, rtl_log = None, rtl_stdout = None, rtl_trace = None,
      iss_cosim_log = None, iss_cosim_trace = None, dir_fcov = None,
      riscvdv_run_gen_cmds = None, riscvdv_run_cmds = None, compile_asm_gen_cmds = None,
      compile_asm_cmds = None, rtl_cmds = None, metadata_pickle_file = None,
      pickle_file = None, yaml_file = None\<rparr>"

section \<open>Printing\<close>

text \<open>The values of \<open>dataclasses.asdict\<close>, as far as the printing distinguishes them.\<close>

definition opt_field :: "('a \<Rightarrow> field_value) \<Rightarrow> 'a option \<Rightarrow> field_value" where
  "opt_field f x = (case x of None \<Rightarrow> Field (Val PNone) | Some a \<Rightarrow> f a)"

definition opt_bool where "opt_bool = opt_field (\<lambda>b. Field (Val (PBool b)))"
definition opt_int where "opt_int = opt_field (\<lambda>i. Field (Val (PInt i)))"
definition opt_str where "opt_str = opt_field (\<lambda>s. Field (Val (PStr s)))"
definition opt_path where "opt_path = opt_field (\<lambda>p. Field (PathV p))"
definition opt_mode where "opt_mode = opt_field (\<lambda>m. Field_other (failure_str m))"
definition opt_type where "opt_type = opt_field (\<lambda>t. Field_other (testtype_str t))"
definition opt_dict where "opt_dict = opt_field (\<lambda>d. Field (Val (PDict d)))"
definition opt_words where "opt_words = opt_field (\<lambda>ws. Field (Val (PList (map PStr ws))))"
definition opt_val where "opt_val = opt_field (\<lambda>v. Field (Val v))"
definition opt_cmds where
  "opt_cmds = opt_field (\<lambda>cs. Field (Val (PList (map (\<lambda>ws. PList (map PStr ws)) cs))))"

definition trr_asdict :: "test_run_result \<Rightarrow> (string \<times> field_value) list" where
  "trr_asdict t =
     [
      (''passed'', opt_bool (passed t)), (''failure_mode'', opt_mode (failure_mode t)),
      (''failure_message'', opt_str (failure_message t)),
      (''timeout_s'', opt_val (timeout_s t)), (''testtype'', opt_type (testtype t)),
      (''testdotseed'', opt_str (testdotseed t)), (''testname'', opt_str (testname t)),
      (''seed'', opt_int (seed t)), (''binary'', opt_path (binary t)),
      (''rtl_simulator'', opt_str (rtl_simulator t)), (''iss_cosim'', opt_str (iss_cosim t)),
      (''is_discrete_debug_module'', opt_bool (is_discrete_debug_module t)),
      (''binary_main'', opt_path (binary_main t)), (''binary_dm'', opt_path (binary_dm t)),
      (''vmem_main'', opt_path (vmem_main t)), (''vmem_dm'', opt_path (vmem_dm t)),
      (''ddm_sim_opts'', opt_val (ddm_sim_opts t)), (''gen_test'', opt_words (gen_test t)),
      (''gen_opts'', opt_words (gen_opts t)), (''rtl_test'', opt_val (rtl_test t)),
      (''sim_opts'', opt_words (sim_opts t)),
      (''directed_data'', opt_dict (directed_data t)), (''dir_test'', opt_path (dir_test t)),
      (''assembly'', opt_path (assembly t)), (''objectfile'', opt_path (objectfile t)),
      (''riscvdv_run_gen_log'', opt_path (riscvdv_run_gen_log t)),
      (''riscvdv_run_gen_stdout'', opt_path (riscvdv_run_gen_stdout t)),
      (''riscvdv_run_log'', opt_path (riscvdv_run_log t)),
      (''riscvdv_run_stdout'', opt_path (riscvdv_run_stdout t)),
      (''compile_asm_gen_log'', opt_path (compile_asm_gen_log t)),
      (''compile_asm_log'', opt_path (compile_asm_log t)),
      (''rtl_log'', opt_path (rtl_log t)), (''rtl_stdout'', opt_path (rtl_stdout t)),
      (''rtl_trace'', opt_path (rtl_trace t)),
      (''iss_cosim_log'', opt_path (iss_cosim_log t)),
      (''iss_cosim_trace'', opt_path (iss_cosim_trace t)),
      (''dir_fcov'', opt_path (dir_fcov t)),
      (''riscvdv_run_gen_cmds'', opt_cmds (riscvdv_run_gen_cmds t)),
      (''riscvdv_run_cmds'', opt_cmds (riscvdv_run_cmds t)),
      (''compile_asm_gen_cmds'', opt_cmds (compile_asm_gen_cmds t)),
      (''compile_asm_cmds'', opt_cmds (compile_asm_cmds t)),
      (''rtl_cmds'', opt_cmds (rtl_cmds t)),
      (''metadata_pickle_file'', opt_path (metadata_pickle_file t)),
      (''pickle_file'', opt_path (pickle_file t)), (''yaml_file'', opt_path (yaml_file t))]"

text \<open>
  \<open>format_to_printable_dict\<close> of a result: paths under the directory of the test are printed
  relative to it.  Asking whether a path is relative to no directory is an error.
\<close>

definition relative_field :: "path option \<Rightarrow> field_value \<Rightarrow> script_error + field_value" where
  "relative_field dir v =
     (case v of
        Field (PathV p) \<Rightarrow>
          (case dir of
             None \<Rightarrow> Inl (Type_error [])
           | Some d \<Rightarrow> Inr (case relative_to p d of
                             Some q \<Rightarrow> Field (Val (PStr (path_str q))) | None \<Rightarrow> v))
      | _ \<Rightarrow> Inr v)"

definition trr_printable :: "(path \<Rightarrow> path) \<Rightarrow> test_run_result \<Rightarrow> script_error + (string \<times> string) list" where
  "trr_printable resolve t =
     ebind (emap (\<lambda>(k, v). ebind (relative_field (dir_test t) v) (\<lambda>w. Inr (k, w))) (trr_asdict t))
       (\<lambda>d. Inr (format_dict_to_printable_dict resolve d))"

section \<open>Files of a result\<close>

text \<open>The results of a regression in their files, and \<open>construct_from_metadata_dir\<close>.\<close>

definition trr_export :: "(path \<Rightarrow> path) \<Rightarrow> test_run_result \<Rightarrow> test_run_result store \<Rightarrow>
    script_error + test_run_result store" where
  "trr_export resolve t st =
     (case pickle_file t of
        None \<Rightarrow> Inl (Runtime_error [])
      | Some _ \<Rightarrow>
          (case yaml_file t of
             None \<Rightarrow> Inl (Runtime_error [])
           | Some _ \<Rightarrow> ebind (trr_printable resolve t) (\<lambda>d.
               export pickle_file yaml_file (\<lambda>_. d) True t st)))"

definition trr_from_metadata_dir :: "test_run_result store \<Rightarrow> path \<Rightarrow> string \<Rightarrow>
    script_error + test_run_result" where
  "trr_from_metadata_dir st dir_metadata tds =
     construct_from_pickle st (child_of dir_metadata (tds @ ''.pickle''))"

section \<open>Names of tests\<close>

definition not_dot :: "char \<Rightarrow> bool" where
  "not_dot c \<longleftrightarrow> c \<noteq> CHR ''.''"

definition TEST_DOT_SEED_RE :: re where
  "TEST_DOT_SEED_RE = seqs [Grp ''1'' (plus not_dot), Lit ''.'', Grp ''2'' (plus is_digit), Eos]"

definition read_test_dot_seed :: "string \<Rightarrow> script_error + string \<times> int" where
  "read_test_dot_seed arg =
     (case re_match TEST_DOT_SEED_RE arg of
        None \<Rightarrow> Inl (Value_error (''Bad --test-dot-seed ('' @ arg @ ''): should be of the form TEST.SEED.''))
      | Some m \<Rightarrow> ebind (of_option (Value_error (the_grp m ''2'')) (read_int 10 (the_grp m ''2'')))
          (\<lambda>seed. Inr (the_grp m ''1'', seed)))"

definition tds_str :: "string \<Rightarrow> int \<Rightarrow> string" where
  "tds_str test testseed = test @ ''.'' @ show_int testseed"

definition get_test_entry :: "string \<Rightarrow> (pyval \<times> pyval) list list \<Rightarrow>
    script_error + (pyval \<times> pyval) list" where
  "get_test_entry name yaml_data =
     of_option (Runtime_error (''No matching test entry for '' @ repr_str name))
       (List.find (\<lambda>entry. dict_get entry ''test'' = Some (PStr name)) yaml_data)"

section \<open>Lemmas and properties\<close>

lemma trr_save_load: "trr_export resolve t st = Inr st' \<Longrightarrow>
    \<exists>f. pickle_file t = Some f \<and> construct_from_pickle st' f = Inr t"
  by (auto simp: trr_export_def raise_simps split: option.splits dest!: td.save_load)

lemma trr_save_other: "trr_export resolve t st = Inr st' \<Longrightarrow> pickle_file t \<noteq> Some f \<Longrightarrow>
    construct_from_pickle st' f = construct_from_pickle st f"
  by (auto simp: trr_export_def raise_simps split: option.splits dest!: td.save_other[where f = f])

interpretation trr: testdata pickle_file "trr_export resolve" construct_from_pickle for resolve
  by unfold_locales (rule trr_save_load trr_save_other; assumption)+

lemma trr_export_total:
  assumes "pickle_file t = Some pf" "yaml_file t = Some yf" "dir_test t = Some d"
  shows "\<exists>st'. trr_export resolve t st = Inr st'"
proof -
  have "\<exists>w. relative_field (Some d) v = Inr w" for v
    by (cases v; auto simp: relative_field_def split: fmt_value.splits)
  then obtain g where g: "\<And>v. relative_field (Some d) v = Inr (g v)" by metis
  have "emap (\<lambda>(k, v). ebind (relative_field (dir_test t) v) (\<lambda>w. Inr (k, w))) (trr_asdict t) =
      Inr (map (\<lambda>(k, v). (k, g v)) (trr_asdict t))"
    by (rule emap_total) (auto simp: assms(3) g)
  then have "\<exists>d'. trr_printable resolve t = Inr d'" by (simp add: trr_printable_def)
  then show ?thesis using assms by (auto simp: trr_export_def export_def Let_def)
qed

text \<open>
  The name of a run, made of a test name without dots and a seed, reads back as the test
  and the seed.
\<close>

theorem test_dot_seed_roundtrip:
  assumes "test \<noteq> []" and "CHR ''.'' \<notin> set test" and "0 \<le> testseed"
  shows "read_test_dot_seed (tds_str test testseed) = Inr (test, testseed)"
proof -
  let ?n = "show_nat (nat testseed)"
  have s: "tds_str test testseed = test @ ''.'' @ ?n"
    using assms(3) by (simp add: tds_str_def show_int_def)
  have d: "list_all is_digit ?n" by (rule show_nat_digits)
  have t: "list_all not_dot test" using assms(2) by (auto simp: not_dot_def list_all_iff)
  obtain p1 m1 where 1: "run (Grp ''1'' (plus not_dot)) (None, test @ ''.'' @ ?n) =
      ([(''1'', test)], (p1, ''.'' @ ?n)) # m1"
    using run_group_first[OF t, of "''.'' @ ?n" 1 "''1''" None] assms(1)
    by (auto simp: plus_def not_dot_def Suc_le_eq)
  obtain p2 m2 where 2: "run (Lit ''.'') (p1, ''.'' @ ?n) = ([], (p2, ?n)) # m2"
    using run_Lit_first[of "''.''" p1 ?n] by auto
  obtain p3 m3 where 3: "run (Grp ''2'' (plus is_digit)) (p2, ?n) = ([(''2'', ?n)], (p3, [])) # m3"
    using run_group_first[OF d, of "[]" 1 "''2''" p2] by (auto simp: plus_def show_nat_def Suc_le_eq)
  let ?tail = "Seq Eos Empty" and ?g2 = "Grp ''2'' (plus is_digit)"
  have 4: "\<exists>ms. run ?tail (p3, []) = ([], (p3, [])) # ms" by simp
  have 5: "\<exists>ms. run (Seq ?g2 ?tail) (p2, ?n) = ([(''2'', ?n)] @ [], (p3, [])) # ms"
    by (rule run_Seq_first[OF _ 4]) (use 3 in blast)
  have 6: "\<exists>ms. run (Seq (Lit ''.'') (Seq ?g2 ?tail)) (p1, ''.'' @ ?n) =
      ([] @ [(''2'', ?n)] @ [], (p3, [])) # ms"
    by (rule run_Seq_first[OF _ 5]) (use 2 in blast)
  have "\<exists>ms. run TEST_DOT_SEED_RE (None, test @ ''.'' @ ?n) =
      ([(''1'', test)] @ [] @ [(''2'', ?n)] @ [], (p3, [])) # ms"
    unfolding TEST_DOT_SEED_RE_def seqs_def foldr.simps comp_def id_def
    by (rule run_Seq_first[OF _ 6]) (use 1 in blast)
  then have "re_match TEST_DOT_SEED_RE (tds_str test testseed) = Some [(''1'', test), (''2'', ?n)]"
    unfolding re_match_def s by auto
  then show ?thesis
    using read_int_show_int[of testseed] assms(3)
    by (simp add: read_test_dot_seed_def the_grp_def grp_def show_int_def)
qed

lemma test_dot_seed_roundtrip_witness:
  "read_test_dot_seed (tds_str ''riscv_arithmetic_basic_test'' 42) = Inr (''riscv_arithmetic_basic_test'', 42)"
  by (rule test_dot_seed_roundtrip) simp_all

end
