(* ===== verification/IbexTrace.thy ===== *)
theory IbexTrace
  imports SpikeTrace TestRunResult
begin

text \<open>
  \<^verbatim>\<open>riscv_dv_extension/ibex_log_to_trace_csv.py\<close>: converting the trace of the core to the
  CSV form, and the verdict on the log of the test bench.
\<close>

section \<open>The trace of the core\<close>

definition INSTR_RE :: re where
  "INSTR_RE = seqs [Bos, star is_space, Grp ''time'' (plus is_digit), plus is_space,
     Grp ''cycle'' (plus is_digit), plus is_space, Grp ''pc'' (plus hex_lower), plus is_space,
     Grp ''bin'' (plus hex_lower), plus is_space,
     Grp ''instr'' (seqs [plus not_space, plus is_space, plus not_space]), star is_space]"

definition one_to_nine :: "char \<Rightarrow> bool" where
  "one_to_nine c \<longleftrightarrow> is_digit c \<and> c \<noteq> CHR ''0''"

definition IBEX_RD_RE :: re where
  "IBEX_RD_RE = seqs [Lit ''x'', Grp ''rd'' (seqs [one_of one_to_nine, star is_digit]), Lit ''=0x'',
     Grp ''rd_val'' (plus hex_lower)]"

definition convert_operands_to_abi :: "string \<Rightarrow> string" where
  "convert_operands_to_abi operand_str =
     join '','' (map (\<lambda>op. let converted_op = gpr_to_abi op
                          in if converted_op \<noteq> ''na'' then converted_op else op)
       (split_on CHR '','' operand_str))"

definition relative_instrs :: "string list" where
  "relative_instrs = [''beq'', ''bne'', ''blt'', ''bge'', ''bltu'', ''bgeu'', ''c.beqz'', ''c.bnez'',
     ''beqz'', ''bnez'', ''bgez'', ''bltz'', ''blez'', ''bgtz'', ''c.j'', ''j'', ''c.jal'', ''jal'']"

definition int16 :: "string \<Rightarrow> lib_error + int" where
  "int16 s = of_option (lib_error.Value_error s) (read_int 16 s)"

text \<open>The target of a branch, the last operand, relative to the program counter.\<close>

definition process_imm :: "string \<Rightarrow> string \<Rightarrow> string \<Rightarrow> lib_error + string" where
  "process_imm instr_name pc_text operands =
     (if instr_name \<notin> set relative_instrs then Inr operands
      else ebind (int16 (after_last CHR '','' operands)) (\<lambda>target. ebind (int16 pc_text) (\<lambda>at.
             Inr (upto_last CHR '','' operands @ sint_to_hex (target - at)))))"

text \<open>
  The immediate of \<open><reg> <imm>(<reg>)\<close> is also kept in the entry as a hexadecimal number, in
  a field that is not written to the CSV file.
\<close>

definition expand_trace_entry :: "trace_entry \<Rightarrow> string \<Rightarrow> lib_error + trace_entry" where
  "expand_trace_entry trace operands =
     ebind (process_imm (instr trace) (pc trace) operands) (\<lambda>ops.
     ebind (convert_pseudo_instr (instr trace) ops (trace_entry.binary trace)) (\<lambda>(name, ops).
     ebind (case re_search ADDR_RE ops of
              None \<Rightarrow> Inr ops
            | Some n \<Rightarrow> ebind (get_imm_hex_val (the_grp n ''imm'')) (\<lambda>_.
                Inr (join '','' [the_grp n ''rd'', the_grp n ''rs1'', the_grp n ''imm'']))) (\<lambda>ops.
       Inr (trace\<lparr>instr := name, operand := convert_operands_to_abi ops\<rparr>))))"

definition read_ibex_instr :: "bool \<Rightarrow> string \<Rightarrow> groups \<Rightarrow> lib_error + trace_entry" where
  "read_ibex_instr full_trace line m =
     (let words = split_ws (the_grp m ''instr'');
          e = new_entry\<lparr>instr_str := the_grp m ''instr'', instr := words ! 0, pc := the_grp m ''pc'',
                trace_entry.binary := the_grp m ''bin''\<rparr>
      in ebind (if full_trace then expand_trace_entry e (words ! 1) else Inr e) (\<lambda>e.
           Inr (case re_search IBEX_RD_RE line of
                  None \<Rightarrow> e
                | Some c \<Rightarrow> e\<lparr>gpr := gpr e @
                    [gpr_to_abi (''x'' @ the_grp c ''rd'') @ '':'' @ the_grp c ''rd_val'']\<rparr>)))"

text \<open>\<open>_process_ibex_sim_log_fd\<close>: the entries written, up to the first line with \<open>ecall\<close>.\<close>

fun ibex_entries :: "bool \<Rightarrow> string list \<Rightarrow> lib_error + trace_entry list" where
  "ibex_entries full_trace [] = Inr []"
| "ibex_entries full_trace (line # ls) =
     (if contains ''ecall'' line then Inr []
      else case re_search INSTR_RE line of
             None \<Rightarrow> ibex_entries full_trace ls
           | Some m \<Rightarrow> ebind (read_ibex_instr full_trace line m) (\<lambda>e.
               ebind (ibex_entries full_trace ls) (\<lambda>es. Inr (e # es))))"

datatype log_error = Lib lib_error | Runtime string | Type_err

text \<open>
  \<open>process_ibex_sim_log\<close>: the rows of the CSV file.  A log that is missing and a log without
  instructions are errors.
\<close>

definition process_ibex_sim_log :: "string option \<Rightarrow> bool \<Rightarrow> log_error + string list list" where
  "process_ibex_sim_log ibex_log full_trace =
     (case ibex_log of
        None \<Rightarrow> Inl (Runtime ''Logfile not found'')
      | Some log \<Rightarrow>
          (case ibex_entries full_trace (file_lines log) of
             Inl e \<Rightarrow> Inl (Lib e)
           | Inr es \<Rightarrow>
               if es = [] then Inl (Runtime ''No instructions in logfile'')
               else Inr (start_new_trace @ map write_trace_entry es)))"

section \<open>The log of the test bench\<close>

record uvm_state =
  uvm_passed :: bool
  uvm_failed :: bool
  error_line :: "(nat \<times> string) option"
  test_result_seen :: bool

definition uvm_init :: uvm_state where
  "uvm_init = \<lparr>uvm_passed = False, uvm_failed = False, error_line = None, test_result_seen = False\<rparr>"

definition is_error_line :: "string \<Rightarrow> bool" where
  "is_error_line line \<longleftrightarrow> contains ''UVM_ERROR'' line \<or> contains ''UVM_FATAL'' line \<or> contains ''Error'' line"

definition is_pass_line :: "string \<Rightarrow> bool" where
  "is_pass_line line \<longleftrightarrow> contains ''RISC-V UVM TEST PASSED'' line"

definition is_fail_line :: "string \<Rightarrow> bool" where
  "is_fail_line line \<longleftrightarrow> contains ''RISC-V UVM TEST FAILED'' line"

definition uvm_line :: "nat \<Rightarrow> string \<Rightarrow> uvm_state \<Rightarrow> uvm_state" where
  "uvm_line linenum line s =
     (let s = (if is_error_line line \<and> \<not> test_result_seen s
               then s\<lparr>error_line := Some (linenum, line), uvm_failed := True\<rparr> else s);
          s = (if is_pass_line line then s\<lparr>test_result_seen := True, uvm_passed := True\<rparr> else s)
      in if is_fail_line line then s\<lparr>test_result_seen := True, uvm_failed := True\<rparr> else s)"

fun uvm_loop :: "nat \<Rightarrow> string list \<Rightarrow> uvm_state \<Rightarrow> uvm_state" where
  "uvm_loop linenum [] s = s"
| "uvm_loop linenum (line # ls) s =
     (let s' = uvm_line linenum line s
      in if is_fail_line line then s' else uvm_loop (Suc linenum) ls s')"

text \<open>The lines around the error: five before it and four after.\<close>

definition log_extract :: "nat \<Rightarrow> string list \<Rightarrow> string list" where
  "log_extract error_linenum ls =
     map (\<lambda>(linenum, line). (if linenum = error_linenum then ''[E] '' else ''    '') @ show_nat linenum @
           '': '' @ strip line)
       (filter (\<lambda>(linenum, line). int error_linenum - 5 \<le> int linenum \<and> linenum < error_linenum + 5)
          (zip [1..<Suc (length ls)] ls))"

definition check_ibex_uvm_log :: "string \<Rightarrow> log_error + bool \<times> string list \<times> Failure_Modes" where
  "check_ibex_uvm_log log =
     (let ls = file_lines log; s = uvm_loop 1 ls uvm_init
      in if \<not> uvm_failed s then Inr (uvm_passed s, [], NO_FAILURE)
         else case error_line s of
                None \<Rightarrow> Inl Type_err
              | Some (linenum, line) \<Rightarrow>
                  Inr (False, log_extract linenum ls,
                    if contains ''Test failed due to wall-clock timeout.'' line then TIMEOUT else LOG_ERROR))"

section \<open>Lemmas and properties\<close>

lemma ibex_update_good: "good_entry e \<Longrightarrow> re_search IBEX_RD_RE line = Some c \<Longrightarrow>
    good_entry (e\<lparr>gpr := gpr e @ [gpr_to_abi r @ '':'' @ the_grp c ''rd_val'']\<rparr>)"
proof -
  assume e: "good_entry e" and c: "re_search IBEX_RD_RE line = Some c"
  have g: "group_over ''rd_val'' hex_lower 1 IBEX_RD_RE" "has_group ''rd_val'' IBEX_RD_RE"
    by (simp_all add: IBEX_RD_RE_def seqs_def re_classes)
  have "list_all hex_lower (the_grp c ''rd_val'') \<and> 1 \<le> length (the_grp c ''rd_val'')"
    using re_search_group[OF c g(1)] re_search_has_group[OF c g(2)] by (auto simp: the_grp_def)
  then show ?thesis using e good_update_abi by (simp add: good_entry_def)
qed

lemma read_ibex_instr_good:
  assumes "read_ibex_instr full line m = Inr e"
  shows "good_entry e"
proof -
  let ?w = "split_ws (the_grp m ''instr'')"
  let ?e0 = "new_entry\<lparr>instr_str := the_grp m ''instr'', instr := ?w ! 0, pc := the_grp m ''pc'',
      trace_entry.binary := the_grp m ''bin''\<rparr>"
  have g: "expand_trace_entry t ops = Inr t' \<Longrightarrow> gpr t' = gpr t" for t t' ops
    by (auto simp: expand_trace_entry_def raise_simps)
  obtain e1 where "(if full then expand_trace_entry ?e0 (?w ! 1) else Inr ?e0) = Inr e1"
    and e: "e = (case re_search IBEX_RD_RE line of None \<Rightarrow> e1
      | Some c \<Rightarrow> e1\<lparr>gpr := gpr e1 @ [gpr_to_abi (''x'' @ the_grp c ''rd'') @ '':'' @ the_grp c ''rd_val'']\<rparr>)"
    using assms by (auto simp: read_ibex_instr_def Let_def raise_simps)
  then have "gpr e1 = []" using g by (auto simp: new_entry_def split: if_splits)
  then have "good_entry e1" by (simp add: good_entry_def)
  then show ?thesis using e ibex_update_good by (auto split: option.splits)
qed

lemma ibex_entries_good: "ibex_entries full ls = Inr es \<Longrightarrow> list_all good_entry es"
  by (induction full ls arbitrary: es rule: ibex_entries.induct)
    (auto simp: raise_simps read_ibex_instr_good split: if_splits option.splits)

text \<open>
  C30. The two converters and the comparison fit together: when the log of the simulator and
  the trace of the core were read, the comparison of their register updates ends with counts,
  which are those of its specification; it never stops on an update.
\<close>

theorem cosim_comparison_total:
  assumes "read_spike_trace spike_full spike_log = Inr ys" and "ibex_entries ibex_full ibex_lines = Inr es"
  shows "\<exists>m1 m2 s. marks (map fst ys) [] = Inr m1 \<and> marks es [] = Inr m2 \<and>
    compare_traces name1 name2 limit (map fst ys) es = Inr s \<and>
    (matched_cnt s, mismatch_cnt s) = counts (updates m1) m2"
proof -
  have "list_all good_entry (map fst ys)"
    using assms(1) episodes_good by (auto simp: read_spike_trace_def spike_loop_trampoline list_all_iff)
  then obtain m1 where m1: "marks (map fst ys) [] = Inr m1" using marks_good by blast
  obtain m2 where m2: "marks es [] = Inr m2"
    using marks_good[OF ibex_entries_good[OF assms(2)]] by blast
  show ?thesis
    using compare_traces_counts_aux[OF m1 m2, of name1 name2 limit] m1 m2
    by (auto simp: prod_eq_iff)
qed

definition ibex_line :: string where
  "ibex_line = '' 9 4 80000000 00150513 addi x10,x10,1 x10=0x00000001'' @ [newline]"

lemma cosim_comparison_total_witness:
  "\<exists>m1 m2 s. marks (map fst
      [(new_entry\<lparr>gpr := [''a0:00000001''], pc := ''80000000'', trace_entry.binary := ''00150513'',
          instr_str := ''addi a0, a0, 1'', mode := ''3''\<rparr>, False),
       (new_entry\<lparr>pc := ''80000004'', trace_entry.binary := ''00000073'', instr_str := ''ecall''\<rparr>, False)])
        [] = Inr m1 \<and>
    marks [new_entry\<lparr>gpr := [''a0:00000001''], instr := ''addi'', operand := ''a0,a0,1'', pc := ''80000000'',
        trace_entry.binary := ''00150513'', instr_str := ''addi x10,x10,1''\<rparr>] [] = Inr m2 \<and>
    compare_traces ''spike'' ''ibex'' 5 (map fst
      [(new_entry\<lparr>gpr := [''a0:00000001''], pc := ''80000000'', trace_entry.binary := ''00150513'',
          instr_str := ''addi a0, a0, 1'', mode := ''3''\<rparr>, False),
       (new_entry\<lparr>pc := ''80000004'', trace_entry.binary := ''00000073'', instr_str := ''ecall''\<rparr>, False)])
      [new_entry\<lparr>gpr := [''a0:00000001''], instr := ''addi'', operand := ''a0,a0,1'', pc := ''80000000'',
        trace_entry.binary := ''00150513'', instr_str := ''addi x10,x10,1''\<rparr>] = Inr s \<and>
    (matched_cnt s, mismatch_cnt s) = counts (updates m1) m2"
proof (rule cosim_comparison_total[where spike_full = False and spike_log = small_log and ibex_full = True and
      ibex_lines = "[ibex_line]"])
qed code_simp+

section \<open>The verdict\<close>

text \<open>
  The direct description of the verdict: the log up to and with its first failure line; in
  it, the last error line before any result.
\<close>

fun upto_fail :: "string list \<Rightarrow> string list" where
  "upto_fail [] = []"
| "upto_fail (l # ls) = (if is_fail_line l then [l] else l # upto_fail ls)"

fun before_result :: "string list \<Rightarrow> string list" where
  "before_result [] = []"
| "before_result (l # ls) =
     (if is_pass_line l \<or> is_fail_line l then [l] else l # before_result ls)"

lemma uvm_loop_verdict:
  "uvm_failed (uvm_loop n ls s) \<longleftrightarrow>
     uvm_failed s \<or> list_ex is_fail_line ls \<or>
     \<not> test_result_seen s \<and> list_ex is_error_line (before_result ls)"
  "uvm_passed (uvm_loop n ls s) \<longleftrightarrow> uvm_passed s \<or> list_ex is_pass_line (upto_fail ls)"
  by (induction n ls s rule: uvm_loop.induct) (auto simp: uvm_line_def Let_def)

lemma uvm_loop_error_line:
  "error_line (uvm_loop n ls s) = None \<longleftrightarrow>
     error_line s = None \<and> (test_result_seen s \<or> \<not> list_ex is_error_line (before_result ls))"
  by (induction n ls s rule: uvm_loop.induct) (auto simp: uvm_line_def Let_def)

lemma check_uvm_log_passed_aux:
  "(\<exists>ls m. check_ibex_uvm_log log = Inr (True, ls, m)) \<longleftrightarrow>
     list_ex is_pass_line (file_lines log) \<and> \<not> list_ex is_fail_line (file_lines log) \<and>
     \<not> list_ex is_error_line (before_result (file_lines log))"
proof -
  have "\<not> list_ex is_fail_line ls \<Longrightarrow> upto_fail ls = ls" for ls
    by (induction ls) auto
  then show ?thesis
    by (auto simp: check_ibex_uvm_log_def Let_def uvm_loop_verdict uvm_init_def split: option.splits)
qed

text \<open>
  The verdict on a log: passed exactly if some line before any failure line reports
  success, no line reports failure, and no error line comes up to the first result.
\<close>

theorem check_uvm_log_passed:
  "(\<exists>ls m. check_ibex_uvm_log log = Inr (True, ls, m)) \<longleftrightarrow>
     list_ex is_pass_line (file_lines log) \<and> \<not> list_ex is_fail_line (file_lines log) \<and>
     \<not> list_ex is_error_line (before_result (file_lines log))"
  by (rule check_uvm_log_passed_aux)

text \<open>
  A log that reports failure with no error line before it gets no verdict: the check
  fails on the missing error line.  In every other case there is a verdict.
\<close>

theorem check_uvm_log_no_error_line:
  "check_ibex_uvm_log log = Inl Type_err \<longleftrightarrow>
     list_ex is_fail_line (file_lines log) \<and>
     \<not> list_ex is_error_line (before_result (file_lines log))"
  by (auto simp: check_ibex_uvm_log_def Let_def uvm_loop_verdict uvm_loop_error_line uvm_init_def
    split: option.splits)
     (metis option.distinct(1) uvm_loop_error_line uvm_state.select_convs(3,4))

end
