(* ===== verification/Sv2v.thy ===== *)
theory Sv2v
  imports Shlex PyVal PyPath
begin

text \<open>
  \<^verbatim>\<open>util/sv2v_in_place.py\<close>: SystemVerilog files are replaced by what sv2v makes of them.
  The tree of files is a map from paths to contents, the sv2v binary a function of that tree
  and of the command, and the temporary directory a name.  Every step returns the tree it
  leaves, also when it fails.  Of the log only the errors are modelled.
\<close>

section \<open>The program\<close>

type_synonym tree = "string \<rightharpoonup> string"

datatype conversion = Not_started | Finished string int

record sv2v_env =
  run_sv2v :: "tree \<Rightarrow> string list \<Rightarrow> conversion"
  can_write :: "string \<Rightarrow> bool"
  tmpdir :: string

datatype sv2v_error = Conversion_failed string | Os_error string

definition read_file_list :: "tree \<Rightarrow> string \<Rightarrow> string list option" where
  "read_file_list fs path = map_option (\<lambda>s. map strip (file_lines s)) (fs path)"

definition sv2v_cmd :: "string \<Rightarrow> string list \<Rightarrow> string list \<Rightarrow> string list \<Rightarrow> string \<Rightarrow> string list" where
  "sv2v_cmd sv2v defines incdirs pkg_paths sv_path =
     [sv2v, ''--exclude=assert''] @ map (\<lambda>d. ''--define='' @ d) defines @
     map (\<lambda>d. ''--incdir='' @ d) incdirs @ pkg_paths @ (if sv_path \<in> set pkg_paths then [] else [sv_path])"

definition failed_message :: "string \<Rightarrow> int \<Rightarrow> string list \<Rightarrow> string" where
  "failed_message sv_path returncode cmd =
     ''Failed to run sv2v on '' @ sv_path @ ''. Exit code: '' @ show_int returncode @
     ''. Full command: '' @ join '' '' (map quote cmd)"

text \<open>The file the output goes to is emptied before sv2v starts.\<close>

definition transform_one :: "sv2v_env \<Rightarrow> string \<Rightarrow> string list \<Rightarrow> string list \<Rightarrow> string list \<Rightarrow> string \<Rightarrow> string \<Rightarrow>
    tree \<Rightarrow> tree \<times> (sv2v_error + unit)" where
  "transform_one env sv2v defines incdirs pkg_paths sv_path dst_path fs =
     (let cmd = sv2v_cmd sv2v defines incdirs pkg_paths sv_path; fs1 = fs(dst_path \<mapsto> [])
      in if \<not> can_write env dst_path then (fs, Inl (Os_error dst_path))
         else case run_sv2v env fs1 cmd of
           Not_started \<Rightarrow> (fs1, Inl (Os_error sv2v))
         | Finished out returncode \<Rightarrow>
             (fs1(dst_path \<mapsto> out),
              if returncode \<noteq> 0 then Inl (Conversion_failed (failed_message sv_path returncode cmd)) else Inr ()))"

text \<open>A compiled regular expression is its \<open>search\<close>; compiling may fail with a message.\<close>

type_synonym pattern = "string \<Rightarrow> bool"

definition parse_define_if :: "(string \<Rightarrow> string + pattern) \<Rightarrow> string \<Rightarrow> string + pattern \<times> string" where
  "parse_define_if re_compile arg =
     (if CHR '':'' \<notin> set arg
      then Inl (''The --define-if argument '' @ repr_str arg @
             '' contains no colon. The correct syntax is \"--define-if regex:define\".'')
      else let re_str = butlast (upto_last CHR '':'' arg); define = after_last CHR '':'' arg
           in case re_compile re_str of
                Inl err \<Rightarrow> Inl (''The regex for the --define-if argument ('' @ repr_str re_str @
                             '') is malformed: '' @ err @ ''.'')
              | Inr regex \<Rightarrow> Inr (regex, define))"

definition tmp_file :: "sv2v_env \<Rightarrow> nat \<Rightarrow> string" where
  "tmp_file env idx = os_join (tmpdir env) (show_nat idx)"

definition file_defines :: "string list \<Rightarrow> (pattern \<times> string) list \<Rightarrow> string \<Rightarrow> string list" where
  "file_defines defines defines_if src_path =
     defines @ map snd (filter (\<lambda>(regex, define). regex src_path) defines_if)"

fun convert_all :: "sv2v_env \<Rightarrow> string \<Rightarrow> string list \<Rightarrow> (pattern \<times> string) list \<Rightarrow> string list \<Rightarrow> string list \<Rightarrow>
    nat \<Rightarrow> string list \<Rightarrow> tree \<Rightarrow> tree \<times> (sv2v_error + string list)" where
  "convert_all env sv2v defines defines_if incdirs pkg_paths idx [] fs = (fs, Inr [])"
| "convert_all env sv2v defines defines_if incdirs pkg_paths idx (src_path # rest) fs =
     (case transform_one env sv2v (file_defines defines defines_if src_path) incdirs pkg_paths
             src_path (tmp_file env idx) fs of
        (fs1, Inl e) \<Rightarrow> (fs1, Inl e)
      | (fs1, Inr _) \<Rightarrow>
          (case convert_all env sv2v defines defines_if incdirs pkg_paths (Suc idx) rest fs1 of
             (fs2, Inl e) \<Rightarrow> (fs2, Inl e)
           | (fs2, Inr dst_paths) \<Rightarrow> (fs2, Inr (tmp_file env idx # dst_paths))))"

fun copy_back :: "sv2v_env \<Rightarrow> (string \<times> string) list \<Rightarrow> tree \<Rightarrow> tree \<times> (sv2v_error + unit)" where
  "copy_back env [] fs = (fs, Inr ())"
| "copy_back env ((dst_path, src_path) # rest) fs =
     (case fs dst_path of
        None \<Rightarrow> (fs, Inl (Os_error dst_path))
      | Some s \<Rightarrow>
          if can_write env src_path then copy_back env rest (fs(src_path \<mapsto> s))
          else (fs, Inl (Os_error src_path)))"

text \<open>The temporary directory and everything below it are removed on every way out.\<close>

definition in_tmp :: "sv2v_env \<Rightarrow> string \<Rightarrow> bool" where
  "in_tmp env p \<longleftrightarrow> prefix (tmpdir env @ ''/'') p"

definition drop_tmp :: "sv2v_env \<Rightarrow> tree \<Rightarrow> tree" where
  "drop_tmp env fs = (\<lambda>p. if in_tmp env p then None else fs p)"

definition transform :: "sv2v_env \<Rightarrow> string \<Rightarrow> string list \<Rightarrow> (pattern \<times> string) list \<Rightarrow> string list \<Rightarrow> string list \<Rightarrow>
    string list \<Rightarrow> tree \<Rightarrow> tree \<times> (sv2v_error + unit)" where
  "transform env sv2v defines defines_if incdirs pkg_paths sv_paths fs =
     (case convert_all env sv2v defines defines_if incdirs pkg_paths 0 sv_paths fs of
        (fs1, Inl e) \<Rightarrow> (drop_tmp env fs1, Inl e)
      | (fs1, Inr dst_paths) \<Rightarrow>
          (case copy_back env (zip dst_paths sv_paths) fs1 of (fs2, r) \<Rightarrow> (drop_tmp env fs2, r)))"

record sv2v_args =
  sa_file_list :: string
  sa_defines :: "string list"
  sa_defines_if :: "(pattern \<times> string) list"
  sa_incdirs :: "string list"
  sa_incdir_list :: "string option"
  sa_sv2v :: string

text \<open>\<open>os.path.splitext(path)[1]\<close>: leading dots of the name do not start an extension.\<close>

definition file_extension :: "string \<Rightarrow> string" where
  "file_extension path =
     (let name = after_last CHR ''/'' path
      in if list_all (\<lambda>c. c = CHR ''.'') (upto_last CHR ''.'' name) then []
         else CHR ''.'' # after_last CHR ''.'' name)"

definition sv_files :: "string list \<Rightarrow> string list" where
  "sv_files = filter (\<lambda>p. file_extension p = ''.sv'')"

definition svh_files :: "string list \<Rightarrow> string list" where
  "svh_files = filter (\<lambda>p. file_extension p = ''.svh'')"

definition pkg_files :: "string list \<Rightarrow> string list" where
  "pkg_files = filter (suffix ''pkg.sv'')"

fun splat :: "sv2v_env \<Rightarrow> string list \<Rightarrow> tree \<Rightarrow> tree \<times> (sv2v_error + unit)" where
  "splat env [] fs = (fs, Inr ())"
| "splat env (p # ps) fs =
     (if can_write env p then splat env ps (fs(p \<mapsto> [])) else (fs, Inl (Os_error p)))"

text \<open>The tree, the errors in the log, and the status or the exception that ends the program.\<close>

definition sv2v_main :: "sv2v_env \<Rightarrow> sv2v_args \<Rightarrow> tree \<Rightarrow> tree \<times> string list \<times> (sv2v_error + int)" where
  "sv2v_main env args fs =
     (case read_file_list fs (sa_file_list args) of
        None \<Rightarrow> (fs, [''Failed to read file list from '' @ repr_str (sa_file_list args)], Inr 1)
      | Some paths \<Rightarrow>
          (case (case sa_incdir_list args of None \<Rightarrow> Some [] | Some l \<Rightarrow> read_file_list fs l) of
             None \<Rightarrow> (fs, [''Failed to read incdir list from '' @ repr_str (sa_file_list args)], Inr 1)
           | Some dirs \<Rightarrow>
               (case transform env (sa_sv2v args) (sa_defines args) (sa_defines_if args)
                       (sa_incdirs args @ dirs) (pkg_files paths) (sv_files paths) fs of
                  (fs1, Inl (Conversion_failed msg)) \<Rightarrow> (fs1, [msg], Inr 1)
                | (fs1, Inl (Os_error p)) \<Rightarrow> (fs1, [], Inl (Os_error p))
                | (fs1, Inr _) \<Rightarrow>
                    (case splat env (svh_files paths) fs1 of
                       (fs2, Inl e) \<Rightarrow> (fs2, [], Inl e)
                     | (fs2, Inr _) \<Rightarrow> (fs2, [], Inr 0)))))"

section \<open>What the temporary directory is for\<close>

text \<open>
  A fresh temporary directory, which is not the root, in which files can be written; and the
  binary does not look into it.
\<close>

definition tmp_ok :: "sv2v_env \<Rightarrow> bool" where
  "tmp_ok env \<longleftrightarrow> tmpdir env \<noteq> [] \<and> last (tmpdir env) \<noteq> CHR ''/'' \<and> (\<forall>i. can_write env (tmp_file env i)) \<and>
     (\<forall>fs cmd. run_sv2v env (drop_tmp env fs) cmd = run_sv2v env fs cmd)"

lemma tmp_file_inside:
  assumes "tmp_ok env"
  shows "tmp_file env i = tmpdir env @ ''/'' @ show_nat i" "in_tmp env (tmp_file env i)"
proof -
  have "take 1 (show_nat i) \<noteq> ''/''"
    using show_nat_digits[of i] by (cases "show_nat i") (auto simp: is_digit_def)
  then show *: "tmp_file env i = tmpdir env @ ''/'' @ show_nat i"
    using assms by (simp add: tmp_file_def os_join_def tmp_ok_def)
  show "in_tmp env (tmp_file env i)" by (simp add: * in_tmp_def)
qed

lemma tmp_file_inj: "tmp_ok env \<Longrightarrow> tmp_file env i = tmp_file env j \<longleftrightarrow> i = j"
  by (simp add: tmp_file_inside(1) show_nat_inj)

lemma drop_tmp_inside [simp]: "in_tmp env p \<Longrightarrow> drop_tmp env (fs(p := x)) = drop_tmp env fs"
  by (auto simp: drop_tmp_def)

lemma drop_tmp_outside: "\<not> in_tmp env p \<Longrightarrow> drop_tmp env (fs(p := x)) = (drop_tmp env fs)(p := x)"
  by (auto simp: drop_tmp_def)

lemma transform_one_tmp:
  assumes "tmp_ok env"
  shows "transform_one env sv2v defines incdirs pkgs p (tmp_file env i) fs =
    (let cmd = sv2v_cmd sv2v defines incdirs pkgs p
     in case run_sv2v env (drop_tmp env fs) cmd of
          Not_started \<Rightarrow> (fs(tmp_file env i \<mapsto> []), Inl (Os_error sv2v))
        | Finished out returncode \<Rightarrow>
            (fs(tmp_file env i \<mapsto> out),
             if returncode \<noteq> 0 then Inl (Conversion_failed (failed_message p returncode cmd)) else Inr ()))"
proof -
  have "run_sv2v env (fs(tmp_file env i \<mapsto> [])) cmd = run_sv2v env (drop_tmp env fs) cmd" for cmd
    using assms drop_tmp_inside[OF tmp_file_inside(2)[OF assms], of fs i "Some []"]
    by (metis tmp_ok_def)
  then show ?thesis using assms by (simp add: transform_one_def Let_def tmp_ok_def split: conversion.split)
qed

text \<open>The conversions only change files of the temporary directory.\<close>

lemma convert_all_drop:
  assumes "tmp_ok env"
  shows "drop_tmp env (fst (convert_all env sv2v ds dif inc pkgs i ps fs)) = drop_tmp env fs"
proof (induction ps arbitrary: i fs)
  case (Cons p ps)
  have "drop_tmp env (fst (transform_one env sv2v d inc pkgs p (tmp_file env i) fs)) = drop_tmp env fs" for d
    using assms tmp_file_inside(2)[OF assms, of i]
    by (simp add: transform_one_tmp Let_def split: conversion.split)
  then show ?case
    using Cons.IH by (auto split: prod.splits sum.splits) (metis fst_conv)+
qed simp

section \<open>Properties\<close>

abbreviation command_of :: "sv2v_args \<Rightarrow> string list \<Rightarrow> string list \<Rightarrow> string \<Rightarrow> string list" where
  "command_of args dirs paths p \<equiv>
     sv2v_cmd (sa_sv2v args) (file_defines (sa_defines args) (sa_defines_if args) p)
       (sa_incdirs args @ dirs) (pkg_files paths) p"

lemma convert_all_succeeds:
  assumes "tmp_ok env"
    and "\<And>p. p \<in> set ps \<Longrightarrow>
      run_sv2v env (drop_tmp env fs) (sv2v_cmd sv2v (file_defines ds dif p) inc pkgs p) = Finished (conv p) 0"
  shows "\<exists>fs'. convert_all env sv2v ds dif inc pkgs i ps fs = (fs', Inr (map (tmp_file env) [i..<i + length ps])) \<and>
    (\<forall>j < length ps. fs' (tmp_file env (i + j)) = Some (conv (ps ! j))) \<and>
    (\<forall>m < i. fs' (tmp_file env m) = fs (tmp_file env m)) \<and>
    drop_tmp env fs' = drop_tmp env fs"
  using assms(2)
proof (induction ps arbitrary: i fs)
  case (Cons p ps)
  let ?fs = "fs(tmp_file env i \<mapsto> conv p)"
  have d: "drop_tmp env ?fs = drop_tmp env fs" using tmp_file_inside(2)[OF assms(1)] by simp
  have one: "transform_one env sv2v (file_defines ds dif p) inc pkgs p (tmp_file env i) fs = (?fs, Inr ())"
    using Cons.prems[of p] by (simp add: transform_one_tmp[OF assms(1)])
  have rest: "run_sv2v env (drop_tmp env ?fs) (sv2v_cmd sv2v (file_defines ds dif q) inc pkgs q) = Finished (conv q) 0"
    if "q \<in> set ps" for q
    unfolding d using that by (intro Cons.prems) simp
  obtain fs' where fs': "convert_all env sv2v ds dif inc pkgs (Suc i) ps ?fs =
        (fs', Inr (map (tmp_file env) [Suc i..<Suc i + length ps]))"
      "\<And>j. j < length ps \<Longrightarrow> fs' (tmp_file env (Suc i + j)) = Some (conv (ps ! j))"
      "\<And>m. m < Suc i \<Longrightarrow> fs' (tmp_file env m) = ?fs (tmp_file env m)" "drop_tmp env fs' = drop_tmp env ?fs"
    using Cons.IH[OF rest, of "Suc i"] by blast
  have "fs' (tmp_file env (i + j)) = Some (conv ((p # ps) ! j))" if "j < length (p # ps)" for j
    using that fs'(2)[of "j - 1"] fs'(3)[of i] by (cases j) auto
  moreover have "fs' (tmp_file env m) = fs (tmp_file env m)" if "m < i" for m
    using fs'(3)[of m] that by (simp add: tmp_file_inj[OF assms(1)])
  moreover have "[i..<i + length (p # ps)] = i # [Suc i..<Suc i + length ps]"
    by (subst upt_conv_Cons) simp_all
  ultimately show ?case using fs'(1,4) d by (simp add: one)
qed simp

lemma copy_back_succeeds:
  assumes "list_all (\<lambda>(dst, src). in_tmp env dst \<and> fs dst = Some (conv src) \<and> \<not> in_tmp env src \<and> can_write env src) ps"
  shows "copy_back env ps fs = (\<lambda>p. if p \<in> snd ` set ps then Some (conv p) else fs p, Inr ())"
  using assms
proof (induction ps arbitrary: fs)
  case (Cons x ps)
  obtain dst src where x: "x = (dst, src)" by (cases x)
  have "list_all (\<lambda>(d, s). in_tmp env d \<and> (fs(src \<mapsto> conv src)) d = Some (conv s) \<and> \<not> in_tmp env s \<and> can_write env s) ps"
    using Cons.prems by (auto simp: x list_all_iff)
  from Cons.IH[of "fs(src \<mapsto> conv src)", OF this] have "copy_back env (x # ps) fs =
      (\<lambda>p. if p \<in> snd ` set ps then Some (conv p) else (fs(src \<mapsto> conv src)) p, Inr ())"
    using Cons.prems by (simp add: x del: fun_upd_apply)
  then show ?case by (auto simp: x fun_eq_iff)
qed simp

lemma splat_succeeds:
  "list_all (can_write env) ps \<Longrightarrow> splat env ps fs = (\<lambda>p. if p \<in> set ps then Some [] else fs p, Inr ())"
  by (induction ps arbitrary: fs) auto

lemma transform_succeeds:
  assumes "tmp_ok env" and "drop_tmp env fs = fs"
    and "list_all (\<lambda>p. \<not> in_tmp env p \<and> can_write env p) ps"
    and "\<And>p. p \<in> set ps \<Longrightarrow> run_sv2v env fs (sv2v_cmd sv2v (file_defines ds dif p) inc pkgs p) = Finished (conv p) 0"
  shows "transform env sv2v ds dif inc pkgs ps fs = (\<lambda>p. if p \<in> set ps then Some (conv p) else fs p, Inr ())"
proof -
  obtain fs' where fs': "convert_all env sv2v ds dif inc pkgs 0 ps fs = (fs', Inr (map (tmp_file env) [0..<length ps]))"
      "\<And>j. j < length ps \<Longrightarrow> fs' (tmp_file env j) = Some (conv (ps ! j))" "drop_tmp env fs' = fs"
    using convert_all_succeeds[OF assms(1), of ps fs sv2v ds dif inc pkgs conv 0] assms(2,4) by auto
  let ?zip = "zip (map (tmp_file env) [0..<length ps]) ps"
  have "list_all (\<lambda>(dst, src). in_tmp env dst \<and> fs' dst = Some (conv src) \<and> \<not> in_tmp env src \<and> can_write env src) ?zip"
    using fs'(2) assms(3) tmp_file_inside(2)[OF assms(1)]
    by (auto simp: list_all_iff set_zip)
  note copied = copy_back_succeeds[OF this]
  have src: "snd ` set ?zip = set ps" by (metis length_map length_upt minus_nat.diff_0 map_snd_zip set_map)
  have "drop_tmp env (\<lambda>p. if p \<in> set ps then Some (conv p) else fs' p) =
      (\<lambda>p. if p \<in> set ps then Some (conv p) else drop_tmp env fs' p)"
    using assms(3) by (auto simp: drop_tmp_def list_all_iff)
  also have "\<dots> = (\<lambda>p. if p \<in> set ps then Some (conv p) else fs p)"
    by (simp only: fs'(3))
  finally show ?thesis by (simp add: transform_def fs'(1) copied src)
qed

text \<open>
  C31. When sv2v converts every \<^verbatim>\<open>.sv\<close> file of the list, each of them is replaced by its
  conversion in the tree as it was before the run, every \<^verbatim>\<open>.svh\<close> file is emptied, and no
  other file changes.
\<close>

theorem sv2v_converts_originals:
  assumes "tmp_ok env" and "drop_tmp env fs = fs"
    and "read_file_list fs (sa_file_list args) = Some paths"
    and "(case sa_incdir_list args of None \<Rightarrow> Some [] | Some l \<Rightarrow> read_file_list fs l) = Some dirs"
    and "list_all (\<lambda>p. \<not> in_tmp env p \<and> can_write env p) (sv_files paths @ svh_files paths)"
    and "list_all (\<lambda>p. run_sv2v env fs (command_of args dirs paths p) = Finished (conv p) 0) (sv_files paths)"
  shows "sv2v_main env args fs =
    (\<lambda>p. if p \<in> set (svh_files paths) then Some []
         else if p \<in> set (sv_files paths) then Some (conv p) else fs p, [], Inr 0)"
proof -
  have "transform env (sa_sv2v args) (sa_defines args) (sa_defines_if args) (sa_incdirs args @ dirs)
      (pkg_files paths) (sv_files paths) fs =
    (\<lambda>p. if p \<in> set (sv_files paths) then Some (conv p) else fs p, Inr ())"
    using assms by (intro transform_succeeds) (auto simp: list_all_iff)
  moreover have "list_all (can_write env) (svh_files paths)"
    using assms(5) by (auto simp: list_all_iff)
  ultimately show ?thesis
    by (simp add: sv2v_main_def assms(3,4) splat_succeeds)
qed

lemma convert_all_fails:
  assumes "tmp_ok env"
    and "\<And>p. p \<in> set ps \<Longrightarrow>
      run_sv2v env (drop_tmp env fs) (sv2v_cmd sv2v (file_defines ds dif p) inc pkgs p) = Finished (conv p) (code_of p)"
    and "\<exists>p \<in> set ps. code_of p \<noteq> 0"
  shows "\<exists>msg. snd (convert_all env sv2v ds dif inc pkgs i ps fs) = Inl (Conversion_failed msg)"
  using assms(2,3)
proof (induction ps arbitrary: i fs)
  case (Cons p ps)
  let ?fs = "fs(tmp_file env i \<mapsto> conv p)"
  show ?case
  proof (cases "code_of p = 0")
    case True
    have d: "drop_tmp env ?fs = drop_tmp env fs" using tmp_file_inside(2)[OF assms(1)] by simp
    have rest: "run_sv2v env (drop_tmp env ?fs) (sv2v_cmd sv2v (file_defines ds dif q) inc pkgs q) =
        Finished (conv q) (code_of q)" if "q \<in> set ps" for q
      unfolding d using that by (intro Cons.prems) simp
    have "\<exists>q \<in> set ps. code_of q \<noteq> 0" using Cons.prems(2) True by auto
    with rest have "\<exists>msg. snd (convert_all env sv2v ds dif inc pkgs (Suc i) ps ?fs) = Inl (Conversion_failed msg)"
      by (rule Cons.IH)
    then show ?thesis
      using Cons.prems(1)[of p] True by (auto simp: transform_one_tmp[OF assms(1)] split: prod.splits)
  next
    case False
    then show ?thesis using Cons.prems(1)[of p] by (simp add: transform_one_tmp[OF assms(1)] Let_def)
  qed
qed simp

text \<open>
  C32. When sv2v fails on one of the files, the run ends with status 1 and an error in the log,
  and every file is as it was, also those that were converted before.
\<close>

theorem sv2v_failure_changes_nothing:
  assumes "tmp_ok env" and "drop_tmp env fs = fs"
    and "read_file_list fs (sa_file_list args) = Some paths"
    and "(case sa_incdir_list args of None \<Rightarrow> Some [] | Some l \<Rightarrow> read_file_list fs l) = Some dirs"
    and "list_all (\<lambda>p. run_sv2v env fs (command_of args dirs paths p) = Finished (conv p) (code_of p)) (sv_files paths)"
    and "list_ex (\<lambda>p. code_of p \<noteq> 0) (sv_files paths)"
  shows "\<exists>msg. sv2v_main env args fs = (fs, [msg], Inr 1)"
proof -
  let ?convert = "convert_all env (sa_sv2v args) (sa_defines args) (sa_defines_if args) (sa_incdirs args @ dirs)
      (pkg_files paths) 0 (sv_files paths) fs"
  obtain msg where "snd ?convert = Inl (Conversion_failed msg)"
    using assms convert_all_fails[OF assms(1), of "sv_files paths" fs "sa_sv2v args" "sa_defines args"
      "sa_defines_if args" "sa_incdirs args @ dirs" "pkg_files paths" conv code_of 0]
    by (auto simp: list_all_iff list_ex_iff)
  moreover have "drop_tmp env (fst ?convert) = fs"
    using convert_all_drop[OF assms(1)] assms(2) by simp
  ultimately have "transform env (sa_sv2v args) (sa_defines args) (sa_defines_if args) (sa_incdirs args @ dirs)
      (pkg_files paths) (sv_files paths) fs = (fs, Inl (Conversion_failed msg))"
    by (cases ?convert) (simp add: transform_def)
  then show ?thesis by (simp add: sv2v_main_def assms(3,4))
qed

text \<open>An sv2v that gives back the file it converts, and one that fails on \<^verbatim>\<open>b.sv\<close>.\<close>

definition demo_tree :: tree where
  "demo_tree = [''files'' \<mapsto> ''a.sv'' @ newline # ''b.sv'' @ newline # ''c.svh'' @ [newline],
     ''a.sv'' \<mapsto> ''module a'', ''b.sv'' \<mapsto> ''module b'', ''c.svh'' \<mapsto> ''macros'']"

definition demo_conversion :: "bool \<Rightarrow> tree \<Rightarrow> string list \<Rightarrow> conversion" where
  "demo_conversion works fs cmd =
     (if last cmd = ''b.sv'' \<and> \<not> works then Finished [] 1
      else Finished (''v: '' @ (case fs (last cmd) of None \<Rightarrow> [] | Some s \<Rightarrow> s)) 0)"

definition demo_env :: "bool \<Rightarrow> sv2v_env" where
  "demo_env works =
     \<lparr>run_sv2v = (\<lambda>fs. demo_conversion works (\<lambda>p. if prefix ''/tmp/x/'' p then None else fs p)),
      can_write = (\<lambda>p. True), tmpdir = ''/tmp/x''\<rparr>"

definition demo_args :: sv2v_args where
  "demo_args = \<lparr>sa_file_list = ''files'', sa_defines = [], sa_defines_if = [], sa_incdirs = [],
     sa_incdir_list = None, sa_sv2v = ''sv2v''\<rparr>"

lemma demo_tmp_ok: "tmp_ok (demo_env w)"
  by (simp add: tmp_ok_def demo_env_def drop_tmp_def in_tmp_def cong: if_cong)

lemma demo_tree_clean: "drop_tmp (demo_env w) demo_tree = demo_tree"
  by (auto simp: drop_tmp_def demo_env_def demo_tree_def in_tmp_def)

lemma demo_list: "read_file_list demo_tree ''files'' = Some [''a.sv'', ''b.sv'', ''c.svh'']"
  by code_simp

lemma demo_files:
  "sv_files [''a.sv'', ''b.sv'', ''c.svh''] = [''a.sv'', ''b.sv'']"
  "svh_files [''a.sv'', ''b.sv'', ''c.svh''] = [''c.svh'']"
  "pkg_files [''a.sv'', ''b.sv'', ''c.svh''] = []"
  by code_simp+

lemmas demo_sv2v_simps = demo_env_def demo_args_def demo_conversion_def demo_tree_def demo_files sv2v_cmd_def
  file_defines_def in_tmp_def

theorem sv2v_converts_originals_witness:
  "sv2v_main (demo_env True) demo_args demo_tree =
     (\<lambda>p. if p \<in> set (svh_files [''a.sv'', ''b.sv'', ''c.svh'']) then Some []
          else if p \<in> set (sv_files [''a.sv'', ''b.sv'', ''c.svh'']) then Some (''v: module '' @ take 1 p)
          else demo_tree p, [], Inr 0)"
proof (rule sv2v_converts_originals[OF demo_tmp_ok demo_tree_clean])
  show "read_file_list demo_tree (sa_file_list demo_args) = Some [''a.sv'', ''b.sv'', ''c.svh'']"
    by (simp add: demo_args_def demo_list)
  show "(case sa_incdir_list demo_args of None \<Rightarrow> Some [] | Some l \<Rightarrow> read_file_list demo_tree l) = Some []"
    by (simp add: demo_args_def)
  show "list_all (\<lambda>p. \<not> in_tmp (demo_env True) p \<and> can_write (demo_env True) p)
      (sv_files [''a.sv'', ''b.sv'', ''c.svh''] @ svh_files [''a.sv'', ''b.sv'', ''c.svh''])"
    by (simp add: demo_sv2v_simps)
  show "list_all (\<lambda>p. run_sv2v (demo_env True) demo_tree
      (command_of demo_args [] [''a.sv'', ''b.sv'', ''c.svh''] p) = Finished (''v: module '' @ take 1 p) 0)
      (sv_files [''a.sv'', ''b.sv'', ''c.svh''])"
    by (simp add: demo_sv2v_simps)
qed

theorem sv2v_failure_changes_nothing_witness:
  "\<exists>msg. sv2v_main (demo_env False) demo_args demo_tree = (demo_tree, [msg], Inr 1)"
proof (rule sv2v_failure_changes_nothing[OF demo_tmp_ok demo_tree_clean])
  show "read_file_list demo_tree (sa_file_list demo_args) = Some [''a.sv'', ''b.sv'', ''c.svh'']"
    by (simp add: demo_args_def demo_list)
  show "(case sa_incdir_list demo_args of None \<Rightarrow> Some [] | Some l \<Rightarrow> read_file_list demo_tree l) = Some []"
    by (simp add: demo_args_def)
  show "list_all (\<lambda>p. run_sv2v (demo_env False) demo_tree
      (command_of demo_args [] [''a.sv'', ''b.sv'', ''c.svh''] p) =
      Finished (if p = ''b.sv'' then [] else ''v: module a'') (if p = ''b.sv'' then 1 else 0))
      (sv_files [''a.sv'', ''b.sv'', ''c.svh''])"
    by (simp add: demo_sv2v_simps)
  show "list_ex (\<lambda>p. (if p = ''b.sv'' then 1 else 0) \<noteq> (0 :: int)) (sv_files [''a.sv'', ''b.sv'', ''c.svh''])"
    by (simp add: demo_files)
qed

end
