(* ===== verification/IbexConfig.thy ===== *)
theory IbexConfig
  imports PyVal Shlex
begin

text \<open>
  \<^verbatim>\<open>util/ibex_config.py\<close>: the named core configurations of
  \<^verbatim>\<open>ibex_configs.yaml\<close>, their validation, and the option strings the tool prints for
  FuseSoC and for each simulator.
\<close>

section \<open>The configuration object\<close>

datatype ftype = T_bool | T_int | T_str

definition known_fields :: "(string \<times> ftype) list" where
  "known_fields =
    [(''RV32E'', T_bool),
     (''RV32M'', T_str),
     (''RV32B'', T_str),
     (''RV32ZC'', T_str),
     (''RegFile'', T_str),
     (''BranchTargetALU'', T_bool),
     (''WritebackStage'', T_bool),
     (''ICache'', T_bool),
     (''ICacheECC'', T_bool),
     (''ICacheScramble'', T_bool),
     (''BranchPredictor'', T_bool),
     (''DbgTriggerEn'', T_bool),
     (''SecureIbex'', T_bool),
     (''PMPEnable'', T_bool),
     (''PMPGranularity'', T_int),
     (''PMPNumRegions'', T_int),
     (''MHPMCounterNum'', T_int),
     (''MHPMCounterWidth'', T_int)]"

text \<open>What the code raises; the message's data are the constructor's arguments.\<close>

datatype config_error =
    Config_not_dict
  | Unknown_keys "pyval list"
  | Missing_keys "pyval list"
  | Key_error string
  | Bool_out_of_range string int
  | Expected_bool string pyval
  | Expected_int string pyval
  | Expected_string string pyval
  | Configs_not_dict
  | In_config pyval config_error
  | Yaml_error
  | Config_exception string config_error
  | Config_file_not_found string
  | Config_not_found string
  | Int_conversion pyval

text \<open>The static readers of one field, \<open>val = yml[fld]\<close> first.\<close>

definition read_bool :: "string \<Rightarrow> (pyval \<times> pyval) list \<Rightarrow> config_error + bool" where
  "read_bool fld yml =
     (case dict_get yml fld of
        None \<Rightarrow> Inl (Key_error fld)
      | Some (PBool b) \<Rightarrow> Inr b
      | Some (PInt i) \<Rightarrow>
          if 0 \<le> i \<and> i \<le> 1 then Inr (i \<noteq> 0) else Inl (Bool_out_of_range fld i)
      | Some v \<Rightarrow> Inl (Expected_bool fld v))"

definition read_int_field :: "string \<Rightarrow> (pyval \<times> pyval) list \<Rightarrow> config_error + int" where
  "read_int_field fld yml =
     (case dict_get yml fld of
        None \<Rightarrow> Inl (Key_error fld)
      | Some v \<Rightarrow> (case int_value v of Some i \<Rightarrow> Inr i | None \<Rightarrow> Inl (Expected_int fld v)))"

definition read_str :: "string \<Rightarrow> (pyval \<times> pyval) list \<Rightarrow> config_error + string" where
  "read_str fld yml =
     (case dict_get yml fld of
        None \<Rightarrow> Inl (Key_error fld)
      | Some (PStr s) \<Rightarrow> Inr s
      | Some v \<Rightarrow> Inl (Expected_string fld v))"

record config =
  params :: "(pyval \<times> pyval) list"
  rv32e :: bool
  rv32m :: string
  rv32b :: string
  rv32zc :: string
  reg_file :: string
  branch_target_alu :: bool
  writeback_stage :: bool
  icache :: bool
  icache_ecc :: bool
  icache_scramble :: bool
  branch_predictor :: bool
  dbg_trigger_en :: bool
  secure_ibex :: bool
  pmp_enable :: bool
  pmp_granularity :: int
  pmp_num_regions :: int
  mhpm_counter_num :: int
  mhpm_counter_width :: int

definition known_keys :: "pyval list" where
  "known_keys = map (PStr \<circ> fst) known_fields"

text \<open>
  \<open>Config.__init__\<close>: the two key checks, then the fields in order.  When keys are
  missing, the message prints \<open>extra_keys\<close>, not \<open>missing_keys\<close>; the model carries
  what is printed.
\<close>

definition config_init :: "pyval \<Rightarrow> config_error + config" where
  "config_init y =
     (case y of
        PDict yml \<Rightarrow>
          let yaml_keys = map fst yml;
              extra_keys = filter (\<lambda>k. k \<notin> set known_keys) yaml_keys;
              missing_keys = filter (\<lambda>k. k \<notin> set yaml_keys) known_keys
          in if extra_keys \<noteq> [] then Inl (Unknown_keys extra_keys)
             else if missing_keys \<noteq> [] then Inl (Missing_keys extra_keys)
             else
               ebind (read_bool ''RV32E'' yml) (\<lambda>a1.
               ebind (read_str ''RV32M'' yml) (\<lambda>a2.
               ebind (read_str ''RV32B'' yml) (\<lambda>a3.
               ebind (read_str ''RV32ZC'' yml) (\<lambda>a4.
               ebind (read_str ''RegFile'' yml) (\<lambda>a5.
               ebind (read_bool ''BranchTargetALU'' yml) (\<lambda>a6.
               ebind (read_bool ''WritebackStage'' yml) (\<lambda>a7.
               ebind (read_bool ''ICache'' yml) (\<lambda>a8.
               ebind (read_bool ''ICacheECC'' yml) (\<lambda>a9.
               ebind (read_bool ''ICacheScramble'' yml) (\<lambda>a10.
               ebind (read_bool ''BranchPredictor'' yml) (\<lambda>a11.
               ebind (read_bool ''DbgTriggerEn'' yml) (\<lambda>a12.
               ebind (read_bool ''SecureIbex'' yml) (\<lambda>a13.
               ebind (read_bool ''PMPEnable'' yml) (\<lambda>a14.
               ebind (read_int_field ''PMPGranularity'' yml) (\<lambda>a15.
               ebind (read_int_field ''PMPNumRegions'' yml) (\<lambda>a16.
               ebind (read_int_field ''MHPMCounterNum'' yml) (\<lambda>a17.
               ebind (read_int_field ''MHPMCounterWidth'' yml) (\<lambda>a18.
               Inr \<lparr>params = yml, rv32e = a1, rv32m = a2, rv32b = a3, rv32zc = a4,
                    reg_file = a5, branch_target_alu = a6, writeback_stage = a7, icache = a8,
                    icache_ecc = a9, icache_scramble = a10, branch_predictor = a11,
                    dbg_trigger_en = a12, secure_ibex = a13, pmp_enable = a14,
                    pmp_granularity = a15, pmp_num_regions = a16, mhpm_counter_num = a17,
                    mhpm_counter_width = a18\<rparr>))))))))))))))))))
      | _ \<Rightarrow> Inl Config_not_dict)"

text \<open>\<open>Configs.__init__\<close>: every entry of the file, an error naming the entry.\<close>

definition add_config :: "pyval \<times> pyval \<Rightarrow> (pyval, config) pydict \<Rightarrow>
    config_error + (pyval, config) pydict" where
  "add_config entry configs =
     (case config_init (snd entry) of
        Inl err \<Rightarrow> Inl (In_config (fst entry) err)
      | Inr c \<Rightarrow> Inr (dset (fst entry) c configs))"

definition configs_init :: "pyval \<Rightarrow> config_error + (pyval, config) pydict" where
  "configs_init y =
     (case y of
        PDict yml \<Rightarrow> efold add_config yml []
      | _ \<Rightarrow> Inl Configs_not_dict)"

text \<open>
  \<open>parse_config\<close>.  The file system and PyYAML's loader are parameters: \<open>read_file\<close>
  gives a file's text, \<open>yaml_load\<close> its value or \<open>None\<close> where it raises
  \<open>YAMLError\<close>.
\<close>

definition parse_config :: "(string \<Rightarrow> string option) \<Rightarrow> (string \<Rightarrow> pyval option) \<Rightarrow>
    string \<Rightarrow> string \<Rightarrow> config_error + config" where
  "parse_config read_file yaml_load config_name config_filename =
     ebind (of_option (Config_file_not_found config_filename) (read_file config_filename)) (\<lambda>text.
     ebind (of_option Yaml_error (yaml_load text)) (\<lambda>yml.
     (case configs_init yml of
        Inl err \<Rightarrow> Inl (Config_exception config_filename err)
      | Inr configs \<Rightarrow>
          of_option (Config_not_found config_name) (dget configs (PStr config_name)))))"

definition get_config_file_location :: "(string \<rightharpoonup> string) \<Rightarrow> string" where
  "get_config_file_location environ =
     (case environ ''IBEX_CONFIG_FILE'' of Some f \<Rightarrow> f | None \<Rightarrow> ''ibex_configs.yaml'')"

section \<open>The outputters\<close>

text \<open>The arguments an outputter reads: those of \<open>query_fields\<close> and of the simulators.\<close>

record out_args =
  query_fields :: "string list"
  ins_hier_path :: string
  string_define_prefix :: string

text \<open>\<open>config.params[fld]\<close>.\<close>

definition param :: "config \<Rightarrow> string \<Rightarrow> config_error + pyval" where
  "param c fld = of_option (Key_error fld) (dict_get (params c) fld)"

definition fusesoc_words :: "config \<Rightarrow> config_error + string list" where
  "fusesoc_words c =
     emap (\<lambda>(fld, typ). ebind (param c fld) (\<lambda>val.
       Inr (''--'' @ fld @ ''='' @ py_str val))) known_fields"

definition fusesoc_output :: "config \<Rightarrow> out_args \<Rightarrow> config_error + string" where
  "fusesoc_output c args =
     ebind (fusesoc_words c) (\<lambda>cmd. Inr (join '' '' (map quote cmd)))"

definition query_one :: "config \<Rightarrow> string \<Rightarrow> string" where
  "query_one c fld =
     (case dict_get (params c) fld of
        Some val \<Rightarrow> fld @ ''='' @ py_str val
      | None \<Rightarrow> fld @ '' not found in config'')"

definition query_output :: "config \<Rightarrow> out_args \<Rightarrow> config_error + string" where
  "query_output c args = Inr (join [newline] (map (query_one c) (query_fields args)))"

record sim_opts =
  cmd_name :: string
  description :: string
  param_set_fn :: "string \<Rightarrow> string \<Rightarrow> string list"
  define_set_fn :: "string \<Rightarrow> string \<Rightarrow> string list"
  hierarchy_sep :: string

text \<open>The words one field contributes (\<open>SimOpts.output\<close>'s loop body).\<close>

definition sim_field_words :: "sim_opts \<Rightarrow> config \<Rightarrow> out_args \<Rightarrow> string \<times> ftype \<Rightarrow>
    config_error + string list" where
  "sim_field_words so c args ft =
     ebind (param c (fst ft)) (\<lambda>val.
       if snd ft = T_str
       then Inr (define_set_fn so (string_define_prefix args @ fst ft) (py_str val))
       else ebind (of_option (Int_conversion val) (py_int val)) (\<lambda>i.
         Inr (param_set_fn so
           ((if ins_hier_path args \<noteq> [] then ins_hier_path args @ hierarchy_sep so else [])
             @ fst ft) (show_int i))))"

definition sim_words :: "sim_opts \<Rightarrow> config \<Rightarrow> out_args \<Rightarrow> config_error + string list" where
  "sim_words so c args =
     ebind (emap (sim_field_words so c args) known_fields) (\<lambda>wss. Inr (concat wss))"

definition sim_output :: "sim_opts \<Rightarrow> config \<Rightarrow> out_args \<Rightarrow> config_error + string" where
  "sim_output so c args = ebind (sim_words so c args) (\<lambda>ws. Inr (join '' '' (map quote ws)))"

section \<open>The table of outputters and the main program\<close>

definition sim_outputters :: "sim_opts list" where
  "sim_outputters =
    [\<lparr>cmd_name = ''vcs_opts'', description = ''VCS compile'',
      param_set_fn = (\<lambda>p v. [''-pvalue+'' @ p @ ''='' @ v]),
      define_set_fn = (\<lambda>d v. [''+define+'' @ d @ ''='' @ v]), hierarchy_sep = ''.''\<rparr>,
     \<lparr>cmd_name = ''riviera_sim_opts'', description = ''Riviera simulate'',
      param_set_fn = (\<lambda>p v. [''-g/'' @ p @ ''='' @ v]),
      define_set_fn = (\<lambda>d v. []), hierarchy_sep = ''/''\<rparr>,
     \<lparr>cmd_name = ''riviera_compile_opts'', description = ''Riviera compile'',
      param_set_fn = (\<lambda>p v. []),
      define_set_fn = (\<lambda>d v. [''+define+'' @ d @ ''='' @ v]), hierarchy_sep = ''/''\<rparr>,
     \<lparr>cmd_name = ''questa_sim_opts'', description = ''Questa simulate'',
      param_set_fn = (\<lambda>p v. [''-g/'' @ p @ ''='' @ v]),
      define_set_fn = (\<lambda>d v. []), hierarchy_sep = ''/''\<rparr>,
     \<lparr>cmd_name = ''questa_compile_opts'', description = ''Questa compile'',
      param_set_fn = (\<lambda>p v. []),
      define_set_fn = (\<lambda>d v. [''+define+'' @ d @ ''='' @ v]), hierarchy_sep = ''/''\<rparr>,
     \<lparr>cmd_name = ''xlm_opts'', description = ''Xcelium compile'',
      param_set_fn = (\<lambda>p v. [''-defparam'', p @ ''='' @ v]),
      define_set_fn = (\<lambda>d v. [''-define'', d @ ''='' @ v]), hierarchy_sep = ''.''\<rparr>,
     \<lparr>cmd_name = ''dsim_opts'', description = ''DSim compile'',
      param_set_fn = (\<lambda>p v. [''-defparam'', p @ ''='' @ v]),
      define_set_fn = (\<lambda>d v. [''+define+'' @ d @ ''='' @ v]), hierarchy_sep = ''.''\<rparr>]"

definition outputters :: "(string \<times> (config \<Rightarrow> out_args \<Rightarrow> config_error + string)) list" where
  "outputters =
     (''fusesoc_opts'', fusesoc_output) # (''query_fields'', query_output) #
     map (\<lambda>so. (cmd_name so, sim_output so)) sim_outputters"

text \<open>What a run of the program does: prints a line and exits with a status.  The parser of
  the command line admits exactly the names of the table as output types, and none.\<close>

datatype main_result =
    Usage_error
  | Raised config_error
  | Printed string int

definition main :: "(string \<Rightarrow> string option) \<Rightarrow> (string \<Rightarrow> pyval option) \<Rightarrow> (string \<rightharpoonup> string) \<Rightarrow>
    string \<Rightarrow> string option \<Rightarrow> string option \<Rightarrow> out_args \<Rightarrow> main_result" where
  "main read_file yaml_load environ config_name config_filename output_type args =
     (case output_type of
        None \<Rightarrow> Printed ''ERROR: No output format specified.'' 1
      | Some t \<Rightarrow>
          (case map_of outputters t of
             None \<Rightarrow> Usage_error
           | Some output_fn \<Rightarrow>
               (case ebind (parse_config read_file yaml_load config_name
                        (case config_filename of Some f \<Rightarrow> f
                         | None \<Rightarrow> get_config_file_location environ))
                      (\<lambda>c. output_fn c args) of
                  Inl e \<Rightarrow> Raised e
                | Inr s \<Rightarrow> Printed s 0)))"


section \<open>Validation\<close>

text \<open>What a value must be for a field of a given type.\<close>

fun field_ok :: "ftype \<Rightarrow> pyval option \<Rightarrow> bool" where
  "field_ok T_bool (Some (PBool b)) = True"
| "field_ok T_bool (Some (PInt i)) = (i = 0 \<or> i = 1)"
| "field_ok T_int (Some v) = is_int v"
| "field_ok T_str (Some v) = is_str v"
| "field_ok _ _ = False"

text \<open>The text of a value as the simulators' options give it.\<close>

definition bit_text :: "bool \<Rightarrow> string" where
  "bit_text b = (if b then ''1'' else ''0'')"

text \<open>A configuration as the table of its fields: name, type and the value's text, read off
  the attributes of the object rather than the dictionary it was built from.\<close>

definition config_table :: "config \<Rightarrow> (string \<times> ftype \<times> string) list" where
  "config_table c =
    [(''RV32E'', T_bool, bit_text (rv32e c)),
     (''RV32M'', T_str, rv32m c),
     (''RV32B'', T_str, rv32b c),
     (''RV32ZC'', T_str, rv32zc c),
     (''RegFile'', T_str, reg_file c),
     (''BranchTargetALU'', T_bool, bit_text (branch_target_alu c)),
     (''WritebackStage'', T_bool, bit_text (writeback_stage c)),
     (''ICache'', T_bool, bit_text (icache c)),
     (''ICacheECC'', T_bool, bit_text (icache_ecc c)),
     (''ICacheScramble'', T_bool, bit_text (icache_scramble c)),
     (''BranchPredictor'', T_bool, bit_text (branch_predictor c)),
     (''DbgTriggerEn'', T_bool, bit_text (dbg_trigger_en c)),
     (''SecureIbex'', T_bool, bit_text (secure_ibex c)),
     (''PMPEnable'', T_bool, bit_text (pmp_enable c)),
     (''PMPGranularity'', T_int, show_int (pmp_granularity c)),
     (''PMPNumRegions'', T_int, show_int (pmp_num_regions c)),
     (''MHPMCounterNum'', T_int, show_int (mhpm_counter_num c)),
     (''MHPMCounterWidth'', T_int, show_int (mhpm_counter_width c))]"

lemma show_int_bit: "show_int (if b then 1 else 0) = bit_text b"
proof -
  have "show_int 0 = ''0''" "show_int 1 = ''1''" by code_simp+
  then show ?thesis by (cases b) (simp_all add: bit_text_def)
qed

lemma read_bool_ok: "(\<exists>b. read_bool fld yml = Inr b) \<longleftrightarrow> field_ok T_bool (dict_get yml fld)"
  by (cases "dict_get yml fld") (auto simp: read_bool_def split: pyval.splits)

lemma read_int_ok: "(\<exists>i. read_int_field fld yml = Inr i) \<longleftrightarrow> field_ok T_int (dict_get yml fld)"
  by (cases "dict_get yml fld") (auto simp: read_int_field_def int_value_None split: option.splits dest: int_value_Some)

lemma read_str_ok: "(\<exists>s. read_str fld yml = Inr s) \<longleftrightarrow> field_ok T_str (dict_get yml fld)"
  by (cases "dict_get yml fld") (auto simp: read_str_def split: pyval.splits)

lemma ebind_ok:
  "(\<exists>b. ebind m f = Inr b) \<longleftrightarrow> (\<exists>a. m = Inr a \<and> (\<exists>b. f a = Inr b))"
  by (auto simp: raise_simps)

lemmas read_ok = read_bool_ok read_int_ok read_str_ok

lemma read_bool_value: "read_bool fld yml = Inr b \<Longrightarrow>
    \<exists>v. dict_get yml fld = Some v \<and> py_int v = Some (if b then 1 else 0)"
  by (auto simp: read_bool_def split: option.splits pyval.splits if_splits)

lemma read_int_value: "read_int_field fld yml = Inr i \<Longrightarrow>
    \<exists>v. dict_get yml fld = Some v \<and> py_int v = Some i"
proof -
  have "int_value v = Some i \<Longrightarrow> py_int v = Some i" for v by (cases v) auto
  then show "read_int_field fld yml = Inr i \<Longrightarrow> ?thesis"
    by (auto simp: read_int_field_def split: option.splits)
qed

lemma read_str_value: "read_str fld yml = Inr s \<Longrightarrow> dict_get yml fld = Some (PStr s)"
  by (auto simp: read_str_def split: option.splits pyval.splits)

text \<open>A successful construction, attribute by attribute.\<close>

lemma config_init_reads:
  assumes "config_init y = Inr c"
  shows "y = PDict (params c)"
    and "set (map fst (params c)) = set known_keys"
    and "list_all (\<lambda>(f, t, s). \<exists>v. dict_get (params c) f = Some v \<and>
           (if t = T_str then v = PStr s else map_option show_int (py_int v) = Some s))
         (config_table c)"
proof -
  obtain yml where y: "y = PDict yml"
    using assms by (cases y) (simp_all add: config_init_def)
  note i = assms[unfolded y config_init_def pyval.case Let_def]
  have k: "filter (\<lambda>k. k \<notin> set known_keys) (map fst yml) = []"
    "filter (\<lambda>k. k \<notin> set (map fst yml)) known_keys = []"
    using i by (auto split: if_splits)
  then have i: "read_bool ''RV32E'' yml = Inr (rv32e c)"
    "read_str ''RV32M'' yml = Inr (rv32m c)"
    "read_str ''RV32B'' yml = Inr (rv32b c)"
    "read_str ''RV32ZC'' yml = Inr (rv32zc c)"
    "read_str ''RegFile'' yml = Inr (reg_file c)"
    "read_bool ''BranchTargetALU'' yml = Inr (branch_target_alu c)"
    "read_bool ''WritebackStage'' yml = Inr (writeback_stage c)"
    "read_bool ''ICache'' yml = Inr (icache c)"
    "read_bool ''ICacheECC'' yml = Inr (icache_ecc c)"
    "read_bool ''ICacheScramble'' yml = Inr (icache_scramble c)"
    "read_bool ''BranchPredictor'' yml = Inr (branch_predictor c)"
    "read_bool ''DbgTriggerEn'' yml = Inr (dbg_trigger_en c)"
    "read_bool ''SecureIbex'' yml = Inr (secure_ibex c)"
    "read_bool ''PMPEnable'' yml = Inr (pmp_enable c)"
    "read_int_field ''PMPGranularity'' yml = Inr (pmp_granularity c)"
    "read_int_field ''PMPNumRegions'' yml = Inr (pmp_num_regions c)"
    "read_int_field ''MHPMCounterNum'' yml = Inr (mhpm_counter_num c)"
    "read_int_field ''MHPMCounterWidth'' yml = Inr (mhpm_counter_width c)"
    "params c = yml"
    using i by (auto simp: raise_simps)
  show "y = PDict (params c)" using y i by simp
  show "set (map fst (params c)) = set known_keys"
    using k i(19) by (auto simp: filter_empty_conv)
  note b = read_bool_value[OF i(1)] read_bool_value[OF i(6)] read_bool_value[OF i(7)]
    read_bool_value[OF i(8)] read_bool_value[OF i(9)] read_bool_value[OF i(10)]
    read_bool_value[OF i(11)] read_bool_value[OF i(12)] read_bool_value[OF i(13)]
    read_bool_value[OF i(14)] read_int_value[OF i(15)] read_int_value[OF i(16)]
    read_int_value[OF i(17)] read_int_value[OF i(18)] read_str_value[OF i(2)]
    read_str_value[OF i(3)] read_str_value[OF i(4)] read_str_value[OF i(5)]
  have bit: "\<exists>v. dict_get yml f = Some v \<and> map_option show_int (py_int v) = Some (bit_text a)"
    if "\<exists>v. dict_get yml f = Some v \<and> py_int v = Some (if a then 1 else 0)" for f a
    using that show_int_bit[of a] by (metis option.simps(9))
  have num: "\<exists>v. dict_get yml f = Some v \<and> map_option show_int (py_int v) = Some (show_int a)"
    if "\<exists>v. dict_get yml f = Some v \<and> py_int v = Some a" for f a
    using that by auto
  note facts = bit[OF b(1)] bit[OF b(2)] bit[OF b(3)] bit[OF b(4)] bit[OF b(5)] bit[OF b(6)]
    bit[OF b(7)] bit[OF b(8)] bit[OF b(9)] bit[OF b(10)] num[OF b(11)] num[OF b(12)]
    num[OF b(13)] num[OF b(14)] b(15-18)
  show "list_all (\<lambda>(f, t, s). \<exists>v. dict_get (params c) f = Some v \<and>
           (if t = T_str then v = PStr s else map_option show_int (py_int v) = Some s))
         (config_table c)"
    unfolding config_table_def i(19) list.pred_inject prod.case using facts by simp
qed


text \<open>
  C28. \<open>Config(yml)\<close> succeeds exactly on a dictionary whose keys are the known fields and
  whose values have the fields' types: booleans (or the integers 0 and 1), integers, strings.
\<close>

theorem config_accepts:
  "(\<exists>c. config_init y = Inr c) \<longleftrightarrow>
   (\<exists>yml. y = PDict yml \<and> set (map fst yml) = set known_keys \<and>
     list_all (\<lambda>(f, t). field_ok t (dict_get yml f)) known_fields)"
proof (cases "\<exists>yml. y = PDict yml")
  case False
  then show ?thesis by (cases y) (simp_all add: config_init_def)
next
  case True
  then obtain yml where y: "y = PDict yml" by blast
  let ?ok = "filter (\<lambda>k. k \<notin> set known_keys) (map fst yml) = [] \<and>
    filter (\<lambda>k. k \<notin> set (map fst yml)) known_keys = []"
  have keys: "?ok \<longleftrightarrow> set (map fst yml) = set known_keys"
    unfolding filter_empty_conv by blast
  show ?thesis
  proof (cases ?ok)
    case False
    then show ?thesis using keys by (auto simp: y config_init_def Let_def)
  next
    case True
    then have "(\<exists>c. config_init y = Inr c) \<longleftrightarrow>
        list_all (\<lambda>(f, t). field_ok t (dict_get yml f)) known_fields"
      unfolding y config_init_def pyval.case Let_def known_fields_def list.pred_inject prod.case
      by (simp add: ebind_ok read_ok[symmetric] del: ebind_eq_Inr)
    then show ?thesis using keys True y by simp
  qed
qed

text \<open>The words one row of the table contributes to a simulator's options.\<close>

fun sim_row :: "sim_opts \<Rightarrow> out_args \<Rightarrow> string \<times> ftype \<times> string \<Rightarrow> string list" where
  "sim_row so args (f, t, v) =
     (if t = T_str then define_set_fn so (string_define_prefix args @ f) v
      else param_set_fn so ((if ins_hier_path args \<noteq> []
        then ins_hier_path args @ hierarchy_sep so else []) @ f) v)"

lemma known_fields_table: "known_fields = map (\<lambda>(f, t, s). (f, t)) (config_table c)"
  by (simp add: known_fields_def config_table_def)

lemma sim_words_table:
  assumes "config_init y = Inr c"
  shows "sim_words so c args = Inr (concat (map (sim_row so args) (config_table c)))"
proof -
  have row: "sim_field_words so c args (f, t) = Inr (sim_row so args (f, t, s))"
    if "(f, t, s) \<in> set (config_table c)" for f t s
  proof -
    have "\<exists>v. dict_get (params c) f = Some v \<and>
        (if t = T_str then v = PStr s else map_option show_int (py_int v) = Some s)"
      using config_init_reads(3)[OF assms] that by (fastforce simp: list_all_iff)
    then obtain v where v: "dict_get (params c) f = Some v"
      "if t = T_str then v = PStr s else map_option show_int (py_int v) = Some s"
      by blast
    then show ?thesis
      by (auto simp: sim_field_words_def param_def split: if_splits)
  qed
  then have "emap (\<lambda>r. sim_field_words so c args ((\<lambda>(f, t, s). (f, t)) r)) (config_table c) =
      Inr (map (sim_row so args) (config_table c))"
    by (intro emap_total) auto
  then show ?thesis
    by (simp add: sim_words_def known_fields_table[of c] emap_map)
qed

lemma fusesoc_words_ok:
  assumes "config_init y = Inr c"
  shows "fusesoc_words c = Inr (map (\<lambda>(f, t). ''--'' @ f @ ''='' @
    py_str (the (dict_get (params c) f))) known_fields)"
proof -
  have "param c f = Inr (the (dict_get (params c) f))" if "(f, t) \<in> set known_fields" for f t
  proof -
    have "PStr f \<in> set (map fst (params c))"
      using config_init_reads(2)[OF assms] that by (force simp: known_keys_def)
    then show ?thesis
      by (cases "map_of (params c) (PStr f)")
        (auto simp: param_def dict_get_def map_of_eq_None_iff)
  qed
  then show ?thesis unfolding fusesoc_words_def by (intro emap_total) auto
qed

text \<open>
  C29. For every validated configuration the options printed for a simulator, split by the
  shell that runs the simulator, are the options of the table: for each field in order, the
  define that passes a string parameter, or the parameter setting with the attribute's value,
  0 or 1 for a boolean, under the instance's hierarchical path.
\<close>

theorem sim_output_splits:
  assumes "config_init y = Inr c"
  shows "\<exists>line. sim_output so c args = Inr line \<and>
    shlex_split line = Inr (concat (map (sim_row so args) (config_table c)))"
  using sim_words_table[OF assms, of so args] sh.split_quoted
  by (simp add: sim_output_def del: map_map)

text \<open>
  For every validated configuration the line printed for FuseSoC splits into one
  \<open>--FIELD=value\<close> option for each known field, in order.
\<close>

theorem fusesoc_output_splits:
  assumes "config_init y = Inr c"
  shows "\<exists>line. fusesoc_output c args = Inr line \<and>
    shlex_split line = Inr (map (\<lambda>(f, t). ''--'' @ f @ ''='' @
      py_str (the (dict_get (params c) f))) known_fields)"
  using fusesoc_words_ok[OF assms] sh.split_quoted
  by (simp add: fusesoc_output_def del: map_map)

text \<open>An entry of the shape of the \<open>small\<close> configuration, for the witnesses.\<close>

definition small_yaml :: pyval where
  "small_yaml = PDict
    [(PStr ''RV32E'', PInt 0), (PStr ''RV32M'', PStr ''ibex_pkg::RV32MFast''),
     (PStr ''RV32B'', PStr ''ibex_pkg::RV32BNone''), (PStr ''RV32ZC'', PStr ''ibex_pkg::RV32Zca''),
     (PStr ''RegFile'', PStr ''ibex_pkg::RegFileFF''), (PStr ''BranchTargetALU'', PInt 0),
     (PStr ''WritebackStage'', PInt 0), (PStr ''ICache'', PInt 0), (PStr ''ICacheECC'', PInt 0),
     (PStr ''ICacheScramble'', PInt 0), (PStr ''BranchPredictor'', PInt 0),
     (PStr ''DbgTriggerEn'', PInt 0), (PStr ''SecureIbex'', PInt 0), (PStr ''PMPEnable'', PBool False),
     (PStr ''PMPGranularity'', PInt 0), (PStr ''PMPNumRegions'', PInt 4),
     (PStr ''MHPMCounterNum'', PInt 0), (PStr ''MHPMCounterWidth'', PInt 40)]"

definition small_config :: config where
  "small_config =
    \<lparr>params = (case small_yaml of PDict d \<Rightarrow> d | _ \<Rightarrow> []), rv32e = False,
     rv32m = ''ibex_pkg::RV32MFast'', rv32b = ''ibex_pkg::RV32BNone'', rv32zc = ''ibex_pkg::RV32Zca'',
     reg_file = ''ibex_pkg::RegFileFF'', branch_target_alu = False, writeback_stage = False,
     icache = False, icache_ecc = False, icache_scramble = False, branch_predictor = False,
     dbg_trigger_en = False, secure_ibex = False, pmp_enable = False, pmp_granularity = 0,
     pmp_num_regions = 4, mhpm_counter_num = 0, mhpm_counter_width = 40\<rparr>"

lemma small_config_init: "config_init small_yaml = Inr small_config"
  by code_simp

lemma sim_output_splits_witness:
  "\<exists>line. sim_output (hd sim_outputters) small_config
      \<lparr>query_fields = [], ins_hier_path = ''top'', string_define_prefix = ''IBEX_CFG_''\<rparr> = Inr line \<and>
    shlex_split line = Inr (concat (map (sim_row (hd sim_outputters)
      \<lparr>query_fields = [], ins_hier_path = ''top'', string_define_prefix = ''IBEX_CFG_''\<rparr>)
      (config_table small_config)))"
  using sim_output_splits[OF small_config_init] .

lemma fusesoc_output_splits_witness:
  "\<exists>line. fusesoc_output small_config
      \<lparr>query_fields = [], ins_hier_path = [], string_define_prefix = []\<rparr> = Inr line \<and>
    shlex_split line = Inr (map (\<lambda>(f, t). ''--'' @ f @ ''='' @
      py_str (the (dict_get (params small_config) f))) known_fields)"
  using fusesoc_output_splits[OF small_config_init] .


section \<open>Reading the configuration file\<close>

lemma add_config_Inr: "add_config e m = Inr m' \<longleftrightarrow>
    (\<exists>c. config_init (snd e) = Inr c \<and> m' = dset (fst e) c m)"
  by (auto simp: add_config_def split: sum.splits)

lemma configs_fold_entry:
  "efold add_config es m = Inr m' \<Longrightarrow> dict_ok es \<Longrightarrow>
   dget m' k = (case dget es k of
      None \<Rightarrow> dget m k
    | Some y \<Rightarrow> (case config_init y of Inr c \<Rightarrow> Some c | Inl _ \<Rightarrow> None))"
proof (induction es arbitrary: m)
  case Nil
  then show ?case by simp
next
  case (Cons e es)
  then obtain c where c: "config_init (snd e) = Inr c" "efold add_config es (dset (fst e) c m) = Inr m'"
    by (auto simp: raise_simps add_config_Inr)
  have ok: "dict_ok es" "fst e \<notin> set (dkeys es)" using Cons.prems(2) by (cases e; simp)+
  have "dget es (fst e) = None" using ok(2) by (simp add: dget_None_iff)
  then show ?case using Cons.IH[OF c(2) ok(1)] c(1) by (cases e) (auto split: option.splits)
qed

lemma configs_fold_all:
  "(\<exists>m'. efold add_config es m = Inr m') \<longleftrightarrow> list_all (\<lambda>e. \<exists>c. config_init (snd e) = Inr c) es"
  by (induction es arbitrary: m) (auto simp: raise_simps add_config_Inr)

text \<open>
  \<open>parse_config\<close> returns a configuration exactly when the file can be read and decoded
  to a dictionary in which every entry, selected or not, is a valid configuration, and the
  selected name is an entry; the result is that entry's configuration.
\<close>

theorem parse_config_result:
  assumes "\<And>text yml. yaml_load text = Some (PDict yml) \<Longrightarrow> dict_ok yml"
  shows "parse_config read_file yaml_load name file = Inr c \<longleftrightarrow>
    (\<exists>text yml y. read_file file = Some text \<and> yaml_load text = Some (PDict yml) \<and>
      list_all (\<lambda>e. \<exists>c. config_init (snd e) = Inr c) yml \<and>
      dict_get yml name = Some y \<and> config_init y = Inr c)"
proof -
  have one: "(case configs_init v of Inl err \<Rightarrow> Inl (Config_exception file err)
      | Inr configs \<Rightarrow> of_option (Config_not_found name) (dget configs (PStr name))) = Inr c \<longleftrightarrow>
    (\<exists>yml y. v = PDict yml \<and> list_all (\<lambda>e. \<exists>c. config_init (snd e) = Inr c) yml \<and>
      dict_get yml name = Some y \<and> config_init y = Inr c)"
    if load: "yaml_load tx = Some v" for tx v
  proof (cases v)
    case (PDict yml)
    then have ok: "dict_ok yml" using load assms by blast
    show ?thesis
    proof (cases "efold add_config yml []")
      case (Inl e)
      then show ?thesis using configs_fold_all[of yml "[]"] PDict by (simp add: configs_init_def)
    next
      case (Inr m)
      then have all: "list_all (\<lambda>e. \<exists>c. config_init (snd e) = Inr c) yml"
        using configs_fold_all[of yml "[]"] by blast
      show ?thesis using Inr all configs_fold_entry[OF Inr ok, of "PStr name"] PDict
        by (auto simp: configs_init_def dict_get_def raise_simps split: option.splits sum.splits)
    qed
  qed (simp_all add: configs_init_def)
  show ?thesis
    by (auto simp: parse_config_def ebind_eq_Inr of_option_Inr one)
qed

lemma parse_config_result_witness:
  "parse_config (\<lambda>f. Some f) (\<lambda>t. Some (PDict [(PStr ''small'', small_yaml)])) ''small'' ''f'' =
     Inr small_config"
proof -
  let ?load = "\<lambda>t::string. Some (PDict [(PStr ''small'', small_yaml)])"
  have load: "\<And>text yml. ?load text = Some (PDict yml) \<Longrightarrow> dict_ok yml" by auto
  show ?thesis
    by (rule iffD2[OF parse_config_result[where yaml_load = ?load, OF load]])
      (use small_config_init in \<open>auto simp: dict_get_def\<close>)
qed

text \<open>
  A configuration entry that lacks known fields is rejected with a message whose list of
  \<open>missing keys\<close> is always empty: the code prints the extra keys there.
\<close>

theorem missing_keys_message:
  assumes "config_init y = Inl (Missing_keys ks)"
  shows "ks = []"
proof -
  obtain yml where y: "y = PDict yml" using assms by (cases y) (simp_all add: config_init_def)
  have rd: "read_bool f d \<noteq> Inl (Missing_keys ks)" "read_int_field f d \<noteq> Inl (Missing_keys ks)"
    "read_str f d \<noteq> Inl (Missing_keys ks)" for f d
    by (auto simp: read_bool_def read_int_field_def read_str_def split: option.splits pyval.splits)
  show ?thesis
    using assms unfolding y config_init_def pyval.case Let_def
    by (simp add: ebind_eq_Inl rd split: if_splits)
qed

lemma missing_keys_message_witness:
  "config_init (PDict []) = Inl (Missing_keys []) \<and> ([] :: pyval list) = []"
proof -
  have e: "config_init (PDict []) = Inl (Missing_keys [])" by code_simp
  show ?thesis using e missing_keys_message[OF e] by simp
qed

end
