(* ===== verification/IbexCmd.thy ===== *)
theory IbexCmd
  imports IbexConfig
begin

text \<open>
  \<^verbatim>\<open>dv/uvm/core_ibex/scripts/ibex_cmd.py\<close>: the options of a configuration for a
  simulator, obtained by running \<^verbatim>\<open>util/ibex_config.py\<close>, the ISA strings of a
  configuration, and the filter that drops the tests a configuration cannot run.
\<close>

section \<open>Options for a simulator\<close>

datatype cmd_error =
    Unsupported_simulator string
  | Assertion_failed
  | Gen_error main_result
  | Unknown_rv32b string
  | Parameter_not_found pyval
  | Key_error string
  | Not_iterable pyval
  | Config_failed config_error

text \<open>For each simulator, whether it needs compile options and simulation options.\<close>

definition sim_cfgs :: "(string, bool \<times> bool) pydict" where
  "sim_cfgs =
    [(''vcs'', (True, False)),
     (''riviera'', (True, True)),
     (''questa'', (True, True)),
     (''xlm'', (True, False)),
     (''dsim'', (True, False))]"

definition ibex_yaml_path :: "string \<Rightarrow> string" where
  "ibex_yaml_path ibex_root = ibex_root @ ''/ibex_configs.yaml''"

text \<open>
  \<open>_run_ibex_config\<close> runs the script as a process.  The two options it passes exist for
  the simulators' output types only, so any other type is a usage error of the script.
\<close>

definition run_ibex_config :: "(string \<Rightarrow> string option) \<Rightarrow> (string \<Rightarrow> pyval option) \<Rightarrow>
    (string \<rightharpoonup> string) \<Rightarrow> string \<Rightarrow> string \<Rightarrow> string \<Rightarrow> cmd_error + string" where
  "run_ibex_config read_file yaml_load environ ibex_root config_name output_type =
     (let res = (if output_type \<in> set (map cmd_name sim_outputters)
                 then main read_file yaml_load environ config_name
                   (Some (ibex_yaml_path ibex_root)) (Some output_type)
                   \<lparr>query_fields = [], ins_hier_path = ''core_ibex_tb_top'',
                    string_define_prefix = ''IBEX_CFG_''\<rparr>
                 else Usage_error)
      in case res of
           Printed out rc \<Rightarrow> if rc = 0 then Inr (strip out) else Inl (Gen_error res)
         | _ \<Rightarrow> Inl (Gen_error res))"

definition output_type :: "string \<Rightarrow> string \<Rightarrow> bool \<Rightarrow> string" where
  "output_type simulator stage specify_which_opts =
     (if specify_which_opts then simulator @ ''_'' @ stage @ ''_opts'' else simulator @ ''_opts'')"

definition get_x_opts :: "(string \<Rightarrow> string option) \<Rightarrow> (string \<Rightarrow> pyval option) \<Rightarrow>
    (string \<rightharpoonup> string) \<Rightarrow> string \<Rightarrow> string \<Rightarrow> string \<Rightarrow> string \<Rightarrow> cmd_error + string" where
  "get_x_opts read_file yaml_load environ ibex_root config_name simulator stage =
     ebind (of_option (Unsupported_simulator simulator) (dget sim_cfgs simulator))
       (\<lambda>(needs_compile_opts, needs_sim_opts).
        let specify_which_opts = needs_compile_opts \<and> needs_sim_opts
        in ebind (if stage = ''compile'' then Inr needs_compile_opts
                  else if stage = ''sim'' then Inr needs_sim_opts
                  else Inl Assertion_failed)
             (\<lambda>needs_opts.
                if \<not> needs_opts then Inr []
                else run_ibex_config read_file yaml_load environ ibex_root config_name
                       (output_type simulator stage specify_which_opts)))"

definition get_compile_opts where
  "get_compile_opts read_file yaml_load environ ibex_root config_name simulator =
     get_x_opts read_file yaml_load environ ibex_root config_name simulator ''compile''"

definition get_sim_opts where
  "get_sim_opts read_file yaml_load environ ibex_root config_name simulator =
     get_x_opts read_file yaml_load environ ibex_root config_name simulator ''sim''"

definition get_config :: "(string \<Rightarrow> string option) \<Rightarrow> (string \<Rightarrow> pyval option) \<Rightarrow> string \<Rightarrow>
    string \<Rightarrow> config_error + config" where
  "get_config read_file yaml_load ibex_root cfg_name =
     parse_config read_file yaml_load cfg_name (ibex_yaml_path ibex_root)"

section \<open>ISA strings\<close>

definition bitmanip_mapping :: "(string, string list) pydict" where
  "bitmanip_mapping =
    [(''ibex_pkg::RV32BNone'', []),
     (''ibex_pkg::RV32BBalanced'', [''Zba'', ''Zbb'', ''Zbs'', ''XZbf'', ''XZbt'']),
     (''ibex_pkg::RV32BOTEarlGrey'',
        [''Zba'', ''Zbb'', ''Zbc'', ''Zbs'', ''XZbf'', ''XZbp'', ''XZbr'', ''XZbt'']),
     (''ibex_pkg::RV32BFull'',
        [''Zba'', ''Zbb'', ''Zbc'', ''Zbs'', ''XZbe'', ''XZbf'', ''XZbp'', ''XZbr'', ''XZbt''])]"

definition get_isas_for_config :: "config \<Rightarrow> cmd_error + string \<times> string" where
  "get_isas_for_config cfg =
     (let has_multiplier = rv32m cfg \<noteq> ''ibex_pkg::RV32MNone'';
          base_isa = ''rv32'' @ (if rv32e cfg then ''e'' else ''i'') @
                     (if has_multiplier then ''m'' else []) @ ''c''
      in ebind (of_option (Unknown_rv32b (rv32b cfg)) (dget bitmanip_mapping (rv32b cfg)))
           (\<lambda>bitmanip_isa.
              let has_bitmanip = rv32b cfg \<noteq> ''ibex_pkg::RV32BNone'';
                  toolchain_isa = base_isa @ (if has_bitmanip then ''b'' else [])
              in Inr (toolchain_isa, join ''_'' ([base_isa] @ bitmanip_isa))))"

section \<open>Filtering tests\<close>

type_synonym test_entry = "(pyval \<times> pyval) list"

text \<open>\<open>config_val in p_val\<close>, after a string or an integer has been put in a list.\<close>

definition param_matches :: "pyval \<Rightarrow> pyval \<Rightarrow> cmd_error + bool" where
  "param_matches config_val p_val =
     (if is_str p_val \<or> is_int p_val then Inr (py_in config_val [p_val])
      else case p_val of
             PList ws \<Rightarrow> Inr (py_in config_val ws)
           | PDict d \<Rightarrow> Inr (py_in config_val (map fst d))
           | _ \<Rightarrow> Inl (Not_iterable p_val))"

text \<open>\<open>cfg.params.get(p, None)\<close>, where a stored \<open>None\<close> counts as missing.\<close>

definition config_value :: "config \<Rightarrow> pyval \<Rightarrow> cmd_error + pyval" where
  "config_value cfg p =
     (case map_of (params cfg) p of
        None \<Rightarrow> Inl (Parameter_not_found p)
      | Some v \<Rightarrow> if v = PNone then Inl (Parameter_not_found p) else Inr v)"

text \<open>
  The loop over a test's parameters.  The test is appended inside the loop, once for each
  parameter that matches; the first parameter that does not match ends the loop, after a
  warning that reads the test's name.
\<close>

fun filter_params :: "config \<Rightarrow> test_entry \<Rightarrow> (pyval \<times> pyval) list \<Rightarrow>
    cmd_error + test_entry list" where
  "filter_params cfg test [] = Inr []"
| "filter_params cfg test ((p, p_val) # ps) =
     ebind (config_value cfg p) (\<lambda>config_val.
     ebind (param_matches config_val p_val) (\<lambda>m.
       if m then ebind (filter_params cfg test ps) (\<lambda>kept. Inr (test # kept))
       else case dict_get test ''test'' of None \<Rightarrow> Inl (Key_error ''test'') | Some _ \<Rightarrow> Inr []))"

definition filter_one :: "config \<Rightarrow> test_entry \<Rightarrow> cmd_error + test_entry list" where
  "filter_one cfg test =
     (case dict_get test ''rtl_params'' of
        None \<Rightarrow> Inr [test]
      | Some (PDict param_dict) \<Rightarrow> filter_params cfg test param_dict
      | Some _ \<Rightarrow> Inl Assertion_failed)"

definition filter_tests_by_config :: "config \<Rightarrow> test_entry list \<Rightarrow> cmd_error + test_entry list" where
  "filter_tests_by_config cfg test_list =
     ebind (emap (filter_one cfg) test_list) (\<lambda>kept. Inr (concat kept))"

section \<open>Lemmas and properties\<close>

lemma outputters_sim:
  assumes "so \<in> set sim_outputters"
  shows "map_of outputters (cmd_name so) = Some (sim_output so)"
  using assms by (auto simp: outputters_def sim_outputters_def)

lemma run_ibex_config_sim:
  assumes "so \<in> set sim_outputters"
    and "parse_config read_file yaml_load name (ibex_yaml_path root) = Inr c"
    and "config_init y = Inr c"
  shows "\<exists>line. run_ibex_config read_file yaml_load env root name (cmd_name so) = Inr (strip line) \<and>
    sim_output so c \<lparr>query_fields = [], ins_hier_path = ''core_ibex_tb_top'',
      string_define_prefix = ''IBEX_CFG_''\<rparr> = Inr line"
proof -
  obtain line where "sim_output so c \<lparr>query_fields = [], ins_hier_path = ''core_ibex_tb_top'',
      string_define_prefix = ''IBEX_CFG_''\<rparr> = Inr line"
    using sim_words_table[OF assms(3)] by (fastforce simp: sim_output_def)
  moreover have "cmd_name so \<in> set (map cmd_name sim_outputters)" using assms(1) by simp
  ultimately show ?thesis using assms(2) outputters_sim[OF assms(1)]
    by (simp add: run_ibex_config_def main_def)
qed

lemma parse_config_init:
  assumes "parse_config read_file yaml_load name file = Inr c"
  shows "\<exists>y. config_init y = Inr c"
proof -
  have fold: "efold add_config es m = Inr m' \<Longrightarrow> dget m' k = Some c \<Longrightarrow>
      dget m k = Some c \<or> (\<exists>y. config_init y = Inr c)" for es m m' k
  proof (induction es arbitrary: m)
    case Nil
    then show ?case by simp
  next
    case (Cons e es)
    then obtain b where b: "config_init (snd e) = Inr b" "efold add_config es (dset (fst e) b m) = Inr m'"
      by (auto simp: raise_simps add_config_Inr)
    show ?case using Cons.IH[OF b(2) Cons.prems(2)] b(1) by (auto split: if_splits)
  qed
  from assms obtain y where "(case configs_init y of Inl err \<Rightarrow> Inl (Config_exception file err)
      | Inr configs \<Rightarrow> of_option (Config_not_found name) (dget configs (PStr name))) = Inr c"
    by (simp add: parse_config_def raise_simps, blast)
  then obtain m' where "configs_init y = Inr m'" "dget m' (PStr name) = Some c"
    by (cases "configs_init y") (auto simp: raise_simps)
  then show ?thesis using fold[of _ "[]" m' "PStr name"]
    by (cases y) (auto simp: configs_init_def)
qed

lemma opts_exist:
  assumes "dget sim_cfgs simulator = Some needs"
    and "get_config read_file yaml_load root name = Inr c"
  shows "(\<exists>opts. get_compile_opts read_file yaml_load env root name simulator = Inr opts) \<and>
    (\<exists>opts. get_sim_opts read_file yaml_load env root name simulator = Inr opts)"
proof -
  have p: "parse_config read_file yaml_load name (ibex_yaml_path root) = Inr c"
    using assms(2) by (simp add: get_config_def)
  then obtain y where y: "config_init y = Inr c" using parse_config_init by blast
  have run: "\<exists>opts. run_ibex_config read_file yaml_load env root name t = Inr opts"
    if "t \<in> set (map cmd_name sim_outputters)" for t
    using that run_ibex_config_sim[OF _ p y] by fastforce
  have t: "t \<in> set (map cmd_name sim_outputters)"
    if "t \<in> {''vcs_opts'', ''riviera_compile_opts'', ''riviera_sim_opts'', ''questa_compile_opts'',
      ''questa_sim_opts'', ''xlm_opts'', ''dsim_opts''}" for t
    using that by (auto simp: sim_outputters_def)
  have "simulator \<in> {''vcs'', ''riviera'', ''questa'', ''xlm'', ''dsim''}"
    using assms(1) by (auto simp: sim_cfgs_def split: if_splits)
  then show ?thesis
    using run[OF t]
    by (auto simp: get_compile_opts_def get_sim_opts_def get_x_opts_def sim_cfgs_def output_type_def)
qed

text \<open>
  For every supported simulator and every configuration that parses, the compile options
  and the simulation options are obtained without error: each requested output type is in
  the table of outputters of \<open>ibex_config.py\<close>.
\<close>

theorem get_opts_supported:
  assumes "dget sim_cfgs simulator = Some needs"
    and "get_config read_file yaml_load root name = Inr c"
  shows "(\<exists>opts. get_compile_opts read_file yaml_load env root name simulator = Inr opts) \<and>
    (\<exists>opts. get_sim_opts read_file yaml_load env root name simulator = Inr opts)"
  by (rule opts_exist[OF assms])

lemma small_config_parses:
  "get_config (\<lambda>f. Some f) (\<lambda>t. Some (PDict [(PStr ''small'', small_yaml)])) root ''small'' = Inr small_config"
  using small_config_init by (simp add: get_config_def parse_config_def configs_init_def add_config_def)

lemma get_opts_supported_witness:
  "(\<exists>opts. get_compile_opts (\<lambda>f. Some f) (\<lambda>t. Some (PDict [(PStr ''small'', small_yaml)]))
       Map.empty ''/ibex'' ''small'' ''riviera'' = Inr opts) \<and>
   (\<exists>opts. get_sim_opts (\<lambda>f. Some f) (\<lambda>t. Some (PDict [(PStr ''small'', small_yaml)]))
       Map.empty ''/ibex'' ''small'' ''riviera'' = Inr opts)"
proof (rule get_opts_supported)
  show "dget sim_cfgs ''riviera'' = Some (True, True)" by (simp add: sim_cfgs_def)
qed (rule small_config_parses)

text \<open>
  The ISA strings exist exactly for the four known values of \<open>RV32B\<close>; the simulator's
  string is the base ISA followed by the bit-manipulation extensions, and the toolchain's
  string is the base ISA with a \<open>b\<close> exactly if there is such an extension.
\<close>

theorem get_isas_for_config_result:
  "get_isas_for_config cfg =
     (let base = ''rv32'' @ (if rv32e cfg then ''e'' else ''i'') @
                 (if rv32m cfg = ''ibex_pkg::RV32MNone'' then ''c'' else ''mc'')
      in case dget bitmanip_mapping (rv32b cfg) of
           None \<Rightarrow> Inl (Unknown_rv32b (rv32b cfg))
         | Some exts \<Rightarrow> Inr (base @ (if exts = [] then [] else ''b''), join ''_'' (base # exts)))"
  by (auto simp: get_isas_for_config_def bitmanip_mapping_def Let_def)

text \<open>The number of parameters that match before the first one that does not.\<close>

fun matches :: "config \<Rightarrow> (pyval \<times> pyval) list \<Rightarrow> nat" where
  "matches cfg [] = 0"
| "matches cfg ((p, v) # ps) =
     (case ebind (config_value cfg p) (\<lambda>w. param_matches w v) of
        Inr True \<Rightarrow> Suc (matches cfg ps)
      | _ \<Rightarrow> 0)"

definition copies :: "config \<Rightarrow> test_entry \<Rightarrow> nat" where
  "copies cfg test =
     (case dict_get test ''rtl_params'' of
        None \<Rightarrow> 1
      | Some (PDict ps) \<Rightarrow> matches cfg ps
      | _ \<Rightarrow> 0)"

definition compatible :: "config \<Rightarrow> test_entry \<Rightarrow> bool" where
  "compatible cfg test =
     (case dict_get test ''rtl_params'' of
        None \<Rightarrow> True
      | Some (PDict ps) \<Rightarrow>
          list_all (\<lambda>(p, v). ebind (config_value cfg p) (\<lambda>w. param_matches w v) = Inr True) ps
      | _ \<Rightarrow> False)"

lemma filter_params_copies:
  "filter_params cfg test ps = Inr kept \<Longrightarrow> kept = replicate (matches cfg ps) test"
proof (induction ps arbitrary: kept)
  case Nil
  then show ?case by simp
next
  case (Cons pv ps)
  then show ?case by (cases pv) (auto simp: raise_simps split: if_splits option.splits)
qed

lemma filter_one_copies: "filter_one cfg test = Inr kept \<Longrightarrow> kept = replicate (copies cfg test) test"
  by (auto simp: filter_one_def copies_def filter_params_copies split: option.splits pyval.splits)

lemma filter_tests_copies_aux:
  assumes "filter_tests_by_config cfg tests = Inr kept"
  shows "kept = concat (map (\<lambda>t. replicate (copies cfg t) t) tests)"
proof -
  obtain ks where ks: "emap (filter_one cfg) tests = Inr ks" "kept = concat ks"
    using assms by (auto simp: filter_tests_by_config_def raise_simps)
  have "ks = map (\<lambda>t. replicate (copies cfg t) t) tests"
    using ks(1) unfolding emap_eq_Inr
    by (induction rule: list_all2_induct) (auto dest: filter_one_copies)
  then show ?thesis using ks(2) by simp
qed

text \<open>
  What the filter keeps: the tests in their order, each as many times as it has
  parameters before the first mismatch, and once if it has no \<open>rtl_params\<close>.
\<close>

theorem filter_tests_copies:
  assumes "filter_tests_by_config cfg tests = Inr kept"
  shows "kept = concat (map (\<lambda>t. replicate (copies cfg t) t) tests)"
  by (rule filter_tests_copies_aux[OF assms])

definition pmp_test :: test_entry where
  "pmp_test = [(PStr ''test'', PStr ''t''), (PStr ''rtl_params'', PDict [(PStr ''PMPEnable'', PInt 0)])]"

definition mixed_test :: test_entry where
  "mixed_test = [(PStr ''test'', PStr ''t''),
     (PStr ''rtl_params'', PDict [(PStr ''RV32E'', PInt 0), (PStr ''PMPEnable'', PInt 1)])]"

lemma pmp_test_kept: "filter_tests_by_config small_config [pmp_test] = Inr [pmp_test]"
  by code_simp

lemma filter_tests_copies_witness:
  "[pmp_test] = concat (map (\<lambda>t. replicate (copies small_config t) t) [pmp_test])"
  by (rule filter_tests_copies[OF pmp_test_kept])

text \<open>
  On tests that have no \<open>rtl_params\<close> or exactly one parameter, as in the repository's
  test lists, the filter keeps exactly the compatible tests, once each and in order.
\<close>

theorem filter_tests_single:
  assumes "filter_tests_by_config cfg tests = Inr kept"
    and "list_all (\<lambda>t. case dict_get t ''rtl_params'' of Some (PDict ps) \<Rightarrow> length ps = 1 | _ \<Rightarrow> True) tests"
  shows "kept = filter (compatible cfg) tests"
proof -
  have one: "replicate (copies cfg t) t = (if compatible cfg t then [t] else [])"
    if "case dict_get t ''rtl_params'' of Some (PDict ps) \<Rightarrow> length ps = 1 | _ \<Rightarrow> True" for t
    using that
    by (auto simp: copies_def compatible_def length_Suc_conv
      split: option.splits pyval.splits sum.splits bool.splits)
  have "concat (map (\<lambda>t. replicate (copies cfg t) t) tests) = filter (compatible cfg) tests"
    using assms(2) by (induction tests) (auto simp: one)
  then show ?thesis using filter_tests_copies_aux[OF assms(1)] by simp
qed

lemma filter_tests_single_witness: "[pmp_test] = filter (compatible small_config) [pmp_test]"
  by (rule filter_tests_single[OF pmp_test_kept]) code_simp

text \<open>
  The filter's documentation says that every test incompatible with the configuration
  is removed.  It is not: a test whose first parameter matches and whose second does not is
  kept.
\<close>

theorem filter_keeps_incompatible:
  "\<not> compatible small_config mixed_test \<and>
   filter_tests_by_config small_config [mixed_test] = Inr [mixed_test]"
  by code_simp

end
