(* ===== verification/DirectedSchema.thy ===== *)
theory DirectedSchema
  imports ScriptsLib
begin

text \<open>
  \<^verbatim>\<open>directed_test_schema.py\<close>: joining the directed tests with their configurations and
  validating them.  The conversions of the pydantic library are a parameter.
\<close>

type_synonym yaml_entry = "(pyval \<times> pyval) list"

section \<open>The models\<close>

record dconfig =
  dc_config :: string
  dc_rtl_test :: string
  dc_rtl_params :: "(pyval \<times> pyval) list"
  dc_timeout_s :: int
  dc_gcc_opts :: string
  dc_ld_script :: path
  dc_includes :: path

record dtest = dconfig +
  dt_test :: string
  dt_desc :: string
  dt_test_srcs :: path
  dt_iterations :: int

record directed_tests_yaml =
  dy_yaml :: path
  dy_configs :: "dconfig list"
  dy_tests :: "dtest list"

text \<open>How the library converts a value to the type of a field; \<open>None\<close> is a validation error.\<close>

record pydantic =
  to_str :: "pyval \<Rightarrow> string option"
  to_int :: "pyval \<Rightarrow> int option"
  to_dict :: "pyval \<Rightarrow> (pyval \<times> pyval) list option"

definition field_of :: "(pyval \<Rightarrow> 'a option) \<Rightarrow> yaml_entry \<Rightarrow> string \<Rightarrow> 'a option" where
  "field_of conv e k = Option.bind (dict_get e k) conv"

definition conint_gt0 :: "pydantic \<Rightarrow> pyval \<Rightarrow> int option" where
  "conint_gt0 pyd v = Option.bind (to_int pyd v) (\<lambda>i. if 0 < i then Some i else None)"

text \<open>\<open>make_valid_pathlib_path\<close>: only a string makes a path.\<close>

definition make_valid_path :: "pyval \<Rightarrow> path option" where
  "make_valid_path v = (case v of PStr s \<Rightarrow> Some (path_of s) | _ \<Rightarrow> None)"

definition parse_dconfig :: "pydantic \<Rightarrow> yaml_entry \<Rightarrow> dconfig option" where
  "parse_dconfig pyd e =
     Option.bind (field_of (to_str pyd) e ''config'') (\<lambda>c.
     Option.bind (field_of (to_str pyd) e ''rtl_test'') (\<lambda>r.
     Option.bind (field_of (to_dict pyd) e ''rtl_params'') (\<lambda>ps.
     Option.bind (field_of (conint_gt0 pyd) e ''timeout_s'') (\<lambda>t.
     Option.bind (field_of (to_str pyd) e ''gcc_opts'') (\<lambda>g.
     Option.bind (field_of make_valid_path e ''ld_script'') (\<lambda>l.
     Option.bind (field_of make_valid_path e ''includes'') (\<lambda>i.
       Some \<lparr>dc_config = c, dc_rtl_test = r, dc_rtl_params = ps, dc_timeout_s = t, dc_gcc_opts = g,
             dc_ld_script = l, dc_includes = i\<rparr>)))))))"

definition parse_dtest :: "pydantic \<Rightarrow> yaml_entry \<Rightarrow> dtest option" where
  "parse_dtest pyd e =
     Option.bind (parse_dconfig pyd e) (\<lambda>c.
     Option.bind (field_of (to_str pyd) e ''test'') (\<lambda>t.
     Option.bind (field_of (to_str pyd) e ''desc'') (\<lambda>d.
     Option.bind (field_of make_valid_path e ''test_srcs'') (\<lambda>s.
     Option.bind (field_of (conint_gt0 pyd) e ''iterations'') (\<lambda>n.
       Some (dconfig.extend c (dtest.fields t d s n)))))))"

section \<open>The validators\<close>

text \<open>\<open>validate_path_exists\<close>: the path, relative to the directory of the yaml file.\<close>

definition validate_path_exists :: "(path \<Rightarrow> bool) \<Rightarrow> path \<Rightarrow> path \<Rightarrow> path option" where
  "validate_path_exists exists_file v dt =
     (let p = path_join (parent dt) v in if exists_file p then Some p else None)"

definition check_config_paths :: "(path \<Rightarrow> bool) \<Rightarrow> path \<Rightarrow> 'a dconfig_scheme \<Rightarrow> 'a dconfig_scheme option" where
  "check_config_paths exists_file dt c =
     Option.bind (validate_path_exists exists_file (dc_ld_script c) dt) (\<lambda>l.
     Option.bind (validate_path_exists exists_file (dc_includes c) dt) (\<lambda>i.
       Some (c\<lparr>dc_ld_script := l, dc_includes := i\<rparr>)))"

definition check_test_paths :: "(path \<Rightarrow> bool) \<Rightarrow> path \<Rightarrow> dtest \<Rightarrow> dtest option" where
  "check_test_paths exists_file dt t =
     Option.bind (check_config_paths exists_file dt t) (\<lambda>t.
     Option.bind (validate_path_exists exists_file (dt_test_srcs t) dt) (\<lambda>s.
       Some (t\<lparr>dt_test_srcs := s\<rparr>)))"

definition test_config_must_exist :: "directed_tests_yaml \<Rightarrow> bool" where
  "test_config_must_exist m \<longleftrightarrow>
     list_all (\<lambda>t. dc_config t \<in> dc_config ` set (dy_configs m)) (dy_tests m)"

definition all_paths_must_exist :: "(path \<Rightarrow> bool) \<Rightarrow> directed_tests_yaml \<Rightarrow> directed_tests_yaml option" where
  "all_paths_must_exist exists_file m =
     Option.bind (those (map (check_config_paths exists_file (dy_yaml m)) (dy_configs m))) (\<lambda>cs.
     Option.bind (those (map (check_test_paths exists_file (dy_yaml m)) (dy_tests m))) (\<lambda>ts.
       Some (m\<lparr>dy_configs := cs, dy_tests := ts\<rparr>)))"

definition make_model :: "pydantic \<Rightarrow> (path \<Rightarrow> bool) \<Rightarrow> path \<Rightarrow> yaml_entry list \<Rightarrow> yaml_entry list \<Rightarrow>
    directed_tests_yaml option" where
  "make_model pyd exists_file yaml configs tests =
     (if \<not> exists_file yaml then None
      else Option.bind (those (map (parse_dconfig pyd) configs)) (\<lambda>cs.
           Option.bind (those (map (parse_dtest pyd) tests)) (\<lambda>ts.
             let m = \<lparr>dy_yaml = yaml, dy_configs = cs, dy_tests = ts\<rparr>
             in if test_config_must_exist m then all_paths_must_exist exists_file m else None)))"

section \<open>Importing a file\<close>

definition get_or_none :: "yaml_entry \<Rightarrow> string \<Rightarrow> pyval" where
  "get_or_none e k = (case dict_get e k of None \<Rightarrow> PNone | Some v \<Rightarrow> v)"

text \<open>\<open>{**d, **e}\<close>\<close>

definition dict_merge :: "yaml_entry \<Rightarrow> yaml_entry \<Rightarrow> yaml_entry" where
  "dict_merge d e = foldl (\<lambda>d kv. dset (fst kv) (snd kv) d) d e"

definition join_config :: "yaml_entry list \<Rightarrow> yaml_entry \<Rightarrow> script_error + yaml_entry" where
  "join_config configs t =
     (case List.find (\<lambda>i. py_eq (get_or_none i ''config'') (get_or_none t ''config'')) configs of
        Some t_config \<Rightarrow> Inr (dict_merge t_config t)
      | None \<Rightarrow>
          if dict_get t ''config'' = None then Inl (Key_error ''config'')
          else Inl (Value_error (''Test gave a config that does not exist in the file'')))"

definition import_model :: "pydantic \<Rightarrow> (path \<Rightarrow> bool) \<Rightarrow> (path \<Rightarrow> script_error + yaml_entry list) \<Rightarrow>
    path \<Rightarrow> script_error + directed_tests_yaml" where
  "import_model pyd exists_file read_yaml yaml =
     ebind (read_yaml yaml) (\<lambda>yaml_data.
       let configs = filter (\<lambda>i. get_or_none i ''test'' = PNone) yaml_data
       in ebind (emap (join_config configs) (filter (\<lambda>i. get_or_none i ''test'' \<noteq> PNone) yaml_data)) (\<lambda>tests.
            of_option (Sys_exit 1) (make_model pyd exists_file yaml configs tests)))"

section \<open>Properties\<close>

lemma those_Some: "those xs = Some ys \<longleftrightarrow> list_all2 (\<lambda>x y. x = Some y) xs ys"
proof (induction xs arbitrary: ys)
  case (Cons x xs)
  then show ?case by (cases x; cases ys) auto
qed auto

lemma those_map_Some: "those (map f xs) = Some ys \<longleftrightarrow> list_all2 (\<lambda>x y. f x = Some y) xs ys"
  by (simp add: those_Some list.rel_map)

definition valid_paths :: "(path \<Rightarrow> bool) \<Rightarrow> dtest \<Rightarrow> bool" where
  "valid_paths exists_file t \<longleftrightarrow>
     exists_file (dc_ld_script t) \<and> exists_file (dc_includes t) \<and> exists_file (dt_test_srcs t)"

lemma validate_path_Some: "validate_path_exists ex v dt = Some p \<longleftrightarrow> ex p \<and> p = path_join (parent dt) v"
  by (auto simp: validate_path_exists_def Let_def)

lemma check_test_paths_Some:
  "check_test_paths ex dt t = Some t' \<Longrightarrow>
    valid_paths ex t' \<and> dc_config t' = dc_config t \<and> dt_iterations t' = dt_iterations t \<and>
    dc_timeout_s t' = dc_timeout_s t"
  by (auto simp: check_test_paths_def check_config_paths_def valid_paths_def validate_path_Some
    bind_eq_Some_conv)

lemma check_config_paths_name:
  "check_config_paths ex dt c = Some c' \<Longrightarrow> dc_config c' = dc_config c"
  by (auto simp: check_config_paths_def bind_eq_Some_conv)

lemma parse_dtest_positive: "parse_dtest pyd e = Some t \<Longrightarrow> 0 < dt_iterations t \<and> 0 < dc_timeout_s t"
  by (auto simp: parse_dtest_def parse_dconfig_def bind_eq_Some_conv field_of_def conint_gt0_def
    dconfig.defs dtest.defs split: if_splits)

text \<open>
  Whatever the file holds, every directed test that is imported has files that exist,
  positive iterations and timeout, and a configuration that was imported too.
\<close>

theorem import_model_valid:
  assumes "import_model pyd exists_file read_yaml yaml = Inr m"
  shows "list_all (\<lambda>t. valid_paths exists_file t \<and> 0 < dt_iterations t \<and> 0 < dc_timeout_s t \<and>
    dc_config t \<in> dc_config ` set (dy_configs m)) (dy_tests m)"
proof -
  obtain configs tests where "make_model pyd exists_file yaml configs tests = Some m"
    using assms by (auto simp: import_model_def Let_def raise_simps)
  then obtain cs ts where ts: "list_all2 (\<lambda>e t. parse_dtest pyd e = Some t) tests ts"
    and known: "list_all (\<lambda>t. dc_config t \<in> dc_config ` set cs) ts"
    and cs: "list_all2 (\<lambda>c c'. check_config_paths exists_file yaml c = Some c') cs (dy_configs m)"
    and m: "list_all2 (\<lambda>t t'. check_test_paths exists_file yaml t = Some t') ts (dy_tests m)"
    by (auto simp: make_model_def all_paths_must_exist_def test_config_must_exist_def Let_def
      bind_eq_Some_conv those_map_Some split: if_splits)
  have names: "map dc_config (dy_configs m) = map dc_config cs"
    using cs by (induction rule: list_all2_induct) (auto simp: check_config_paths_name)
  have pos: "list_all (\<lambda>t. 0 < dt_iterations t \<and> 0 < dc_timeout_s t) ts"
    using ts by (induction rule: list_all2_induct) (auto simp: parse_dtest_positive)
  have "list_all (\<lambda>t'. valid_paths exists_file t' \<and> 0 < dt_iterations t' \<and> 0 < dc_timeout_s t' \<and>
      dc_config t' \<in> dc_config ` set cs) (dy_tests m)"
    using m known pos
    by (induction rule: list_all2_induct) (auto dest!: check_test_paths_Some)
  then show ?thesis using names by (metis list.set_map)
qed

definition strict_pydantic :: pydantic where
  "strict_pydantic = \<lparr>to_str = (\<lambda>v. case v of PStr s \<Rightarrow> Some s | _ \<Rightarrow> None), to_int = int_value,
     to_dict = (\<lambda>v. case v of PDict d \<Rightarrow> Some d | _ \<Rightarrow> None)\<rparr>"

definition directed_yaml :: "yaml_entry list" where
  "directed_yaml =
     [[(PStr ''config'', PStr ''c''), (PStr ''rtl_test'', PStr ''core_ibex_base_test''),
       (PStr ''rtl_params'', PDict []), (PStr ''timeout_s'', PInt 300), (PStr ''gcc_opts'', PStr ''-O3''),
       (PStr ''ld_script'', PStr ''link.ld''), (PStr ''includes'', PStr ''.'')],
      [(PStr ''test'', PStr ''empty''), (PStr ''desc'', PStr ''d''), (PStr ''config'', PStr ''c''),
       (PStr ''test_srcs'', PStr ''empty.S''), (PStr ''iterations'', PInt 1)]]"

definition directed_model :: directed_tests_yaml where
  "directed_model =
     (let c = \<lparr>dc_config = ''c'', dc_rtl_test = ''core_ibex_base_test'', dc_rtl_params = [],
            dc_timeout_s = 300, dc_gcc_opts = ''-O3'', dc_ld_script = path_of ''/d/link.ld'',
            dc_includes = path_of ''/d''\<rparr>
      in \<lparr>dy_yaml = path_of ''/d/l.yaml'', dy_configs = [c],
          dy_tests = [dconfig.extend c (dtest.fields ''empty'' ''d'' (path_of ''/d/empty.S'') 1)]\<rparr>)"

lemma directed_model_imports:
  "import_model strict_pydantic (\<lambda>p. True) (\<lambda>p. Inr directed_yaml) (path_of ''/d/l.yaml'') = Inr directed_model"
  by code_simp

lemma import_model_valid_witness:
  "list_all (\<lambda>t. valid_paths (\<lambda>p. True) t \<and> 0 < dt_iterations t \<and> 0 < dc_timeout_s t \<and>
    dc_config t \<in> dc_config ` set (dy_configs directed_model)) (dy_tests directed_model)"
  by (rule import_model_valid[OF directed_model_imports])

end
