(* ===== verification/Metadata.thy ===== *)
theory Metadata
  imports IbexCmd RiscvDvLib TestRunResult DirectedSchema "HOL-Library.Multiset"
begin

text \<open>
  \<^verbatim>\<open>metadata.py\<close>: the record of a regression, its construction from the arguments of the
  makefile, the choice of the tests, the creation of a result file per run, and the locked
  read-modify-write by which the steps of a regression share the record.
\<close>

section \<open>The record\<close>

text \<open>The fields in the order of the class; \<open>dir_tests\<close> is set with the directories.\<close>

record regression_metadata =
  md_dir_out :: path
  md_dir_metadata :: path
  md_git_commit :: string
  md_creation_datetime :: string
  md_pickle_file :: path
  md_yaml_file :: path
  md_raw_args_str :: string
  md_raw_args_dict :: "(string \<times> string) list"
  md_seed :: int
  md_waves :: bool
  md_cov :: bool
  md_cosim :: bool
  md_simulator :: string
  md_iss :: string
  md_test :: string
  md_verbose :: bool
  md_iterations :: "int option"
  md_signature_addr :: string
  md_ibex_config :: string
  md_dut_cov_rtl_path :: string
  md_tests_and_counts :: "(string \<times> int \<times> TestType) list"
  md_isa_ibex :: "string option"
  md_isa_iss :: "string option"
  md_run_rtl_timeout_s :: int
  md_ibex_configs :: path
  md_ibex_riscvdv_simulator_yaml :: path
  md_ibex_riscvdv_customtarget :: path
  md_ibex_riscvdv_testlist :: path
  md_ibex_riscvdv_csr :: path
  md_directed_test_dir :: path
  md_directed_test_data :: path
  md_riscvdv_build_log :: "path option"
  md_riscvdv_build_stdout :: "path option"
  md_riscvdv_build_cmds :: "string list list option"
  md_tb_build_log :: "path option"
  md_tb_build_stdout :: "path option"
  md_tb_build_cmds :: "string list list option"
  md_riscvdv_fcov_log :: "path option"
  md_riscvdv_fcov_stdout :: "path option"
  md_riscvdv_fcov_cmds :: "string list list option"
  md_cov_merge_db_list :: "path option"
  md_cov_merge_log :: "path option"
  md_cov_merge_stdout :: "path option"
  md_cov_merge_cmds :: "string list list option"
  md_cov_report_log :: "path option"
  md_cov_report_stdout :: "path option"
  md_cov_report_cmds :: "string list list option"
  md_regr_log :: "path option"
  md_regr_log_junit :: "path option"
  md_regr_log_junit_merged :: "path option"
  md_environment_variables :: "(string \<times> string) list"
  md_ibex_root :: path
  md_riscvdv_root :: path
  md_ot_lowrisc_ip :: path
  md_ot_xcelium_cov_scripts :: path
  md_ibex_dv_root :: path
  md_dir_build :: path
  md_dir_instruction_generator :: path
  md_dir_tb :: path
  md_dir_run :: path
  md_dir_cov :: path
  md_dir_fcov :: path
  md_dir_shared_cov :: path
  md_dir_cov_merged :: path
  md_dir_cov_report :: path
  md_tests_pickle_files :: "path list"
  md_dir_tests :: path

definition default_metadata :: "string \<Rightarrow> regression_metadata" where
  "default_metadata now =
     \<lparr>
      md_dir_out = path_of [], md_dir_metadata = path_of [], md_git_commit = [],
      md_creation_datetime = now, md_pickle_file = path_of [], md_yaml_file = path_of [],
      md_raw_args_str = '' '', md_raw_args_dict = [], md_seed = 1, md_waves = False,
      md_cov = False, md_cosim = True, md_simulator = '' '', md_iss = '' '', md_test = '' '',
      md_verbose = False, md_iterations = None, md_signature_addr = '' '',
      md_ibex_config = '' '', md_dut_cov_rtl_path = [], md_tests_and_counts = [],
      md_isa_ibex = None, md_isa_iss = None, md_run_rtl_timeout_s = 1800,
      md_ibex_configs = path_of [], md_ibex_riscvdv_simulator_yaml = path_of [],
      md_ibex_riscvdv_customtarget = path_of [], md_ibex_riscvdv_testlist = path_of [],
      md_ibex_riscvdv_csr = path_of [], md_directed_test_dir = path_of [],
      md_directed_test_data = path_of [], md_riscvdv_build_log = None,
      md_riscvdv_build_stdout = None, md_riscvdv_build_cmds = None, md_tb_build_log = None,
      md_tb_build_stdout = None, md_tb_build_cmds = None, md_riscvdv_fcov_log = None,
      md_riscvdv_fcov_stdout = None, md_riscvdv_fcov_cmds = None,
      md_cov_merge_db_list = None, md_cov_merge_log = None, md_cov_merge_stdout = None,
      md_cov_merge_cmds = None, md_cov_report_log = None, md_cov_report_stdout = None,
      md_cov_report_cmds = None, md_regr_log = None, md_regr_log_junit = None,
      md_regr_log_junit_merged = None, md_environment_variables = [],
      md_ibex_root = path_of [], md_riscvdv_root = path_of [], md_ot_lowrisc_ip = path_of [],
      md_ot_xcelium_cov_scripts = path_of [], md_ibex_dv_root = path_of [],
      md_dir_build = path_of [], md_dir_instruction_generator = path_of [],
      md_dir_tb = path_of [], md_dir_run = path_of [], md_dir_cov = path_of [],
      md_dir_fcov = path_of [], md_dir_shared_cov = path_of [],
      md_dir_cov_merged = path_of [], md_dir_cov_report = path_of [],
      md_tests_pickle_files = [], md_dir_tests = path_of []\<rparr>"

text \<open>The types of the fields as the argument parser tells them apart, and whether the
  constructor takes them.\<close>

datatype field_type = F_str | F_int | F_bool | F_path | F_opt_int | F_other

definition md_fields :: "(string \<times> field_type \<times> bool) list" where
  "md_fields =
     [
      (''dir_out'', F_path, True), (''dir_metadata'', F_path, True),
      (''git_commit'', F_str, True), (''creation_datetime'', F_other, True),
      (''pickle_file'', F_path, False), (''yaml_file'', F_path, False),
      (''raw_args_str'', F_str, True), (''raw_args_dict'', F_other, True),
      (''seed'', F_int, True), (''waves'', F_bool, True), (''cov'', F_bool, True),
      (''cosim'', F_bool, True), (''simulator'', F_str, True), (''iss'', F_str, True),
      (''test'', F_str, True), (''verbose'', F_bool, True),
      (''iterations'', F_opt_int, True), (''signature_addr'', F_str, True),
      (''ibex_config'', F_str, True), (''dut_cov_rtl_path'', F_str, True),
      (''tests_and_counts'', F_other, True), (''isa_ibex'', F_other, True),
      (''isa_iss'', F_other, True), (''run_rtl_timeout_s'', F_int, True),
      (''ibex_configs'', F_path, False), (''ibex_riscvdv_simulator_yaml'', F_path, False),
      (''ibex_riscvdv_customtarget'', F_path, False),
      (''ibex_riscvdv_testlist'', F_path, False), (''ibex_riscvdv_csr'', F_path, False),
      (''directed_test_dir'', F_path, False), (''directed_test_data'', F_path, False),
      (''riscvdv_build_log'', F_other, True), (''riscvdv_build_stdout'', F_other, True),
      (''riscvdv_build_cmds'', F_other, True), (''tb_build_log'', F_other, True),
      (''tb_build_stdout'', F_other, True), (''tb_build_cmds'', F_other, True),
      (''riscvdv_fcov_log'', F_other, True), (''riscvdv_fcov_stdout'', F_other, True),
      (''riscvdv_fcov_cmds'', F_other, True), (''cov_merge_db_list'', F_other, True),
      (''cov_merge_log'', F_other, True), (''cov_merge_stdout'', F_other, True),
      (''cov_merge_cmds'', F_other, True), (''cov_report_log'', F_other, True),
      (''cov_report_stdout'', F_other, True), (''cov_report_cmds'', F_other, True),
      (''regr_log'', F_other, True), (''regr_log_junit'', F_other, True),
      (''regr_log_junit_merged'', F_other, True),
      (''environment_variables'', F_other, False), (''ibex_root'', F_path, False),
      (''riscvdv_root'', F_path, False), (''ot_lowrisc_ip'', F_path, False),
      (''ot_xcelium_cov_scripts'', F_path, False), (''ibex_dv_root'', F_path, False),
      (''dir_build'', F_path, False), (''dir_instruction_generator'', F_path, False),
      (''dir_tb'', F_path, False), (''dir_run'', F_path, False),
      (''dir_cov'', F_path, False), (''dir_fcov'', F_path, False),
      (''dir_shared_cov'', F_path, False), (''dir_cov_merged'', F_path, False),
      (''dir_cov_report'', F_path, False), (''tests_pickle_files'', F_other, False)]"

definition counts_str :: "(string \<times> int \<times> TestType) list \<Rightarrow> string" where
  "counts_str ts =
     ''['' @ join '', '' (map (\<lambda>(name, n, t). ''('' @ repr_str name @ '', '' @ show_int n @ '', <'' @
       testtype_str t @ (case t of RISCVDV \<Rightarrow> '': 0'' | DIRECTED \<Rightarrow> '': 1'') @ ''>)'') ts) @ '']''"

definition md_asdict :: "regression_metadata \<Rightarrow> (string \<times> field_value) list" where
  "md_asdict m =
     [
      (''dir_out'', Field (PathV (md_dir_out m))),
      (''dir_metadata'', Field (PathV (md_dir_metadata m))),
      (''git_commit'', Field (Val (PStr (md_git_commit m)))),
      (''creation_datetime'', Field_other (md_creation_datetime m)),
      (''pickle_file'', Field (PathV (md_pickle_file m))),
      (''yaml_file'', Field (PathV (md_yaml_file m))),
      (''raw_args_str'', Field (Val (PStr (md_raw_args_str m)))),
      (''raw_args_dict'', Field (Val (PDict (map (\<lambda>(k, v). (PStr k, PStr v)) (md_raw_args_dict m))))),
      (''seed'', Field (Val (PInt (md_seed m)))),
      (''waves'', Field (Val (PBool (md_waves m)))),
      (''cov'', Field (Val (PBool (md_cov m)))),
      (''cosim'', Field (Val (PBool (md_cosim m)))),
      (''simulator'', Field (Val (PStr (md_simulator m)))),
      (''iss'', Field (Val (PStr (md_iss m)))), (''test'', Field (Val (PStr (md_test m)))),
      (''verbose'', Field (Val (PBool (md_verbose m)))),
      (''iterations'', opt_int (md_iterations m)),
      (''signature_addr'', Field (Val (PStr (md_signature_addr m)))),
      (''ibex_config'', Field (Val (PStr (md_ibex_config m)))),
      (''dut_cov_rtl_path'', Field (Val (PStr (md_dut_cov_rtl_path m)))),
      (''tests_and_counts'', Field_other (counts_str (md_tests_and_counts m))),
      (''isa_ibex'', opt_str (md_isa_ibex m)), (''isa_iss'', opt_str (md_isa_iss m)),
      (''run_rtl_timeout_s'', Field (Val (PInt (md_run_rtl_timeout_s m)))),
      (''ibex_configs'', Field (PathV (md_ibex_configs m))),
      (''ibex_riscvdv_simulator_yaml'', Field (PathV (md_ibex_riscvdv_simulator_yaml m))),
      (''ibex_riscvdv_customtarget'', Field (PathV (md_ibex_riscvdv_customtarget m))),
      (''ibex_riscvdv_testlist'', Field (PathV (md_ibex_riscvdv_testlist m))),
      (''ibex_riscvdv_csr'', Field (PathV (md_ibex_riscvdv_csr m))),
      (''directed_test_dir'', Field (PathV (md_directed_test_dir m))),
      (''directed_test_data'', Field (PathV (md_directed_test_data m))),
      (''riscvdv_build_log'', opt_path (md_riscvdv_build_log m)),
      (''riscvdv_build_stdout'', opt_path (md_riscvdv_build_stdout m)),
      (''riscvdv_build_cmds'', opt_cmds (md_riscvdv_build_cmds m)),
      (''tb_build_log'', opt_path (md_tb_build_log m)),
      (''tb_build_stdout'', opt_path (md_tb_build_stdout m)),
      (''tb_build_cmds'', opt_cmds (md_tb_build_cmds m)),
      (''riscvdv_fcov_log'', opt_path (md_riscvdv_fcov_log m)),
      (''riscvdv_fcov_stdout'', opt_path (md_riscvdv_fcov_stdout m)),
      (''riscvdv_fcov_cmds'', opt_cmds (md_riscvdv_fcov_cmds m)),
      (''cov_merge_db_list'', opt_path (md_cov_merge_db_list m)),
      (''cov_merge_log'', opt_path (md_cov_merge_log m)),
      (''cov_merge_stdout'', opt_path (md_cov_merge_stdout m)),
      (''cov_merge_cmds'', opt_cmds (md_cov_merge_cmds m)),
      (''cov_report_log'', opt_path (md_cov_report_log m)),
      (''cov_report_stdout'', opt_path (md_cov_report_stdout m)),
      (''cov_report_cmds'', opt_cmds (md_cov_report_cmds m)),
      (''regr_log'', opt_path (md_regr_log m)),
      (''regr_log_junit'', opt_path (md_regr_log_junit m)),
      (''regr_log_junit_merged'', opt_path (md_regr_log_junit_merged m)),
      (''environment_variables'', Field (Val (PDict (map (\<lambda>(k, v). (PStr k, PStr v)) (md_environment_variables m))))),
      (''ibex_root'', Field (PathV (md_ibex_root m))),
      (''riscvdv_root'', Field (PathV (md_riscvdv_root m))),
      (''ot_lowrisc_ip'', Field (PathV (md_ot_lowrisc_ip m))),
      (''ot_xcelium_cov_scripts'', Field (PathV (md_ot_xcelium_cov_scripts m))),
      (''ibex_dv_root'', Field (PathV (md_ibex_dv_root m))),
      (''dir_build'', Field (PathV (md_dir_build m))),
      (''dir_instruction_generator'', Field (PathV (md_dir_instruction_generator m))),
      (''dir_tb'', Field (PathV (md_dir_tb m))), (''dir_run'', Field (PathV (md_dir_run m))),
      (''dir_cov'', Field (PathV (md_dir_cov m))),
      (''dir_fcov'', Field (PathV (md_dir_fcov m))),
      (''dir_shared_cov'', Field (PathV (md_dir_shared_cov m))),
      (''dir_cov_merged'', Field (PathV (md_dir_cov_merged m))),
      (''dir_cov_report'', Field (PathV (md_dir_cov_report m))),
      (''tests_pickle_files'', Field_list (map PathV (md_tests_pickle_files m)))]"

definition md_export :: "(path \<Rightarrow> path) \<Rightarrow> regression_metadata \<Rightarrow> regression_metadata store \<Rightarrow>
    script_error + regression_metadata store" where
  "md_export resolve =
     export (\<lambda>m. Some (md_pickle_file m)) (\<lambda>m. Some (md_yaml_file m))
       (\<lambda>m. format_dict_to_printable_dict resolve (md_asdict m)) True"

definition md_from_metadata_dir :: "regression_metadata store \<Rightarrow> path \<Rightarrow>
    script_error + regression_metadata" where
  "md_from_metadata_dir st dir_metadata =
     construct_from_pickle st (child_of dir_metadata ''metadata.pickle'')"

section \<open>Directories\<close>

text \<open>\<^verbatim>\<open>setup_imports.py\<close>: the directories of the project under its root.\<close>

definition core_ibex :: "path \<Rightarrow> path" where
  "core_ibex root = child_of (child_of (child_of root ''dv'') ''uvm'') ''core_ibex''"

definition riscv_dv :: "path \<Rightarrow> path" where
  "riscv_dv root = child_of (child_of root ''vendor'') ''google_riscv-dv''"

definition ot_lowrisc_ip :: "path \<Rightarrow> path" where
  "ot_lowrisc_ip root = child_of (child_of root ''vendor'') ''lowrisc_ip''"

definition get_pythonpath :: "path \<Rightarrow> string" where
  "get_pythonpath root =
     join '':'' (map path_str
       [root, child_of root ''util'', child_of (core_ibex root) ''scripts'',
        child_of (core_ibex root) ''riscv_dv_extension'', child_of (core_ibex root) ''yaml'',
        child_of (riscv_dv root) ''scripts''])"

definition setup_directories :: "path \<Rightarrow> regression_metadata \<Rightarrow> regression_metadata" where
  "setup_directories root m =
     (let dir_build = child_of (md_dir_out m) ''build''; dir_run = child_of (md_dir_out m) ''run'';
          dir_cov = child_of dir_run ''coverage''
      in m\<lparr>md_ibex_root := root, md_riscvdv_root := riscv_dv root,
           md_ot_lowrisc_ip := ot_lowrisc_ip root, md_ibex_dv_root := core_ibex root,
           md_dir_build := dir_build, md_dir_instruction_generator := child_of dir_build ''instr_gen'',
           md_dir_tb := child_of dir_build ''tb'', md_dir_run := dir_run,
           md_dir_tests := child_of dir_run ''tests'', md_dir_cov := dir_cov,
           md_dir_fcov := child_of dir_cov ''fcov'', md_dir_shared_cov := child_of dir_cov ''shared_cov'',
           md_dir_cov_merged := child_of dir_cov ''merged'', md_dir_cov_report := child_of dir_cov ''report''\<rparr>)"

definition post_init :: "path \<Rightarrow> (string \<times> string) list \<Rightarrow> regression_metadata \<Rightarrow> regression_metadata" where
  "post_init root environ m0 =
     (let m = setup_directories root m0;
          target = child_of (md_ibex_dv_root m) ''riscv_dv_extension'';
          directed = child_of (md_ibex_dv_root m) ''directed_tests''
      in m\<lparr>md_pickle_file := child_of (md_dir_metadata m) ''metadata.pickle'',
           md_yaml_file := child_of (md_dir_metadata m) ''metadata.yaml'',
           md_ibex_configs := child_of (md_ibex_root m) ''ibex_configs.yaml'',
           md_ot_xcelium_cov_scripts :=
             child_of (child_of (child_of (md_ot_lowrisc_ip m) ''dv'') ''tools'') ''xcelium'',
           md_ibex_riscvdv_simulator_yaml :=
             child_of (child_of (md_ibex_dv_root m) ''yaml'') ''rtl_simulation.yaml'',
           md_ibex_riscvdv_customtarget := target,
           md_ibex_riscvdv_testlist := child_of target ''testlist.yaml'',
           md_ibex_riscvdv_csr := child_of target ''csr_description.yaml'',
           md_directed_test_dir := directed,
           md_directed_test_data := child_of directed ''directed_testlist.yaml'',
           md_environment_variables := environ\<rparr>)"

section \<open>Arguments\<close>

datatype md_error =
    Script script_error
  | Shell shlex_error
  | Cmd cmd_error
  | Cfg config_error
  | Lib lib_error
  | Unfinished

definition lift :: "('a \<Rightarrow> md_error) \<Rightarrow> 'a + 'b \<Rightarrow> md_error + 'b" where
  "lift f m = (case m of Inl e \<Rightarrow> Inl (f e) | Inr x \<Rightarrow> Inr x)"

text \<open>\<open>pair.split('=', maxsplit=1)\<close>, which must give a key and a value.\<close>

definition key_value :: "string \<Rightarrow> md_error + string \<times> string" where
  "key_value pair =
     (case split1 CHR ''='' pair of
        (k, Some v) \<Rightarrow> Inr (k, v)
      | (_, None) \<Rightarrow> Inl (Script (Value_error pair)))"

definition make_dict :: "('k \<times> 'v) list \<Rightarrow> ('k, 'v) pydict" where
  "make_dict kvs = foldl (\<lambda>d kv. dset (fst kv) (snd kv) d) [] kvs"

definition raw_args_of :: "string \<Rightarrow> md_error + (string \<times> string) list" where
  "raw_args_of args_list =
     ebind (lift Shell (shlex_split args_list)) (\<lambda>words. emap key_value words)"

datatype arg_value = A_str string | A_int int | A_bool bool | A_path path | A_opt_int "int option"

definition str_to_int :: "string \<Rightarrow> md_error + int" where
  "str_to_int s = of_option (Script (Value_error s)) (read_int 10 s)"

definition convert_arg :: "field_type \<Rightarrow> string \<Rightarrow> string \<Rightarrow> md_error + arg_value" where
  "convert_arg ty name val =
     (case ty of
        F_str \<Rightarrow> Inr (A_str val)
      | F_int \<Rightarrow> ebind (str_to_int val) (\<lambda>i. Inr (A_int i))
      | F_bool \<Rightarrow> ebind (str_to_int val) (\<lambda>i. Inr (A_bool (i \<noteq> 0)))
      | F_path \<Rightarrow> Inr (A_path (path_of val))
      | F_opt_int \<Rightarrow> if val \<noteq> [] then ebind (str_to_int val) (\<lambda>i. Inr (A_opt_int (Some i)))
                     else Inr (A_opt_int None)
      | F_other \<Rightarrow> Inl (Script (Runtime_error (''Couldn't set key '' @ name @ '' in metadata object!''))))"

text \<open>The arguments for the constructor, in the order of the fields; unknown keys are ignored.\<close>

definition collect_args :: "(string, string) pydict \<Rightarrow> md_error + (string \<times> bool \<times> arg_value) list" where
  "collect_args kv_dict =
     emap (\<lambda>(name, ty, init). ebind (convert_arg ty name (the (dget kv_dict name))) (\<lambda>a.
             Inr (name, init, a)))
       (filter (\<lambda>(name, ty, init). name \<in> set (dkeys kv_dict)) md_fields)"

text \<open>The keywords the call of the constructor names itself cannot be given a second time.\<close>

definition fixed_args :: "string list" where
  "fixed_args = [''dir_out'', ''dir_metadata'', ''git_commit'', ''creation_datetime'']"

definition set_arg :: "string \<times> bool \<times> arg_value \<Rightarrow> regression_metadata \<Rightarrow>
    md_error + regression_metadata" where
  "set_arg arg m =
     (case arg of (name, init, a) \<Rightarrow>
        if \<not> init \<or> name \<in> set fixed_args then Inl (Script (Type_error name))
        else Inr (case a of
            A_str s \<Rightarrow>
              if name = ''raw_args_str'' then m\<lparr>md_raw_args_str := s\<rparr>
              else if name = ''simulator'' then m\<lparr>md_simulator := s\<rparr>
              else if name = ''iss'' then m\<lparr>md_iss := s\<rparr>
              else if name = ''test'' then m\<lparr>md_test := s\<rparr>
              else if name = ''signature_addr'' then m\<lparr>md_signature_addr := s\<rparr>
              else if name = ''ibex_config'' then m\<lparr>md_ibex_config := s\<rparr>
              else if name = ''dut_cov_rtl_path'' then m\<lparr>md_dut_cov_rtl_path := s\<rparr> else m
          | A_int i \<Rightarrow>
              if name = ''seed'' then m\<lparr>md_seed := i\<rparr>
              else if name = ''run_rtl_timeout_s'' then m\<lparr>md_run_rtl_timeout_s := i\<rparr> else m
          | A_bool b \<Rightarrow>
              if name = ''waves'' then m\<lparr>md_waves := b\<rparr>
              else if name = ''cov'' then m\<lparr>md_cov := b\<rparr>
              else if name = ''cosim'' then m\<lparr>md_cosim := b\<rparr>
              else if name = ''verbose'' then m\<lparr>md_verbose := b\<rparr> else m
          | A_opt_int i \<Rightarrow> if name = ''iterations'' then m\<lparr>md_iterations := i\<rparr> else m
          | A_path p \<Rightarrow> m))"

definition arg_list_initializer :: "path \<Rightarrow> (string \<times> string) list \<Rightarrow> string \<Rightarrow> path \<Rightarrow> path \<Rightarrow> string \<Rightarrow>
    string \<Rightarrow> md_error + regression_metadata" where
  "arg_list_initializer root environ now dir_metadata dir_out git_commit args_list =
     ebind (raw_args_of args_list) (\<lambda>kvs.
       let m0 = (default_metadata now)\<lparr>md_dir_out := dir_out, md_dir_metadata := dir_metadata,
             md_git_commit := git_commit, md_raw_args_str := args_list,
             md_raw_args_dict := make_dict kvs\<rparr>
       in ebind (collect_args (make_dict (map (\<lambda>(k, v). (lower k, v)) kvs))) (\<lambda>args.
            ebind (efold set_arg args m0) (\<lambda>m. Inr (post_init root environ m))))"

text \<open>\<open>_get_ibex_metadata\<close>: the iterations and the seed are checked, the ISA strings are set.\<close>

definition get_ibex_metadata :: "(string \<Rightarrow> string option) \<Rightarrow> (string \<Rightarrow> pyval option) \<Rightarrow>
    regression_metadata \<Rightarrow> md_error + regression_metadata" where
  "get_ibex_metadata read_file yaml_load m =
     ebind (guard_else (\<not> (case md_iterations m of None \<Rightarrow> False | Some i \<Rightarrow> i \<le> 0))
              (Script (Runtime_error ''Bad --iterations argument: must be positive''))) (\<lambda>_.
     ebind (guard_else (\<not> md_seed m < 0)
              (Script (Runtime_error ''Bad --start_seed argument: must be non-negative''))) (\<lambda>_.
     ebind (lift Cfg (get_config read_file yaml_load (path_str (md_ibex_root m)) (md_ibex_config m))) (\<lambda>cfg.
     ebind (lift Cmd (get_isas_for_config cfg)) (\<lambda>(isa, iss).
       Inr (m\<lparr>md_isa_ibex := Some isa, md_isa_iss := Some iss\<rparr>)))))"

section \<open>Choosing the tests\<close>

text \<open>
  \<open>process_riscvdv_testlist\<close> hands the root directory over as a path, which the substitution
  in import entries does not take.  The depth of imports is bounded by the fuel.
\<close>

definition process_riscvdv_testlist :: "(string \<Rightarrow> lib_error + test_entry list) \<Rightarrow> nat \<Rightarrow>
    regression_metadata \<Rightarrow> md_error + test_entry list" where
  "process_riscvdv_testlist yaml fuel m =
     (case process_regression_list yaml fuel (path_str (md_ibex_riscvdv_testlist m))
             (if list_ex (\<lambda>x. x \<in> set (split_on CHR '','' (md_test m))) [''all_riscvdv'', ''all'']
              then ''all'' else md_test m)
             (case md_iterations m of None \<Rightarrow> 0 | Some i \<Rightarrow> i) None of
        None \<Rightarrow> Inl Unfinished
      | Some r \<Rightarrow> lift Lib r)"

text \<open>A directed test as the dictionary the model gives for it.\<close>

definition dtest_entry :: "dtest \<Rightarrow> test_entry" where
  "dtest_entry t =
     [(PStr ''config'', PStr (dc_config t)), (PStr ''rtl_test'', PStr (dc_rtl_test t)),
      (PStr ''rtl_params'', PDict (dc_rtl_params t)), (PStr ''timeout_s'', PInt (dc_timeout_s t)),
      (PStr ''gcc_opts'', PStr (dc_gcc_opts t)), (PStr ''ld_script'', PStr (path_str (dc_ld_script t))),
      (PStr ''includes'', PStr (path_str (dc_includes t))), (PStr ''test'', PStr (dt_test t)),
      (PStr ''desc'', PStr (dt_desc t)), (PStr ''test_srcs'', PStr (path_str (dt_test_srcs t))),
      (PStr ''iterations'', PInt (dt_iterations t))]"

definition select_directed :: "regression_metadata \<Rightarrow> dtest \<Rightarrow> bool" where
  "select_directed m t \<longleftrightarrow>
     list_ex (\<lambda>x. x \<in> set (split_on CHR '','' (md_test m))) [''all_directed'', dt_test t]"

definition override_iterations :: "regression_metadata \<Rightarrow> dtest \<Rightarrow> dtest" where
  "override_iterations m t =
     (case md_iterations m of
        Some i \<Rightarrow> if i \<noteq> 0 then t\<lparr>dt_iterations := i\<rparr> else t
      | None \<Rightarrow> t)"

definition process_directed_testlist :: "(path \<Rightarrow> script_error + directed_tests_yaml) \<Rightarrow>
    regression_metadata \<Rightarrow> md_error + test_entry list" where
  "process_directed_testlist import_directed m =
     ebind (lift Script (import_directed (md_directed_test_data m))) (\<lambda>model.
       Inr (map dtest_entry (filter (\<lambda>t. 0 < dt_iterations t)
         (map (override_iterations m) (filter (select_directed m) (dy_tests model))))))"

definition test_count :: "TestType \<Rightarrow> test_entry \<Rightarrow>
    md_error + (string \<times> int \<times> TestType) \<times> test_entry" where
  "test_count ty e =
     ebind (of_option (Script (Key_error ''test'')) (dict_get e ''test'')) (\<lambda>name.
     ebind (of_option (Script (Key_error ''iterations'')) (dict_get e ''iterations'')) (\<lambda>n.
       case (name, int_value n) of
         (PStr s, Some i) \<Rightarrow> if 0 < i then Inr ((s, i, ty), e) else Inl (Script Assertion_error)
       | _ \<Rightarrow> Inl (Script Assertion_error)))"

text \<open>What the choice of tests reads: the lists, the model of directed tests, the configurations.\<close>

record md_inputs =
  in_yaml :: "string \<Rightarrow> lib_error + test_entry list"
  in_fuel :: nat
  in_directed :: "path \<Rightarrow> script_error + directed_tests_yaml"
  in_file :: "string \<Rightarrow> string option"
  in_load :: "string \<Rightarrow> pyval option"

definition get_tests_and_counts :: "md_inputs \<Rightarrow> regression_metadata \<Rightarrow>
    md_error + ((string \<times> int \<times> TestType) \<times> test_entry) list" where
  "get_tests_and_counts inp m =
     ebind (process_riscvdv_testlist (in_yaml inp) (in_fuel inp) m) (\<lambda>rv.
     ebind (process_directed_testlist (in_directed inp) m) (\<lambda>directed.
     ebind (guard_else (rv \<noteq> [] \<or> directed \<noteq> [])
       (Script (Runtime_error ''No matching tests found in testlists.''))) (\<lambda>_.
     ebind (lift Cfg (parse_config (in_file inp) (in_load inp) (md_ibex_config m)
              (path_str (md_ibex_configs m)))) (\<lambda>cfg.
     ebind (lift Cmd (filter_tests_by_config cfg rv)) (\<lambda>rv'.
     ebind (lift Cmd (filter_tests_by_config cfg directed)) (\<lambda>directed'.
     ebind (emap (test_count RISCVDV) rv') (\<lambda>a.
     ebind (emap (test_count DIRECTED) directed') (\<lambda>b. Inr (a @ b)))))))))"

section \<open>Creating the results\<close>

text \<open>\<open>shlex.split(obj.get(field) or "")\<close>\<close>

definition shlex_field :: "test_entry \<Rightarrow> string \<Rightarrow> md_error + string list" where
  "shlex_field obj k =
     (case dict_get obj k of
        None \<Rightarrow> Inr []
      | Some v \<Rightarrow>
          if \<not> truthy v then Inr []
          else case v of PStr s \<Rightarrow> lift Shell (shlex_split s) | _ \<Rightarrow> Inl (Script (Type_error k)))"

text \<open>The loop over the simulator options: each must be one name and one value.\<close>

definition ddm_step :: "string \<Rightarrow> bool option \<Rightarrow> md_error + bool option" where
  "ddm_step opt ddm =
     (case split_on CHR ''='' opt of
        [plusarg, val] \<Rightarrow>
          if plusarg = ''+discrete_debug_module''
          then ebind (str_to_int val) (\<lambda>i. Inr (Some (i \<noteq> 0))) else Inr ddm
      | _ \<Rightarrow> Inl (Script (Value_error opt)))"

definition base_result :: "regression_metadata \<Rightarrow> string \<Rightarrow> TestType \<Rightarrow> int \<Rightarrow> test_run_result" where
  "base_result m name ty testseed =
     (let tds = tds_str name testseed
      in new_result\<lparr>testtype := Some ty, testdotseed := Some tds, testname := Some name,
           seed := Some testseed, rtl_simulator := Some (md_simulator m),
           iss_cosim := Some (md_iss m), dir_test := Some (child_of (md_dir_tests m) tds),
           metadata_pickle_file := Some (md_pickle_file m),
           pickle_file := Some (child_of (md_dir_metadata m) (tds @ ''.pickle'')),
           yaml_file := Some (child_of (child_of (md_dir_tests m) tds) ''trr.yaml'')\<rparr>)"

definition make_result :: "md_inputs \<Rightarrow> regression_metadata \<Rightarrow> (string \<times> int \<times> TestType) \<times> test_entry \<Rightarrow>
    int \<Rightarrow> md_error + test_run_result" where
  "make_result inp m spec testseed =
     (case spec of ((name, cnt, ty), obj) \<Rightarrow>
        let t = base_result m name ty testseed
        in case ty of
             RISCVDV \<Rightarrow>
               ebind (shlex_field obj ''gen_test'') (\<lambda>gt. ebind (shlex_field obj ''gen_opts'') (\<lambda>go.
               ebind (shlex_field obj ''rtl_test'') (\<lambda>rt. ebind (shlex_field obj ''sim_opts'') (\<lambda>so.
               ebind (efold ddm_step so None) (\<lambda>ddm.
                 Inr (t\<lparr>gen_test := Some gt, gen_opts := Some go, rtl_test := Some (PList (map PStr rt)),
                        sim_opts := Some so, is_discrete_debug_module := ddm\<rparr>))))))
           | DIRECTED \<Rightarrow>
               ebind (lift Script (in_directed inp (md_directed_test_data m))) (\<lambda>model.
                 case List.find (\<lambda>d. dt_test d = name) (dy_tests model) of
                   None \<Rightarrow> Inl (Script (Value_error ''StopIteration''))
                 | Some d \<Rightarrow> Inr (t\<lparr>directed_data := Some (dtest_entry d)\<rparr>)))"

definition seeds :: "regression_metadata \<Rightarrow> int \<Rightarrow> int list" where
  "seeds m cnt = [md_seed m .. md_seed m + cnt - 1]"

definition runs :: "regression_metadata \<Rightarrow> ((string \<times> int \<times> TestType) \<times> test_entry) list \<Rightarrow>
    (((string \<times> int \<times> TestType) \<times> test_entry) \<times> int) list" where
  "runs m specs = concat (map (\<lambda>spec. map (Pair spec) (seeds m (fst (snd (fst spec))))) specs)"

text \<open>\<open>--op create_metadata\<close>: nothing is done where metadata exists already.\<close>

definition create_results :: "(path \<Rightarrow> path) \<Rightarrow> md_inputs \<Rightarrow> regression_metadata \<Rightarrow>
    ((string \<times> int \<times> TestType) \<times> test_entry) list \<Rightarrow> test_run_result store \<Rightarrow>
    md_error + test_run_result list \<times> test_run_result store" where
  "create_results resolve inp m specs st =
     ebind (emap (\<lambda>(spec, testseed). make_result inp m spec testseed) (runs m specs)) (\<lambda>ts.
     ebind (lift Script (efold (trr_export resolve) ts st)) (\<lambda>st'. Inr (ts, st')))"

definition create_metadata :: "(path \<Rightarrow> path) \<Rightarrow> md_inputs \<Rightarrow> path \<Rightarrow> (string \<times> string) list \<Rightarrow> string \<Rightarrow>
    path \<Rightarrow> path \<Rightarrow> string \<Rightarrow> string \<Rightarrow> regression_metadata store \<Rightarrow> test_run_result store \<Rightarrow>
    md_error + regression_metadata store \<times> test_run_result store" where
  "create_metadata resolve inp root environ now dir_metadata dir_out git_commit args_list mst st =
     (if child_of dir_metadata ''metadata.pickle'' \<in> set (dkeys (pickles mst)) then Inr (mst, st)
      else ebind (arg_list_initializer root environ now (resolve dir_metadata) (resolve dir_out)
                    git_commit args_list) (\<lambda>m.
           ebind (get_ibex_metadata (in_file inp) (in_load inp) m) (\<lambda>m.
           ebind (get_tests_and_counts inp m) (\<lambda>specs.
           let m = m\<lparr>md_tests_and_counts := map fst specs\<rparr>
           in ebind (guard_else (specs \<noteq> [])
                (Script (Runtime_error ''md.tests_and_counts is empty, cannot get TEST.SEED strings.''))) (\<lambda>_.
              ebind (create_results resolve inp m specs st) (\<lambda>(ts, st').
              ebind (lift Script (md_export resolve
                       (m\<lparr>md_tests_pickle_files := md_tests_pickle_files m @
                            map (\<lambda>t. case pickle_file t of Some p \<Rightarrow> p | None \<Rightarrow> path_of []) ts\<rparr>) mst))
                (\<lambda>mst'. Inr (mst', st'))))))))"

section \<open>Printing a field\<close>

definition tds_list :: "regression_metadata \<Rightarrow> TestType \<Rightarrow> string list" where
  "tds_list m ty =
     concat (map (\<lambda>(test, cnt, t). if t = ty then map (tds_str test) (seeds m cnt) else [])
       (md_tests_and_counts m))"

definition print_field :: "regression_metadata \<Rightarrow> string \<Rightarrow> md_error + string" where
  "print_field m name =
     (if name = ''riscvdv_tds'' then Inr (join '' '' (tds_list m RISCVDV))
      else if name = ''directed_tds'' then Inr (join '' '' (tds_list m DIRECTED))
      else case map_of (md_asdict m) name of
             None \<Rightarrow> Inl (Script (Key_error name))
           | Some (Field (Val PNone)) \<Rightarrow>
               Inl (Script (Runtime_error ''Field requested is not present or not set in the regression metadata object''))
           | Some (Field (Val v)) \<Rightarrow> Inr (py_str v)
           | Some (Field (PathV p)) \<Rightarrow> Inr (path_str p)
           | Some (Field_list vs) \<Rightarrow>
               Inr (''['' @ join '', '' (map (\<lambda>v. case v of PathV p \<Rightarrow> ''PosixPath('' @ repr_str (path_str p) @ '')''
                                            | Val w \<Rightarrow> py_repr w) vs) @ '']'')
           | Some (Field_other s) \<Rightarrow> Inr s)"

section \<open>Locked read-modify-write\<close>

text \<open>
  \<open>with LockedMetadata(dir) as md: ...\<close>: the record is loaded, the body changes it or fails,
  and leaving the block exports it, also after a failure.  The lock makes a block one step of
  the interleaving of the processes.
\<close>

definition locked_metadata :: "(path \<Rightarrow> path) \<Rightarrow> path \<Rightarrow>
    (regression_metadata \<Rightarrow> 'e option \<times> regression_metadata) \<Rightarrow> regression_metadata store \<Rightarrow>
    (script_error + 'e option) \<times> regression_metadata store" where
  "locked_metadata resolve dir_metadata body mst =
     (case md_from_metadata_dir mst dir_metadata of
        Inl e \<Rightarrow> (Inl e, mst)
      | Inr m \<Rightarrow>
          (let (err, m') = body m
           in case md_export resolve m' mst of
                Inl e \<Rightarrow> (Inl e, mst)
              | Inr mst' \<Rightarrow> (Inr err, mst')))"

section \<open>Lemmas and properties\<close>

lemma append_sep_inj:
  "c \<notin> set w \<Longrightarrow> c \<notin> set v \<Longrightarrow> xs @ c # w = ys @ c # v \<longleftrightarrow> xs = ys \<and> w = v"
  by (auto simp: append_eq_append_conv2 append_eq_Cons_conv Cons_eq_append_conv)

lemma tds_str_inj: "tds_str a i = tds_str b j \<longleftrightarrow> a = b \<and> i = j"
  using append_sep_inj[OF show_int_no_dot show_int_no_dot, of a i b j]
  by (auto simp: tds_str_def show_int_inj)

lemma pickle_component:
  assumes "CHR ''/'' \<notin> set name"
  shows "component_ok (tds_str name i @ ''.pickle'')"
proof -
  have "CHR ''/'' \<notin> set (show_int i)" using show_int_chars[of "CHR ''/''" i] by (auto simp: is_digit_def)
  then show ?thesis using assms by (auto simp: component_ok_def tds_str_def Cons_eq_append_conv)
qed

text \<open>What \<open>make_result\<close> keeps of the base result.\<close>

lemma make_result_fields:
  assumes "make_result inp m ((name, cnt, ty), obj) i = Inr t"
  shows "pickle_file t = Some (child_of (md_dir_metadata m) (tds_str name i @ ''.pickle''))"
    "testdotseed t = Some (tds_str name i)" "testname t = Some name" "seed t = Some i"
    "testtype t = Some ty" "passed t = None"
  using assms
  by (auto simp: make_result_def base_result_def new_result_def Let_def raise_simps
    split: TestType.splits option.splits)

definition run_names :: "regression_metadata \<Rightarrow> ((string \<times> int \<times> TestType) \<times> test_entry) list \<Rightarrow>
    (string \<times> int) list" where
  "run_names m specs = map (\<lambda>(spec, i). (fst (fst spec), i)) (runs m specs)"

lemma run_names_Cons:
  "run_names m (spec # specs) =
     map (Pair (fst (fst spec))) (seeds m (fst (snd (fst spec)))) @ run_names m specs"
  by (simp add: run_names_def runs_def)

lemma run_names_distinct:
  "distinct (map (\<lambda>s. fst (fst s)) specs) \<Longrightarrow> distinct (run_names m specs)"
proof (induction specs)
  case Nil
  then show ?case by (simp add: run_names_def runs_def)
next
  case (Cons spec specs)
  have sub: "(n, i) \<in> set (run_names m specs) \<Longrightarrow> n \<in> (\<lambda>s. fst (fst s)) ` set specs" for n i specs
    by (force simp: run_names_def runs_def)
  have "distinct (seeds m k)" for k by (simp add: seeds_def)
  then show ?case
    using Cons sub[of "fst (fst spec)" _ specs]
    by (auto simp: run_names_Cons distinct_map inj_on_def)
qed

lemma create_results_names:
  assumes "create_results resolve inp m specs st = Inr (ts, st')"
  shows "list_all2 (\<lambda>(n, i) t. testdotseed t = Some (tds_str n i) \<and>
      pickle_file t = Some (child_of (md_dir_metadata m) (tds_str n i @ ''.pickle'')))
    (run_names m specs) ts \<and> efold (trr_export resolve) ts st = Inr st'"
proof -
  have l: "lift f x = Inr y \<longleftrightarrow> x = Inr y" for f :: "script_error \<Rightarrow> md_error" and x y
    by (simp add: lift_def split: sum.split)
  have "list_all2 (\<lambda>x t. make_result inp m (fst x) (snd x) = Inr t) (runs m specs) ts"
    and e: "efold (trr_export resolve) ts st = Inr st'"
    using assms by (auto simp: create_results_def raise_simps emap_eq_Inr l case_prod_beta)
  then have "list_all2 (\<lambda>(n, i) t. testdotseed t = Some (tds_str n i) \<and>
      pickle_file t = Some (child_of (md_dir_metadata m) (tds_str n i @ ''.pickle''))) (run_names m specs) ts"
    unfolding run_names_def list_all2_map1
    by (elim list_all2_mono) (auto dest: make_result_fields)
  then show ?thesis using e by blast
qed

lemma result_file_inj:
  assumes "child_of dir (tds_str n i @ ''.pickle'') = child_of dir (tds_str k j @ ''.pickle'')"
    and "CHR ''/'' \<notin> set n" and "CHR ''/'' \<notin> set k"
  shows "n = k \<and> i = j"
proof -
  have "tds_str n i @ ''.pickle'' = tds_str k j @ ''.pickle''"
    using assms by (intro child_of_inj[OF pickle_component pickle_component assms(1)])
  then show ?thesis by (simp add: tds_str_inj)
qed

lemma run_names_noslash:
  assumes "list_all (\<lambda>s. CHR ''/'' \<notin> set (fst (fst s))) specs" and "(n, i) \<in> set (run_names m specs)"
  shows "CHR ''/'' \<notin> set n"
  using assms by (auto simp: run_names_def runs_def list_all_iff)

lemma created_files_distinct:
  assumes "create_results resolve inp m specs st = Inr (ts, st')"
    and "distinct (map (\<lambda>s. fst (fst s)) specs)"
    and "list_all (\<lambda>s. CHR ''/'' \<notin> set (fst (fst s))) specs"
  shows "distinct (map pickle_file ts)"
proof -
  let ?f = "\<lambda>(n, i). Some (child_of (md_dir_metadata m) (tds_str n i @ ''.pickle''))"
  have files: "map pickle_file ts = map ?f (run_names m specs)"
    using conjunct1[OF create_results_names[OF assms(1)]] by (induction rule: list_all2_induct) auto
  have "inj_on ?f (set (run_names m specs))"
    using run_names_noslash[OF assms(3)] by (auto intro!: inj_onI dest: result_file_inj)
  then show ?thesis
    using run_names_distinct[OF assms(2)] files by (simp add: distinct_map)
qed

lemma created_loads:
  assumes "create_results resolve inp m specs st = Inr (ts, st')"
    and "distinct (map (\<lambda>s. fst (fst s)) specs)"
    and "list_all (\<lambda>s. CHR ''/'' \<notin> set (fst (fst s))) specs" and "t \<in> set ts"
  shows "\<exists>p. pickle_file t = Some p \<and> construct_from_pickle st' p = Inr t"
  using trr.save_all_load[OF conjunct2[OF create_results_names[OF assms(1)]]
    created_files_distinct[OF assms(1-3)] assms(4)] .

text \<open>A new result says nothing yet on whether the run passed.\<close>

lemma created_not_passed:
  assumes "create_results resolve inp m specs st = Inr (ts, st')" and "t \<in> set ts"
  shows "passed t = None"
proof -
  have made: "list_all2 (\<lambda>x t. make_result inp m (fst x) (snd x) = Inr t) (runs m specs) ts"
    using assms(1) by (auto simp: create_results_def raise_simps emap_eq_Inr case_prod_beta)
  obtain k where "k < length ts" "t = ts ! k" using assms(2) by (auto simp: in_set_conv_nth)
  then have "make_result inp m (fst (runs m specs ! k)) (snd (runs m specs ! k)) = Inr t"
    using list_all2_nthD2[OF made] by blast
  then obtain spec i where "make_result inp m spec i = Inr t" by blast
  then show ?thesis by (cases spec) (auto dest: make_result_fields)
qed

text \<open>
  C9. When the regression is created and no test is listed twice, every run gets a file of
  its own: each of the results loads back from the store as it was made, none was
  overwritten by another.
\<close>

theorem created_results_load:
  assumes "create_results resolve inp m specs st = Inr (ts, st')"
    and "distinct (map (\<lambda>s. fst (fst s)) specs)"
    and "list_all (\<lambda>s. CHR ''/'' \<notin> set (fst (fst s))) specs"
  shows "list_all (\<lambda>t. \<exists>p. pickle_file t = Some p \<and> construct_from_pickle st' p = Inr t) ts"
  using created_loads[OF assms] by (simp add: list_all_iff)

definition demo_metadata :: regression_metadata where
  "demo_metadata = (default_metadata [])\<lparr>md_seed := 7, md_dir_metadata := path_of ''/out/metadata'',
     md_dir_tests := path_of ''/out/run/tests'', md_pickle_file := path_of ''/out/metadata/metadata.pickle''\<rparr>"

definition demo_inputs :: md_inputs where
  "demo_inputs = \<lparr>in_yaml = (\<lambda>f. Inr []), in_fuel = 1, in_directed = (\<lambda>p. Inr directed_model),
     in_file = (\<lambda>f. None), in_load = (\<lambda>t. None)\<rparr>"

definition demo_specs :: "((string \<times> int \<times> TestType) \<times> test_entry) list" where
  "demo_specs = [((''empty'', 2, DIRECTED), [])]"

definition demo_results :: "test_run_result list" where
  "demo_results = map (\<lambda>i. (base_result demo_metadata ''empty'' DIRECTED i)
     \<lparr>directed_data := Some (dtest_entry (hd (dy_tests directed_model)))\<rparr>) [7, 8]"

lemma demo_created: "\<exists>st'. create_results id demo_inputs demo_metadata demo_specs \<lparr>pickles = [], yamls = []\<rparr> =
    Inr (demo_results, st')"
proof -
  have r: "emap (\<lambda>(spec, i). make_result demo_inputs demo_metadata spec i) (runs demo_metadata demo_specs) =
      Inr demo_results"
    by code_simp
  have total: "\<exists>st'. trr_export id t st = Inr st'" if "t \<in> set demo_results" for t st
    using that by (auto simp: demo_results_def base_result_def Let_def intro!: trr_export_total)
  have "\<exists>st'. efold (trr_export id) ts st = Inr st'" if "set ts \<subseteq> set demo_results" for ts st
    using that
  proof (induction ts arbitrary: st)
    case Nil
    then show ?case by simp
  next
    case (Cons t ts)
    obtain s1 where "trr_export id t st = Inr s1" using total[of t st] Cons.prems by auto
    then show ?case using Cons by (simp add: id_def)
  qed
  then obtain st' where "efold (trr_export id) demo_results \<lparr>pickles = [], yamls = []\<rparr> = Inr st'" by blast
  then show ?thesis using r by (simp add: create_results_def lift_def)
qed

lemma created_results_load_witness:
  "\<exists>st'. list_all (\<lambda>t. \<exists>p. pickle_file t = Some p \<and> construct_from_pickle st' p = Inr t) demo_results"
proof -
  obtain st' where "create_results id demo_inputs demo_metadata demo_specs \<lparr>pickles = [], yamls = []\<rparr> =
    Inr (demo_results, st')"
    using demo_created by blast
  then show ?thesis
    by (intro exI[of _ st'], elim created_results_load) (simp_all add: demo_specs_def)
qed

text \<open>The two lists of runs that the makefile asks for hold together exactly the runs.\<close>

lemma tds_lists_runs:
  assumes "md_tests_and_counts m = map fst specs"
  shows "mset (tds_list m RISCVDV @ tds_list m DIRECTED) = mset (map (\<lambda>(n, i). tds_str n i) (run_names m specs))"
proof -
  have "mset (map (\<lambda>(n, i). tds_str n i) (run_names m specs)) =
      mset (concat (map (\<lambda>(test, k, t). if t = RISCVDV then map (tds_str test) (seeds m k) else [])
        (map fst specs))) +
      mset (concat (map (\<lambda>(test, k, t). if t = DIRECTED then map (tds_str test) (seeds m k) else [])
        (map fst specs)))"
  proof (induction specs)
    case Nil
    then show ?case by (simp add: run_names_def runs_def)
  next
    case (Cons spec specs)
    obtain n k ty obj where spec: "spec = ((n, k, ty), obj)" by (cases spec) auto
    show ?case
      using Cons by (cases ty) (simp_all add: spec run_names_Cons comp_def)
  qed
  then show ?thesis using assms by (simp add: tds_list_def)
qed

text \<open>
  The two lists of runs that the makefile asks for, of the generated and of the directed
  tests, hold together exactly the runs whose results were created, each as often.
\<close>

theorem printed_tds_complete:
  assumes "create_results resolve inp m specs st = Inr (ts, st')"
    and "md_tests_and_counts m = map fst specs"
  shows "mset (map testdotseed ts) = mset (map Some (tds_list m RISCVDV @ tds_list m DIRECTED))"
proof -
  have "map testdotseed ts = map Some (map (\<lambda>(n, i). tds_str n i) (run_names m specs))"
    using conjunct1[OF create_results_names[OF assms(1)]]
    by (induction rule: list_all2_induct) auto
  then show ?thesis using tds_lists_runs[OF assms(2)] by (simp only: mset_map)
qed

lemma printed_tds_complete_witness:
  "mset (map testdotseed demo_results) = mset (map Some
     (tds_list (demo_metadata\<lparr>md_tests_and_counts := map fst demo_specs\<rparr>) RISCVDV @
      tds_list (demo_metadata\<lparr>md_tests_and_counts := map fst demo_specs\<rparr>) DIRECTED))"
proof -
  obtain st' where "create_results id demo_inputs demo_metadata demo_specs \<lparr>pickles = [], yamls = []\<rparr> =
    Inr (demo_results, st')"
    using demo_created by blast
  moreover have "create_results id demo_inputs (demo_metadata\<lparr>md_tests_and_counts := map fst demo_specs\<rparr>)
      demo_specs st = create_results id demo_inputs demo_metadata demo_specs st" for st
    by (simp add: create_results_def runs_def seeds_def make_result_def base_result_def Let_def
      cong: TestType.case_cong)
  ultimately have c: "create_results id demo_inputs (demo_metadata\<lparr>md_tests_and_counts := map fst demo_specs\<rparr>)
      demo_specs \<lparr>pickles = [], yamls = []\<rparr> = Inr (demo_results, st')"
    by simp
  show ?thesis by (rule printed_tds_complete[OF c]) simp
qed

text \<open>
  The lock loses no update: when one step of the regression changes the record and then
  another does, the record in the file is the one changed by both, in that order.
\<close>

theorem locked_updates_compose:
  assumes "md_from_metadata_dir mst dir = Inr m"
    and "\<And>m. md_pickle_file (f m) = md_pickle_file m" and "\<And>m. md_pickle_file (g m) = md_pickle_file m"
    and "md_pickle_file m = child_of dir ''metadata.pickle''"
  shows "md_from_metadata_dir
      (snd (locked_metadata resolve dir (\<lambda>m. (e2, g m))
        (snd (locked_metadata resolve dir (\<lambda>m. (e1, f m)) mst)))) dir = Inr (g (f m))"
  using assms
  by (simp add: locked_metadata_def md_from_metadata_dir_def md_export_def export_def Let_def
    construct_from_pickle_def raise_simps)

lemma locked_updates_compose_witness:
  "md_from_metadata_dir
     (snd (locked_metadata id (path_of ''/out/metadata'') (\<lambda>m. (None :: string option, m\<lparr>md_cov := True\<rparr>))
       (snd (locked_metadata id (path_of ''/out/metadata'') (\<lambda>m. (None :: string option, m\<lparr>md_waves := True\<rparr>))
         \<lparr>pickles = [(path_of ''/out/metadata/metadata.pickle'', demo_metadata)], yamls = []\<rparr>))))
     (path_of ''/out/metadata'') = Inr (demo_metadata\<lparr>md_waves := True, md_cov := True\<rparr>)"
proof (rule locked_updates_compose[where m = demo_metadata, THEN trans])
  show "md_from_metadata_dir
      \<lparr>pickles = [(path_of ''/out/metadata/metadata.pickle'', demo_metadata)], yamls = []\<rparr>
      (path_of ''/out/metadata'') = Inr demo_metadata"
    by (simp add: md_from_metadata_dir_def construct_from_pickle_def) code_simp
  show "md_pickle_file demo_metadata = child_of (path_of ''/out/metadata'') ''metadata.pickle''"
    by code_simp
qed simp_all

text \<open>
  The arguments of the makefile survive the command line: a list of keys and values, each
  quoted as a word, is read back as it was.
\<close>

theorem raw_args_roundtrip:
  assumes "list_all (\<lambda>(k, v). CHR ''='' \<notin> set k) kvs"
  shows "raw_args_of (join '' '' (map quote (map (\<lambda>(k, v). k @ ''='' @ v) kvs))) = Inr kvs"
proof -
  have "emap key_value (map (\<lambda>(k, v). k @ ''='' @ v) kvs) = Inr kvs"
    using assms by (induction kvs) (auto simp: key_value_def split1_append)
  then show ?thesis by (simp add: raw_args_of_def sh.split_quoted lift_def del: map_map)
qed

lemma raw_args_roundtrip_witness:
  "raw_args_of (join '' '' (map quote (map (\<lambda>(k, v). k @ ''='' @ v)
     [(''TEST'', ''all''), (''SEED'', ''1''), (''DUT'', ''a = b'')]))) =
   Inr [(''TEST'', ''all''), (''SEED'', ''1''), (''DUT'', ''a = b'')]"
  by (rule raw_args_roundtrip) simp

text \<open>
  The documentation says that the test name \<open>all\<close> runs all tests.  It selects no directed
  test, unless one has that name: those are run by \<open>all_directed\<close> only.
\<close>

theorem all_skips_directed:
  "process_directed_testlist (\<lambda>p. Inr directed_model) (demo_metadata\<lparr>md_test := ''all''\<rparr>) = Inr [] \<and>
   process_directed_testlist (\<lambda>p. Inr directed_model) (demo_metadata\<lparr>md_test := ''all_directed''\<rparr>) =
     Inr (map dtest_entry (dy_tests directed_model))"
  by code_simp

text \<open>
  A test list with an import entry is never read: the root directory is handed over as a
  path, which the substitution in the import does not take.
\<close>

theorem imports_never_read:
  "process_riscvdv_testlist (\<lambda>f. Inr [[(PStr ''import'', PStr file)]]) (Suc n) m = Inl (Lib lib_error.Type_error)"
  by (simp add: process_riscvdv_testlist_def dict_get_def import_path_def obind_def lift_def)

end
