(* ===== verification/RiscvDvInterface.thy ===== *)
theory RiscvDvInterface
  imports Metadata
begin

text \<open>
  \<^verbatim>\<open>riscvdv_interface.py\<close>: the commands of the instruction generator and the commands of a
  simulator, made from the templates of a yaml file by substitution.
\<close>

section \<open>Commands of riscv-dv\<close>

definition get_run_cmd :: "path \<Rightarrow> bool \<Rightarrow> fmt_value list" where
  "get_run_cmd root verbose =
     (let ext = child_of (core_ibex root) ''riscv_dv_extension''; s = (\<lambda>w. Val (PStr w))
      in [s ''python3'', PathV (child_of (riscv_dv root) ''run.py''),
          s ''--testlist'', PathV (child_of ext ''testlist.yaml''), s ''--gcc_opts=-mno-strict-align'',
          s ''--custom_target'', PathV ext, s ''--csr_yaml'', PathV (child_of ext ''csr_description.yaml''),
          s ''--mabi=ilp32''] @ (if verbose then [s ''--verbose''] else []))"

definition get_cov_cmd :: "path \<Rightarrow> regression_metadata \<Rightarrow> string option list" where
  "get_cov_cmd root m =
     map Some [''python3'', path_str (child_of (riscv_dv root) ''cov.py''), ''--core'', ''ibex'',
       ''--dir'', path_str (md_dir_run m), ''-o'', path_str (md_dir_fcov m),
       ''--simulator'', md_simulator m, ''--opts'', ''--gen_timeout 1000'', ''--isa''] @
     [md_isa_ibex m] @
     map Some [''--custom_target'', path_str (md_ibex_riscvdv_customtarget m)] @
     (if md_verbose m then [Some ''--verbose''] else [])"

section \<open>Commands of a simulator\<close>

definition PARAMETER_RE :: re where
  "PARAMETER_RE = seqs [Lit ''<'', plus is_word, Lit ''>'']"

definition get_yaml_for_simulator :: "test_entry list \<Rightarrow> string \<Rightarrow> script_error + test_entry" where
  "get_yaml_for_simulator yaml simulator =
     of_option (Runtime_error (''Cannot find RTL simulator '' @ simulator))
       (List.find (\<lambda>e. get_or_none e ''tool'' = PStr simulator) yaml)"

definition as_dict :: "pyval \<Rightarrow> script_error + test_entry" where
  "as_dict v = (case v of PDict d \<Rightarrow> Inr d | _ \<Rightarrow> Inl (Type_error []))"

definition item :: "test_entry \<Rightarrow> string \<Rightarrow> script_error + pyval" where
  "item d k = of_option (Key_error k) (dict_get d k)"

text \<open>(1) The options of the entry, each kept if it is enabled and emptied otherwise.\<close>

definition cmd_opts :: "(string \<rightharpoonup> bool) \<Rightarrow> test_entry \<Rightarrow> script_error + (string \<times> (string + path)) list" where
  "cmd_opts user_enables d =
     emap (\<lambda>(k, v). case k of
             PStr name \<Rightarrow>
               if user_enables name = Some True
               then (case v of PStr s \<Rightarrow> Inr (name, Inl (strip s)) | _ \<Rightarrow> Inl (Type_error name))
               else Inr (name, Inl [])
           | _ \<Rightarrow> Inl (Type_error []))
       (filter (\<lambda>(k, v). k \<noteq> PStr ''cmd'') d)"

definition env_names :: "test_entry \<Rightarrow> script_error + string list" where
  "env_names e =
     (case dict_get e ''env_var'' of
        None \<Rightarrow> Inr []
      | Some (PStr s) \<Rightarrow> Inr (split_on CHR '','' (replace '' '' [] s))
      | Some _ \<Rightarrow> Inl (Type_error ''env_var''))"

definition format_template :: "(path \<Rightarrow> path) \<Rightarrow> (string \<rightharpoonup> string) \<Rightarrow> test_entry \<Rightarrow> test_entry \<Rightarrow>
    (string \<rightharpoonup> bool) \<Rightarrow> (string \<times> (string + path)) list \<Rightarrow> string \<Rightarrow> script_error + string" where
  "format_template resolve environ e d user_enables user_subst_options cmd =
     ebind (cmd_opts user_enables d) (\<lambda>opts.
     let cmd1 = subst_dict resolve cmd opts; cmd2 = subst_dict resolve cmd1 user_subst_options
     in ebind (env_names e) (\<lambda>vars. ebind (subst_env_vars environ cmd2 vars) (\<lambda>cmd3.
          if re_search PARAMETER_RE cmd3 \<noteq> None then Inl (Runtime_error []) else Inr cmd3)))"

text \<open>What is iterated over: the items of a list, the characters of a text, the keys of a dictionary.\<close>

definition items_of :: "pyval \<Rightarrow> script_error + pyval list" where
  "items_of v =
     (case v of
        PList vs \<Rightarrow> Inr vs
      | PStr s \<Rightarrow> Inr (map (\<lambda>c. PStr [c]) s)
      | PDict d \<Rightarrow> Inr (map fst d)
      | _ \<Rightarrow> Inl (Type_error ''cmd''))"

definition get_tool_cmds :: "(path \<Rightarrow> path) \<Rightarrow> (string \<rightharpoonup> string) \<Rightarrow> test_entry list \<Rightarrow> string \<Rightarrow> string \<Rightarrow>
    (string \<rightharpoonup> bool) \<Rightarrow> (string \<times> (string + path)) list \<Rightarrow> md_error + string list list" where
  "get_tool_cmds resolve environ yaml simulator cmd_type user_enables user_subst_options =
     ebind (lift Script (get_yaml_for_simulator yaml simulator)) (\<lambda>e.
     ebind (lift Script (item e cmd_type)) (\<lambda>v. ebind (lift Script (as_dict v)) (\<lambda>d.
     ebind (lift Script (item d ''cmd'')) (\<lambda>c. ebind (lift Script (items_of c)) (\<lambda>vs.
       emap (\<lambda>cmd. case cmd of
               PStr s \<Rightarrow>
                 ebind (lift Script (format_template resolve environ e d user_enables user_subst_options s))
                   (\<lambda>t. lift Shell (shlex_split t))
             | _ \<Rightarrow> Inl (Script Assertion_error)) vs)))))"

section \<open>Templates\<close>

text \<open>
  A template is text with named parameters.  \<open>raw\<close> is how it is written, \<open>fill\<close> replaces the
  parameters that have a value, all at once.
\<close>

datatype piece = Plain string | Param string

fun raw_piece :: "piece \<Rightarrow> string" where
  "raw_piece (Plain s) = s"
| "raw_piece (Param n) = parameter_format n"

definition raw :: "piece list \<Rightarrow> string" where
  "raw ps = concat (map raw_piece ps)"

fun fill_piece :: "(string \<rightharpoonup> string) \<Rightarrow> piece \<Rightarrow> piece" where
  "fill_piece env (Plain s) = Plain s"
| "fill_piece env (Param n) = (case env n of None \<Rightarrow> Param n | Some v \<Rightarrow> Plain v)"

definition fill :: "(string \<rightharpoonup> string) \<Rightarrow> piece list \<Rightarrow> piece list" where
  "fill env ps = map (fill_piece env) ps"

definition angle_free :: "string \<Rightarrow> bool" where
  "angle_free s \<longleftrightarrow> CHR ''<'' \<notin> set s"

definition name_ok :: "string \<Rightarrow> bool" where
  "name_ok n \<longleftrightarrow> CHR ''<'' \<notin> set n \<and> CHR ''>'' \<notin> set n"

fun piece_ok :: "piece \<Rightarrow> bool" where
  "piece_ok (Plain s) = angle_free s"
| "piece_ok (Param n) = name_ok n"

lemma replace_param:
  assumes "name_ok k" "list_all piece_ok ps"
    and env: "env k = Some v" "\<And>n. n \<noteq> k \<Longrightarrow> env n = None"
  shows "replace_at (parameter_format k) v (raw ps) = raw (fill env ps)"
  using assms(2)
proof (induction ps)
  case Nil
  then show ?case by (simp add: raw_def fill_def)
next
  case (Cons p ps)
  let ?o = "parameter_format k"
  have IH: "replace_at ?o v (raw ps) = raw (fill env ps)" using Cons by simp
  have o: "?o = CHR ''<'' # (k @ ''>'')" by (simp add: parameter_format_def)
  show ?case
  proof (cases p)
    case (Plain s)
    then have "CHR ''<'' \<notin> set s" using Cons.prems by (simp add: angle_free_def)
    then show ?thesis
      using replace_at_skip[OF o, of s v "raw ps"] IH Plain by (simp add: raw_def fill_def)
  next
    case (Param n)
    then have n: "name_ok n" using Cons.prems by simp
    show ?thesis
    proof (cases "n = k")
      case True
      then show ?thesis
        using replace_at_hit[of ?o v "raw ps"] IH Param o env(1) by (simp add: raw_def fill_def)
    next
      case False
      have "\<not> prefix ?o (parameter_format n @ raw ps)"
      proof
        assume "prefix ?o (parameter_format n @ raw ps)"
        then obtain z where "k @ CHR ''>'' # z = n @ CHR ''>'' # raw ps"
          by (auto simp: prefix_def parameter_format_def)
        then have "k = n"
          using assms(1) n by (auto simp: name_ok_def append_eq_append_conv2 append_eq_Cons_conv Cons_eq_append_conv)
        then show False using False by simp
      qed
      then have "replace_at ?o v (parameter_format n @ raw ps) =
          CHR ''<'' # replace_at ?o v ((n @ ''>'') @ raw ps)"
        using replace_at_Cons_other[of ?o "CHR ''<''" "(n @ ''>'') @ raw ps" v]
        by (simp add: parameter_format_def)
      also have "\<dots> = parameter_format n @ replace_at ?o v (raw ps)"
        using replace_at_skip[OF o, of "n @ ''>''" v "raw ps"] n
        by (simp add: name_ok_def parameter_format_def)
      finally show ?thesis using IH Param env(2)[OF False] by (simp add: raw_def fill_def)
    qed
  qed
qed

lemma subst_opt_fill:
  assumes "name_ok k" "list_all piece_ok ps"
  shows "subst_opt (raw ps) k v = raw (fill [k \<mapsto> v] ps)"
proof -
  have "parameter_format k \<noteq> []" by (simp add: parameter_format_def)
  then have "replace (parameter_format k) v s = replace_at (parameter_format k) v s" for s
    by (simp add: replace_def)
  then show ?thesis
    using replace_param[OF assms, of "[k \<mapsto> v]" v] replace_absent[of "parameter_format k" "raw ps" v]
    by (auto simp: subst_opt_def)
qed

lemma split1_Some: "split1 c s = (a, Some r) \<Longrightarrow> s = a @ c # r"
  by (induction s arbitrary: a) (auto split: if_splits prod.splits)

text \<open>The pieces of a text: a parameter is what stands between angle brackets without one in between.\<close>

function pieces :: "string \<Rightarrow> piece list" where
  "pieces s =
     (case split1 CHR ''<'' s of
        (a, None) \<Rightarrow> [Plain a]
      | (a, Some r) \<Rightarrow>
          (case split1 CHR ''>'' r of
             (n, None) \<Rightarrow> [Plain s]
           | (n, Some rest) \<Rightarrow>
               if CHR ''<'' \<in> set n then Plain (a @ ''<'') # pieces r else Plain a # Param n # pieces rest))"
  by pat_completeness auto

termination
  by (relation "measure length") (auto dest!: split1_Some[OF sym] split1_Some)

declare pieces.simps [simp del]

lemma split1_None: "split1 c s = (a, None) \<Longrightarrow> s = a"
  by (induction s arbitrary: a) (auto split: if_splits prod.splits)

lemma raw_pieces: "raw (pieces s) = s"
proof (induction s rule: pieces.induct)
  case (1 s)
  show ?case
  proof (cases "split1 CHR ''<'' s")
    case (Pair a b)
    show ?thesis
    proof (cases b)
      case None
      then have "s = a" using Pair split1_None by blast
      then show ?thesis using Pair None by (subst pieces.simps) (simp add: raw_def)
    next
      case (Some r)
      then have s: "s = a @ CHR ''<'' # r" using Pair split1_Some by blast
      obtain n x where n: "split1 CHR ''>'' r = (n, x)" by (cases "split1 CHR ''>'' r")
      show ?thesis
        using "1.IH"[OF Pair[symmetric] Some n[symmetric]] split1_Some[of "CHR ''>''" r n] Pair Some n s
        by (subst pieces.simps) (auto simp: raw_def parameter_format_def split: option.splits)
    qed
  qed
qed

text \<open>A text whose parameters are all well formed, with no other angle bracket that opens.\<close>

definition well_formed :: "string \<Rightarrow> bool" where
  "well_formed s \<longleftrightarrow> list_all piece_ok (pieces s)"

text \<open>
  What a piece of the template stands for: a parameter for its first value, in which the
  parameters stand for the values of the options after that one.
\<close>

fun stands_for :: "(string \<times> string) list \<Rightarrow> piece \<Rightarrow> string" where
  "stands_for [] p = raw_piece p"
| "stands_for ((k, v) # d) (Plain s) = s"
| "stands_for ((k, v) # d) (Param n) =
     (if n = k then concat (map (stands_for d) (pieces v)) else stands_for d (Param n))"

definition subst_piece :: "string \<Rightarrow> string \<Rightarrow> piece \<Rightarrow> piece list" where
  "subst_piece k v p = (if p = Param k then pieces v else [p])"

lemma subst_opt_pieces:
  assumes "name_ok k" "list_all piece_ok ps"
  shows "subst_opt (raw ps) k v = raw (concat (map (subst_piece k v) ps))"
proof -
  define env where "env = [k \<mapsto> v]"
  have "raw_piece (fill_piece env p) = concat (map raw_piece (subst_piece k v p))" for p
    using raw_pieces[of v] by (cases p) (auto simp: subst_piece_def raw_def env_def)
  then have "raw (fill env qs) = raw (concat (map (subst_piece k v) qs))" for qs
    by (induction qs) (simp_all add: raw_def fill_def)
  then show ?thesis using subst_opt_fill[OF assms] by (simp add: env_def)
qed

lemma stands_for_Plain: "stands_for d (Plain s) = s"
  by (cases d) auto

lemma stands_for_subst: "concat (map (stands_for d) (subst_piece k v p)) = stands_for ((k, v) # d) p"
  by (cases p) (simp_all add: subst_piece_def stands_for_Plain)

lemma stands_for_pieces:
  "concat (map (stands_for d) (concat (map (subst_piece k v) ps))) = concat (map (stands_for ((k, v) # d)) ps)"
  by (induction ps) (simp_all add: stands_for_subst del: stands_for.simps)

lemma subst_pieces_ok: "well_formed v \<Longrightarrow> list_all piece_ok ps \<Longrightarrow> list_all piece_ok (concat (map (subst_piece k v) ps))"
  by (auto simp: subst_piece_def list_all_iff well_formed_def)

definition values_of :: "(path \<Rightarrow> path) \<Rightarrow> (string \<times> (string + path)) list \<Rightarrow> (string \<times> string) list" where
  "values_of resolve d = map (\<lambda>(k, v). (k, subst_value resolve v)) d"

lemma subst_dict_pieces:
  assumes "list_all (\<lambda>(k, v). name_ok k \<and> well_formed v) (values_of resolve d)" and "list_all piece_ok ps"
  shows "subst_dict resolve (raw ps) d = concat (map (stands_for (values_of resolve d)) ps)"
  using assms
proof (induction d arbitrary: ps)
  case Nil
  have "stands_for [] = raw_piece" by (simp add: fun_eq_iff)
  then show ?case by (simp add: subst_dict_def raw_def values_of_def)
next
  case (Cons kv d)
  obtain k v where kv: "kv = (k, v)" by (cases kv)
  let ?v = "subst_value resolve v"
  have ok: "name_ok k" "well_formed ?v" and rest: "list_all (\<lambda>(k, v). name_ok k \<and> well_formed v) (values_of resolve d)"
    using Cons.prems(1) kv by (auto simp: values_of_def)
  have "subst_dict resolve (raw ps) (kv # d) = subst_dict resolve (raw (concat (map (subst_piece k ?v) ps))) d"
    using subst_opt_pieces[OF ok(1) Cons.prems(2)] by (simp add: subst_dict_def kv)
  also have "\<dots> = concat (map (stands_for (values_of resolve d)) (concat (map (subst_piece k ?v) ps)))"
    by (rule Cons.IH[OF rest subst_pieces_ok[OF ok(2) Cons.prems(2)]])
  also have "\<dots> = concat (map (stands_for ((k, ?v) # values_of resolve d)) ps)" by (rule stands_for_pieces)
  finally show ?case by (simp add: values_of_def kv)
qed

text \<open>
  C19. Substituting the options one after another in the whole text treats every parameter of the
  template by itself: it is replaced by its first value, the parameters in that value by the
  values of the options that come after it, and nothing else changes.  The template and the
  values are texts with well-formed parameters: every angle bracket that opens belongs to a
  parameter.  So a parameter in a value whose option came before is left as it is.
\<close>

theorem subst_dict_simultaneous:
  assumes "list_all (\<lambda>(k, v). name_ok k \<and> well_formed v) (values_of resolve d)" and "well_formed s"
  shows "subst_dict resolve s d = concat (map (stands_for (values_of resolve d)) (pieces s))"
  using subst_dict_pieces[OF assms(1) assms(2)[unfolded well_formed_def]] by (simp add: raw_pieces)

text \<open>The template of a simulation, whose options for coverage name a directory that is given later.\<close>

lemma subst_dict_simultaneous_witness:
  "subst_dict id ''simv <cov_opts> +seed=<seed>''
     [(''cov_opts'', Inl ''-cm_dir <dir_shared_cov>/test.vdb''), (''dir_shared_cov'', Inr (path_of ''/out/cov''))] =
   ''simv -cm_dir /out/cov/test.vdb +seed=<seed>''"
proof -
  let ?d = "[(''cov_opts'', Inl ''-cm_dir <dir_shared_cov>/test.vdb''), (''dir_shared_cov'', Inr (path_of ''/out/cov''))]"
  have "list_all (\<lambda>(k, v). name_ok k \<and> well_formed v) (values_of id ?d)" "well_formed ''simv <cov_opts> +seed=<seed>''"
    by code_simp+
  from subst_dict_simultaneous[OF this]
  have "subst_dict id ''simv <cov_opts> +seed=<seed>'' ?d =
      concat (map (stands_for (values_of id ?d)) (pieces ''simv <cov_opts> +seed=<seed>''))" .
  also have "\<dots> = ''simv -cm_dir /out/cov/test.vdb +seed=<seed>''" by code_simp
  finally show ?thesis .
qed

text \<open>
  C20. Commands are only returned when no parameter is left: each command is the split of a
  formatted template in which no name stands in angle brackets, one for each template of the
  list (or, where a plain text stands for the list, for each of its characters).
\<close>

theorem get_tool_cmds_complete:
  assumes "get_tool_cmds resolve environ yaml simulator cmd_type enables options = Inr cmds"
  shows "\<exists>e d c vs. get_yaml_for_simulator yaml simulator = Inr e \<and>
    dict_get e cmd_type = Some (PDict d) \<and> dict_get d ''cmd'' = Some c \<and> items_of c = Inr vs \<and>
    list_all2 (\<lambda>v cmd. \<exists>s t. v = PStr s \<and>
      format_template resolve environ e d enables options s = Inr t \<and>
      re_search PARAMETER_RE t = None \<and> shlex_split t = Inr cmd) vs cmds"
proof -
  have l: "lift f x = Inr y \<longleftrightarrow> x = Inr y" for f :: "'x \<Rightarrow> md_error" and x :: "'x + 'y" and y
    by (simp add: lift_def split: sum.split)
  have f: "format_template resolve environ e d enables options s = Inr t \<Longrightarrow> re_search PARAMETER_RE t = None"
    for e d s t
    by (auto simp: format_template_def Let_def raise_simps split: if_splits)
  have ad: "as_dict v = Inr d \<longleftrightarrow> v = PDict d" for v d by (cases v) (auto simp: as_dict_def)
  let ?one = "\<lambda>e d cmd. case cmd of
      PStr s \<Rightarrow> ebind (lift Script (format_template resolve environ e d enables options s))
                 (\<lambda>t. lift Shell (shlex_split t))
    | _ \<Rightarrow> Inl (Script Assertion_error)"
  obtain e d c vs where e: "get_yaml_for_simulator yaml simulator = Inr e" "dict_get e cmd_type = Some (PDict d)"
      "dict_get d ''cmd'' = Some c" "items_of c = Inr vs" "emap (?one e d) vs = Inr cmds"
    using assms by (simp add: get_tool_cmds_def raise_simps l item_def ad, blast)
  have one: "?one e d cmd = Inr ws \<Longrightarrow> \<exists>s t. cmd = PStr s \<and>
      format_template resolve environ e d enables options s = Inr t \<and>
      re_search PARAMETER_RE t = None \<and> shlex_split t = Inr ws" for cmd ws
    using f by (cases cmd) (auto simp: raise_simps l)
  have "list_all2 (\<lambda>v cmd. \<exists>s t. v = PStr s \<and>
      format_template resolve environ e d enables options s = Inr t \<and>
      re_search PARAMETER_RE t = None \<and> shlex_split t = Inr cmd) vs cmds"
    using e(5) unfolding emap_eq_Inr by (rule list_all2_mono) (rule one)
  then show ?thesis using e(1-4) by blast
qed

definition demo_sim_yaml :: "test_entry list" where
  "demo_sim_yaml = [[(PStr ''tool'', PStr ''vcs''), (PStr ''env_var'', PStr ''TOOLS''),
     (PStr ''sim'', PDict [(PStr ''cmd'', PList [PStr ''<TOOLS>/simv <cov_opts> +seed=<seed>'']),
        (PStr ''cov_opts'', PStr ''-cm all'')])]]"

lemma get_tool_cmds_complete_witness:
  "\<exists>e d c vs. get_yaml_for_simulator demo_sim_yaml ''vcs'' = Inr e \<and>
    dict_get e ''sim'' = Some (PDict d) \<and> dict_get d ''cmd'' = Some c \<and> items_of c = Inr vs \<and>
    list_all2 (\<lambda>v cmd. \<exists>s t. v = PStr s \<and>
      format_template id [''TOOLS'' \<mapsto> ''/tools''] e d [''cov_opts'' \<mapsto> True] [(''seed'', Inl ''5'')] s = Inr t \<and>
      re_search PARAMETER_RE t = None \<and> shlex_split t = Inr cmd) vs
      [[''/tools/simv'', ''-cm'', ''all'', ''+seed=5'']]"
  by (rule get_tool_cmds_complete) code_simp

end
