(* ===== verification/RunInstrGen.thy ===== *)
theory RunInstrGen
  imports RiscvDvInterface
begin

text \<open>
  \<^verbatim>\<open>run_instr_gen.py\<close>: riscv-dv writes down the commands that generate a test, laid out for a
  placeholder directory; each word is relocated to the directories of this run, the commands
  run in order and the files they leave are copied to the directory of the test.
\<close>

section \<open>Relocation of words\<close>

definition sim_relocs :: "string \<Rightarrow> string \<Rightarrow> (string, (string \<times> string) list) pydict" where
  "sim_relocs placeholder_dir build_dir =
     [(''vcs'', [(os_join placeholder_dir ''vcs_simv'', os_join build_dir ''vcs_simv'')]),
      (''xlm'', [(placeholder_dir, build_dir)]),
      (''dsim'', [(os_join placeholder_dir ''dsim'', os_join build_dir ''dsim'')])]"

definition always_relocs :: "string \<Rightarrow> string \<Rightarrow> string \<Rightarrow> (string \<times> string) list" where
  "always_relocs placeholder_dir scratch_dir name =
     [(os_join (os_join placeholder_dir ''asm_test'') name, os_join scratch_dir ''test''),
      (os_join placeholder_dir ''asm_test'', scratch_dir),
      (os_join placeholder_dir (''sim_'' @ name @ ''_0.log''), os_join scratch_dir ''gen.log'')]"

definition PLUSARG_RE :: re where
  "PLUSARG_RE =
     seqs [Grp ''1'' (seqs [Lit ''+'', plus is_word, Lit ''='']), Grp ''2'' (star any_char)]"

definition split_plusarg :: "string \<Rightarrow> string \<times> string" where
  "split_plusarg word =
     (case re_match PLUSARG_RE word of
        None \<Rightarrow> ([], word)
      | Some m \<Rightarrow> (the_grp m ''1'', the_grp m ''2''))"

definition relocate :: "string \<Rightarrow> (string \<times> string) list \<Rightarrow> string \<Rightarrow> string" where
  "relocate cwd table post =
     (case List.find (\<lambda>(orig, reloc). abspath cwd orig = abspath cwd post) table of
        None \<Rightarrow> post
      | Some (orig, reloc) \<Rightarrow> reloc)"

definition reloc_word :: "string \<Rightarrow> string \<Rightarrow> string \<Rightarrow> string \<Rightarrow> string \<Rightarrow> string \<Rightarrow> string \<Rightarrow>
    script_error + string" where
  "reloc_word cwd simulator placeholder_dir build_dir scratch_dir name word =
     (let (pre, post) = split_plusarg word
      in ebind (of_option (Key_error simulator) (dget (sim_relocs placeholder_dir build_dir) simulator))
           (\<lambda>table.
              let reloc = pre @ relocate cwd (table @ always_relocs placeholder_dir scratch_dir name) post
              in if contains placeholder_dir reloc
                 then Inl (Runtime_error (''Failed to replace an occurrence of the placeholder in '' @
                             word @ '' (got '' @ reloc @ '')''))
                 else Inr reloc))"

definition reloc_commands :: "string \<Rightarrow> string \<Rightarrow> string \<Rightarrow> string \<Rightarrow> string \<Rightarrow> string \<Rightarrow> string \<Rightarrow>
    md_error + string list list" where
  "reloc_commands cwd placeholder_dir build_dir scratch_dir simulator name contents =
     emap (\<lambda>line. ebind (lift Shell (shlex_split line))
             (\<lambda>ws. lift Script (emap (reloc_word cwd simulator placeholder_dir build_dir scratch_dir name) ws)))
       (filter (\<lambda>line. line \<noteq> []) (map strip (file_lines contents)))"

section \<open>Copying files back\<close>

text \<open>The files by name; a file is not copied onto itself.\<close>

type_synonym files = "string \<rightharpoonup> string"

definition copy_file :: "string \<Rightarrow> string \<Rightarrow> files \<Rightarrow> script_error + files" where
  "copy_file src dst fs =
     (if src = dst then Inl (Os_error src) else Inr (fs(dst := fs src)))"

definition copy_rule :: "string \<Rightarrow> string \<Rightarrow> bool \<Rightarrow> string \<times> string \<times> bool \<Rightarrow> files \<Rightarrow>
    script_error + files" where
  "copy_rule src_dir dst_dir run_failed rule fs =
     (case rule of (src_name, dst_name, copy_on_fail) \<Rightarrow>
        if run_failed \<and> \<not> copy_on_fail then Inr fs
        else let src_path = os_join src_dir src_name; dst_path = os_join dst_dir dst_name
             in if fs src_path \<noteq> None then copy_file src_path dst_path fs
                else if \<not> run_failed
                then Inl (Runtime_error (''Generation commands exited with zero status but left no '' @
                            src_name @ '' in scratch directory.''))
                else Inr fs)"

definition do_file_copies :: "string \<Rightarrow> string \<Rightarrow> (string \<times> string \<times> bool) list \<Rightarrow> bool \<Rightarrow> files \<Rightarrow>
    script_error + files" where
  "do_file_copies src_dir dst_dir copy_rules run_failed =
     efold (copy_rule src_dir dst_dir run_failed) copy_rules"

section \<open>The step\<close>

text \<open>
  The directories it made, the files, and the results of the tests.  A command is given the
  files and leaves others; what it writes to its log is not kept.
\<close>

record gen_state =
  made_dirs :: "path list"
  gen_files :: files
  gen_results :: "test_run_result store"

type_synonym exec = "string list \<Rightarrow> files \<Rightarrow> ran \<times> files"

definition run_cmd_on :: "exec \<Rightarrow> bool \<Rightarrow> redirect \<Rightarrow> string list \<Rightarrow> files \<Rightarrow> script_error + int \<times> files" where
  "run_cmd_on exec verbose r cmd fs =
     (case exec cmd fs of (outcome, fs') \<Rightarrow>
        ebind (status (run_one verbose cmd r False outcome)) (\<lambda>rc. Inr (rc, fs')))"

fun run_in_order :: "exec \<Rightarrow> bool \<Rightarrow> redirect \<Rightarrow> string list list \<Rightarrow> files \<Rightarrow> script_error + int \<times> files" where
  "run_in_order exec verbose r [] fs = Inr (0, fs)"
| "run_in_order exec verbose r (cmd # cmds) fs =
     ebind (run_cmd_on exec verbose r cmd fs) (\<lambda>(rc, fs').
       if rc \<noteq> 0 then Inr (rc, fs') else run_in_order exec verbose r cmds fs')"

definition hex_digits :: "int \<Rightarrow> string" where
  "hex_digits i = (if i < 0 then CHR ''-'' # show_base 16 (nat (- i)) else show_base 16 (nat i))"

definition handshake_addr :: "string \<Rightarrow> string \<Rightarrow> script_error + string" where
  "handshake_addr signature_addr name =
     (if contains ''riscv_csr_test'' name
      then ebind (of_option (Value_error signature_addr) (read_int 16 signature_addr))
             (\<lambda>a. Inr (hex_digits (a - 4)))
      else Inr signature_addr)"

definition gen_sim_opts :: "config \<Rightarrow> string \<Rightarrow> string" where
  "gen_sim_opts cfg sig =
     join '' '' (map (\<lambda>(k, v). ''+'' @ k @ ''='' @ v)
       [(''uvm_set_inst_override'',
           join '','' [''riscv_asm_program_gen'', ''ibex_asm_program_gen'', ''uvm_test_top.asm_gen'']),
        (''require_signature_addr'', ''1''), (''signature_addr'', sig),
        (''pmp_num_regions'', show_int (pmp_num_regions cfg)),
        (''pmp_granularity'', show_int (pmp_granularity cfg)), (''tvec_alignment'', ''8'')])"

definition gen_cmd :: "path \<Rightarrow> regression_metadata \<Rightarrow> config \<Rightarrow> string \<Rightarrow> string \<Rightarrow> string \<Rightarrow> string \<Rightarrow> string \<Rightarrow>
    fmt_value list" where
  "gen_cmd root m cfg sig test seed_str placeholder orig_list =
     get_run_cmd root (md_verbose m) @
     [Val (PStr ''--so''), Val (PStr ''--steps=gen''),
      Val (PStr ''--output''), Val (PStr placeholder), Val (PStr ''--simulator''), Val (PStr (md_simulator m)),
      Val (PStr ''--isa''), Val (case md_isa_ibex m of None \<Rightarrow> PNone | Some s \<Rightarrow> PStr s),
      Val (PStr ''--test''), Val (PStr test), Val (PStr ''--start_seed''), Val (PStr seed_str),
      Val (PStr ''--iterations''), Val (PStr ''1''), Val (PStr ''--end_signature_addr''), Val (PStr sig),
      Val (PStr ''--debug''), Val (PStr orig_list), Val (PStr ''--sim_opts''), Val (PStr (gen_sim_opts cfg sig))]"

definition file_copies :: "string \<Rightarrow> (string \<times> string \<times> bool) list" where
  "file_copies test =
     (if test = ''riscv_csr_test'' then [(''riscv_csr_test_0.S'', ''test.S'', False)]
      else [(''gen.log'', ''gen.log'', True), (''test_0.S'', ''test.S'', False)])"

definition opt_int_str :: "int option \<Rightarrow> string" where
  "opt_int_str x = (case x of None \<Rightarrow> ''None'' | Some i \<Rightarrow> show_int i)"

text \<open>The second half, on the commands that riscv-dv wrote: \<open>t\<close> is the result so far.\<close>

definition gen_run :: "exec \<Rightarrow> (path \<Rightarrow> path) \<Rightarrow> string \<Rightarrow> string \<Rightarrow> regression_metadata \<Rightarrow> path \<Rightarrow> string \<Rightarrow>
    string \<Rightarrow> test_run_result \<Rightarrow> gen_state \<Rightarrow> md_error + int \<times> gen_state" where
  "gen_run exec resolve cwd td m dir test orig_list t st =
     ebind (lift Script (of_option (Os_error orig_list) (gen_files st orig_list))) (\<lambda>contents.
     ebind (reloc_commands cwd (path_str (child_of (path_of td) ''@@PLACEHOLDER@@''))
              (path_str (resolve (md_dir_instruction_generator m))) td (md_simulator m) test contents) (\<lambda>cmds.
     let stdout = child_of (md_dir_instruction_generator m) ''riscvdv_run.log'';
         t' = t\<lparr>riscvdv_run_cmds := Some cmds, riscvdv_run_stdout := Some stdout,
                assembly := Some (child_of dir ''test.S'')\<rparr>
     in ebind (lift Script (run_in_order exec (md_verbose m) (Redirect_file (path_str stdout) True) cmds (gen_files st)))
          (\<lambda>(rc, fs). ebind (lift Script (do_file_copies td (path_str dir) (file_copies test) (rc \<noteq> 0) fs)) (\<lambda>fs'.
             ebind (lift Script (trr_export resolve t' (gen_results st))) (\<lambda>results.
               Inr (0, st\<lparr>gen_files := fs', gen_results := results\<rparr>))))))"

definition run_instr_gen :: "exec \<Rightarrow> (string \<Rightarrow> string option) \<Rightarrow> (string \<Rightarrow> pyval option) \<Rightarrow>
    (path \<Rightarrow> path) \<Rightarrow> string \<Rightarrow> path \<Rightarrow> string \<Rightarrow> regression_metadata store \<Rightarrow> path \<Rightarrow> string \<times> int \<Rightarrow>
    gen_state \<Rightarrow> md_error + int \<times> gen_state" where
  "run_instr_gen exec read_file yaml_load resolve cwd root td mds dir_metadata tds st =
     ebind (lift Script (md_from_metadata_dir mds dir_metadata)) (\<lambda>m.
     ebind (lift Script (trr_from_metadata_dir (gen_results st) dir_metadata (tds_str (fst tds) (snd tds)))) (\<lambda>t.
     ebind (lift Cfg (get_config read_file yaml_load (path_str root) (md_ibex_config m))) (\<lambda>cfg.
     ebind (lift Script (of_option (Type_error ''testname'') (testname t))) (\<lambda>test.
     ebind (lift Script (handshake_addr (md_signature_addr m) test)) (\<lambda>sig.
     let orig_list = path_str (child_of (path_of td) ''cmds.list'');
         placeholder = path_str (child_of (path_of td) ''@@PLACEHOLDER@@'')
     in ebind (lift Script (of_option (Type_error ''dir_test'') (dir_test t))) (\<lambda>dir.
     ebind (lift Script (format_to_cmd resolve
              (gen_cmd root m cfg sig test (opt_int_str (seed t)) placeholder orig_list))) (\<lambda>cmd.
     let stdout = child_of (md_dir_instruction_generator m) ''riscvdv_cmds.log'';
         t' = t\<lparr>riscvdv_run_gen_stdout := Some stdout, riscvdv_run_gen_cmds := Some [cmd]\<rparr>;
         st' = st\<lparr>made_dirs := dir # made_dirs st\<rparr>
     in ebind (lift Script (run_cmd_on exec (md_verbose m) (Redirect_path stdout) cmd (gen_files st')))
          (\<lambda>(rc, fs). if rc \<noteq> 0 then Inr (rc, st'\<lparr>gen_files := fs\<rparr>)
             else gen_run exec resolve cwd td m dir test orig_list t' (st'\<lparr>gen_files := fs\<rparr>)))))))))"

section \<open>Relocation, lemmas\<close>

lemma run_Grp_first: "\<exists>ms. run r (p, w @ t) = (g, (p', t)) # ms \<Longrightarrow>
    \<exists>ms. run (Grp n r) (p, w @ t) = (g @ [(n, w)], (p', t)) # ms"
  by auto

lemma split_plusarg_simp:
  assumes "arg \<noteq> []" "list_all is_word arg" "newline \<notin> set post"
  shows "split_plusarg (''+'' @ arg @ ''='' @ post) = (''+'' @ arg @ ''='', post)"
proof -
  let ?pre = "''+'' @ arg @ ''=''"
  have eq: "\<not> is_word CHR ''=''" by (simp add: is_word_def is_digit_def is_lower_def is_upper_def)
  obtain p1 where 1: "\<exists>ms. run (Lit ''+'') (None, ''+'' @ arg @ ''='' @ post) = ([], (p1, arg @ ''='' @ post)) # ms"
    using run_Lit_first[of "''+''" None "arg @ ''='' @ post"] by blast
  obtain p2 where 2: "\<exists>ms. run (plus is_word) (p1, arg @ ''='' @ post) = ([], (p2, ''='' @ post)) # ms"
    using run_rep_first[OF assms(2), of "''='' @ post" 1 p1] assms(1) eq by (auto simp: plus_def Suc_le_eq)
  obtain p3 where 3: "\<exists>ms. run (Lit ''='') (p2, ''='' @ post) = ([], (p3, post)) # ms"
    using run_Lit_first[of "''=''" p2 post] by blast
  have "\<exists>ms. run (seqs [Lit ''+'', plus is_word, Lit ''='']) (None, ''+'' @ arg @ ''='' @ post) =
      ([] @ [] @ [] @ [], (p3, post)) # ms"
    unfolding seqs_def foldr.simps comp_def id_def
    by (intro run_Seq_first[OF 1] run_Seq_first[OF 2] run_Seq_first[OF 3]) simp
  then have 4: "\<exists>ms. run (Grp ''1'' (seqs [Lit ''+'', plus is_word, Lit ''=''])) (None, ?pre @ post) =
      ([] @ [(''1'', ?pre)], (p3, post)) # ms"
    by (intro run_Grp_first) simp
  have any: "list_all any_char post" using assms(3) by (auto simp: any_char_def list_all_iff)
  obtain p4 where "\<exists>ms. run (Grp ''2'' (star any_char)) (p3, post) = ([(''2'', post)], (p4, [])) # ms"
    using run_group_first[OF any, of "[]" 0 "''2''" p3] by (auto simp: star_def)
  then have 5: "\<exists>ms. run (Seq (Grp ''2'' (star any_char)) Empty) (p3, post) = ([(''2'', post)] @ [], (p4, [])) # ms"
    by (rule run_Seq_first) simp
  have "\<exists>ms. run PLUSARG_RE (None, ?pre @ post) =
      (([] @ [(''1'', ?pre)]) @ [(''2'', post)] @ [], (p4, [])) # ms"
    unfolding PLUSARG_RE_def using run_Seq_first[OF 4 5] by (simp add: seqs_def)
  then have "re_match PLUSARG_RE (?pre @ post) = Some [(''1'', ?pre), (''2'', post)]"
    unfolding re_match_def by auto
  then show ?thesis by (simp add: split_plusarg_def the_grp_def grp_def)
qed

definition plain_path :: "string list \<Rightarrow> bool" where
  "plain_path ps \<longleftrightarrow> ps \<noteq> [] \<and> list_all component_ok ps \<and> ''..'' \<notin> set ps"

lemma fold_norm_step: "''..'' \<notin> set ps \<Longrightarrow> fold norm_step ps qs = qs @ ps"
  by (induction ps arbitrary: qs) (auto simp: norm_step_def)

lemma abspath_plain: "plain_path ps \<Longrightarrow> abspath cwd (path_str (Path True ps)) = path_str (Path True ps)"
proof -
  assume p: "plain_path ps"
  then have "path_of (path_str (Path True ps)) = Path True ps" by (intro path_of_str) (simp add: plain_path_def)
  then have "components (path_str (Path True ps)) = ps" by (simp add: path_of_def)
  moreover have "take 1 (join ''/'' ps) \<noteq> ''/''" using p by (intro join_first) (simp add: plain_path_def)
  then have "leading_slashes (path_str (Path True ps)) = ''/''"
    by (cases "join ''/'' ps") (auto simp: leading_slashes_def)
  ultimately show ?thesis using p by (simp add: abspath_def os_join_def fold_norm_step plain_path_def Let_def)
qed

lemma join_snoc: "ps \<noteq> [] \<Longrightarrow> join sep (ps @ [w]) = join sep ps @ sep @ w"
proof (induction ps)
  case (Cons a ps)
  then show ?case by (cases ps) auto
qed simp

lemma join_last: "ps \<noteq> [] \<Longrightarrow> list_all component_ok ps \<Longrightarrow>
    join ''/'' ps \<noteq> [] \<and> last (join ''/'' ps) \<noteq> CHR ''/''"
proof (induction ps rule: rev_induct)
  case (snoc w ws)
  then have "w \<noteq> []" "last w \<noteq> CHR ''/''" by (auto simp: component_ok_def dest: last_in_set)
  then show ?case by (cases "ws = []") (auto simp: join_snoc)
qed simp

lemma os_join_plain:
  assumes "plain_path ps" "component_ok w"
  shows "os_join (path_str (Path True ps)) w = path_str (Path True (ps @ [w]))"
proof -
  have "take 1 w \<noteq> ''/''" using assms(2) by (cases w) (auto simp: component_ok_def)
  then show ?thesis
    using assms join_last[of ps] by (auto simp: os_join_def plain_path_def join_snoc)
qed

lemma plain_path_snoc: "plain_path ps \<Longrightarrow> component_ok w \<Longrightarrow> w \<noteq> ''..'' \<Longrightarrow> plain_path (ps @ [w])"
  by (auto simp: plain_path_def)

lemma plain_path_eq: "plain_path ps \<Longrightarrow> plain_path qs \<Longrightarrow>
    path_str (Path True ps) = path_str (Path True qs) \<longleftrightarrow> ps = qs"
  using path_str_inj[of "Path True ps" "Path True qs"] by (auto simp: plain_path_def)

text \<open>
  The word that names the generated test, in a plusarg and under the placeholder
  directory, is relocated to the test in the scratch directory for every simulator: none of
  the other relocations takes it.
\<close>

theorem reloc_generated_test:
  assumes "plain_path ps" "component_ok name" "name \<noteq> ''..''"
    and "sim \<in> {''vcs'', ''xlm'', ''dsim''}" and "arg \<noteq> []" "list_all is_word arg"
    and "newline \<notin> set (path_str (Path True (ps @ [''asm_test'', name])))"
    and "\<not> contains (path_str (Path True ps)) (''+'' @ arg @ ''='' @ os_join scratch ''test'')"
  shows "reloc_word cwd sim (path_str (Path True ps)) build scratch name
      (''+'' @ arg @ ''='' @ path_str (Path True (ps @ [''asm_test'', name]))) =
    Inr (''+'' @ arg @ ''='' @ os_join scratch ''test'')"
proof -
  let ?ph = "path_str (Path True ps)" and ?post = "path_str (Path True (ps @ [''asm_test'', name]))"
  have c: "component_ok ''asm_test''" "component_ok ''vcs_simv''" "component_ok ''dsim''"
    by (simp_all add: component_ok_def)
  have asm: "plain_path (ps @ [''asm_test''])" by (rule plain_path_snoc[OF assms(1) c(1)]) simp
  have t: "plain_path (ps @ [''asm_test'', name])"
    using plain_path_snoc[OF asm assms(2,3)] by simp
  have ne: "abspath cwd (os_join ?ph w) \<noteq> abspath cwd ?post"
    if "component_ok w" "w \<noteq> ''..''" for w
    using plain_path_snoc[OF assms(1) that] t
    by (simp only: os_join_plain[OF assms(1) that(1)] abspath_plain plain_path_eq) simp
  have ne': "abspath cwd ?ph \<noteq> abspath cwd ?post"
    using assms(1) t by (simp only: abspath_plain plain_path_eq) simp
  obtain table where tab: "dget (sim_relocs ?ph build) sim = Some table"
      "\<forall>(orig, reloc) \<in> set table. abspath cwd orig \<noteq> abspath cwd ?post"
    using assms(4) ne[OF c(2)] ne[OF c(3)] ne' by (auto simp: sim_relocs_def)
  have e: "os_join (os_join ?ph ''asm_test'') name = ?post"
    using os_join_plain[OF asm assms(2)] by (simp only: os_join_plain[OF assms(1) c(1)]) simp
  have "List.find (\<lambda>(orig, reloc). abspath cwd orig = abspath cwd ?post)
      (table @ always_relocs ?ph scratch name) = Some (?post, os_join scratch ''test'')"
    using tab(2) by (induction table) (auto simp: always_relocs_def e simp del: path_str.simps)
  then have "relocate cwd (table @ always_relocs ?ph scratch name) ?post = os_join scratch ''test''"
    by (simp add: relocate_def del: path_str.simps)
  then show ?thesis
    using assms(8) tab(1) split_plusarg_simp[OF assms(5,6,7)]
    by (simp add: reloc_word_def Let_def del: path_str.simps)
qed

lemma reloc_generated_test_witness:
  "reloc_word ''/w'' ''xlm'' (path_str (Path True [''tmp'', ''@@PLACEHOLDER@@''])) ''/out/gen'' ''/tmp/d'' ''t1''
     (''+'' @ ''asm_file_name'' @ ''='' @ path_str (Path True ([''tmp'', ''@@PLACEHOLDER@@''] @ [''asm_test'', ''t1'']))) =
   Inr (''+'' @ ''asm_file_name'' @ ''='' @ os_join ''/tmp/d'' ''test'')"
  by (rule reloc_generated_test) code_simp+

lemma reloc_word_free: "reloc_word cwd sim ph bd sd name word = Inr w \<Longrightarrow> \<not> contains ph w"
  by (auto simp: reloc_word_def Let_def raise_simps split: prod.splits if_splits)

lemma lift_Inr: "lift f x = Inr y \<longleftrightarrow> x = Inr y"
  by (simp add: lift_def split: sum.split)

lemma emap_Inr_set: "emap f xs = Inr ys \<Longrightarrow> y \<in> set ys \<Longrightarrow> \<exists>x \<in> set xs. f x = Inr y"
  by (induction xs arbitrary: ys) (auto simp: raise_simps)

lemma reloc_commands_free:
  assumes "reloc_commands cwd ph bd sd sim name contents = Inr cmds"
  shows "\<forall>cmd \<in> set cmds. \<forall>w \<in> set cmd. \<not> contains ph w"
proof (intro ballI)
  fix cmd w
  assume cw: "cmd \<in> set cmds" "w \<in> set cmd"
  obtain line where "ebind (lift Shell (shlex_split line))
      (\<lambda>ws. lift Script (emap (reloc_word cwd sim ph bd sd name) ws)) = Inr cmd"
    using emap_Inr_set[OF assms[unfolded reloc_commands_def] cw(1)] by blast
  then obtain ws where "emap (reloc_word cwd sim ph bd sd name) ws = Inr cmd"
    by (auto simp: raise_simps lift_Inr)
  from emap_Inr_set[OF this cw(2)] show "\<not> contains ph w" using reloc_word_free by blast
qed

section \<open>Copies, lemmas\<close>

lemma copy_rule_run:
  assumes "copy_rule src dst False rule fs = Inr fs'"
  shows "fs (os_join src (fst rule)) \<noteq> None \<and>
    fs' = fs(os_join dst (fst (snd rule)) := fs (os_join src (fst rule)))"
  using assms by (cases rule) (auto simp: copy_rule_def copy_file_def Let_def split: if_splits)

text \<open>
  After generation commands that succeeded, the copies only succeed when every file of the
  rules was left, and then each arrives in the directory of the test with its contents, while
  no other file changes.
\<close>

theorem copies_complete:
  assumes "do_file_copies src dst rules False fs = Inr fs'"
    and "distinct (map (\<lambda>r. os_join dst (fst (snd r))) rules)"
    and "\<forall>r \<in> set rules. \<forall>q \<in> set rules. os_join dst (fst (snd r)) \<noteq> os_join src (fst q)"
  shows "(\<forall>r \<in> set rules. fs (os_join src (fst r)) \<noteq> None \<and>
      fs' (os_join dst (fst (snd r))) = fs (os_join src (fst r))) \<and>
    (\<forall>f. f \<notin> (\<lambda>r. os_join dst (fst (snd r))) ` set rules \<longrightarrow> fs' f = fs f)"
  using assms
proof (induction rules arbitrary: fs)
  case Nil
  then show ?case by (simp add: do_file_copies_def)
next
  case (Cons r rules)
  obtain fs1 where 1: "copy_rule src dst False r fs = Inr fs1" "do_file_copies src dst rules False fs1 = Inr fs'"
    using Cons.prems(1) by (auto simp: do_file_copies_def raise_simps)
  note c = copy_rule_run[OF 1(1)]
  have src: "fs1 (os_join src (fst q)) = fs (os_join src (fst q))" if "q \<in> set rules" for q
    using Cons.prems(3) that c by (metis fun_upd_other list.set_intros)
  have IH: "(\<forall>q \<in> set rules. fs1 (os_join src (fst q)) \<noteq> None \<and>
      fs' (os_join dst (fst (snd q))) = fs1 (os_join src (fst q))) \<and>
    (\<forall>f. f \<notin> (\<lambda>r. os_join dst (fst (snd r))) ` set rules \<longrightarrow> fs' f = fs1 f)"
    using Cons.prems(2,3) by (intro Cons.IH[OF 1(2)]) auto
  have "fs' (os_join dst (fst (snd r))) = fs1 (os_join dst (fst (snd r)))"
    using IH Cons.prems(2) by auto
  then show ?case using IH c src by auto
qed

lemma copies_complete_witness:
  "(\<forall>r \<in> set (file_copies ''t''). [''/tmp/d/gen.log'' \<mapsto> ''l'', ''/tmp/d/test_0.S'' \<mapsto> ''nop''] (os_join ''/tmp/d'' (fst r)) \<noteq> None \<and>
      [''/tmp/d/gen.log'' \<mapsto> ''l'', ''/tmp/d/test_0.S'' \<mapsto> ''nop'', ''/out/t/gen.log'' \<mapsto> ''l'', ''/out/t/test.S'' \<mapsto> ''nop'']
        (os_join ''/out/t'' (fst (snd r))) =
      [''/tmp/d/gen.log'' \<mapsto> ''l'', ''/tmp/d/test_0.S'' \<mapsto> ''nop''] (os_join ''/tmp/d'' (fst r))) \<and>
    (\<forall>f. f \<notin> (\<lambda>r. os_join ''/out/t'' (fst (snd r))) ` set (file_copies ''t'') \<longrightarrow>
      [''/tmp/d/gen.log'' \<mapsto> ''l'', ''/tmp/d/test_0.S'' \<mapsto> ''nop'', ''/out/t/gen.log'' \<mapsto> ''l'', ''/out/t/test.S'' \<mapsto> ''nop''] f =
      [''/tmp/d/gen.log'' \<mapsto> ''l'', ''/tmp/d/test_0.S'' \<mapsto> ''nop''] f)"
  by (rule copies_complete)
    (simp_all add: do_file_copies_def copy_rule_def copy_file_def file_copies_def os_join_def fun_upd_def fun_eq_iff)

section \<open>The step, properties\<close>

text \<open>What the second half leaves when it succeeds.\<close>

lemma gen_run_result:
  assumes "gen_run exec resolve cwd td m dir test orig_list t st = Inr (rc, st')"
    and "pickle_file t = Some f"
  shows "rc = 0 \<and> (\<exists>t' cmds. construct_from_pickle (gen_results st') f = Inr t' \<and>
      riscvdv_run_cmds t' = Some cmds \<and> assembly t' = Some (child_of dir ''test.S'') \<and>
      riscvdv_run_gen_cmds t' = riscvdv_run_gen_cmds t \<and>
      (\<forall>cmd \<in> set cmds. \<forall>w \<in> set cmd.
         \<not> contains (path_str (child_of (path_of td) ''@@PLACEHOLDER@@'')) w))"
proof -
  let ?ph = "path_str (child_of (path_of td) ''@@PLACEHOLDER@@'')"
  obtain cmds contents results fs where r: "rc = 0"
      "reloc_commands cwd ?ph (path_str (resolve (md_dir_instruction_generator m))) td (md_simulator m) test
         contents = Inr cmds"
      "trr_export resolve (t\<lparr>riscvdv_run_cmds := Some cmds,
           riscvdv_run_stdout := Some (child_of (md_dir_instruction_generator m) ''riscvdv_run.log''),
           assembly := Some (child_of dir ''test.S'')\<rparr>) (gen_results st) = Inr results"
      "st' = st\<lparr>gen_files := fs, gen_results := results\<rparr>"
    using assms(1) by (auto simp: gen_run_def Let_def raise_simps lift_Inr)
  show ?thesis
    using r trr.save_load[OF r(3)] reloc_commands_free[OF r(2)] assms(2)
    by (auto intro!: exI)
qed

text \<open>The command that makes riscv-dv write the commands names the placeholder directory as its output.\<close>

lemma gen_cmd_output:
  assumes "format_to_cmd resolve (gen_cmd root m cfg sig test s placeholder orig_list) = Inr cmd"
  shows "\<exists>before after. cmd = before @ [''--output'', placeholder] @ after"
proof -
  define given where "given = get_run_cmd root (md_verbose m) @ [Val (PStr ''--so''), Val (PStr ''--steps=gen'')]"
  obtain rest where "gen_cmd root m cfg sig test s placeholder orig_list =
      given @ Val (PStr ''--output'') # Val (PStr placeholder) # rest"
    by (simp add: gen_cmd_def given_def)
  then obtain before y z after where "cmd = before @ y # z # after"
      "format_to_str resolve (Val (PStr ''--output'')) = Inr y" "format_to_str resolve (Val (PStr placeholder)) = Inr z"
    using assms
    by (auto simp: format_to_cmd_def emap_eq_Inr list_all2_append1 list_all2_Cons1 split: sum.splits)
  then show ?thesis by (auto simp: format_to_str_def)
qed

text \<open>
  C27. The step returns zero only after it stored the result: loaded back, the result holds the
  command with which riscv-dv was asked for the commands, which names the placeholder directory as its
  output; the commands that were to be run, none of which mentions that directory any more; and the
  assembly file of the test.  When riscv-dv itself fails its status is returned and no
  stored result changes.
\<close>

theorem instr_gen_records:
  assumes "run_instr_gen exec read_file yaml_load resolve cwd root td mds dir_metadata tds st = Inr (rc, st')"
    and "trr_from_metadata_dir (gen_results st) dir_metadata (tds_str (fst tds) (snd tds)) = Inr t"
    and "pickle_file t = Some (child_of dir_metadata (tds_str (fst tds) (snd tds) @ ''.pickle''))"
  shows "if rc \<noteq> 0 then gen_results st' = gen_results st
    else \<exists>t' cmds dir before after.
      trr_from_metadata_dir (gen_results st') dir_metadata (tds_str (fst tds) (snd tds)) = Inr t' \<and>
      riscvdv_run_gen_cmds t' =
        Some [before @ [''--output'', path_str (child_of (path_of td) ''@@PLACEHOLDER@@'')] @ after] \<and>
      riscvdv_run_cmds t' = Some cmds \<and>
      (\<forall>cmd \<in> set cmds. \<forall>w \<in> set cmd.
         \<not> contains (path_str (child_of (path_of td) ''@@PLACEHOLDER@@'')) w) \<and>
      dir_test t = Some dir \<and> assembly t' = Some (child_of dir ''test.S'')"
  using assms(1)
  apply (clarsimp simp: run_instr_gen_def Let_def raise_simps lift_Inr assms(2) simp del: if_split)
  apply (split if_split_asm)
   apply force
  apply (drule gen_run_result[where f = "child_of dir_metadata (tds_str (fst tds) (snd tds) @ ''.pickle'')"])
   apply (simp add: assms(3))
  apply (drule gen_cmd_output)
  apply (clarsimp simp: trr_from_metadata_dir_def)
  apply blast
  done

definition demo_gen_metadata :: regression_metadata where
  "demo_gen_metadata = (default_metadata [])\<lparr>md_ibex_config := ''small'', md_simulator := ''vcs'',
     md_isa_ibex := Some ''rv32imc'', md_signature_addr := ''8ffffffc'',
     md_dir_instruction_generator := path_of ''/out/gen''\<rparr>"

definition demo_gen_result :: test_run_result where
  "demo_gen_result = new_result\<lparr>testname := Some ''t'', seed := Some 3, dir_test := Some (path_of ''/out/t''),
     pickle_file := Some (path_of ''/md/t.3.pickle''), yaml_file := Some (path_of ''/md/t.3.yaml'')\<rparr>"

definition demo_gen_state :: gen_state where
  "demo_gen_state = \<lparr>made_dirs = [], gen_files = Map.empty,
     gen_results = \<lparr>pickles = [(path_of ''/md/t.3.pickle'', demo_gen_result)], yamls = []\<rparr>\<rparr>"

definition demo_exec :: exec where
  "demo_exec cmd fs =
     (Returned 0,
      if take 1 cmd = [''python3'']
      then fs(''/tmp/d/cmds.list'' \<mapsto> ''/tmp/d/@@PLACEHOLDER@@/vcs_simv +f=/tmp/d/@@PLACEHOLDER@@/asm_test/t'')
      else fs(''/tmp/d/test_0.S'' \<mapsto> ''nop'', ''/tmp/d/gen.log'' \<mapsto> []))"

abbreviation demo_gen where
  "demo_gen \<equiv> run_instr_gen demo_exec (\<lambda>f. Some f) (\<lambda>s. Some (PDict [(PStr ''small'', small_yaml)])) id ''/w''
     (path_of ''/ibex'') ''/tmp/d'' \<lparr>pickles = [(path_of ''/md/metadata.pickle'', demo_gen_metadata)], yamls = []\<rparr>
     (path_of ''/md'') (''t'', 3) demo_gen_state"

lemma demo_gen_ok: "case demo_gen of Inr (rc, st') \<Rightarrow> rc = 0 | Inl _ \<Rightarrow> False"
  by code_simp

lemma instr_gen_records_witness:
  "\<exists>st'. demo_gen = Inr (0, st') \<and>
     (\<exists>t' cmds dir before after. trr_from_metadata_dir (gen_results st') (path_of ''/md'') (tds_str ''t'' 3) = Inr t' \<and>
        riscvdv_run_gen_cmds t' =
          Some [before @ [''--output'', path_str (child_of (path_of ''/tmp/d'') ''@@PLACEHOLDER@@'')] @ after] \<and>
        riscvdv_run_cmds t' = Some cmds \<and>
        (\<forall>cmd \<in> set cmds. \<forall>w \<in> set cmd.
           \<not> contains (path_str (child_of (path_of ''/tmp/d'') ''@@PLACEHOLDER@@'')) w) \<and>
        dir_test demo_gen_result = Some dir \<and> assembly t' = Some (child_of dir ''test.S''))"
proof -
  obtain st' where st': "demo_gen = Inr (0, st')"
    using demo_gen_ok by (auto split: sum.splits prod.splits)
  have 1: "trr_from_metadata_dir (gen_results demo_gen_state) (path_of ''/md'') (tds_str (fst (''t'', 3)) (snd (''t'', 3)))
      = Inr demo_gen_result"
    by code_simp
  have 2: "pickle_file demo_gen_result =
      Some (child_of (path_of ''/md'') (tds_str (fst (''t'', 3)) (snd (''t'', 3)) @ ''.pickle''))"
    by code_simp
  show ?thesis using st' instr_gen_records[OF st' 1 2] by simp
qed

end
