(* ===== verification/CompileTest.thy ===== *)
theory CompileTest
  imports RunInstrGen
begin

text \<open>
  \<^verbatim>\<open>compile_test.py\<close>: the commands that compile a test.  Those of a generated test are asked
  of riscv-dv for a placeholder directory and rewritten; those of a directed test are made from
  its entry in the list.
\<close>

datatype step_error = Md md_error | Unbound string

text \<open>What the first function gives back: commands, or the status of riscv-dv when it failed.\<close>

datatype compile_cmds = Status int | Cmds "fmt_value list list"

definition str_or_None :: "string option \<Rightarrow> string" where
  "str_or_None x = (case x of None \<Rightarrow> ''None'' | Some s \<Rightarrow> s)"

definition opt_pystr :: "string option \<Rightarrow> pyval" where
  "opt_pystr x = (case x of None \<Rightarrow> PNone | Some s \<Rightarrow> PStr s)"

definition path_or_None :: "path option \<Rightarrow> string" where
  "path_or_None p = str_or_None (map_option path_str p)"

section \<open>Generated tests\<close>

definition compile_gen_cmd :: "path \<Rightarrow> regression_metadata \<Rightarrow> test_run_result \<Rightarrow> path \<Rightarrow> path \<Rightarrow> fmt_value list" where
  "compile_gen_cmd root m t placeholder orig_list =
     get_run_cmd root (md_verbose m) @
     [Val (PStr ''--verbose''), Val (PStr ''--output''), PathV placeholder,
      Val (PStr ''--steps=gcc_compile''), Val (PStr ''--test''), Val (opt_pystr (testname t)),
      Val (PStr ''--start_seed''), Val (PStr (opt_int_str (seed t))), Val (PStr ''--iterations''), Val (PStr ''1''),
      Val (PStr ''--isa''), Val (opt_pystr (md_isa_ibex m)), Val (PStr ''--debug''), PathV orig_list]"

definition path_rewrites :: "string \<Rightarrow> test_run_result \<Rightarrow> (string \<times> string) list" where
  "path_rewrites placeholder t =
     (let base = placeholder @ ''/asm_test/'' @ str_or_None (testname t)
      in [(base @ ''_0.S'', path_or_None (assembly t)), (base @ ''_0.o'', path_or_None (objectfile t)),
          (base @ ''_0.bin'', path_or_None (binary t))])"

definition rewrite_word :: "string \<Rightarrow> (string \<times> string) list \<Rightarrow> string \<Rightarrow> script_error + string" where
  "rewrite_word placeholder rules word =
     (let word' = fold (\<lambda>(old, new) w. replace old new w) rules word
      in if contains placeholder word'
         then Inl (Runtime_error ''Couldn't replace every copy of placeholder in '') else Inr word')"

definition read_cmds :: "string \<Rightarrow> md_error + string list list" where
  "read_cmds contents =
     emap (\<lambda>line. lift Shell (shlex_split line))
       (filter (\<lambda>line. line \<noteq> []) (map strip (file_lines contents)))"

text \<open>The discrete debug module: its sections are kept out of the main memory.\<close>

definition dm_sections :: "string list" where
  "dm_sections = [''.debug_module'', ''.dm_scratch'']"

definition only_sections :: "string list" where
  "only_sections = concat (map (\<lambda>s. [''--only-section'', s]) dm_sections)"

definition remove_sections :: "string list" where
  "remove_sections = concat (map (\<lambda>s. [''--remove-section'', s]) dm_sections)"

definition relink :: "regression_metadata \<Rightarrow> string list \<Rightarrow> string list" where
  "relink m cmd =
     map (\<lambda>token. if prefix ''-T'' token
            then ''-T'' @ path_str (child_of (md_ibex_riscvdv_customtarget m) ''ddm_link.ld'') else token) cmd"

definition objcopy_cmd :: "string option \<Rightarrow> string \<Rightarrow> string list \<Rightarrow> test_run_result \<Rightarrow> path \<Rightarrow> fmt_value list" where
  "objcopy_cmd objcopy fmt sections t dest =
     Val (opt_pystr objcopy) # map (\<lambda>w. Val (PStr w))
       ([''-O'', fmt] @ sections @ [path_or_None (objectfile t), path_str dest])"

definition ddm_cmds :: "(string \<rightharpoonup> string) \<Rightarrow> path \<Rightarrow> test_run_result \<Rightarrow> fmt_value list list" where
  "ddm_cmds environ dir t =
     (let objcopy = environ ''RISCV_OBJCOPY''
      in [objcopy_cmd objcopy ''verilog'' only_sections t (child_of dir ''test.dm.vmem''),
          objcopy_cmd objcopy ''verilog'' remove_sections t (child_of dir ''test.main.vmem''),
          objcopy_cmd objcopy ''binary'' only_sections t (child_of dir ''test.dm.bin''),
          objcopy_cmd objcopy ''binary'' remove_sections t (child_of dir ''test.main.bin'')])"

definition words_cmd :: "string list \<Rightarrow> fmt_value list" where
  "words_cmd ws = map (\<lambda>w. Val (PStr w)) ws"

definition adapt_cmds :: "(string \<rightharpoonup> string) \<Rightarrow> regression_metadata \<Rightarrow> path \<Rightarrow> test_run_result \<Rightarrow>
    string list list \<Rightarrow> script_error + fmt_value list list \<times> test_run_result" where
  "adapt_cmds environ m dir t new_cmds =
     (if testtype t = Some RISCVDV \<and> is_discrete_debug_module t = Some True
      then if new_cmds = [] then Inl Index_error
           else Inr (map (\<lambda>cmd. words_cmd (relink m cmd)) (butlast new_cmds) @ ddm_cmds environ dir t,
                  t\<lparr>vmem_main := Some (child_of dir ''test.main.vmem''), vmem_dm := Some (child_of dir ''test.dm.vmem''),
                    binary_main := Some (child_of dir ''test.main.bin''), binary_dm := Some (child_of dir ''test.dm.bin'')\<rparr>)
      else Inr (map words_cmd new_cmds, t))"

definition get_riscvdv_compile_cmds :: "exec \<Rightarrow> (path \<Rightarrow> path) \<Rightarrow> (string \<rightharpoonup> string) \<Rightarrow> path \<Rightarrow> string \<Rightarrow>
    regression_metadata \<Rightarrow> test_run_result \<Rightarrow> files \<Rightarrow>
    md_error + compile_cmds \<times> test_run_result \<times> files" where
  "get_riscvdv_compile_cmds exec resolve environ root td m t fs =
     (let placeholder = child_of (path_of td) ''@@PLACEHOLDER@@'';
          orig_list = child_of (path_of td) ''orig-cmds.list''
      in ebind (lift Script (of_option (Type_error ''dir_test'') (dir_test t))) (\<lambda>dir.
         ebind (lift Script (format_to_cmd resolve (compile_gen_cmd root m t placeholder orig_list))) (\<lambda>cmd.
         let gen_log = child_of dir ''compile_gen.riscv-dv.log'';
             t1 = t\<lparr>compile_asm_gen_log := Some gen_log, compile_asm_gen_cmds := Some [cmd]\<rparr>
         in ebind (lift Script (run_cmd_on exec (md_verbose m) (Redirect_path gen_log) cmd fs)) (\<lambda>(rc, fs').
            if rc \<noteq> 0 then Inr (Status rc, t1, fs')
            else
              ebind (lift Script (of_option (Os_error (path_str orig_list)) (fs' (path_str orig_list)))) (\<lambda>contents.
              ebind (read_cmds contents) (\<lambda>orig_cmds.
              let t2 = t1\<lparr>objectfile := Some (child_of dir ''test.o''), binary := Some (child_of dir ''test.bin'')\<rparr>;
                  rules = path_rewrites (path_str placeholder) t2
              in ebind (lift Script (emap (emap (rewrite_word (path_str placeholder) rules)) orig_cmds)) (\<lambda>new_cmds.
                 ebind (lift Script (adapt_cmds environ m dir t2 new_cmds)) (\<lambda>(cmds, t3).
                   Inr (Cmds cmds, t3, fs')))))))))"

section \<open>Directed tests\<close>

definition data_str :: "test_entry \<Rightarrow> string \<Rightarrow> string" where
  "data_str d k = (case dict_get d k of None \<Rightarrow> ''None'' | Some v \<Rightarrow> py_str v)"

definition get_directed_compile_cmds :: "(string \<rightharpoonup> string) \<Rightarrow> test_run_result \<Rightarrow>
    md_error + string list list \<times> test_run_result" where
  "get_directed_compile_cmds environ t =
     ebind (lift Script (guard_else (list_all (\<lambda>e. environ e \<noteq> None) [''RISCV_TOOLCHAIN'', ''RISCV_GCC'', ''RISCV_OBJCOPY''])
        (Runtime_error ''Missing required environment variables for the RISCV TOOLCHAIN''))) (\<lambda>_.
     ebind (lift Script (of_option (Type_error ''directed_data'') (directed_data t))) (\<lambda>d.
     ebind (lift Script (of_option (Type_error ''dir_test'') (dir_test t))) (\<lambda>dir.
     let t' = t\<lparr>assembly := map_option (path_of \<circ> py_str) (dict_get d ''test_srcs''),
                objectfile := Some (child_of dir ''test.o''), binary := Some (child_of dir ''test.bin'')\<rparr>;
         obj = path_or_None (objectfile t')
     in ebind (lift Script (case dict_get d ''gcc_opts'' of Some (PStr s) \<Rightarrow> Inr s | _ \<Rightarrow> Inl (Type_error ''gcc_opts''))) (\<lambda>opts.
        ebind (lift Shell (shlex_split (join '' '' [the (environ ''RISCV_GCC''), opts,
                 ''-I'' @ data_str d ''includes'', ''-T'' @ data_str d ''ld_script'',
                 ''-o '' @ obj, path_or_None (assembly t')]))) (\<lambda>gcc.
        ebind (lift Shell (shlex_split (join '' '' [the (environ ''RISCV_OBJCOPY''), ''-O binary '' @ obj,
                 path_or_None (binary t')]))) (\<lambda>bin.
          Inr ([gcc, bin], t')))))))"

section \<open>The step\<close>

text \<open>
  Commands that end one after another without failure give zero, the status a process has that
  returns nothing.  Iterating over a status instead of commands is an error.
\<close>

definition compile_cmds_of :: "exec \<Rightarrow> (path \<Rightarrow> path) \<Rightarrow> (string \<rightharpoonup> string) \<Rightarrow> path \<Rightarrow> string \<Rightarrow>
    regression_metadata \<Rightarrow> test_run_result \<Rightarrow> files \<Rightarrow>
    step_error + fmt_value list list \<times> path \<times> test_run_result \<times> files" where
  "compile_cmds_of exec resolve environ root td m t fs =
     (case testtype t of
        Some RISCVDV \<Rightarrow>
          (case get_riscvdv_compile_cmds exec resolve environ root td m t fs of
             Inl e \<Rightarrow> Inl (Md e)
           | Inr (Status rc, _) \<Rightarrow> Inl (Md (Script (Type_error ''int object is not iterable'')))
           | Inr (Cmds cmds, t', fs') \<Rightarrow>
               Inr (cmds, child_of (the (dir_test t)) ''compile.riscvdv.log'', t', fs'))
      | Some DIRECTED \<Rightarrow>
          (case get_directed_compile_cmds environ t of
             Inl e \<Rightarrow> Inl (Md e)
           | Inr (cmds, t') \<Rightarrow>
               Inr (map words_cmd cmds, child_of (the (dir_test t)) ''compile.directed.log'', t', fs))
      | None \<Rightarrow> Inl (Unbound ''cmds''))"

definition compile_test :: "exec \<Rightarrow> (path \<Rightarrow> path) \<Rightarrow> (string \<rightharpoonup> string) \<Rightarrow> path \<Rightarrow> string \<Rightarrow>
    regression_metadata store \<Rightarrow> path \<Rightarrow> string \<times> int \<Rightarrow> gen_state \<Rightarrow> step_error + int \<times> gen_state" where
  "compile_test exec resolve environ root td mds dir_metadata tds st =
     (case md_from_metadata_dir mds dir_metadata of
           Inl e \<Rightarrow> Inl (Md (Script e))
         | Inr m \<Rightarrow>
             (case trr_from_metadata_dir (gen_results st) dir_metadata (tds_str (fst tds) (snd tds)) of
                Inl e \<Rightarrow> Inl (Md (Script e))
              | Inr t \<Rightarrow>
                  ebind (compile_cmds_of exec resolve environ root td m t (gen_files st)) (\<lambda>(cmds, log, t1, fs).
                  case emap (format_to_cmd resolve) cmds of
                    Inl e \<Rightarrow> Inl (Md (Script e))
                  | Inr ws \<Rightarrow>
                      (case trr_export resolve (t1\<lparr>compile_asm_log := Some log, compile_asm_cmds := Some ws\<rparr>)
                              (gen_results st) of
                         Inl e \<Rightarrow> Inl (Md (Script e))
                       | Inr results \<Rightarrow>
                           (case run_in_order exec (md_verbose m) (Redirect_file (path_str log) False) ws fs of
                              Inl e \<Rightarrow> Inl (Md (Script e))
                            | Inr (rc, fs') \<Rightarrow> Inr (rc, st\<lparr>gen_files := fs', gen_results := results\<rparr>))))))"

section \<open>The discrete debug module\<close>

text \<open>
  What objcopy does with its options: a section is copied when no section is selected or it is
  one of those, unless it is removed.
\<close>

fun section_args :: "string \<Rightarrow> fmt_value list \<Rightarrow> string list" where
  "section_args opt (Val (PStr a) # Val (PStr b) # ws) =
     (if a = opt then b # section_args opt ws else section_args opt (Val (PStr b) # ws))"
| "section_args opt (w # ws) = section_args opt ws"
| "section_args opt [] = []"

definition copied :: "fmt_value list \<Rightarrow> string \<Rightarrow> bool" where
  "copied cmd sec \<longleftrightarrow>
     (section_args ''--only-section'' cmd = [] \<or> sec \<in> set (section_args ''--only-section'' cmd)) \<and>
     sec \<notin> set (section_args ''--remove-section'' cmd)"

lemma section_args_objcopy:
  assumes "tool \<noteq> ''--only-section''" "tool \<noteq> ''--remove-section''" "obj \<noteq> ''--only-section''"
    "obj \<noteq> ''--remove-section''" "fmt \<in> {''verilog'', ''binary''}"
    "path_or_None (objectfile t) = obj"
  shows "copied (objcopy_cmd (Some tool) fmt only_sections t p) sec \<longleftrightarrow> sec \<in> set dm_sections"
    and "copied (objcopy_cmd (Some tool) fmt remove_sections t p) sec \<longleftrightarrow> sec \<notin> set dm_sections"
  using assms by (auto simp: copied_def objcopy_cmd_def only_sections_def remove_sections_def
      dm_sections_def opt_pystr_def)

text \<open>
  With a discrete debug module the command for the single memory is dropped and every
  section of the object goes, in each of the two formats, to exactly one of the files for the
  main memory and for the module, the ones the result names.
\<close>

theorem ddm_partition:
  assumes "adapt_cmds environ m dir t cmds = Inr (out, t')"
    and "testtype t = Some RISCVDV" "is_discrete_debug_module t = Some True"
    and "environ ''RISCV_OBJCOPY'' = Some tool" "objectfile t = Some obj"
    and "{tool, path_str obj} \<inter> {''--only-section'', ''--remove-section''} = {}"
  shows "\<exists>vd vm bd bm. out = map (\<lambda>cmd. words_cmd (relink m cmd)) (butlast cmds) @ [vd, vm, bd, bm] \<and>
    (\<forall>sec. (copied vd sec \<longleftrightarrow> sec \<in> set dm_sections) \<and> (copied vm sec \<longleftrightarrow> sec \<notin> set dm_sections) \<and>
       (copied bd sec \<longleftrightarrow> sec \<in> set dm_sections) \<and> (copied bm sec \<longleftrightarrow> sec \<notin> set dm_sections)) \<and>
    map last [vd, vm, bd, bm] =
      map (\<lambda>p. Val (PStr (path_or_None p))) [vmem_dm t', vmem_main t', binary_dm t', binary_main t']"
proof -
  let ?c = "objcopy_cmd (Some tool)"
  have out: "out = map (\<lambda>cmd. words_cmd (relink m cmd)) (butlast cmds) @ ddm_cmds environ dir t"
    "t' = t\<lparr>vmem_main := Some (child_of dir ''test.main.vmem''), vmem_dm := Some (child_of dir ''test.dm.vmem''),
        binary_main := Some (child_of dir ''test.main.bin''), binary_dm := Some (child_of dir ''test.dm.bin'')\<rparr>"
    using assms(1-3) by (auto simp: adapt_cmds_def split: if_splits)
  have obj: "path_or_None (objectfile t) = path_str obj"
    using assms(5) by (simp add: path_or_None_def str_or_None_def)
  have args: "tool \<noteq> ''--only-section''" "tool \<noteq> ''--remove-section''" "path_str obj \<noteq> ''--only-section''"
      "path_str obj \<noteq> ''--remove-section''"
    using assms(6) by auto
  have c: "copied (?c fmt only_sections t p) sec \<longleftrightarrow> sec \<in> set dm_sections"
    "copied (?c fmt remove_sections t p) sec \<longleftrightarrow> sec \<notin> set dm_sections"
    if "fmt \<in> {''verilog'', ''binary''}" for fmt p sec
    using section_args_objcopy[OF args that obj] by blast+
  have l: "last (?c fmt ss t p) = Val (PStr (path_str p))" for fmt ss p
    by (simp add: objcopy_cmd_def)
  show ?thesis
    using c[of "''verilog''"] c[of "''binary''"] l assms(4)
    by (simp add: out ddm_cmds_def Let_def path_or_None_def str_or_None_def)
qed

definition demo_ddm :: test_run_result where
  "demo_ddm = new_result\<lparr>testtype := Some RISCVDV, is_discrete_debug_module := Some True,
     dir_test := Some (path_of ''/t''), objectfile := Some (path_of ''/t/test.o'')\<rparr>"

lemma ddm_partition_witness:
  "\<exists>out t' vd vm bd bm. adapt_cmds [''RISCV_OBJCOPY'' \<mapsto> ''objcopy''] (default_metadata []) (path_of ''/t'') demo_ddm
      [[''gcc'', ''-Tlink.ld''], [''objcopy'']] = Inr (out, t') \<and>
    out = map (\<lambda>cmd. words_cmd (relink (default_metadata []) cmd)) (butlast [[''gcc'', ''-Tlink.ld''], [''objcopy'']]) @
      [vd, vm, bd, bm] \<and>
    (\<forall>sec. (copied vd sec \<longleftrightarrow> sec \<in> set dm_sections) \<and> (copied vm sec \<longleftrightarrow> sec \<notin> set dm_sections) \<and>
       (copied bd sec \<longleftrightarrow> sec \<in> set dm_sections) \<and> (copied bm sec \<longleftrightarrow> sec \<notin> set dm_sections)) \<and>
    map last [vd, vm, bd, bm] =
      map (\<lambda>p. Val (PStr (path_or_None p))) [vmem_dm t', vmem_main t', binary_dm t', binary_main t']"
proof -
  obtain out t' where a: "adapt_cmds [''RISCV_OBJCOPY'' \<mapsto> ''objcopy''] (default_metadata []) (path_of ''/t'') demo_ddm
      [[''gcc'', ''-Tlink.ld''], [''objcopy'']] = Inr (out, t')"
    by (simp add: adapt_cmds_def demo_ddm_def)
  have "\<exists>vd vm bd bm. out = map (\<lambda>cmd. words_cmd (relink (default_metadata []) cmd))
        (butlast [[''gcc'', ''-Tlink.ld''], [''objcopy'']]) @ [vd, vm, bd, bm] \<and>
    (\<forall>sec. (copied vd sec \<longleftrightarrow> sec \<in> set dm_sections) \<and> (copied vm sec \<longleftrightarrow> sec \<notin> set dm_sections) \<and>
       (copied bd sec \<longleftrightarrow> sec \<in> set dm_sections) \<and> (copied bm sec \<longleftrightarrow> sec \<notin> set dm_sections)) \<and>
    map last [vd, vm, bd, bm] =
      map (\<lambda>p. Val (PStr (path_or_None p))) [vmem_dm t', vmem_main t', binary_dm t', binary_main t']"
    by (rule ddm_partition[OF a, where tool = "''objcopy''" and obj = "path_of ''/t/test.o''"]) code_simp+
  then show ?thesis using a by blast
qed

section \<open>Failure of riscv-dv\<close>

text \<open>
  When riscv-dv cannot give the commands, its status is returned where commands are
  expected: the step ends with a type error, no status is returned and nothing is stored.
\<close>

theorem compile_gen_failure:
  assumes "md_from_metadata_dir mds dir_metadata = Inr m"
    and "trr_from_metadata_dir (gen_results st) dir_metadata (tds_str (fst tds) (snd tds)) = Inr t"
    and "testtype t = Some RISCVDV" "dir_test t = Some dir"
    and "\<And>cmd fs. \<exists>fs'. exec cmd fs = (Returned 1, fs')"
  shows "\<exists>e. compile_test exec resolve environ root td mds dir_metadata tds st = Inl (Md (Script e))"
proof -
  let ?g = "get_riscvdv_compile_cmds exec resolve environ root td m t (gen_files st)"
  have run: "\<exists>fs'. run_cmd_on exec v (Redirect_path p) cmd fs = Inr (1, fs')" for v p cmd fs
    using assms(5)[of cmd fs]
    by (auto simp: run_cmd_on_def run_one_def bad_redirect_def run_status_def)
  have "(\<exists>e. ?g = Inl (Script e)) \<or> (\<exists>rc t' fs'. ?g = Inr (Status rc, t', fs'))"
  proof (cases "format_to_cmd resolve (compile_gen_cmd root m t (child_of (path_of td) ''@@PLACEHOLDER@@'')
      (child_of (path_of td) ''orig-cmds.list''))")
    case (Inl e)
    then show ?thesis by (simp add: get_riscvdv_compile_cmds_def assms(4) lift_def)
  next
    case (Inr cmd)
    obtain fs' where "run_cmd_on exec (md_verbose m) (Redirect_path (child_of dir ''compile_gen.riscv-dv.log'')) cmd
        (gen_files st) = Inr (1, fs')"
      using run by blast
    then show ?thesis using Inr by (simp add: get_riscvdv_compile_cmds_def assms(4) lift_def Let_def)
  qed
  then have "\<exists>e. compile_cmds_of exec resolve environ root td m t (gen_files st) = Inl (Md (Script e))"
    by (auto simp: compile_cmds_of_def assms(3))
  then show ?thesis by (auto simp: compile_test_def assms(1,2))
qed

definition demo_compile_state :: gen_state where
  "demo_compile_state = \<lparr>made_dirs = [], gen_files = Map.empty,
     gen_results = \<lparr>pickles = [(path_of ''/md/t.3.pickle'', demo_ddm)], yamls = []\<rparr>\<rparr>"

lemma compile_gen_failure_witness:
  "\<exists>e. compile_test (\<lambda>cmd fs. (Returned 1, fs)) id Map.empty (path_of ''/ibex'') ''/tmp/d''
     \<lparr>pickles = [(path_of ''/md/metadata.pickle'', demo_gen_metadata)], yamls = []\<rparr>
     (path_of ''/md'') (''t'', 3) demo_compile_state = Inl (Md (Script e))"
proof (rule compile_gen_failure)
  show "md_from_metadata_dir \<lparr>pickles = [(path_of ''/md/metadata.pickle'', demo_gen_metadata)], yamls = []\<rparr>
      (path_of ''/md'') = Inr demo_gen_metadata" by code_simp
  show "trr_from_metadata_dir (gen_results demo_compile_state) (path_of ''/md'')
      (tds_str (fst (''t'', 3)) (snd (''t'', 3))) = Inr demo_ddm" by code_simp
qed (simp_all add: demo_ddm_def)

section \<open>Directed tests, the words\<close>

definition safe_word :: "string \<Rightarrow> bool" where
  "safe_word w \<longleftrightarrow> w \<noteq> [] \<and> list_all safe_char w"

lemma split_safe: "list_all safe_word ws \<Longrightarrow> shlex_split (join '' '' ws) = Inr ws"
proof -
  assume "list_all safe_word ws"
  then have "map quote ws = ws"
    by (induction ws) (auto simp: safe_word_def quote_def)
  then show ?thesis using sh.split_quoted[of ws] by simp
qed

lemma join_concat: "list_all (\<lambda>ws. ws \<noteq> []) wss \<Longrightarrow> join sep (map (join sep) wss) = join sep (concat wss)"
proof (induction wss)
  case (Cons ws wss)
  show ?case
  proof (cases "wss = []")
    case False
    then have ne: "concat wss \<noteq> []" using Cons.prems by (cases wss) auto
    have app: "join sep (xs @ ys) = join sep xs @ sep @ join sep ys" if "xs \<noteq> []" "ys \<noteq> []" for xs ys
      using that
    proof (induction xs)
      case (Cons x xs)
      then show ?case by (cases "xs = []") (auto simp: join_Cons)
    qed simp
    have "join sep (map (join sep) (ws # wss)) = join sep ws @ sep @ join sep (concat wss)"
      using Cons False by (simp add: join_Cons)
    also have "\<dots> = join sep (ws @ concat wss)" using app[OF _ ne] Cons.prems by simp
    finally show ?thesis by simp
  qed simp
qed simp

text \<open>
  When the tools, options and paths hold no characters special to a shell, the commands of
  a directed test are word for word those of its entry: the compiler with the options of the
  test, the include directory, the linker script and the object file of this run, then objcopy.
\<close>

theorem directed_cmd_words:
  assumes "directed_data t = Some d" "dir_test t = Some dir"
    and "environ ''RISCV_TOOLCHAIN'' \<noteq> None" "environ ''RISCV_GCC'' = Some (join '' '' gcc)"
    and "environ ''RISCV_OBJCOPY'' = Some (join '' '' objcopy)" "gcc \<noteq> []" "objcopy \<noteq> []" "opts \<noteq> []"
    and "dict_get d ''gcc_opts'' = Some (PStr (join '' '' opts))"
    and "dict_get d ''includes'' = Some (PStr includes)" "dict_get d ''ld_script'' = Some (PStr ld_script)"
    and "dict_get d ''test_srcs'' = Some (PStr (path_str src))" "path_ok src"
    and "list_all safe_word (gcc @ objcopy @ opts @ [''-I'' @ includes, ''-T'' @ ld_script, path_str src,
           path_str (child_of dir ''test.o''), path_str (child_of dir ''test.bin'')])"
  shows "get_directed_compile_cmds environ t =
    Inr ([gcc @ opts @ [''-I'' @ includes, ''-T'' @ ld_script, ''-o'', path_str (child_of dir ''test.o''), path_str src],
          objcopy @ [''-O'', ''binary'', path_str (child_of dir ''test.o''), path_str (child_of dir ''test.bin'')]],
         t\<lparr>assembly := Some src, objectfile := Some (child_of dir ''test.o''), binary := Some (child_of dir ''test.bin'')\<rparr>)"
proof -
  let ?o = "path_str (child_of dir ''test.o'')" and ?b = "path_str (child_of dir ''test.bin'')"
  let ?gcc = "[gcc, opts, [''-I'' @ includes], [''-T'' @ ld_script], [''-o'', ?o], [path_str src]]"
  let ?bin = "[objcopy, [''-O'', ''binary'', ?o], [?b]]"
  have safe: "safe_word ''-o''" "safe_word ''-O''" "safe_word ''binary''" by code_simp+
  have 1: "shlex_split (join '' '' (map (join '' '') ?gcc)) = Inr (concat ?gcc)"
    by (subst join_concat) (use assms safe in \<open>auto intro!: split_safe\<close>)
  have 2: "shlex_split (join '' '' (map (join '' '') ?bin)) = Inr (concat ?bin)"
    by (subst join_concat) (use assms safe in \<open>auto intro!: split_safe\<close>)
  show ?thesis
    using 1 2 assms(1-5,9-13)
    by (simp add: get_directed_compile_cmds_def Let_def lift_def data_str_def path_or_None_def str_or_None_def
        path_of_str)
qed

lemma directed_cmd_words_witness:
  "let d = [(PStr ''gcc_opts'', PStr ''-O3 -g''), (PStr ''includes'', PStr ''/d''), (PStr ''ld_script'', PStr ''/d/l.ld''),
            (PStr ''test_srcs'', PStr ''/d/t.S'')];
       t = new_result\<lparr>directed_data := Some d, dir_test := Some (path_of ''/t'')\<rparr>
   in get_directed_compile_cmds [''RISCV_TOOLCHAIN'' \<mapsto> ''/r'', ''RISCV_GCC'' \<mapsto> ''gcc'', ''RISCV_OBJCOPY'' \<mapsto> ''objcopy''] t =
    Inr ([[''gcc''] @ [''-O3'', ''-g''] @ [''-I'' @ ''/d'', ''-T'' @ ''/d/l.ld'', ''-o'',
            path_str (child_of (path_of ''/t'') ''test.o''), path_str (path_of ''/d/t.S'')],
          [''objcopy''] @ [''-O'', ''binary'', path_str (child_of (path_of ''/t'') ''test.o''),
            path_str (child_of (path_of ''/t'') ''test.bin'')]],
         t\<lparr>assembly := Some (path_of ''/d/t.S''), objectfile := Some (child_of (path_of ''/t'') ''test.o''),
           binary := Some (child_of (path_of ''/t'') ''test.bin'')\<rparr>)"
  unfolding Let_def by (rule directed_cmd_words) code_simp+

end
