(* ===== verification/CheckLogs.thy ===== *)
theory CheckLogs
  imports IbexTrace
begin

text \<open>
  \<^verbatim>\<open>check_logs.py\<close>: the result of a test from its trace and its log.
\<close>

definition fail_with :: "Failure_Modes \<Rightarrow> string \<Rightarrow> test_run_result \<Rightarrow> test_run_result" where
  "fail_with m msg trr = trr\<lparr>passed := Some False, failure_mode := Some m, failure_message := Some msg\<rparr>"

definition extract_text :: "string list \<Rightarrow> string" where
  "extract_text uvm_log_lines =
     (if uvm_log_lines = [] then []
      else ''---------------*LOG-EXTRACT*----------------'' @ [newline] @
           join [newline] uvm_log_lines @ [newline] @
           ''--------------------------------------------'' @ [newline])"

definition timeout_text :: "pyval option \<Rightarrow> string" where
  "timeout_text t = (case t of None \<Rightarrow> ''None'' | Some v \<Rightarrow> py_str v)"

text \<open>The branch for a log without a pass: the mode and the message, but not \<open>passed\<close>.\<close>

definition uvm_failure :: "test_run_result \<Rightarrow> path \<Rightarrow> string list \<Rightarrow> Failure_Modes \<Rightarrow> test_run_result" where
  "uvm_failure trr log_path uvm_log_lines fmode =
     trr\<lparr>failure_mode := Some fmode,
         failure_message := Some
           ((if fmode = TIMEOUT
             then ''[FAILURE] Simulation ended gracefully due to timeout ['' @ timeout_text (timeout_s trr) @
                  ''s].'' @ [newline]
             else [newline] @ ''[FAILED]: error seen in '' @ [CHR 0x27] @ path_name log_path @ [CHR 0x27, newline])
            @ extract_text uvm_log_lines)\<rparr>"

definition check_log :: "(path \<Rightarrow> string option) \<Rightarrow> test_run_result \<Rightarrow> log_error + test_run_result" where
  "check_log read_file trr =
     (case rtl_log trr of
        None \<Rightarrow> Inl Type_err
      | Some log_path \<Rightarrow>
          (case read_file log_path of
             None \<Rightarrow> Inr (fail_with FILE_ERROR (''[FAILED] Could not open simulation log: '' @
                       path_str log_path @ [newline]) trr)
           | Some log \<Rightarrow> ebind (check_ibex_uvm_log log) (\<lambda>(uvm_pass, uvm_log_lines, fmode).
               Inr (if uvm_pass then trr\<lparr>passed := Some True\<rparr>
                    else uvm_failure trr log_path uvm_log_lines fmode))))"

definition compare_test_run :: "(path \<Rightarrow> string option) \<Rightarrow> test_run_result \<Rightarrow> log_error + test_run_result" where
  "compare_test_run read_file trr =
     (if failure_mode trr = Some TIMEOUT then Inr (trr\<lparr>passed := Some False\<rparr>)
      else case rtl_trace trr of
             None \<Rightarrow> Inl Type_err
           | Some trace_path \<Rightarrow>
               (case process_ibex_sim_log (read_file trace_path) True of
                  Inl (Runtime e) \<Rightarrow>
                    Inr (fail_with FILE_ERROR (''[FAILED]: Processing the ibex trace failed: '' @ e @ [newline]) trr)
                | Inl e \<Rightarrow> Inl e
                | Inr rows \<Rightarrow> check_log read_file trr))"

text \<open>\<open>_main\<close>: the result is loaded, checked and exported again.\<close>

definition check_logs_main :: "(path \<Rightarrow> path) \<Rightarrow> (path \<Rightarrow> string option) \<Rightarrow> path \<Rightarrow> string \<times> int \<Rightarrow>
    test_run_result store \<Rightarrow> (script_error + log_error) + test_run_result store" where
  "check_logs_main resolve read_file dir_metadata tds st =
     (case trr_from_metadata_dir st dir_metadata (tds_str (fst tds) (snd tds)) of
        Inl e \<Rightarrow> Inl (Inl e)
      | Inr t \<Rightarrow>
          (case compare_test_run read_file t of
             Inl e \<Rightarrow> Inl (Inr e)
           | Inr t' \<Rightarrow> (case trr_export resolve t' st of Inl e \<Rightarrow> Inl (Inl e) | Inr st' \<Rightarrow> Inr st')))"

section \<open>Properties\<close>

lemma fail_with_passed [simp]: "passed (fail_with m msg t) = Some False"
  by (simp add: fail_with_def)

lemma uvm_failure_passed [simp]: "passed (uvm_failure t p ls m) = passed t"
  by (simp add: uvm_failure_def)

lemma check_log_passed:
  assumes "check_log read_file t = Inr t'" and "passed t \<noteq> Some True"
  shows "passed t' = Some True \<longleftrightarrow>
    (\<exists>p log. rtl_log t = Some p \<and> read_file p = Some log \<and>
       list_ex is_pass_line (file_lines log) \<and> \<not> list_ex is_fail_line (file_lines log) \<and>
       \<not> list_ex is_error_line (before_result (file_lines log)))"
proof (cases "\<exists>p log. rtl_log t = Some p \<and> read_file p = Some log")
  case True
  then obtain p log where p: "rtl_log t = Some p" "read_file p = Some log" by blast
  then obtain b ls m where v: "check_ibex_uvm_log log = Inr (b, ls, m)"
      "t' = (if b then t\<lparr>passed := Some True\<rparr> else uvm_failure t p ls m)"
    using assms(1) by (auto simp: check_log_def raise_simps)
  have "b \<longleftrightarrow> list_ex is_pass_line (file_lines log) \<and> \<not> list_ex is_fail_line (file_lines log) \<and>
      \<not> list_ex is_error_line (before_result (file_lines log))"
    using v(1) check_uvm_log_passed_aux[of log] by (cases b) auto
  then show ?thesis using assms(2) p v(2) by (cases b) auto
next
  case False
  then show ?thesis using assms by (auto simp: check_log_def split: option.splits)
qed

text \<open>
  C24. A test that was not passed before is passed by the check exactly if its simulation was
  not killed, its trace has instructions, and its log reports success and neither failure
  nor an error before the result.
\<close>

theorem compare_test_run_passed:
  assumes "compare_test_run read_file t = Inr t'" and "passed t \<noteq> Some True"
  shows "passed t' = Some True \<longleftrightarrow>
    failure_mode t \<noteq> Some TIMEOUT \<and>
    (\<exists>p rows. rtl_trace t = Some p \<and> process_ibex_sim_log (read_file p) True = Inr rows) \<and>
    (\<exists>p log. rtl_log t = Some p \<and> read_file p = Some log \<and>
       list_ex is_pass_line (file_lines log) \<and> \<not> list_ex is_fail_line (file_lines log) \<and>
       \<not> list_ex is_error_line (before_result (file_lines log)))"
  using assms
  by (auto simp: compare_test_run_def check_log_passed split: if_splits option.splits sum.splits log_error.splits)

definition fresh_result :: test_run_result where
  "fresh_result = new_result\<lparr>rtl_trace := Some (path_of ''trace''), rtl_log := Some (path_of ''log'')\<rparr>"

definition files :: "string \<Rightarrow> path \<Rightarrow> string option" where
  "files log p = (if p = path_of ''trace'' then Some ibex_line else if p = path_of ''log'' then Some log else None)"

lemma compare_fresh: "compare_test_run (files ''RISC-V UVM TEST PASSED'') fresh_result =
    Inr (fresh_result\<lparr>passed := Some True\<rparr>)"
  by code_simp

lemma compare_test_run_passed_witness:
  "passed (fresh_result\<lparr>passed := Some True\<rparr>) = Some True \<longleftrightarrow>
    failure_mode fresh_result \<noteq> Some TIMEOUT \<and>
    (\<exists>p rows. rtl_trace fresh_result = Some p \<and>
       process_ibex_sim_log (files ''RISC-V UVM TEST PASSED'' p) True = Inr rows) \<and>
    (\<exists>p log. rtl_log fresh_result = Some p \<and> files ''RISC-V UVM TEST PASSED'' p = Some log \<and>
       list_ex is_pass_line (file_lines log) \<and> \<not> list_ex is_fail_line (file_lines log) \<and>
       \<not> list_ex is_error_line (before_result (file_lines log)))"
  by (rule compare_test_run_passed[OF compare_fresh]) code_simp

text \<open>
  A result that was passed stays passed when the check of its log fails: that branch
  records the failure mode and leaves \<open>passed\<close> as it was.
\<close>

theorem compare_test_run_stale_pass:
  "map_sum id (\<lambda>t. (passed t, failure_mode t))
     (compare_test_run (files ''UVM_ERROR'') (fresh_result\<lparr>passed := Some True\<rparr>)) =
   Inr (Some True, Some LOG_ERROR)"
  by code_simp

end
