(* ===== verification/RunRtl.thy ===== *)
theory RunRtl
  imports CompileTest CheckLogs
begin

text \<open>
  \<^verbatim>\<open>run_rtl.py\<close>: the simulation of a test.  The options of the test and of the configuration
  fill the template of the simulator; the commands run one after another, whatever they return,
  until one runs out of time.  The log of their streams, which is opened anew and gets a line
  before each of them, belongs to what the commands leave in the files.
\<close>

section \<open>Options\<close>

definition test_options :: "(path \<Rightarrow> script_error + test_entry list) \<Rightarrow> regression_metadata \<Rightarrow>
    test_run_result \<Rightarrow> step_error + test_entry" where
  "test_options read_testlist m t =
     (case testtype t of
        Some RISCVDV \<Rightarrow>
          (case ebind (read_testlist (md_ibex_riscvdv_testlist m))
                  (\<lambda>es. ebind (of_option (Type_error ''testname'') (testname t)) (\<lambda>n. get_test_entry n es)) of
             Inl e \<Rightarrow> Inl (Md (Script e)) | Inr d \<Rightarrow> Inr d)
      | Some DIRECTED \<Rightarrow>
          (case directed_data t of None \<Rightarrow> Inl (Md (Script (Type_error ''directed_data''))) | Some d \<Rightarrow> Inr d)
      | None \<Rightarrow> Inl (Unbound ''testopts''))"

text \<open>\<open>d.get(k) or default\<close>\<close>

definition get_or :: "test_entry \<Rightarrow> string \<Rightarrow> pyval \<Rightarrow> pyval" where
  "get_or d k dflt =
     (case dict_get d k of None \<Rightarrow> dflt | Some v \<Rightarrow> if truthy v then v else dflt)"

definition test_sim_opts :: "test_entry \<Rightarrow> script_error + string" where
  "test_sim_opts d =
     (case get_or d ''sim_opts'' PNone of
        PNone \<Rightarrow> Inr [] | PStr s \<Rightarrow> Inr (replace [newline] [] s) | _ \<Rightarrow> Inl (Type_error ''sim_opts''))"

definition ddm_plusargs :: "test_run_result \<Rightarrow> string" where
  "ddm_plusargs t =
     (if testtype t = Some RISCVDV \<and> is_discrete_debug_module t = Some True
      then concat (map (\<lambda>(k, p). '' +'' @ k @ ''='' @ path_or_None p @ [newline])
             [(''vmem_main'', vmem_main t), (''vmem_dm'', vmem_dm t), (''bin_main'', binary_main t), (''bin_dm'', binary_dm t)])
      else [])"

text \<open>The result with what the test and the metadata say of its simulation.\<close>

definition prepare_result :: "regression_metadata \<Rightarrow> test_entry \<Rightarrow> path \<Rightarrow> test_run_result \<Rightarrow>
    script_error + test_run_result" where
  "prepare_result m d dir t =
     ebind (of_option (Key_error ''rtl_test'') (dict_get d ''rtl_test'')) (\<lambda>r.
       Inr (t\<lparr>rtl_test := Some r, timeout_s := Some (get_or d ''timeout_s'' (PInt (md_run_rtl_timeout_s m))),
              ddm_sim_opts := Some (PStr (ddm_plusargs t)), rtl_log := Some (child_of dir ''rtl_sim.log''),
              rtl_trace := Some (child_of dir ''trace_core_00000000.log''),
              iss_cosim_trace := Some (child_of dir (md_iss m @ ''_cosim_trace_core_00000000.log''))\<rparr>))"

definition sim_vars :: "regression_metadata \<Rightarrow> test_run_result \<Rightarrow> path \<Rightarrow> string \<Rightarrow> string \<Rightarrow>
    script_error + (string \<times> (string + path)) list" where
  "sim_vars m t dir config_opts opts =
     ebind (of_option (Type_error ''test_name'') (testname t)) (\<lambda>name.
     ebind (case rtl_test t of Some (PStr s) \<Rightarrow> Inr s | _ \<Rightarrow> Inl (Type_error ''rtl_test'')) (\<lambda>rtl.
     ebind (of_option (Type_error ''binary'') (test_run_result.binary t)) (\<lambda>bin.
     Inr [(''cwd'', Inr (md_ibex_root m)), (''test_name'', Inl name), (''rtl_test'', Inl rtl),
          (''seed'', Inl (opt_int_str (seed t))), (''binary'', Inr bin), (''test_dir'', Inr dir),
          (''tb_dir'', Inr (md_dir_tb m)), (''dir_shared_cov'', Inr (md_dir_shared_cov m)),
          (''rtl_sim_log'', Inr (child_of dir ''rtl_sim.log'')), (''rtl_trace'', Inr (child_of dir ''trace_core'')),
          (''iss_cosim_trace'', Inr (child_of dir (md_iss m @ ''_cosim_trace_core_00000000.log''))),
          (''core_ibex'', Inr (md_ibex_dv_root m)),
          (''sim_opts'', Inl (''+signature_addr='' @ md_signature_addr m @ [newline] @
             ''+test_timeout_s='' @ (case timeout_s t of None \<Rightarrow> ''None'' | Some v \<Rightarrow> py_str v) @ [newline] @
             config_opts @ [newline] @
             (case ddm_sim_opts t of Some (PStr s) \<Rightarrow> s | _ \<Rightarrow> []) @ opts))])))"

definition sim_enables :: "regression_metadata \<Rightarrow> string \<rightharpoonup> bool" where
  "sim_enables m = [''cov_opts'' \<mapsto> md_cov m, ''wave_opts'' \<mapsto> md_waves m]"

section \<open>Running\<close>

text \<open>Whether a command ran out of time, and the files the commands left.\<close>

fun run_until_timeout :: "exec \<Rightarrow> bool \<Rightarrow> redirect \<Rightarrow> string list list \<Rightarrow> files \<Rightarrow> script_error + bool \<times> files" where
  "run_until_timeout exec verbose r [] fs = Inr (False, fs)"
| "run_until_timeout exec verbose r (cmd # cmds) fs =
     (case exec cmd fs of (outcome, fs') \<Rightarrow>
        (case status (run_one verbose cmd r True outcome) of
           Inl Timeout_expired \<Rightarrow> Inr (True, fs')
         | Inl e \<Rightarrow> Inl e
         | Inr rc \<Rightarrow> run_until_timeout exec verbose r cmds fs'))"

definition killed :: "regression_metadata \<Rightarrow> test_run_result \<Rightarrow> test_run_result" where
  "killed m t =
     t\<lparr>failure_mode := Some TIMEOUT,
       failure_message := Some (''[FAILURE] Simulation process killed due to timeout ['' @
         show_int (md_run_rtl_timeout_s m + 60) @ ''s].'' @ [newline])\<rparr>"

record sim_env =
  se_exec :: exec
  se_resolve :: "path \<Rightarrow> path"
  se_environ :: "string \<rightharpoonup> string"
  se_read_file :: "string \<Rightarrow> string option"
  se_yaml_load :: "string \<Rightarrow> pyval option"
  se_ibex_root :: string
  se_testlist :: "path \<Rightarrow> script_error + test_entry list"
  se_sim_yaml :: "test_entry list"

definition md_lift :: "md_error + 'a \<Rightarrow> step_error + 'a" where
  "md_lift x = (case x of Inl e \<Rightarrow> Inl (Md e) | Inr y \<Rightarrow> Inr y)"

definition sc_lift :: "script_error + 'a \<Rightarrow> step_error + 'a" where
  "sc_lift x = (case x of Inl e \<Rightarrow> Inl (Md (Script e)) | Inr y \<Rightarrow> Inr y)"

definition cmd_lift :: "cmd_error + 'a \<Rightarrow> step_error + 'a" where
  "cmd_lift x = (case x of Inl e \<Rightarrow> Inl (Md (Cmd e)) | Inr y \<Rightarrow> Inr y)"

text \<open>The commands of the simulation and the result that names them.\<close>

definition sim_commands :: "sim_env \<Rightarrow> regression_metadata \<Rightarrow> test_run_result \<Rightarrow>
    step_error + string list list \<times> path \<times> test_run_result" where
  "sim_commands env m t =
     ebind (test_options (se_testlist env) m t) (\<lambda>d.
     ebind (sc_lift (of_option (Type_error ''dir_test'') (dir_test t))) (\<lambda>dir.
     ebind (sc_lift (test_sim_opts d)) (\<lambda>opts.
     ebind (sc_lift (prepare_result m d dir t)) (\<lambda>t1.
     ebind (cmd_lift (get_sim_opts (se_read_file env) (se_yaml_load env) (se_environ env) (se_ibex_root env)
              (md_ibex_config m) (md_simulator m))) (\<lambda>config_opts.
     ebind (sc_lift (sim_vars m t1 dir config_opts opts)) (\<lambda>vars.
     ebind (md_lift (get_tool_cmds (se_resolve env) (se_environ env) (se_sim_yaml env) (md_simulator m) ''sim''
              (sim_enables m) vars)) (\<lambda>sim_cmds.
     ebind (sc_lift (emap (\<lambda>cmd. format_to_cmd (se_resolve env) (words_cmd cmd)) sim_cmds)) (\<lambda>cmds.
     let stdout = child_of dir ''rtl_sim_stdstreams.log''
     in Inr (cmds, stdout,
          t1\<lparr>rtl_cmds := Some cmds, rtl_stdout := Some stdout,
             rtl_log := (if md_simulator m = ''vcs'' then Some stdout else rtl_log t1)\<rparr>)))))))))"

definition run_rtl :: "sim_env \<Rightarrow> regression_metadata store \<Rightarrow> path \<Rightarrow> string \<times> int \<Rightarrow> gen_state \<Rightarrow>
    step_error + int \<times> gen_state" where
  "run_rtl env mds dir_metadata tds st =
     ebind (sc_lift (md_from_metadata_dir mds dir_metadata)) (\<lambda>m.
     ebind (sc_lift (trr_from_metadata_dir (gen_results st) dir_metadata (tds_str (fst tds) (snd tds)))) (\<lambda>t.
     ebind (sim_commands env m t) (\<lambda>(cmds, stdout, t1).
     ebind (sc_lift (trr_export (se_resolve env) t1 (gen_results st))) (\<lambda>results.
     ebind (sc_lift (run_until_timeout (se_exec env) (md_verbose m) (Redirect_file (path_str stdout) False) cmds (gen_files st)))
       (\<lambda>(timed_out, fs).
     ebind (sc_lift (trr_export (se_resolve env) (if timed_out then killed m t1 else t1) results)) (\<lambda>results'.
       Inr (0, st\<lparr>made_dirs := the (dir_test t) # made_dirs st, gen_files := fs, gen_results := results'\<rparr>)))))))"

section \<open>Properties\<close>

lemma lifts_Inr [simp]:
  "md_lift x = Inr y \<longleftrightarrow> x = Inr y" "sc_lift z = Inr w \<longleftrightarrow> z = Inr w" "cmd_lift u = Inr v \<longleftrightarrow> u = Inr v"
  by (simp_all add: md_lift_def sc_lift_def cmd_lift_def split: sum.split)

text \<open>A command that runs out of time is the last that runs.\<close>

lemma run_until_timeout_stops:
  assumes "run_until_timeout exec v (Redirect_file n False) cmds fs = Inr (timed_out, fs')"
  shows "timed_out \<longleftrightarrow> (\<exists>before cmd after fs1. cmds = before @ cmd # after \<and>
    run_until_timeout exec v (Redirect_file n False) before fs = Inr (False, fs1) \<and> exec cmd fs1 = (Timed_out, fs'))"
  using assms
proof (induction cmds arbitrary: fs)
  case Nil
  then show ?case by simp
next
  case (Cons c cmds)
  obtain out fs1 where x: "exec c fs = (out, fs1)" by (cases "exec c fs")
  have st: "status (run_one v c (Redirect_file n False) True w) = run_status True w" for w
    by (simp add: run_one_def bad_redirect_def)
  show ?case
  proof (cases "out = Timed_out")
    case True
    then have "timed_out" "fs' = fs1" using Cons.prems x by (auto simp: st run_status_def)
    then have "c # cmds = [] @ c # cmds \<and> run_until_timeout exec v (Redirect_file n False) [] fs = Inr (False, fs) \<and>
        exec c fs = (Timed_out, fs')"
      using True x by simp
    then show ?thesis using \<open>timed_out\<close> by blast
  next
    case False
    then have rest: "run_until_timeout exec v (Redirect_file n False) cmds fs1 = Inr (timed_out, fs')"
      using Cons.prems x by (cases out) (auto simp: st run_status_def)
    have step: "run_until_timeout exec v (Redirect_file n False) (c # ws) fs =
        run_until_timeout exec v (Redirect_file n False) ws fs1" for ws
      using x False by (cases out) (auto simp: st run_status_def)
    show ?thesis
    proof
      assume "timed_out"
      then obtain before cmd after fs2 where "cmds = before @ cmd # after"
          "run_until_timeout exec v (Redirect_file n False) before fs1 = Inr (False, fs2)" "exec cmd fs2 = (Timed_out, fs')"
        using Cons.IH[OF rest] by blast
      then show "\<exists>before cmd after fs1. c # cmds = before @ cmd # after \<and>
          run_until_timeout exec v (Redirect_file n False) before fs = Inr (False, fs1) \<and> exec cmd fs1 = (Timed_out, fs')"
        using step by (metis append_Cons)
    next
      assume "\<exists>before cmd after fs1. c # cmds = before @ cmd # after \<and>
          run_until_timeout exec v (Redirect_file n False) before fs = Inr (False, fs1) \<and> exec cmd fs1 = (Timed_out, fs')"
      then obtain before cmd after fs2 where s: "c # cmds = before @ cmd # after"
          "run_until_timeout exec v (Redirect_file n False) before fs = Inr (False, fs2)" "exec cmd fs2 = (Timed_out, fs')"
        by blast
      show "timed_out"
      proof (cases before)
        case Nil
        then show ?thesis using s x False by simp
      next
        case (Cons b bs)
        then show ?thesis using Cons.IH[OF rest] s step by auto
      qed
    qed
  qed
qed

lemma sim_commands_result:
  assumes "sim_commands env m t = Inr (cmds, stdout, t1)"
  shows "pickle_file t1 = pickle_file t" "failure_mode t1 = failure_mode t" "rtl_cmds t1 = Some cmds"
    "rtl_stdout t1 = Some stdout" "yaml_file t1 = yaml_file t" "dir_test t1 = dir_test t"
  using assms by (auto simp: sim_commands_def prepare_result_def Let_def raise_simps)

lemma trr_save_from_dir:
  assumes "trr_export resolve t st = Inr st'" "pickle_file t = Some (child_of dir_metadata (tds @ ''.pickle''))"
  shows "trr_from_metadata_dir st' dir_metadata tds = Inr t"
  using trr.save_load[OF assms(1)] assms(2) by (simp add: trr_from_metadata_dir_def)

text \<open>
  C17. The step always ends with zero, and the result it stores holds the commands it ran; when
  one of them, the last that ran, was killed for its time, the check of the logs fails the test
  whatever the logs say, and otherwise the failure mode is what it was.
\<close>

theorem timeout_reported:
  assumes "run_rtl env mds dir_metadata tds st = Inr (rc, st')"
    and "trr_from_metadata_dir (gen_results st) dir_metadata (tds_str (fst tds) (snd tds)) = Inr t"
    and "pickle_file t = Some (child_of dir_metadata (tds_str (fst tds) (snd tds) @ ''.pickle''))"
  shows "rc = 0 \<and> (\<exists>m t' cmds r timed_out. md_from_metadata_dir mds dir_metadata = Inr m \<and>
    trr_from_metadata_dir (gen_results st') dir_metadata (tds_str (fst tds) (snd tds)) = Inr t' \<and>
    rtl_cmds t' = Some cmds \<and>
    run_until_timeout (se_exec env) (md_verbose m) r cmds (gen_files st) = Inr (timed_out, gen_files st') \<and>
    (if timed_out then \<forall>read_file. compare_test_run read_file t' = Inr (t'\<lparr>passed := Some False\<rparr>)
     else failure_mode t' = failure_mode t))"
proof -
  obtain m cmds stdout t1 results timed_out fs results' where r: "rc = 0"
      "md_from_metadata_dir mds dir_metadata = Inr m" "sim_commands env m t = Inr (cmds, stdout, t1)"
      "run_until_timeout (se_exec env) (md_verbose m) (Redirect_file (path_str stdout) False) cmds (gen_files st) =
         Inr (timed_out, fs)"
      "trr_export (se_resolve env) (if timed_out then killed m t1 else t1) results = Inr results'"
      "gen_results st' = results'" "gen_files st' = fs"
    using assms(1,2) by (auto simp: run_rtl_def raise_simps split: prod.splits)
  let ?t = "if timed_out then killed m t1 else t1"
  note c = sim_commands_result[OF r(3)]
  have "trr_from_metadata_dir results' dir_metadata (tds_str (fst tds) (snd tds)) = Inr ?t"
    by (rule trr_save_from_dir[OF r(5)]) (simp add: killed_def c assms(3))
  moreover have "rtl_cmds ?t = Some cmds" by (simp add: killed_def c)
  moreover have "if timed_out then \<forall>read_file. compare_test_run read_file ?t = Inr (?t\<lparr>passed := Some False\<rparr>)
      else failure_mode ?t = failure_mode t"
    by (simp add: killed_def compare_test_run_def c)
  ultimately show ?thesis using r by blast
qed

definition demo_rtl_env :: "exec \<Rightarrow> sim_env" where
  "demo_rtl_env exec = \<lparr>se_exec = exec, se_resolve = id, se_environ = [''TOOLS'' \<mapsto> ''/tools''],
     se_read_file = (\<lambda>f. None), se_yaml_load = (\<lambda>s. None), se_ibex_root = ''/ibex'',
     se_testlist = (\<lambda>p. Inr []), se_sim_yaml = demo_sim_yaml\<rparr>"

definition demo_rtl_result :: test_run_result where
  "demo_rtl_result = new_result\<lparr>testtype := Some DIRECTED, testname := Some ''t'', seed := Some 3,
     test_run_result.binary := Some (path_of ''/t/test.bin''), dir_test := Some (path_of ''/t''),
     directed_data := Some [(PStr ''rtl_test'', PStr ''base''), (PStr ''timeout_s'', PInt 300)],
     pickle_file := Some (path_of ''/md/t.3.pickle''), yaml_file := Some (path_of ''/t/trr.yaml'')\<rparr>"

definition demo_rtl_state :: gen_state where
  "demo_rtl_state = \<lparr>made_dirs = [], gen_files = Map.empty,
     gen_results = \<lparr>pickles = [(path_of ''/md/t.3.pickle'', demo_rtl_result)], yamls = []\<rparr>\<rparr>"

abbreviation demo_rtl where
  "demo_rtl \<equiv> run_rtl (demo_rtl_env (\<lambda>cmd fs. (Timed_out, fs)))
     \<lparr>pickles = [(path_of ''/md/metadata.pickle'', demo_gen_metadata)], yamls = []\<rparr>
     (path_of ''/md'') (''t'', 3) demo_rtl_state"

lemma demo_sim_commands:
  "case sim_commands (demo_rtl_env exec) demo_gen_metadata demo_rtl_result of Inr x \<Rightarrow> True | Inl _ \<Rightarrow> False"
  by code_simp

lemma demo_rtl_ok: "\<exists>st'. demo_rtl = Inr (0, st')"
proof -
  let ?env = "demo_rtl_env (\<lambda>cmd fs. (Timed_out, fs))"
  obtain cmds stdout t1 where c: "sim_commands ?env demo_gen_metadata demo_rtl_result = Inr (cmds, stdout, t1)"
    using demo_sim_commands[of "\<lambda>cmd fs. (Timed_out, fs)"] by (auto split: sum.splits)
  have f: "pickle_file t1 = Some (path_of ''/md/t.3.pickle'')" "yaml_file t1 = Some (path_of ''/t/trr.yaml'')"
      "dir_test t1 = Some (path_of ''/t'')"
    using sim_commands_result[OF c] by (simp_all add: demo_rtl_result_def)
  have ex: "\<exists>x. trr_export id (if b then killed m t1 else t1) s = Inr x" for b m s
    by (rule trr_export_total) (simp_all add: f killed_def)
  have md: "md_from_metadata_dir \<lparr>pickles = [(path_of ''/md/metadata.pickle'', demo_gen_metadata)], yamls = []\<rparr>
      (path_of ''/md'') = Inr demo_gen_metadata"
    by (simp add: md_from_metadata_dir_def construct_from_pickle_def) code_simp
  have tr: "trr_from_metadata_dir (gen_results demo_rtl_state) (path_of ''/md'') (tds_str ''t'' 3) = Inr demo_rtl_result"
    by (simp add: trr_from_metadata_dir_def construct_from_pickle_def demo_rtl_state_def) code_simp
  have run: "\<exists>x. run_until_timeout (\<lambda>cmd fs. (Timed_out, fs)) v (Redirect_file n False) cmds fs = Inr x" for v n fs
    by (cases cmds) (auto simp: run_one_def bad_redirect_def run_status_def)
  obtain b fs where r: "run_until_timeout (\<lambda>cmd fs. (Timed_out, fs)) (md_verbose demo_gen_metadata)
      (Redirect_file (path_str stdout) False) cmds (gen_files demo_rtl_state) = Inr (b, fs)"
    using run by (metis surj_pair)
  obtain res1 where e1: "trr_export id t1 (gen_results demo_rtl_state) = Inr res1"
    using ex[of False] by auto
  obtain res2 where e2: "trr_export id (if b then killed demo_gen_metadata t1 else t1) res1 = Inr res2"
    using ex by blast
  have env: "se_resolve ?env = id" "se_exec ?env = (\<lambda>cmd fs. (Timed_out, fs))" by (simp_all add: demo_rtl_env_def)
  show ?thesis
    using md tr c r e1 e2 by (simp add: run_rtl_def env sc_lift_def)
qed

lemma timeout_reported_witness:
  "\<exists>st'. demo_rtl = Inr (0, st') \<and> (\<exists>m t' cmds r timed_out.
     md_from_metadata_dir \<lparr>pickles = [(path_of ''/md/metadata.pickle'', demo_gen_metadata)], yamls = []\<rparr> (path_of ''/md'')
       = Inr m \<and>
     trr_from_metadata_dir (gen_results st') (path_of ''/md'') (tds_str ''t'' 3) = Inr t' \<and> rtl_cmds t' = Some cmds \<and>
     run_until_timeout (\<lambda>cmd fs. (Timed_out, fs)) (md_verbose m) r cmds Map.empty = Inr (timed_out, gen_files st') \<and>
     (if timed_out then \<forall>read_file. compare_test_run read_file t' = Inr (t'\<lparr>passed := Some False\<rparr>)
      else failure_mode t' = failure_mode demo_rtl_result))"
proof -
  obtain st' where st': "demo_rtl = Inr (0, st')"
    using demo_rtl_ok by blast
  have 1: "trr_from_metadata_dir (gen_results demo_rtl_state) (path_of ''/md'') (tds_str (fst (''t'', 3)) (snd (''t'', 3)))
      = Inr demo_rtl_result"
    by code_simp
  have 2: "pickle_file demo_rtl_result =
      Some (child_of (path_of ''/md'') (tds_str (fst (''t'', 3)) (snd (''t'', 3)) @ ''.pickle''))"
    by code_simp
  show ?thesis
    using timeout_reported[OF st' 1 2] st' by (simp add: demo_rtl_env_def demo_rtl_state_def)
qed

end
