(* ===== verification/Builds.thy ===== *)
theory Builds
  imports RunRtl
begin

text \<open>
  The steps around the simulations: \<^verbatim>\<open>compile_tb.py\<close> and \<^verbatim>\<open>build_instr_gen.py\<close> build the test
  bench and the instruction generator, \<^verbatim>\<open>get_fcov.py\<close> and \<^verbatim>\<open>merge_cov.py\<close> collect coverage, and
  \<^verbatim>\<open>render_config_template.py\<close> fills a template.  Each loads the metadata under its lock, notes
  there what it is about to run and runs it.
\<close>

section \<open>Steps with state\<close>

datatype build_error =
    In_md md_error
  | Called_process_error "string list"
  | Attribute_error string
  | Not_iterable
  | Zero_division
  | Report_type_error string
  | Report_key_error string
  | Report_value_error string
  | Report_index_error
  | Report_runtime_error string
  | No_file string

record build_state =
  bs_dirs :: "path list"
  bs_files :: files
  bs_md :: "regression_metadata store"

text \<open>
  The outside: next to that of a simulation, \<^verbatim>\<open>pkg-config\<close> (\<open>None\<close> when it fails), the search
  for files by a pattern, commands that get an environment of their own, and the template engine.
\<close>

record build_env = sim_env +
  be_pkg_config :: "string list \<Rightarrow> string option"
  be_glob :: "path \<Rightarrow> string \<Rightarrow> path list"
  be_env_exec :: "(string \<rightharpoonup> string) \<Rightarrow> exec"
  be_render :: "string \<Rightarrow> config \<Rightarrow> string"

type_synonym 'a build_step = "build_state \<Rightarrow> (build_error + 'a) \<times> build_state"

definition sbind :: "'a build_step \<Rightarrow> ('a \<Rightarrow> 'b build_step) \<Rightarrow> 'b build_step" where
  "sbind s f st = (case s st of (Inl e, st') \<Rightarrow> (Inl e, st') | (Inr a, st') \<Rightarrow> f a st')"

definition raise_or :: "build_error + 'a \<Rightarrow> 'a build_step" where
  "raise_or x st = (x, st)"

definition bmd :: "md_error + 'a \<Rightarrow> build_error + 'a" where
  "bmd x = (case x of Inl e \<Rightarrow> Inl (In_md e) | Inr y \<Rightarrow> Inr y)"

definition bscript :: "script_error + 'a \<Rightarrow> build_error + 'a" where
  "bscript x = bmd (lift Script x)"

text \<open>A block under the lock gives back the record as it leaves it; what fails inside is exported too.\<close>

definition locked :: "build_env \<Rightarrow> path \<Rightarrow>
    (regression_metadata \<Rightarrow> build_state \<Rightarrow> (build_error option \<times> regression_metadata) \<times> build_state) \<Rightarrow>
    regression_metadata build_step" where
  "locked env dir body st =
     (case md_from_metadata_dir (bs_md st) dir of
        Inl e \<Rightarrow> (Inl (In_md (Script e)), st)
      | Inr m \<Rightarrow>
          (case body m st of ((err, m'), st') \<Rightarrow>
             (case locked_metadata (se_resolve env) dir (\<lambda>_. (err, m')) (bs_md st') of
                (Inl e, mst) \<Rightarrow> (Inl (In_md (Script e)), st'\<lparr>bs_md := mst\<rparr>)
              | (Inr (Some e), mst) \<Rightarrow> (Inl e, st'\<lparr>bs_md := mst\<rparr>)
              | (Inr None, mst) \<Rightarrow> (Inr m', st'\<lparr>bs_md := mst\<rparr>))))"

definition mkdir :: "path \<Rightarrow> build_state \<Rightarrow> build_state" where
  "mkdir p st = st\<lparr>bs_dirs := p # bs_dirs st\<rparr>"

definition run_cmds :: "exec \<Rightarrow> bool \<Rightarrow> redirect \<Rightarrow> string list list \<Rightarrow> int build_step" where
  "run_cmds exec verbose r cmds st =
     (case run_in_order exec verbose r cmds (bs_files st) of
        Inl e \<Rightarrow> (Inl (In_md (Script e)), st)
      | Inr (rc, fs) \<Rightarrow> (Inr rc, st\<lparr>bs_files := fs\<rparr>))"

section \<open>The test bench\<close>

definition rpath_prefix :: string where "rpath_prefix = ''-Wl,-rpath,''"

definition fixup_rpath :: "string \<Rightarrow> string \<Rightarrow> string" where
  "fixup_rpath simulator t =
     (if simulator = ''xlm'' \<and> prefix rpath_prefix t
      then let rpaths = split_on CHR '','' (drop (length rpath_prefix) t)
           in ''-Wld,-Xlinker,-rpath,'' @ join '','' (map (\<lambda>p. ''-Xlinker,'' @ p) rpaths)
      else t)"

definition pkgconfig_tokens :: "(string list \<Rightarrow> string option) \<Rightarrow> string list \<Rightarrow> string \<Rightarrow> string \<Rightarrow>
    build_error + string list" where
  "pkgconfig_tokens pkg iss_pc simulator s =
     (let cmd = ''pkg-config'' # s # iss_pc
      in ebind (of_option (Called_process_error cmd) (pkg cmd)) (\<lambda>out.
         ebind (bmd (lift Shell (shlex_split (strip out)))) (\<lambda>ts. Inr (map (fixup_rpath simulator) ts))))"

definition get_iss_pkgconfig_flags :: "(string list \<Rightarrow> string option) \<Rightarrow> string list \<Rightarrow> string list \<Rightarrow> string \<Rightarrow>
    build_error + string" where
  "get_iss_pkgconfig_flags pkg specifiers iss_pc simulator =
     ebind (emap (pkgconfig_tokens pkg iss_pc simulator) specifiers) (\<lambda>tss. Inr (cmd_line (concat tss)))"

definition expected_env_vars :: "string list" where
  "expected_env_vars = [''PRJ_DIR'', ''LOWRISC_IP_DIR'']"

definition spike_iss_pc :: "string list" where
  "spike_iss_pc = [''riscv-riscv'', ''riscv-disasm'', ''riscv-fdt'', ''riscv-fesvr'']"

definition iss_pkgconfig_dict :: "(string \<times> string list) list" where
  "iss_pkgconfig_dict =
     [(''ISS_CFLAGS'', [''--cflags'']), (''ISS_LDFLAGS'', [''--libs-only-other'']),
      (''ISS_LIBS'', [''--libs-only-l'', ''--libs-only-L''])]"

definition tb_defines :: string where
  "tb_defines =
     '' +define+DM_ADDR=1A11_0000 '' @ '' +define+DM_ADDR_MASK=0000_0FFF'' @ '' +define+BOOT_ADDR=8000_0000 '' @
     '' +define+DEBUG_MODE_HALT_ADDR=8000_0000 '' @ '' +define+DEBUG_MODE_EXCEPTION_ADDR=8000_0008 ''"

definition tb_vars :: "regression_metadata \<Rightarrow> string \<Rightarrow> (string \<times> string) list \<Rightarrow> (string \<times> (string + path)) list" where
  "tb_vars m cmp_opts flags =
     [(''core_ibex'', Inr (md_ibex_dv_root m)), (''tb_dir'', Inr (md_dir_tb m)),
      (''tb_build_log'', Inr (child_of (md_dir_tb m) ''compile_tb.log'')),
      (''cmp_opts'', Inl (cmp_opts @ tb_defines)),
      (''dir_shared_cov'', if md_cov m then Inr (md_dir_shared_cov m) else Inl []),
      (''xlm_cov_cfg_file'', Inl (path_str (md_ot_xcelium_cov_scripts m) @ ''/cover.ccf'')),
      (''dut_cov_rtl_path'', Inl (md_dut_cov_rtl_path m))] @
     map (\<lambda>(k, v). (k, Inl v)) flags"

definition tb_enables :: "regression_metadata \<Rightarrow> string \<rightharpoonup> bool" where
  "tb_enables m = [''cov_opts'' \<mapsto> md_cov m, ''wave_opts'' \<mapsto> md_waves m, ''cosim_opts'' \<mapsto> True]"

definition tb_subst_vars :: "build_env \<Rightarrow> regression_metadata \<Rightarrow> build_error + (string \<times> (string + path)) list" where
  "tb_subst_vars env m =
     ebind (if be_pkg_config env (''pkg-config'' # ''--exists'' # spike_iss_pc) = None
            then Inl (In_md (Script (Runtime_error
                   (''Failed to find '' @ py_repr (PList (map PStr spike_iss_pc)) @
                    '' pkg-config packages. Did you set the PKG_CONFIG_PATH correctly?''))))
            else Inr ()) (\<lambda>_.
     ebind (emap (\<lambda>(k, v). ebind (get_iss_pkgconfig_flags (be_pkg_config env) v spike_iss_pc (md_simulator m))
                    (\<lambda>s. Inr (k, s))) iss_pkgconfig_dict) (\<lambda>flags.
     ebind (bmd (lift Cmd (get_compile_opts (se_read_file env) (se_yaml_load env) (se_environ env)
              (se_ibex_root env) (md_ibex_config m) (md_simulator m)))) (\<lambda>opts.
       Inr (tb_vars m opts flags))))"

definition compile_tb_body :: "build_env \<Rightarrow> regression_metadata \<Rightarrow> build_state \<Rightarrow>
    (build_error option \<times> regression_metadata) \<times> build_state" where
  "compile_tb_body env m st =
     (let st1 = mkdir (md_dir_tb m) st;
          m1 = m\<lparr>md_tb_build_log := Some (child_of (md_dir_tb m) ''compile_tb.log'')\<rparr>
      in case tb_subst_vars env m1 of
           Inl e \<Rightarrow> ((Some e, m1), st1)
         | Inr vars \<Rightarrow>
             let m2 = m1\<lparr>md_tb_build_stdout := Some (child_of (md_dir_tb m) ''compile_tb_stdstreams.log'')\<rparr>
             in case bmd (get_tool_cmds (se_resolve env) (se_environ env) (se_sim_yaml env) (md_simulator m2)
                            ''compile'' (tb_enables m2) vars) of
                  Inl e \<Rightarrow> ((Some e, m2), st1)
                | Inr cmds \<Rightarrow> ((None, m2\<lparr>md_tb_build_cmds := Some cmds\<rparr>), st1))"

definition compile_tb :: "build_env \<Rightarrow> path \<Rightarrow> int build_step" where
  "compile_tb env dir =
     sbind (raise_or (case List.find (\<lambda>v. se_environ env v = None) expected_env_vars of
              Some v \<Rightarrow> Inl (In_md (Script (Runtime_error
                (''The environment variable '' @ repr_str v @ '' is not set.''))))
            | None \<Rightarrow> Inr ())) (\<lambda>_.
     sbind (locked env dir (compile_tb_body env)) (\<lambda>m.
       run_cmds (se_exec env) (md_verbose m)
         (Redirect_file (path_str (child_of (md_dir_tb m) ''compile_tb_stdstreams.log'')) False)
         (the (md_tb_build_cmds m))))"

section \<open>The instruction generator\<close>

text \<open>What lies under the directory is gone before the commands run.\<close>

definition rmtree :: "path \<Rightarrow> build_state \<Rightarrow> build_state" where
  "rmtree d st = st\<lparr>bs_files := (\<lambda>f. if relative_to (path_of f) d \<noteq> None then None else bs_files st f)\<rparr>"

definition instr_gen_cmd :: "path \<Rightarrow> regression_metadata \<Rightarrow> fmt_value list" where
  "instr_gen_cmd root m =
     get_run_cmd root (md_verbose m) @
     [Val (PStr ''--co''), Val (PStr ''--steps=gen''), Val (PStr ''--simulator''), Val (PStr (md_simulator m)),
      Val (PStr ''--output''), PathV (md_dir_instruction_generator m), Val (PStr ''--isa''),
      Val (opt_pystr (md_isa_ibex m)), Val (PStr ''--end_signature_addr''), Val (PStr (md_signature_addr m))]"

definition build_instr_gen_body :: "build_env \<Rightarrow> regression_metadata \<Rightarrow> build_state \<Rightarrow>
    (build_error option \<times> regression_metadata) \<times> build_state" where
  "build_instr_gen_body env m st =
     (let d = md_dir_instruction_generator m; st1 = mkdir d (rmtree d st);
          m1 = m\<lparr>md_riscvdv_build_stdout := Some (child_of d ''build_stdout.log'')\<rparr>
      in case format_to_cmd (se_resolve env) (instr_gen_cmd (path_of (se_ibex_root env)) m1) of
           Inl e \<Rightarrow> ((Some (In_md (Script e)), m1), st1)
         | Inr cmd \<Rightarrow> ((None, m1\<lparr>md_riscvdv_build_cmds := Some [cmd]\<rparr>), st1))"

definition build_instr_gen :: "build_env \<Rightarrow> path \<Rightarrow> int build_step" where
  "build_instr_gen env dir =
     sbind (locked env dir (build_instr_gen_body env)) (\<lambda>m.
       run_cmds (se_exec env) (md_verbose m)
         (Redirect_path (child_of (md_dir_instruction_generator m) ''build_stdout.log''))
         (the (md_riscvdv_build_cmds m)))"

section \<open>Functional coverage\<close>

text \<open>The record holds texts; a missing instruction set is a word that cannot be quoted when it runs.\<close>

definition get_fcov :: "build_env \<Rightarrow> path \<Rightarrow> int build_step" where
  "get_fcov env dir =
     sbind (locked env dir (\<lambda>m st.
         ((None, m\<lparr>md_riscvdv_fcov_cmds := Some [map str_or_None (get_cov_cmd (path_of (se_ibex_root env)) m)],
                  md_riscvdv_fcov_stdout := Some (child_of (md_dir_fcov m) ''riscvdv_fcov_stdout.log'')\<rparr>),
          mkdir (md_dir_fcov m) st))) (\<lambda>m.
     if md_isa_ibex m = None then raise_or (Inl (In_md (Script (Type_error ''quote''))))
     else run_cmds (se_exec env) (md_verbose m)
            (Redirect_path (child_of (md_dir_fcov m) ''riscvdv_fcov_stdout.log'')) (the (md_riscvdv_fcov_cmds m)))"

section \<open>Merging coverage\<close>

text \<open>The databases, or the status that is returned in their place when there are none.\<close>

definition find_cov_dbs :: "build_env \<Rightarrow> path \<Rightarrow> string \<Rightarrow> int + path list" where
  "find_cov_dbs env start_dir simulator =
     (let dbs = remdups ((if simulator = ''xlm'' then be_glob env start_dir ''**/*.ucd'' else []) @
                         (if simulator = ''vcs'' then be_glob env start_dir ''**/test.vdb'' else []))
      in if dbs = [] then Inl 1 else Inr dbs)"

definition iterate :: "int + path list \<Rightarrow> build_error + path list" where
  "iterate dbs = (case dbs of Inl _ \<Rightarrow> Inl Not_iterable | Inr ps \<Rightarrow> Inr ps)"

definition vcs_merge_cmd :: "regression_metadata \<Rightarrow> path list \<Rightarrow> string list" where
  "vcs_merge_cmd m dbs =
     [''urg'', ''-full64'', ''-format'', ''both'', ''-dbname'', path_str (child_of (md_dir_cov m) ''merged.vdb''),
      ''-report'', path_str (child_of (md_dir_cov m) ''report''),
      ''-log'', path_str (child_of (md_dir_cov m) ''merge.log''), ''-dir''] @ map path_str dbs"

definition merge_cov_vcs :: "build_env \<Rightarrow> regression_metadata \<Rightarrow> int + path list \<Rightarrow> int build_step" where
  "merge_cov_vcs env m cov_dirs =
     sbind (raise_or (iterate cov_dirs)) (\<lambda>dbs.
     sbind (locked env (md_dir_metadata m) (\<lambda>m' st.
         ((None, m'\<lparr>md_cov_merge_log := Some (child_of (md_dir_cov m') ''merge.log''),
                   md_cov_merge_stdout := Some (child_of (md_dir_cov m') ''merge.log.stdout''),
                   md_cov_merge_cmds := Some [vcs_merge_cmd m dbs]\<rparr>), st))) (\<lambda>m'.
       run_cmds (se_exec env) (md_verbose m')
         (Redirect_file (path_str (child_of (md_dir_cov m') ''merge.log.stdout'')) False) [vcs_merge_cmd m dbs]))"

definition xcelium_scripts :: "build_env \<Rightarrow> path" where
  "xcelium_scripts env =
     child_of (child_of (child_of (ot_lowrisc_ip (path_of (se_ibex_root env))) ''dv'') ''tools'') ''xcelium''"

definition xlm_merge_cmd :: "build_env \<Rightarrow> regression_metadata \<Rightarrow> string list" where
  "xlm_merge_cmd env m =
     [''imc'', ''-64bit'', ''-licqueue'', ''-exec'', path_str (child_of (xcelium_scripts env) ''cov_merge.tcl''),
      ''-logfile'', path_str (child_of (md_dir_cov m) ''merge.log'')]"

definition xlm_report_cmd :: "build_env \<Rightarrow> regression_metadata \<Rightarrow> string list" where
  "xlm_report_cmd env m =
     [''imc'', ''-64bit'', ''-licqueue'', ''-load'', path_str (md_dir_cov_merged m),
      ''-init'', path_str (child_of (child_of (md_ibex_dv_root m) ''waivers'') ''coverage_waivers_xlm.tcl''),
      ''-exec'', path_str (child_of (xcelium_scripts env) ''cov_report.tcl''),
      ''-logfile'', path_str (child_of (md_dir_cov m) ''report.log'')]"

definition xlm_update :: "build_env \<Rightarrow> regression_metadata \<Rightarrow> regression_metadata" where
  "xlm_update env m =
     m\<lparr>md_cov_merge_db_list := Some (child_of (md_dir_cov m) ''cov_db_runfile''),
       md_cov_merge_log := Some (child_of (md_dir_cov m) ''merge.log''),
       md_cov_merge_stdout := Some (child_of (md_dir_cov m) ''merge.log.stdout''),
       md_cov_merge_cmds := Some [xlm_merge_cmd env m],
       md_cov_report_log := Some (child_of (md_dir_cov m) ''report.log''),
       md_cov_report_stdout := Some (child_of (md_dir_cov m) ''report.log.stdout''),
       md_cov_report_cmds := Some [xlm_report_cmd env m]\<rparr>"

definition xlm_env :: "build_env \<Rightarrow> regression_metadata \<Rightarrow> string \<rightharpoonup> string" where
  "xlm_env env m =
     (se_environ env)(''cov_merge_db_dir'' \<mapsto> path_str (md_dir_cov_merged m),
        ''cov_report_dir'' \<mapsto> path_str (md_dir_cov_report m), ''cov_db_dirs'' \<mapsto> [],
        ''cov_db_runfile'' \<mapsto> path_str (child_of (md_dir_cov m) ''cov_db_runfile''),
        ''DUT_TOP'' \<mapsto> md_dut_cov_rtl_path m)"

definition run_list :: "path list \<Rightarrow> string" where
  "run_list dbs = join [newline] (map (\<lambda>d. path_str (parent d)) dbs) @ [newline]"

definition merge_rest :: "build_env \<Rightarrow> regression_metadata \<Rightarrow> path list \<Rightarrow> int build_step" where
  "merge_rest env m dbs =
     sbind (\<lambda>st. (Inr (), mkdir (md_dir_cov_merged m)
              (st\<lparr>bs_files := (bs_files st)(path_str (child_of (md_dir_cov m) ''cov_db_runfile'') \<mapsto> run_list dbs)\<rparr>)))
       (\<lambda>_.
     sbind (run_cmds (be_env_exec env (xlm_env env m)) (md_verbose m)
              (Redirect_file (path_str (child_of (md_dir_cov m) ''merge.log.stdout'')) False) [xlm_merge_cmd env m])
       (\<lambda>merge_ret.
     if merge_ret \<noteq> 0 then raise_or (Inr merge_ret)
     else sbind (\<lambda>st. (Inr (), mkdir (md_dir_cov_report m) st)) (\<lambda>_.
          run_cmds (be_env_exec env (xlm_env env m)) (md_verbose m)
            (Redirect_file (path_str (child_of (md_dir_cov m) ''report.log.stdout'')) False)
            [xlm_report_cmd env m])))"

definition merge_cov_xlm :: "build_env \<Rightarrow> regression_metadata \<Rightarrow> int + path list \<Rightarrow> int build_step" where
  "merge_cov_xlm env m0 cov_dbs =
     sbind (locked env (md_dir_metadata m0) (\<lambda>m st. ((None, xlm_update env m), st))) (\<lambda>m.
     sbind (raise_or (iterate cov_dbs)) (merge_rest env m))"

definition merge_cov :: "build_env \<Rightarrow> path \<Rightarrow> int build_step" where
  "merge_cov env dir st =
     (case md_from_metadata_dir (bs_md st) dir of
        Inl e \<Rightarrow> (Inl (In_md (Script e)), st)
      | Inr m \<Rightarrow>
          if md_simulator m \<notin> {''xlm'', ''vcs''} then (Inl (Attribute_error ''simulator''), st)
          else (if md_simulator m = ''vcs'' then merge_cov_vcs else merge_cov_xlm) env m
                 (find_cov_dbs env (md_dir_run m) (md_simulator m)) (mkdir (md_dir_cov m) st))"

section \<open>Templates\<close>

definition render_template :: "build_env \<Rightarrow> string \<Rightarrow> string \<Rightarrow> build_error + string" where
  "render_template env config_name template_filename =
     ebind (bmd (lift Cfg (get_config (se_read_file env) (se_yaml_load env) (se_ibex_root env) config_name)))
       (\<lambda>c. Inr (be_render env template_filename c))"

definition render_config_template :: "build_env \<Rightarrow> path \<Rightarrow> string \<Rightarrow> string build_step" where
  "render_config_template env dir template_filename st =
     (let printed = ebind (bscript (md_from_metadata_dir (bs_md st) dir))
            (\<lambda>m. render_template env (md_ibex_config m) template_filename)
      in case locked env dir (\<lambda>m s. ((case printed of Inl e \<Rightarrow> Some e | Inr _ \<Rightarrow> None, m), s)) st of
           (Inl e, st') \<Rightarrow> (Inl e, st')
         | (Inr m, st') \<Rightarrow> (printed, st'))"

section \<open>Properties\<close>

lemma bmd_Inr [simp]: "bmd x = Inr y \<longleftrightarrow> x = Inr y"
  by (simp add: bmd_def split: sum.split)

lemma lift_eq_Inr [simp]: "lift f x = Inr y \<longleftrightarrow> x = Inr y"
  by (simp add: lift_def split: sum.split)

lemma sbind_Inr: "sbind s f st = (Inr b, st') \<longleftrightarrow> (\<exists>a st1. s st = (Inr a, st1) \<and> f a st1 = (Inr b, st'))"
  by (auto simp: sbind_def split: prod.split sum.split)

text \<open>What the flags mean to the linker: the words the compiler driver passes on.\<close>

fun after_xlinker :: "string list \<Rightarrow> string list" where
  "after_xlinker [] = []"
| "after_xlinker [w] = [w]"
| "after_xlinker (w # v # ws) = (if w = ''-Xlinker'' then v # after_xlinker ws else w # after_xlinker (v # ws))"

definition linker_words :: "string \<Rightarrow> string list" where
  "linker_words t =
     (if prefix ''-Wld,'' t then after_xlinker (split_on CHR '','' (drop 5 t))
      else if prefix ''-Wl,'' t then split_on CHR '','' (drop 4 t)
      else [])"

lemma split_on_xlinker:
  assumes "list_all (\<lambda>p. CHR '','' \<notin> set p) ps" and "ps \<noteq> []"
  shows "split_on CHR '','' (join '','' (map (\<lambda>p. ''-Xlinker,'' @ p) ps)) = concat (map (\<lambda>p. [''-Xlinker'', p]) ps)"
proof -
  have "join '','' (map (\<lambda>p. ''-Xlinker,'' @ p) ps) = join '','' (concat (map (\<lambda>p. [''-Xlinker'', p]) ps))"
    using assms(2)
  proof (induction ps rule: list_nonempty_induct)
    case (cons p ps)
    then show ?case by (cases ps) (simp_all add: join_Cons)
  qed (simp add: join_Cons)
  moreover have "\<forall>w \<in> set (concat (map (\<lambda>p. [''-Xlinker'', p]) ps)). CHR '','' \<notin> set w"
    using assms(1) by (auto simp: list_all_iff)
  ultimately show ?thesis using split_on_join[of "concat (map (\<lambda>p. [''-Xlinker'', p]) ps)"] assms(2) by simp
qed

lemma after_xlinker_pairs: "after_xlinker (concat (map (\<lambda>p. [''-Xlinker'', p]) ps)) = ps"
  by (induction ps) simp_all

lemma split_on_pieces: "list_all (\<lambda>p. c \<notin> set p) (split_on c s)"
  by (induction s) (auto split: list.split)

lemma linker_words_fixup: "linker_words (fixup_rpath simulator t) = linker_words t"
proof (cases "simulator = ''xlm'' \<and> prefix rpath_prefix t")
  case True
  then obtain r where r: "t = ''-Wl,-rpath,'' @ r" by (auto simp: rpath_prefix_def prefix_def)
  let ?ps = "split_on CHR '','' r"
  have "linker_words t = ''-rpath'' # ?ps"
    by (simp add: r linker_words_def split_on_append[of "CHR '',''" "''-rpath''" r, simplified])
  moreover have "fixup_rpath simulator t = ''-Wld,'' @ ''-Xlinker'' @ CHR '','' # ''-rpath'' @ CHR '','' #
      join '','' (map (\<lambda>p. ''-Xlinker,'' @ p) ?ps)"
    using True by (simp add: fixup_rpath_def rpath_prefix_def r) (intro arg_cong[where f = "join _"] map_cong; simp)
  then have "linker_words (fixup_rpath simulator t) =
      after_xlinker (''-Xlinker'' # ''-rpath'' # split_on CHR '','' (join '','' (map (\<lambda>p. ''-Xlinker,'' @ p) ?ps)))"
    using split_on_append[of "CHR '',''" "''-Xlinker''"] split_on_append[of "CHR '',''" "''-rpath''"]
    by (simp add: linker_words_def)
  ultimately show ?thesis
    using split_on_xlinker[OF split_on_pieces split_on_nonempty, of r] by (simp add: after_xlinker_pairs)
qed (auto simp: fixup_rpath_def)

lemma list_all2_choice:
  "list_all2 (\<lambda>x y. \<exists>z. y = h z \<and> Q x z) xs ys \<Longrightarrow> \<exists>zs. ys = map h zs \<and> list_all2 Q xs zs"
proof (induction rule: list_all2_induct)
  case (Cons x xs y ys)
  then obtain z zs where "y = h z" "Q x z" "ys = map h zs" "list_all2 Q xs zs" by blast
  then show ?case by (intro exI[of _ "z # zs"]) simp
qed simp

text \<open>
  The flags that are passed to the compile command read back, by the quoting rules of a
  shell, as the tokens that \<^verbatim>\<open>pkg-config\<close> printed for each specifier in turn; the reformatting
  for one of the simulators hands the same words to the linker.
\<close>

theorem iss_flags_tokens:
  assumes "get_iss_pkgconfig_flags pkg specifiers iss_pc simulator = Inr flags"
  shows "\<exists>tss. list_all2 (\<lambda>s ts. \<exists>out. pkg (''pkg-config'' # s # iss_pc) = Some out \<and>
      shlex_split (strip out) = Inr ts) specifiers tss \<and>
    shlex_split flags = Inr (map (fixup_rpath simulator) (concat tss)) \<and>
    map linker_words (map (fixup_rpath simulator) (concat tss)) = map linker_words (concat tss)"
proof -
  obtain fs where f: "emap (pkgconfig_tokens pkg iss_pc simulator) specifiers = Inr fs" "flags = cmd_line (concat fs)"
    using assms by (auto simp: get_iss_pkgconfig_flags_def raise_simps)
  have "list_all2 (\<lambda>s f. \<exists>ts. f = map (fixup_rpath simulator) ts \<and> (\<exists>out. pkg (''pkg-config'' # s # iss_pc) = Some out \<and>
      shlex_split (strip out) = Inr ts)) specifiers fs"
    using f(1) unfolding emap_eq_Inr
    by (rule list_all2_mono) (auto simp: pkgconfig_tokens_def Let_def raise_simps simp del: ex_simps)
  from list_all2_choice[OF this] obtain tss where t: "fs = map (map (fixup_rpath simulator)) tss" "list_all2 (\<lambda>s ts. \<exists>out.
      pkg (''pkg-config'' # s # iss_pc) = Some out \<and> shlex_split (strip out) = Inr ts) specifiers tss"
    by blast
  have "shlex_split flags = Inr (concat fs)" unfolding f(2) cmd_line_def by (rule sh.split_quoted)
  moreover have "linker_words \<circ> fixup_rpath simulator = linker_words"
    by (simp add: fun_eq_iff linker_words_fixup)
  ultimately show ?thesis using t by (intro exI[of _ tss]) (simp add: map_concat)
qed

lemma demo_flags:
  "get_iss_pkgconfig_flags (\<lambda>c. Some ''-Wl,-rpath,/a,/b'') [''--libs-only-other''] [''riscv-riscv''] ''xlm'' =
    Inr ''-Wld,-Xlinker,-rpath,-Xlinker,/a,-Xlinker,/b''"
proof -
  have s: "shlex_split (strip ''-Wl,-rpath,/a,/b'') = Inr [''-Wl,-rpath,/a,/b'']" by code_simp
  have f: "fixup_rpath ''xlm'' ''-Wl,-rpath,/a,/b'' = ''-Wld,-Xlinker,-rpath,-Xlinker,/a,-Xlinker,/b''" by code_simp
  have q: "quote ''-Wld,-Xlinker,-rpath,-Xlinker,/a,-Xlinker,/b'' = ''-Wld,-Xlinker,-rpath,-Xlinker,/a,-Xlinker,/b''" by code_simp
  show ?thesis by (simp add: get_iss_pkgconfig_flags_def pkgconfig_tokens_def s lift_def bmd_def cmd_line_def f q)
qed

lemma iss_flags_tokens_witness:
  "\<exists>tss. list_all2 (\<lambda>s ts. \<exists>out. Some ''-Wl,-rpath,/a,/b'' = Some out \<and> shlex_split (strip out) = Inr ts)
      [''--libs-only-other''] tss \<and>
    shlex_split ''-Wld,-Xlinker,-rpath,-Xlinker,/a,-Xlinker,/b'' = Inr (map (fixup_rpath ''xlm'') (concat tss)) \<and>
    map linker_words (map (fixup_rpath ''xlm'') (concat tss)) = map linker_words (concat tss)"
  by (rule iss_flags_tokens[OF demo_flags])

text \<open>What a block under the lock leaves behind.\<close>

lemma locked_Inr:
  assumes "locked env dir body st = (Inr m', st')" and "md_from_metadata_dir (bs_md st) dir = Inr m"
    and "md_pickle_file (snd (fst (body m st))) = child_of dir ''metadata.pickle''"
  shows "\<exists>st1. body m st = ((None, m'), st1) \<and>
    bs_files st' = bs_files st1 \<and> bs_dirs st' = bs_dirs st1 \<and> md_from_metadata_dir (bs_md st') dir = Inr m'"
proof -
  obtain err m1 st1 where b: "body m st = ((err, m1), st1)" by (metis prod.exhaust)
  obtain mst where l: "locked_metadata (se_resolve env) dir (\<lambda>_. (err, m1)) (bs_md st1) = (Inr None, mst)"
      "m1 = m'" "st' = st1\<lparr>bs_md := mst\<rparr>"
    using assms(1,2) b by (auto simp: locked_def split: sum.splits prod.splits option.splits)
  then have "err = None" "md_export (se_resolve env) m' (bs_md st1) = Inr mst"
    by (auto simp: locked_metadata_def split: sum.splits)
  then show ?thesis using b l assms(3)
    by (auto simp: md_export_def export_def md_from_metadata_dir_def construct_from_pickle_def Let_def)
qed

text \<open>
  When the step that compiles the test bench ends with a status, the metadata holds the
  commands and their log, nothing else of it changed, and the status is that of running these
  commands in order, up to the first that fails.
\<close>

theorem compile_tb_records:
  assumes "compile_tb env dir st = (Inr rc, st')" and "md_from_metadata_dir (bs_md st) dir = Inr m"
    and "md_pickle_file m = child_of dir ''metadata.pickle''"
  shows "\<exists>cmds. md_from_metadata_dir (bs_md st') dir = Inr (m\<lparr>
        md_tb_build_log := Some (child_of (md_dir_tb m) ''compile_tb.log''),
        md_tb_build_stdout := Some (child_of (md_dir_tb m) ''compile_tb_stdstreams.log''),
        md_tb_build_cmds := Some cmds\<rparr>) \<and>
    run_in_order (se_exec env) (md_verbose m)
      (Redirect_file (path_str (child_of (md_dir_tb m) ''compile_tb_stdstreams.log'')) False) cmds (bs_files st) =
      Inr (rc, bs_files st')"
proof -
  obtain m' st1 where s: "locked env dir (compile_tb_body env) st = (Inr m', st1)"
      "run_cmds (se_exec env) (md_verbose m') (Redirect_file (path_str (child_of (md_dir_tb m') ''compile_tb_stdstreams.log'')) False)
         (the (md_tb_build_cmds m')) st1 = (Inr rc, st')"
    using assms(1) by (auto simp: compile_tb_def sbind_Inr raise_or_def split: option.splits)
  have "md_pickle_file (snd (fst (compile_tb_body env m st))) = child_of dir ''metadata.pickle''"
    using assms(3) by (auto simp: compile_tb_body_def Let_def split: sum.splits)
  then obtain st2 where l: "compile_tb_body env m st = ((None, m'), st2)"
      "bs_files st1 = bs_files st2" "md_from_metadata_dir (bs_md st1) dir = Inr m'"
    using locked_Inr[OF s(1) assms(2)] by blast
  obtain cmds where m': "m' = m\<lparr>md_tb_build_log := Some (child_of (md_dir_tb m) ''compile_tb.log''),
        md_tb_build_stdout := Some (child_of (md_dir_tb m) ''compile_tb_stdstreams.log''),
        md_tb_build_cmds := Some cmds\<rparr>" and "st2 = mkdir (md_dir_tb m) st"
    using l(1) by (auto simp: compile_tb_body_def Let_def split: sum.splits)
  then show ?thesis using l s(2) by (auto simp: run_cmds_def mkdir_def split: sum.splits)
qed

definition demo_build_yaml :: "test_entry list" where
  "demo_build_yaml = [[(PStr ''tool'', PStr ''vcs''),
     (PStr ''compile'', PDict [(PStr ''cmd'', PList [])])]]"

definition demo_build_env :: build_env where
  "demo_build_env =
     \<lparr>se_exec = (\<lambda>cmd fs. (Returned 0, fs)), se_resolve = id, se_environ = [''PRJ_DIR'' \<mapsto> ''/p'', ''LOWRISC_IP_DIR'' \<mapsto> ''/ip''],
      se_read_file = (\<lambda>f. Some f), se_yaml_load = (\<lambda>t. Some (PDict [(PStr ''small'', small_yaml)])),
      se_ibex_root = ''/ibex'', se_testlist = (\<lambda>p. Inr []), se_sim_yaml = demo_build_yaml,
      be_pkg_config = (\<lambda>c. Some ''-lriscv''), be_glob = (\<lambda>p pat. []), be_env_exec = (\<lambda>e cmd fs. (Returned 0, fs)),
      be_render = (\<lambda>f c. f)\<rparr>"

definition demo_build_md :: regression_metadata where
  "demo_build_md = demo_metadata\<lparr>md_simulator := ''vcs'', md_ibex_config := ''small'', md_dir_tb := path_of ''/out/tb''\<rparr>"

definition demo_build_state :: build_state where
  "demo_build_state = \<lparr>bs_dirs = [], bs_files = Map.empty,
     bs_md = \<lparr>pickles = [(path_of ''/out/metadata/metadata.pickle'', demo_build_md)], yamls = []\<rparr>\<rparr>"

lemma demo_build_loads: "md_from_metadata_dir (bs_md demo_build_state) (path_of ''/out/metadata'') = Inr demo_build_md"
  by (simp add: md_from_metadata_dir_def construct_from_pickle_def demo_build_state_def) code_simp

lemma demo_token: "pkgconfig_tokens (\<lambda>c. Some ''-lriscv'') pcs ''vcs'' s = Inr [''-lriscv'']"
proof -
  have "shlex_split (strip ''-lriscv'') = Inr [''-lriscv'']" by code_simp
  then show ?thesis by (simp add: pkgconfig_tokens_def bmd_def lift_def fixup_rpath_def)
qed

lemma demo_build_runs: "\<exists>st'. compile_tb demo_build_env (path_of ''/out/metadata'') demo_build_state = (Inr 0, st')"
proof -
  have "\<exists>vars. tb_subst_vars demo_build_env m = Inr vars"
    if "md_simulator m = ''vcs''" "md_ibex_config m = ''small''" for m
    using opts_exist[OF _ small_config_parses, of "''vcs''" "(True, False)"] that
    by (auto simp: tb_subst_vars_def demo_build_env_def iss_pkgconfig_dict_def get_iss_pkgconfig_flags_def demo_token
      raise_simps sim_cfgs_def)
  then have vars: "\<exists>vars. tb_subst_vars demo_build_env (demo_build_md\<lparr>md_tb_build_log := l\<rparr>) = Inr vars" for l
    by (simp add: demo_build_md_def)
  obtain v where v: "tb_subst_vars demo_build_env
      (demo_build_md\<lparr>md_tb_build_log := Some (child_of (md_dir_tb demo_build_md) ''compile_tb.log'')\<rparr>) = Inr v"
    using vars by blast
  have tool: "get_tool_cmds id en demo_build_yaml ''vcs'' ''compile'' e v = Inr []" for en e v
    by (simp add: get_tool_cmds_def demo_build_yaml_def get_yaml_for_simulator_def get_or_none_def item_def as_dict_def lift_def
      items_of_def dict_get_def)
  have env: "se_resolve demo_build_env = id" "se_sim_yaml demo_build_env = demo_build_yaml"
      "se_environ demo_build_env = [''PRJ_DIR'' \<mapsto> ''/p'', ''LOWRISC_IP_DIR'' \<mapsto> ''/ip'']" "md_simulator demo_build_md = ''vcs''"
    by (simp_all add: demo_build_env_def demo_build_md_def)
  have "\<exists>m st. compile_tb_body demo_build_env demo_build_md demo_build_state = ((None, m), st) \<and>
      md_tb_build_cmds m = Some [] \<and> bs_md st = bs_md demo_build_state"
    by (simp add: compile_tb_body_def Let_def v tool env bmd_def mkdir_def)
  then obtain m st where "compile_tb_body demo_build_env demo_build_md demo_build_state = ((None, m), st)"
      "md_tb_build_cmds m = Some []" "bs_md st = bs_md demo_build_state"
    by blast
  then show ?thesis
    using demo_build_loads
    by (simp add: compile_tb_def sbind_def raise_or_def expected_env_vars_def env locked_def
      locked_metadata_def md_export_def export_def Let_def run_cmds_def)
qed

lemma compile_tb_records_witness:
  "\<exists>rc st' cmds. compile_tb demo_build_env (path_of ''/out/metadata'') demo_build_state = (Inr rc, st') \<and>
    md_from_metadata_dir (bs_md st') (path_of ''/out/metadata'') = Inr (demo_build_md\<lparr>
        md_tb_build_log := Some (child_of (md_dir_tb demo_build_md) ''compile_tb.log''),
        md_tb_build_stdout := Some (child_of (md_dir_tb demo_build_md) ''compile_tb_stdstreams.log''),
        md_tb_build_cmds := Some cmds\<rparr>) \<and>
    run_in_order (se_exec demo_build_env) (md_verbose demo_build_md)
      (Redirect_file (path_str (child_of (md_dir_tb demo_build_md) ''compile_tb_stdstreams.log'')) False) cmds
      (bs_files demo_build_state) = Inr (rc, bs_files st')"
proof -
  obtain st' where st: "compile_tb demo_build_env (path_of ''/out/metadata'') demo_build_state = (Inr 0, st')"
    using demo_build_runs by blast
  have "md_pickle_file demo_build_md = child_of (path_of ''/out/metadata'') ''metadata.pickle''"
    by (simp add: demo_build_md_def demo_metadata_def) code_simp
  from compile_tb_records[OF st demo_build_loads this] st show ?thesis by blast
qed

text \<open>
  Merging fails with an exception instead of a status when no database is found, for both
  simulators and whatever else happens, and when the simulator is another one.
\<close>

theorem merge_without_databases:
  assumes "md_from_metadata_dir (bs_md st) dir = Inr m" and "md_dir_metadata m = dir"
    and "be_glob env (md_dir_run m) ''**/*.ucd'' = []" "be_glob env (md_dir_run m) ''**/test.vdb'' = []"
  shows "\<exists>st'. merge_cov env dir st =
      (Inl (if md_simulator m \<in> {''xlm'', ''vcs''} then Not_iterable else Attribute_error ''simulator''), st') \<and>
    bs_files st' = bs_files st"
proof -
  have "\<exists>mst. locked_metadata r dir (\<lambda>_. (None :: build_error option, n)) (bs_md st) = (Inr None, mst)" for r n
    using assms(1) by (simp add: locked_metadata_def md_export_def export_def Let_def)
  then obtain mst where "locked_metadata (se_resolve env) dir (\<lambda>_. (None :: build_error option, xlm_update env m)) (bs_md st) =
      (Inr None, mst)"
    by blast
  then show ?thesis using assms
    by (auto simp: merge_cov_def find_cov_dbs_def Let_def merge_cov_vcs_def merge_cov_xlm_def sbind_def raise_or_def
      iterate_def mkdir_def locked_def)
qed

lemma merge_without_databases_witness:
  "\<exists>st'. merge_cov demo_build_env (path_of ''/out/metadata'') demo_build_state =
      (Inl (if md_simulator demo_build_md \<in> {''xlm'', ''vcs''} then Not_iterable else Attribute_error ''simulator''), st') \<and>
    bs_files st' = bs_files demo_build_state"
  by (rule merge_without_databases[OF demo_build_loads]) (simp_all add: demo_build_md_def demo_metadata_def demo_build_env_def)

text \<open>
  When merging for the simulator with the scripts returns zero, the list that the merge
  command was given names the parent of each database that was found, the merge returned zero,
  and the report ran after it and returned zero.
\<close>

theorem xlm_merge_lists_all:
  assumes "merge_cov env dir st = (Inr 0, st')" and "md_from_metadata_dir (bs_md st) dir = Inr m"
    and "md_simulator m = ''xlm''" "md_dir_metadata m = dir" "md_pickle_file m = child_of dir ''metadata.pickle''"
  shows "\<exists>fs. be_env_exec env (xlm_env env m) (xlm_merge_cmd env m)
        ((bs_files st)(path_str (child_of (md_dir_cov m) ''cov_db_runfile'') \<mapsto>
          run_list (remdups (be_glob env (md_dir_run m) ''**/*.ucd'')))) = (Returned 0, fs) \<and>
    be_env_exec env (xlm_env env m) (xlm_report_cmd env m) fs = (Returned 0, bs_files st')"
proof -
  let ?exec = "be_env_exec env (xlm_env env m)"
  have one: "run_cmds ex v (Redirect_file n False) [cmd] s = (Inr 0, s') \<Longrightarrow>
      ex cmd (bs_files s) = (Returned 0, bs_files s')" for ex v n cmd s s'
    by (auto simp: run_cmds_def run_cmd_on_def run_one_def bad_redirect_def run_status_def raise_simps
      split: sum.splits prod.splits ran.splits if_splits)
  let ?dbs = "remdups (be_glob env (md_dir_run m) ''**/*.ucd'')"
  have "merge_cov_xlm env m (if ?dbs = [] then Inl 1 else Inr ?dbs) (mkdir (md_dir_cov m) st) = (Inr 0, st')"
    using assms(1-3) by (simp add: merge_cov_def find_cov_dbs_def Let_def)
  then obtain m1 s1 dbs where s: "locked env dir (\<lambda>m st. ((None, xlm_update env m), st)) (mkdir (md_dir_cov m) st) = (Inr m1, s1)"
      "(if ?dbs = [] then Inl 1 else Inr ?dbs) = Inr dbs" "merge_rest env m1 dbs s1 = (Inr 0, st')"
    unfolding merge_cov_xlm_def sbind_Inr assms(4) by (auto simp: raise_or_def iterate_def merge_rest_def split: if_splits)
  have m1: "m1 = xlm_update env m" "bs_files s1 = bs_files st"
    using locked_Inr[OF s(1)] assms(2,5) by (auto simp: mkdir_def xlm_update_def)
  have dbs: "dbs = ?dbs" using s(2) by (auto split: if_splits)
  obtain s2 where s2: "run_cmds ?exec (md_verbose m1)
        (Redirect_file (path_str (child_of (md_dir_cov m1) ''merge.log.stdout'')) False) [xlm_merge_cmd env m1]
        (mkdir (md_dir_cov_merged m1) (s1\<lparr>bs_files := (bs_files s1)(path_str (child_of (md_dir_cov m1) ''cov_db_runfile'') \<mapsto>
          run_list dbs)\<rparr>)) = (Inr 0, s2)"
      "run_cmds ?exec (md_verbose m1)
        (Redirect_file (path_str (child_of (md_dir_cov m1) ''report.log.stdout'')) False) [xlm_report_cmd env m1]
        (mkdir (md_dir_cov_report m1) s2) = (Inr 0, st')"
    using s(3) unfolding merge_rest_def sbind_Inr by (auto simp: m1 xlm_env_def xlm_update_def sbind_def raise_or_def split: if_splits)
  have same: "md_dir_cov m1 = md_dir_cov m" "xlm_merge_cmd env m1 = xlm_merge_cmd env m" "xlm_report_cmd env m1 = xlm_report_cmd env m"
    by (simp_all add: m1 xlm_update_def xlm_merge_cmd_def xlm_report_cmd_def)
  show ?thesis using one[OF s2(1)] one[OF s2(2)] by (auto simp: mkdir_def same dbs m1(2))
qed

definition demo_xlm_env :: build_env where
  "demo_xlm_env = demo_build_env\<lparr>be_glob := (\<lambda>p pat. [path_of ''/run/t/cov/a.ucd''])\<rparr>"

definition demo_xlm_md :: regression_metadata where
  "demo_xlm_md = demo_build_md\<lparr>md_simulator := ''xlm''\<rparr>"

definition demo_xlm_state :: build_state where
  "demo_xlm_state = \<lparr>bs_dirs = [], bs_files = Map.empty,
     bs_md = \<lparr>pickles = [(path_of ''/out/metadata/metadata.pickle'', demo_xlm_md)], yamls = []\<rparr>\<rparr>"

lemma xlm_merge_lists_all_witness:
  "\<exists>st' fs. merge_cov demo_xlm_env (path_of ''/out/metadata'') demo_xlm_state = (Inr 0, st') \<and>
    be_env_exec demo_xlm_env (xlm_env demo_xlm_env demo_xlm_md) (xlm_merge_cmd demo_xlm_env demo_xlm_md)
        ((bs_files demo_xlm_state)(path_str (child_of (md_dir_cov demo_xlm_md) ''cov_db_runfile'') \<mapsto>
          run_list (remdups (be_glob demo_xlm_env (md_dir_run demo_xlm_md) ''**/*.ucd'')))) = (Returned 0, fs) \<and>
    be_env_exec demo_xlm_env (xlm_env demo_xlm_env demo_xlm_md) (xlm_report_cmd demo_xlm_env demo_xlm_md) fs =
      (Returned 0, bs_files st')"
proof -
  have load: "md_from_metadata_dir (bs_md demo_xlm_state) (path_of ''/out/metadata'') = Inr demo_xlm_md"
    by (simp add: md_from_metadata_dir_def construct_from_pickle_def demo_xlm_state_def) code_simp
  have f: "md_simulator demo_xlm_md = ''xlm''" "md_dir_metadata demo_xlm_md = path_of ''/out/metadata''"
      "md_pickle_file demo_xlm_md = path_of ''/out/metadata/metadata.pickle''"
      "be_glob demo_xlm_env p pat = [path_of ''/run/t/cov/a.ucd'']" "be_env_exec demo_xlm_env e cmd fs = (Returned 0, fs)"
    for p pat e cmd fs
    by (simp_all add: demo_xlm_md_def demo_build_md_def demo_metadata_def demo_xlm_env_def demo_build_env_def)
  have "\<exists>mst. locked_metadata r (path_of ''/out/metadata'') (\<lambda>_. (None :: build_error option, n)) (bs_md demo_xlm_state) =
      (Inr None, mst)" for r n
    using load by (simp add: locked_metadata_def md_export_def export_def Let_def)
  then obtain mst where l: "locked_metadata (se_resolve demo_xlm_env) (path_of ''/out/metadata'')
      (\<lambda>_. (None :: build_error option, xlm_update demo_xlm_env demo_xlm_md)) (bs_md demo_xlm_state) = (Inr None, mst)"
    by blast
  have "\<exists>st'. merge_cov demo_xlm_env (path_of ''/out/metadata'') demo_xlm_state = (Inr 0, st')"
    using load l by (simp add: merge_cov_def f find_cov_dbs_def Let_def merge_cov_xlm_def merge_rest_def sbind_def raise_or_def
      iterate_def mkdir_def locked_def run_cmds_def run_cmd_on_def run_one_def bad_redirect_def run_status_def)
  then obtain st' where st: "merge_cov demo_xlm_env (path_of ''/out/metadata'') demo_xlm_state = (Inr 0, st')" by blast
  have "md_pickle_file demo_xlm_md = child_of (path_of ''/out/metadata'') ''metadata.pickle''"
    by (simp add: f) code_simp
  from xlm_merge_lists_all[OF st load f(1,2) this] st show ?thesis by blast
qed

end
