(* ===== verification/ReportUtil.thy ===== *)
theory ReportUtil
  imports Builds Complex_Main
begin

text \<open>
  \<^verbatim>\<open>report_lib/util.py\<close>: the text of a test run, the counts of passing and failing runs, and
  the coverage read back from the reports of the simulator.  Numbers with a fraction are exact
  here, where the code has floating point numbers.
\<close>

section \<open>Python's numbers and texts\<close>

definition round_even :: "rat \<Rightarrow> int" where
  "round_even q =
     (let f = \<lfloor>q\<rfloor>; r = q - of_int f
      in if r < 1 / 2 then f else if r > 1 / 2 then f + 1 else if even f then f else f + 1)"

text \<open>\<open>f'{q:.nf}'\<close>, for a number that is not negative.\<close>

definition show_fixed :: "nat \<Rightarrow> rat \<Rightarrow> string" where
  "show_fixed n q =
     (let i = nat (round_even (q * 10 ^ n)); fr = show_nat (i mod 10 ^ n)
      in show_nat (i div 10 ^ n) @ ''.'' @ replicate (n - length fr) CHR ''0'' @ fr)"

text \<open>\<open>s.splitlines()\<close>\<close>

definition line_break :: "char \<Rightarrow> bool" where
  "line_break c \<longleftrightarrow> c \<in> {newline, CHR 0x0B, CHR 0x0C, CHR 0x0D, CHR 0x1C, CHR 0x1D, CHR 0x1E}"

fun splitlines_acc :: "string \<Rightarrow> string \<Rightarrow> string list" where
  "splitlines_acc w [] = (if w = [] then [] else [w])"
| "splitlines_acc w [c] = (if line_break c then [w] else [w @ [c]])"
| "splitlines_acc w (c # d # cs) =
     (if c = CHR 0x0D \<and> d = newline then w # splitlines_acc [] cs
      else if line_break c then w # splitlines_acc [] (d # cs)
      else splitlines_acc (w @ [c]) (d # cs))"

definition splitlines :: "string \<Rightarrow> string list" where
  "splitlines s = splitlines_acc [] s"

text \<open>\<open>r.finditer(s)\<close> and \<open>re.sub(r, t, s)\<close>, the matches from left to right.\<close>

function finditer_from :: "re \<Rightarrow> char option \<Rightarrow> string \<Rightarrow> groups list" where
  "finditer_from r c s =
     (let next = (case s of [] \<Rightarrow> [] | x # xs \<Rightarrow> finditer_from r (Some x) xs)
      in case run r (c, s) of
           [] \<Rightarrow> next
         | (g, (c', s')) # _ \<Rightarrow> g # (if length s' < length s then finditer_from r c' s' else next))"
  by pat_completeness auto
termination
  by (relation "measure (\<lambda>(_, _, s). length s)") auto

function re_sub_from :: "re \<Rightarrow> string \<Rightarrow> char option \<Rightarrow> string \<Rightarrow> string" where
  "re_sub_from r t c s =
     (let next = (case s of [] \<Rightarrow> [] | x # xs \<Rightarrow> x # re_sub_from r t (Some x) xs)
      in case run r (c, s) of
           [] \<Rightarrow> next
         | (g, (c', s')) # _ \<Rightarrow> t @ (if length s' < length s then re_sub_from r t c' s' else next))"
  by pat_completeness auto
termination
  by (relation "measure (\<lambda>(_, _, _, s). length s)") auto

declare finditer_from.simps [simp del] re_sub_from.simps [simp del]

section \<open>The text of a run\<close>

definition run_name :: "test_run_result \<Rightarrow> string" where
  "run_name t = str_or_None (testname t) @ ''.'' @ opt_int_str (seed t)"

definition relative_str :: "test_run_result \<Rightarrow> path option \<Rightarrow> build_error + string" where
  "relative_str t v =
     (case v of
        None \<Rightarrow> Inr ''MISSING''
      | Some p \<Rightarrow>
          (case dir_test t of
             None \<Rightarrow> Inl (Report_type_error ''relative_to'')
           | Some d \<Rightarrow>
               (case relative_to p d of
                  None \<Rightarrow> Inl (Report_value_error (path_str p))
                | Some r \<Rightarrow> Inr (path_str r))))"

definition lesskeys :: "test_run_result \<Rightarrow> build_error + (string \<times> string) list" where
  "lesskeys t =
     emap (\<lambda>(k, v). ebind (relative_str t v) (\<lambda>s. Inr (k, s)))
       [(''binary'', test_run_result.binary t), (''rtl_log'', rtl_log t), (''rtl_trace'', rtl_trace t),
        (''iss_cosim_trace'', iss_cosim_trace t)]"

definition strip_newlines :: "string \<Rightarrow> string" where
  "strip_newlines s = rev (dropWhile ((=) newline) (rev (dropWhile ((=) newline) s)))"

definition gen_test_run_result_text :: "(path \<Rightarrow> path) \<Rightarrow> test_run_result \<Rightarrow> build_error + string" where
  "gen_test_run_result_text resolve t =
     ebind (lesskeys t) (\<lambda>keys.
     let name = run_name t;
         strdict = format_dict_to_printable_dict resolve (map (\<lambda>(k, s). (k, Field (Val (PStr s)))) keys);
         yaml = pprint_dict (map (\<lambda>(k, s). (k, PStr s)) strdict);
         info_lines = [name, replicate (length name) CHR ''-''] @ map strip_newlines (file_lines yaml) @
           [if passed t = Some True then [newline] @ ''[PASSED]'' else str_or_None (failure_message t)]
     in Inr ([newline] @ join [newline] info_lines @ [newline]))"

section \<open>Counts\<close>

definition count_test :: "test_run_result \<Rightarrow> (string option, int \<times> int) pydict \<Rightarrow> (string option, int \<times> int) pydict" where
  "count_test t d =
     (let (p, f) = dget_or d (testname t) (0, 0)
      in dset (testname t) (if passed t = Some True then (p + 1, f) else (p, f + 1)) d)"

definition create_test_summary_dict :: "test_run_result list \<Rightarrow> (string option, int \<times> int) pydict" where
  "create_test_summary_dict ts = fold count_test ts []"

section \<open>Coverage\<close>

definition XLM_TABLE_HEADER_RE :: re where
  "XLM_TABLE_HEADER_RE =
     seqs [Grp ''1'' (plus is_word), Opt (Lit ''*''), plus is_space, Grp ''2'' (Alt (Lit ''average'') (Lit ''covered''))]"

definition XLM_TABLE_COVERAGE_RE :: re where
  "XLM_TABLE_COVERAGE_RE =
     seqs [Lit ''('', Grp ''1'' (plus is_digit), Lit ''/'', Grp ''2'' (plus is_digit), star any_char, Lit '')'']"

text \<open>The dot of this one matches any character.\<close>

definition XLM_TABLE_AVERAGE_RE :: re where
  "XLM_TABLE_AVERAGE_RE =
     seqs [Grp ''1'' (seqs [plus is_digit, Opt (Seq (one_of any_char) (plus is_digit))]), Lit ''%'']"

definition PERCENT_GAP_RE :: re where
  "PERCENT_GAP_RE = seqs [Lit ''%'', plus is_space, Lit ''('']"

definition IBEX_COVERAGE_METRICS :: "string list" where
  "IBEX_COVERAGE_METRICS =
     [''block'', ''branch'', ''statement'', ''expression'', ''toggle'', ''fsm'', ''assertion'']"

definition COVERGROUP_IGNORE :: "string list" where
  "COVERGROUP_IGNORE = [''push_pull_agent_pkg'']"

datatype metric = Covered nat nat | Average rat

type_synonym cov_report = "(string, (string, metric) pydict) pydict"

text \<open>\<open>float(s)\<close> of what the expression for averages matches: digits, and one more character between them.\<close>

definition digits_val :: "string \<Rightarrow> nat" where
  "digits_val s = foldl (\<lambda>n c. 10 * n + (of_char c - 48)) 0 s"

definition read_float :: "string \<Rightarrow> rat option" where
  "read_float s =
     (let whole = takeWhile is_digit s
      in case dropWhile is_digit s of
           [] \<Rightarrow> Some (of_nat (digits_val whole))
         | c # fr \<Rightarrow>
             if c = CHR ''.'' then Some (of_nat (digits_val whole) + of_nat (digits_val fr) / 10 ^ length fr)
             else if c = CHR ''_'' then Some (of_nat (digits_val (whole @ fr)))
             else if c \<in> {CHR ''e'', CHR ''E''} then Some (of_nat (digits_val whole) * 10 ^ digits_val fr)
             else None)"

text \<open>The last line with \<open>name\<close> starts the table; all of them name its columns.\<close>

definition header_step :: "nat \<times> string \<Rightarrow> (string \<times> string) list \<times> nat option \<Rightarrow>
    (string \<times> string) list \<times> nat option" where
  "header_step il acc =
     (case (il, acc) of ((line_no, line), (metric_info, start)) \<Rightarrow>
        if contains ''name'' line
        then let reduced_line = join '' '' (drop 1 (split_ws (lower line)))
             in (metric_info @ map (\<lambda>m. (the_grp m ''1'', the_grp m ''2'')) (finditer_from XLM_TABLE_HEADER_RE None reduced_line),
                 Some (line_no + 2))
        else (metric_info, start))"

fun parse_values :: "(string \<times> string) list \<Rightarrow> string list \<Rightarrow> (string, metric) pydict \<Rightarrow>
    build_error + (string, metric) pydict" where
  "parse_values infos [] row = Inr row"
| "parse_values [] (v # vs) row = Inl Report_index_error"
| "parse_values ((name, ty) # infos) (v # vs) row =
     (let metric_name = name @ ''-'' @ ty
      in if ty = ''covered''
         then (case re_search XLM_TABLE_COVERAGE_RE v of
                 None \<Rightarrow> parse_values infos vs row
               | Some m \<Rightarrow> parse_values infos vs
                   (dset metric_name (Covered (digits_val (the_grp m ''1'')) (digits_val (the_grp m ''2''))) row))
         else (case re_search XLM_TABLE_AVERAGE_RE v of
                 None \<Rightarrow> parse_values infos vs row
               | Some m \<Rightarrow>
                   ebind (of_option (Report_value_error (the_grp m ''1'')) (read_float (the_grp m ''1'')))
                     (\<lambda>x. parse_values infos vs (dset metric_name (Average x) row))))"

definition parse_row :: "(string \<times> string) list \<Rightarrow> string \<Rightarrow> cov_report \<Rightarrow> build_error + cov_report" where
  "parse_row metric_info line d =
     (case split_ws (strip (re_sub_from PERCENT_GAP_RE ''%('' None line)) of
        [] \<Rightarrow> Inr d
      | module_name # values \<Rightarrow>
          ebind (parse_values metric_info values []) (\<lambda>row. Inr (dset module_name row d)))"

definition parse_xcelium_cov_report :: "string \<Rightarrow> build_error + cov_report" where
  "parse_xcelium_cov_report cov_report =
     (let ls = splitlines cov_report;
          (metric_info, start) = fold header_step (zip [0..<length ls] ls) ([], None)
      in case start of
           None \<Rightarrow> Inl (Report_runtime_error ''Could not read xcelium coverage report'')
         | Some n \<Rightarrow> efold (parse_row metric_info) (drop n ls) [])"

definition add_cov_to_summary :: "string \<Rightarrow> (string, metric) pydict \<Rightarrow> (string, rat option) pydict \<Rightarrow>
    build_error + (string, rat option) pydict" where
  "add_cov_to_summary metric_name metric_data d =
     (case dget metric_data (metric_name @ ''-covered'') of
        Some (Covered cov tot) \<Rightarrow>
          if tot = 0 then Inl Zero_division
          else Inr (dset metric_name (Some (of_nat cov / of_nat tot)) d)
      | Some (Average _) \<Rightarrow> Inl (Report_key_error ''covered'')
      | None \<Rightarrow> Inr d)"

text \<open>\<open>None\<close> when no module has an average.\<close>

definition calc_cg_average :: "cov_report \<Rightarrow> build_error + rat option" where
  "calc_cg_average d =
     ebind (efold (\<lambda>(module, metric_data) (tot, n).
         if module \<in> set COVERGROUP_IGNORE then Inr (tot, n)
         else case dget metric_data ''covergroup-average'' of
                None \<Rightarrow> Inr (tot, n)
              | Some (Average x) \<Rightarrow> Inr (tot + x, n + 1)
              | Some (Covered _ _) \<Rightarrow> Inl (Report_key_error ''average''))
       d (0, 0 :: nat)) (\<lambda>(tot, n). Inr (if n > 0 then Some (tot / 100 / of_nat n) else None))"

definition os_dirname :: "path \<Rightarrow> string" where
  "os_dirname p = (case p of Path False [_] \<Rightarrow> [] | _ \<Rightarrow> path_str (parent p))"

definition create_cov_summary_dict :: "files \<Rightarrow> regression_metadata \<Rightarrow>
    build_error + (string, rat option) pydict option" where
  "create_cov_summary_dict fs m =
     (case md_cov_report_log m of
        None \<Rightarrow> Inr None
      | Some report_log \<Rightarrow>
          (let cov_report_dir = os_join (os_dirname report_log) ''report'';
               cov_file = os_join cov_report_dir ''cov_report.txt'';
               cg_file = os_join cov_report_dir ''cov_report_cg.txt''
           in ebind (of_option (No_file cov_file) (fs cov_file)) (\<lambda>cov_text.
              ebind (parse_xcelium_cov_report cov_text) (\<lambda>cov_report_dict.
              ebind (of_option (No_file cg_file) (fs cg_file)) (\<lambda>cg_text.
              ebind (parse_xcelium_cov_report cg_text) (\<lambda>cg_report_dict.
              ebind (case dget cov_report_dict ''ibex_top'' of
                       None \<Rightarrow> Inr []
                     | Some metrics \<Rightarrow>
                         efold (\<lambda>name. add_cov_to_summary name metrics) IBEX_COVERAGE_METRICS []) (\<lambda>summary.
              ebind (calc_cg_average cg_report_dict) (\<lambda>avg.
                Inr (Some (dset ''covergroup'' avg summary))))))))))"

section \<open>Colours\<close>

definition CSS_RG_GRADIENT_YELLOW_POINT :: rat where
  "CSS_RG_GRADIENT_YELLOW_POINT = 7 / 10"

definition truncate_rat :: "rat \<Rightarrow> int" where
  "truncate_rat q = (if q < 0 then - \<lfloor>- q\<rfloor> else \<lfloor>q\<rfloor>)"

definition css_levels :: "rat \<Rightarrow> int \<times> int" where
  "css_levels value =
     (let (red, green) = (if value < CSS_RG_GRADIENT_YELLOW_POINT
           then (1, value / CSS_RG_GRADIENT_YELLOW_POINT)
           else ((1 - value) / (1 - CSS_RG_GRADIENT_YELLOW_POINT), 1))
      in (truncate_rat (red * 255), truncate_rat (green * 255)))"

definition css_red_green_gradient :: "rat \<Rightarrow> string" where
  "css_red_green_gradient value =
     (let (red, green) = css_levels value in ''rgb('' @ show_int red @ '','' @ show_int green @ '',0)'')"

section \<open>Properties\<close>

definition counted :: "test_run_result list \<Rightarrow> string option \<Rightarrow> int \<times> int" where
  "counted ts n =
     (int (length (filter (\<lambda>t. testname t = n \<and> passed t = Some True) ts)),
      int (length (filter (\<lambda>t. testname t = n \<and> passed t \<noteq> Some True) ts)))"

lemma counted_Cons:
  "counted (t # ts) n =
     (if testname t = n
      then (if passed t = Some True then (fst (counted ts n) + 1, snd (counted ts n))
            else (fst (counted ts n), snd (counted ts n) + 1))
      else counted ts n)"
  by (simp add: counted_def)

lemma fold_count_test:
  "dget_or (fold count_test ts d) n (0, 0) =
    (fst (dget_or d n (0, 0)) + fst (counted ts n), snd (dget_or d n (0, 0)) + snd (counted ts n))"
proof (induction ts arbitrary: d)
  case Nil
  then show ?case by (simp add: counted_def)
next
  case (Cons t ts)
  show ?case unfolding fold_Cons comp_apply Cons.IH
    by (simp add: count_test_def counted_Cons dget_or_def split: prod.split option.split)
qed

definition first_names :: "test_run_result list \<Rightarrow> string option list" where
  "first_names ts = rev (remdups (rev (map testname ts)))"

lemma fold_count_keys:
  "dkeys (fold count_test ts d) = dkeys d @ filter (\<lambda>n. n \<notin> set (dkeys d)) (first_names ts)"
proof (induction ts rule: rev_induct)
  case Nil
  then show ?case by (simp add: first_names_def)
next
  case (snoc t ts)
  have "set (first_names ts) = testname ` set ts" by (simp add: first_names_def)
  then show ?case using snoc
    by (auto simp: count_test_def dkeys_dset first_names_def split: prod.split)
qed

text \<open>
  The summary of the tests counts, under every name, exactly the passing runs and the
  others of the tests of that name, and lists the names in the order in which they first occur.
\<close>

theorem test_summary_counts:
  "dget_or (create_test_summary_dict ts) n (0, 0) = counted ts n \<and>
   dkeys (create_test_summary_dict ts) = first_names ts"
  using fold_count_test[of ts "[]" n] fold_count_keys[of ts "[]"]
  by (simp add: create_test_summary_dict_def dget_or_def)

lemma truncate_rat_mono: "0 \<le> q \<Longrightarrow> q \<le> r \<Longrightarrow> 0 \<le> truncate_rat q \<and> truncate_rat q \<le> truncate_rat r"
  by (simp add: truncate_rat_def floor_mono)

text \<open>
  The colour of a rate between zero and one has levels between 0 and 255; with the rate red
  never grows and green never falls.
\<close>

theorem css_levels_bounds:
  assumes "0 \<le> x" "x \<le> y" "y \<le> 1"
  shows "0 \<le> fst (css_levels y) \<and> fst (css_levels y) \<le> fst (css_levels x) \<and> fst (css_levels x) \<le> 255 \<and>
    0 \<le> snd (css_levels x) \<and> snd (css_levels x) \<le> snd (css_levels y) \<and> snd (css_levels y) \<le> 255"
proof -
  let ?red = "\<lambda>v :: rat. if v < 7 / 10 then 1 else (1 - v) / (3 / 10)"
  let ?green = "\<lambda>v :: rat. if v < 7 / 10 then v / (7 / 10) else 1"
  have l: "css_levels v = (truncate_rat (?red v * 255), truncate_rat (?green v * 255))" for v
    by (simp add: css_levels_def CSS_RG_GRADIENT_YELLOW_POINT_def)
  have b: "0 \<le> ?red y * 255" "?red y * 255 \<le> ?red x * 255" "?red x * 255 \<le> 255"
      "0 \<le> ?green x * 255" "?green x * 255 \<le> ?green y * 255" "?green y * 255 \<le> 255"
    using assms by (auto simp: field_simps)
  have top: "truncate_rat 255 = 255" by (simp add: truncate_rat_def)
  have "truncate_rat (?red x * 255) \<le> 255"
    using truncate_rat_mono[OF order.trans[OF b(1,2)] b(3)] top by linarith
  moreover have "truncate_rat (?green y * 255) \<le> 255"
    using truncate_rat_mono[OF order.trans[OF b(4,5)] b(6)] top by linarith
  ultimately show ?thesis
    using truncate_rat_mono[OF b(1,2)] truncate_rat_mono[OF b(4,5)] unfolding l fst_conv snd_conv by blast
qed

lemma css_levels_bounds_witness:
  "0 \<le> fst (css_levels (9 / 10)) \<and> fst (css_levels (9 / 10)) \<le> fst (css_levels (1 / 2)) \<and> fst (css_levels (1 / 2)) \<le> 255 \<and>
    0 \<le> snd (css_levels (1 / 2)) \<and> snd (css_levels (1 / 2)) \<le> snd (css_levels (9 / 10)) \<and> snd (css_levels (9 / 10)) \<le> 255"
  by (rule css_levels_bounds) simp_all

end
