(* ===== verification/SynFlow.thy ===== *)
theory SynFlow
  imports ReportUtil PyRe
begin

text \<open>
  The scripts of the synthesis flow, \<^verbatim>\<open>syn/python\<close>: the timing reports are rewritten with the
  names that Yosys knows for the cells it generated, and an area report is turned into an
  equivalent number of gates.  Yosys and the CSV reader are parameters; floating point numbers
  are exact.
\<close>

section \<open>Numbers in texts\<close>

datatype syn_error =
    Syn_error string
  | Index_out_of_range
  | Not_a_float string
  | Zero_division
  | No_such_file string

text \<open>\<open>float(s)\<close> of decimal texts; infinities, not-a-number and underscores are left out.\<close>

definition read_decimal :: "string \<Rightarrow> rat option" where
  "read_decimal s =
     (let (a, b) = split1 CHR ''.'' s; fr = (case b of None \<Rightarrow> [] | Some f \<Rightarrow> f)
      in if a @ fr \<noteq> [] \<and> list_all is_digit (a @ fr)
         then Some (of_nat (digits_val (a @ fr)) / 10 ^ length fr) else None)"

definition read_sign :: "string \<Rightarrow> bool \<times> string" where
  "read_sign s =
     (case s of
        [] \<Rightarrow> (False, [])
      | c # cs \<Rightarrow> if c = CHR ''-'' then (True, cs) else if c = CHR ''+'' then (False, cs) else (False, c # cs))"

definition read_exponent :: "string \<Rightarrow> rat option" where
  "read_exponent s =
     (let (neg, ds) = read_sign s
      in if ds \<noteq> [] \<and> list_all is_digit ds
         then Some (if neg then 1 / 10 ^ digits_val ds else 10 ^ digits_val ds) else None)"

definition py_float :: "string \<Rightarrow> rat option" where
  "py_float s =
     (let (neg, u) = read_sign (strip s); m = takeWhile (\<lambda>c. c \<notin> {CHR ''e'', CHR ''E''}) u
      in case read_decimal m of
           None \<Rightarrow> None
         | Some q \<Rightarrow>
             (case drop (length m) u of
                [] \<Rightarrow> Some (if neg then - q else q)
              | _ # x \<Rightarrow> map_option (\<lambda>p. if neg then - q * p else q * p) (read_exponent x)))"

section \<open>flow_utils.py\<close>

definition ys_translate_script_filename :: string where
  "ys_translate_script_filename = ''translate_names.ys''"

definition ys_translated_names :: string where
  "ys_translated_names = ''ys_translated_names''"

definition GENERATED_CELL_RE :: re where
  "GENERATED_CELL_RE =
     seqs [Grp ''1'' (seqs [Lit ''_'', plus is_word, Lit ''_'']), Lit ''/'', Grp ''2'' (plus is_word)]"

definition ys_tcl :: string where
  "ys_tcl = ''./tcl/yosys_post_synth.tcl''"

text \<open>The cells come in the order in which the set of them is gone through.\<close>

definition create_translate_names_script :: "string list \<Rightarrow> string \<Rightarrow> string \<Rightarrow> string" where
  "create_translate_names_script cells top_level gen_out =
     ''tcl '' @ ys_tcl @ [newline] @ ''cd '' @ top_level @ [newline] @
     concat (map (\<lambda>cell. ''select '' @ cell @ '' %x:+[Q]'' @ [newline] @
       ''tee -a '' @ gen_out @ ''/'' @ ys_translated_names @ '' select -list'' @ [newline]) cells)"

text \<open>A point of a path, and the cells it stands for.\<close>

definition point_of :: "string \<Rightarrow> string" where
  "point_of field =
     (case re_search GENERATED_CELL_RE field of None \<Rightarrow> field | Some m \<Rightarrow> the_grp m ''1'')"

definition cells_of :: "string \<Rightarrow> string list" where
  "cells_of field =
     (case re_search GENERATED_CELL_RE field of None \<Rightarrow> [] | Some m \<Rightarrow> [the_grp m ''1''])"

type_synonym timing_path = "string \<times> string \<times> rat"

fun extract_row :: "string list \<Rightarrow> syn_error + string list \<times> timing_path" where
  "extract_row (a # b # w # _) =
     ebind (of_option (Not_a_float w) (py_float w)) (\<lambda>q.
       Inr (cells_of a @ cells_of b, point_of a, point_of b, q))"
| "extract_row _ = Inl Index_out_of_range"

definition extract_path_info :: "string list list \<Rightarrow> syn_error + string set \<times> timing_path list" where
  "extract_path_info rows =
     ebind (emap extract_row rows) (\<lambda>xs. Inr (set (concat (map fst xs)), map snd xs))"

definition after_slash :: "string \<Rightarrow> syn_error + string" where
  "after_slash line = of_option Index_out_of_range (snd (split1 CHR ''/'' (butlast line)))"

fun names_dict :: "string list \<Rightarrow> (string, string) pydict \<Rightarrow> syn_error + (string, string) pydict" where
  "names_dict [] d = Inr d"
| "names_dict [l] d = Inl Index_out_of_range"
| "names_dict (l # k # ls) d =
     ebind (after_slash l) (\<lambda>translated_name. ebind (after_slash k) (\<lambda>cell_name.
       names_dict ls (dset cell_name translated_name d)))"

definition build_translated_names_dict :: "string \<Rightarrow> syn_error + (string, string) pydict" where
  "build_translated_names_dict s = names_dict (file_lines s) []"

definition translate_path_info :: "timing_path list \<Rightarrow> string \<Rightarrow> syn_error + timing_path list" where
  "translate_path_info path_info translated_names =
     ebind (build_translated_names_dict translated_names) (\<lambda>d.
       Inr (map (\<lambda>(a, b, w). (dget_or d a a, dget_or d b b, w)) path_info))"

section \<open>The two steps of the flow\<close>

type_synonym syn_files = "string \<rightharpoonup> string"

definition read_report :: "(string \<Rightarrow> string list list) \<Rightarrow> syn_files \<Rightarrow> string \<Rightarrow>
    syn_error + string set \<times> timing_path list" where
  "read_report read_csv fs rpt = ebind (of_option (No_such_file rpt) (fs rpt)) (\<lambda>s. extract_path_info (read_csv s))"

definition script_path :: "string \<Rightarrow> string" where
  "script_path gen_out = gen_out @ ''/'' @ ys_translate_script_filename"

definition names_path :: "string \<Rightarrow> string" where
  "names_path gen_out = gen_out @ ''/'' @ ys_translated_names"

definition build_translated_names :: "(string \<Rightarrow> string list list) \<Rightarrow> (string set \<Rightarrow> string list) \<Rightarrow>
    (string list \<Rightarrow> syn_files \<Rightarrow> syn_files) \<Rightarrow> string \<Rightarrow> string \<Rightarrow> string list \<Rightarrow> syn_files \<Rightarrow> syn_error + syn_files" where
  "build_translated_names read_csv set_order yosys top_level gen_out rpts fs =
     ebind (emap (read_report read_csv fs) rpts) (\<lambda>reports.
       let cells = set_order (\<Union> (set (map fst reports)));
           fs1 = fs(script_path gen_out \<mapsto> create_translate_names_script cells top_level gen_out)
       in Inr (yosys [''yosys'', ''-s'', script_path gen_out] fs1))"

definition timing_line :: "(rat \<Rightarrow> string) \<Rightarrow> timing_path \<Rightarrow> string" where
  "timing_line show_float = (\<lambda>(a, b, w). a @ '','' @ b @ '','' @ show_float w @ [newline])"

definition timing_header :: string where
  "timing_header = ''Start Point, End Point, WNS (ns)'' @ [newline]"

text \<open>
  The report is read, and written to the first word of the command line: again in its place, when
  that word names it.
\<close>

definition translate_timing_into :: "(string \<Rightarrow> string list list) \<Rightarrow> (rat \<Rightarrow> string) \<Rightarrow> string \<Rightarrow> string \<Rightarrow>
    string \<Rightarrow> syn_files \<Rightarrow> syn_error + syn_files" where
  "translate_timing_into read_csv show_float rpt_file gen_out out_file fs =
     ebind (read_report read_csv fs rpt_file) (\<lambda>(cells, path_info).
     ebind (of_option (No_such_file (names_path gen_out)) (fs (names_path gen_out))) (\<lambda>names.
     ebind (translate_path_info path_info names) (\<lambda>translated.
       Inr (fs(out_file \<mapsto> timing_header @ concat (map (timing_line show_float) translated))))))"

definition translate_timing_csv :: "(string \<Rightarrow> string list list) \<Rightarrow> (rat \<Rightarrow> string) \<Rightarrow> string \<Rightarrow> string \<Rightarrow>
    syn_files \<Rightarrow> syn_error + syn_files" where
  "translate_timing_csv read_csv show_float rpt_file gen_out =
     translate_timing_into read_csv show_float rpt_file gen_out rpt_file"

section \<open>get_kge.py\<close>

definition strip_chars :: "string \<Rightarrow> string \<Rightarrow> string" where
  "strip_chars cs s = rev (dropWhile (\<lambda>c. c \<in> set cs) (rev (dropWhile (\<lambda>c. c \<in> set cs) s)))"

definition at_line :: "string \<Rightarrow> nat \<Rightarrow> string \<Rightarrow> syn_error" where
  "at_line path idx msg = Syn_error (path @ '':'' @ show_nat (idx + 1) @ '' '' @ msg)"

type_synonym lib_state = "(string, rat) pydict \<times> string option"

definition lib_line :: "string \<Rightarrow> nat \<times> string \<Rightarrow> lib_state \<Rightarrow> syn_error + lib_state" where
  "lib_line path = (\<lambda>(idx, line) (cells, cell_name).
     if prefix ''  cell ('' line
     then if cell_name \<noteq> None then Inl (at_line path idx ''Found cell while searching for area'')
          else Inr (cells, Some (strip_chars ''()'' (split_ws line ! 1)))
     else if prefix (CHR 0x09 # ''area'') line
     then case cell_name of
            None \<Rightarrow> Inl (at_line path idx ''Found area while searching for cell'')
          | Some name \<Rightarrow>
              let data = split_ws line
              in (case (if length data \<le> 2 then None else py_float (strip_chars '';'' (data ! 2))) of
                    None \<Rightarrow> Inl (at_line path idx ''Area declaration misformatted'')
                  | Some area \<Rightarrow> Inr (dset name area cells, None))
     else Inr (cells, cell_name))"

definition read_lib :: "string \<Rightarrow> string \<Rightarrow> string \<Rightarrow> syn_error + (string, rat) pydict" where
  "read_lib path lib_file ref_cell =
     ebind (efold (lib_line path) (List.enumerate 0 (file_lines lib_file)) ([], None)) (\<lambda>(cells, _).
       case dget cells ref_cell of
         None \<Rightarrow> Inl (Syn_error (''Specified reference cell: '' @ ref_cell @ '' was not found in library: '' @ path))
       | Some ref_area \<Rightarrow>
           if ref_area = 0 then Inl Zero_division
           else Inr (map (\<lambda>(gate, area). (gate, area / ref_area)) cells))"

definition report_line :: "string \<Rightarrow> (string, rat) pydict \<Rightarrow> nat \<times> string \<Rightarrow> rat \<Rightarrow> syn_error + rat" where
  "report_line path weights = (\<lambda>(idx, line) ge.
     case split_ws line of
       [] \<Rightarrow> Inr ge
     | gate # rest \<Rightarrow>
         (case dget weights gate of
            None \<Rightarrow> Inr ge
          | Some weight \<Rightarrow>
              (case (case rest of [] \<Rightarrow> None | n # _ \<Rightarrow> py_float n) of
                 None \<Rightarrow> Inl (at_line path idx (''Cell '' @ gate @ '' matched but was misformatted''))
               | Some n \<Rightarrow> Inr (ge + n * weight))))"

text \<open>The number that is printed, rounded to two decimals.\<close>

definition get_kge :: "string \<Rightarrow> string \<Rightarrow> (string, rat) pydict \<Rightarrow> syn_error + rat" where
  "get_kge path report weights =
     ebind (efold (report_line path weights) (List.enumerate 0 (file_lines report)) 0) (\<lambda>ge.
       Inr (of_int (round_even (ge / 1000 * 100)) / 100))"

definition kge_main :: "syn_files \<Rightarrow> string \<Rightarrow> string \<Rightarrow> string \<Rightarrow> syn_error + rat" where
  "kge_main fs lib_path report_path ref_cell =
     ebind (of_option (No_such_file lib_path) (fs lib_path)) (\<lambda>lib_file.
     ebind (read_lib lib_path lib_file ref_cell) (\<lambda>weights.
     ebind (of_option (No_such_file report_path) (fs report_path)) (\<lambda>report.
       get_kge report_path report weights)))"

section \<open>The names in the reports\<close>

text \<open>What Yosys writes for the cells: for each, the name of its output and its own name.\<close>

definition names_listing :: "string \<Rightarrow> (string \<Rightarrow> string) \<Rightarrow> string list \<Rightarrow> string" where
  "names_listing top_level tr cells =
     concat (map (\<lambda>c. top_level @ ''/'' @ tr c @ [newline] @ top_level @ ''/'' @ c @ [newline]) cells)"

lemma file_lines_first:
  assumes "newline \<notin> set l"
  shows "file_lines (l @ newline # s) = (l @ [newline]) # file_lines s"
proof -
  have "lines_acc w (l @ newline # s) = (w @ l @ [newline]) # lines_acc [] s" for w
    using assms by (induction l arbitrary: w) auto
  then show ?thesis by (simp add: file_lines_def)
qed

lemma after_slash_name:
  "CHR ''/'' \<notin> set w \<Longrightarrow> after_slash (w @ CHR ''/'' # s @ [newline]) = Inr s"
  by (simp add: after_slash_def split1_append butlast_append)

lemma names_dict_listing:
  assumes "CHR ''/'' \<notin> set top_level" "newline \<notin> set top_level"
    and "\<And>c. c \<in> set cs \<Longrightarrow> newline \<notin> set c \<and> newline \<notin> set (tr c)"
  shows "\<exists>d'. names_dict (file_lines (names_listing top_level tr cs)) d = Inr d' \<and>
    (\<forall>p. dget d' p = (if p \<in> set cs then Some (tr p) else dget d p))"
  using assms(3)
proof (induction cs arbitrary: d)
  case Nil
  show ?case by (simp add: names_listing_def file_lines_def)
next
  case (Cons c cs)
  let ?l = "top_level @ CHR ''/'' # tr c" and ?k = "top_level @ CHR ''/'' # c"
  have "names_listing top_level tr (c # cs) = ?l @ newline # (?k @ newline # names_listing top_level tr cs)"
    by (simp add: names_listing_def)
  then have lines: "file_lines (names_listing top_level tr (c # cs)) =
      (?l @ [newline]) # (?k @ [newline]) # file_lines (names_listing top_level tr cs)"
    using Cons.prems[of c] assms(2) file_lines_first[of ?l "?k @ newline # names_listing top_level tr cs"]
      file_lines_first[of ?k "names_listing top_level tr cs"] by simp
  obtain d' where d': "names_dict (file_lines (names_listing top_level tr cs)) (dset c (tr c) d) = Inr d'"
      "\<And>p. dget d' p = (if p \<in> set cs then Some (tr p) else dget (dset c (tr c) d) p)"
    using Cons.IH[of "dset c (tr c) d"] Cons.prems by auto
  have "names_dict (file_lines (names_listing top_level tr (c # cs))) d = Inr d'"
    unfolding lines using assms(1) d'(1) by (simp add: after_slash_name)
  moreover have "dget d' p = (if p \<in> set (c # cs) then Some (tr p) else dget d p)" for p
    using d'(2)[of p] by (auto simp: dget_dset)
  ultimately show ?case by blast
qed

text \<open>
  Where the expression matches: a name between underscores, a slash and a pin.  There is only one
  way to match at a position, as far as the name is concerned.
\<close>

lemma rep_counts_plus: "k \<in> set (rep_counts c (Suc 0) None True s) \<longleftrightarrow> 1 \<le> k \<and> k \<le> length (takeWhile c s)"
  by (auto simp: rep_counts_def Let_def)

lemma advance_text: "(a, s) = advance k p \<Longrightarrow> s = drop k (snd p)"
  by (metis snd_advance snd_conv)

lemma cell_run:
  assumes "(g, q) \<in> set (run GENERATED_CELL_RE p)"
  shows "\<exists>w rest. snd p = ''_'' @ w @ ''_/'' @ rest \<and> list_all is_word w \<and> the_grp g ''1'' = ''_'' @ w @ ''_''"
proof -
  obtain k l where k: "prefix ''_'' (snd p)" "1 \<le> k" "k \<le> length (takeWhile is_word (drop 1 (snd p)))"
      "prefix ''_'' (drop k (drop 1 (snd p)))" "prefix ''/'' (drop 1 (drop k (drop 1 (snd p))))"
    and g: "g = [(''1'', take (length (snd p) - length (drop 1 (drop k (drop 1 (snd p))))) (snd p)), (''2'', l)]"
    using assms by (auto simp: GENERATED_CELL_RE_def seqs_def plus_def rep_counts_plus split: if_splits
        dest!: advance_text)
  let ?w = "take k (drop 1 (snd p))"
  obtain rest where rest: "drop k (drop 1 (snd p)) = ''_/'' @ rest"
  proof -
    obtain u where u: "drop k (drop 1 (snd p)) = ''_'' @ u" using k(4) unfolding prefix_def by blast
    have "prefix ''/'' u" using k(5) unfolding u by simp
    then show ?thesis using u that by (auto simp: prefix_def)
  qed
  have "drop 1 (snd p) = ?w @ ''_/'' @ rest" using append_take_drop_id[of k "drop 1 (snd p)"] rest by simp
  moreover have "snd p = ''_'' @ drop 1 (snd p)" using k(1) by (auto simp: prefix_def)
  ultimately have p: "snd p = ''_'' @ ?w @ ''_/'' @ rest" by metis
  have "list_all is_word ?w" by (rule take_takeWhile_all[OF k(3)])
  moreover have "drop 1 (drop k (drop 1 (snd p))) = CHR ''/'' # rest" using rest by simp
  then have "the_grp g ''1'' = take (length (snd p) - Suc (length rest)) (snd p)"
    by (simp add: g the_grp_def grp_def)
  moreover have "take (length s - Suc (length rest)) s = a" if "s = a @ CHR ''/'' # rest" for s a
    using that by simp
  from this[of "snd p" "''_'' @ ?w @ ''_''"] have "take (length (snd p) - Suc (length rest)) (snd p) = ''_'' @ ?w @ ''_''"
    using p by (metis append.assoc append_Cons append_Nil)
  ultimately show ?thesis using p by metis
qed

text \<open>One of the ways to match a text leaves a rest, whatever is before the text.\<close>

definition reaches :: "re \<Rightarrow> string \<Rightarrow> string \<Rightarrow> bool" where
  "reaches r s t \<longleftrightarrow> (\<forall>c. \<exists>g c'. (g, c', t) \<in> set (run r (c, s)))"

lemma reaches_Empty: "reaches Empty s s"
  by (simp add: reaches_def)

lemma reaches_Lit: "reaches (Lit w) (w @ t) t"
  unfolding reaches_def using run_Lit_first by (metis list.set_intros(1))

lemma reaches_plus:
  assumes "list_all d w" "w \<noteq> []"
  shows "reaches (plus d) (w @ t) t"
  unfolding reaches_def
proof
  fix c
  have "length w \<in> set (rep_counts d (Suc 0) None True (w @ t))"
    using assms by (simp add: rep_counts_plus Suc_le_eq takeWhile_append list_all_iff)
  moreover obtain c' where "advance (length w) (c, w @ t) = (c', t)" using advance_append[of w c t] by blast
  ultimately have "([], c', t) \<in> set (run (plus d) (c, w @ t))" by (auto simp: plus_def intro!: image_eqI)
  then show "\<exists>g c'. (g, c', t) \<in> set (run (plus d) (c, w @ t))" by blast
qed

lemma reaches_Seq: "reaches r s t \<Longrightarrow> reaches q t u \<Longrightarrow> reaches (Seq r q) s u"
  unfolding reaches_def by simp fastforce

lemma reaches_Grp: "reaches r s t \<Longrightarrow> reaches (Grp n r) s t"
  unfolding reaches_def by simp force

lemma cell_run_exists:
  assumes "list_all is_word w" "w \<noteq> []" and "rest \<noteq> []" "is_word (hd rest)"
  shows "run GENERATED_CELL_RE (c, ''_'' @ w @ ''_/'' @ rest) \<noteq> []"
proof -
  obtain x xs where rest: "rest = [x] @ xs" "is_word x" using assms(3,4) by (cases rest) auto
  have name: "reaches (seqs [Lit ''_'', plus is_word, Lit ''_'']) (''_'' @ w @ ''_'' @ ''/'' @ rest) (''/'' @ rest)"
    unfolding seqs_def foldr.simps comp_def id_apply
    by (intro reaches_Seq[OF reaches_Lit] reaches_Seq[OF reaches_plus] reaches_Empty assms(1,2))
  have pin: "reaches (Seq (Grp ''2'' (plus is_word)) Empty) rest xs"
    unfolding rest(1) by (rule reaches_Seq[OF reaches_Grp[OF reaches_plus[of _ "[x]"]] reaches_Empty]) (simp_all add: rest(2))
  from reaches_Seq[OF reaches_Grp[OF name] reaches_Seq[OF reaches_Lit pin]]
  have "reaches GENERATED_CELL_RE (''_'' @ w @ ''_'' @ ''/'' @ rest) xs"
    by (simp add: GENERATED_CELL_RE_def seqs_def)
  then have "\<exists>g q. (g, q) \<in> set (run GENERATED_CELL_RE (c, ''_'' @ w @ ''_'' @ ''/'' @ rest))"
    unfolding reaches_def by blast
  then show ?thesis by auto
qed

lemma cell_search_absent:
  assumes "\<not> sublist ''_/'' s"
  shows "search_from GENERATED_CELL_RE c s = None"
  using assms
proof (induction s arbitrary: c)
  case Nil
  have "run GENERATED_CELL_RE (c, []) = []" using cell_run[of _ _ "(c, [])"] by (cases "run GENERATED_CELL_RE (c, [])") auto
  then show ?case by simp
next
  case (Cons x s)
  have "run GENERATED_CELL_RE (c, x # s) = []"
  proof (rule ccontr)
    assume "run GENERATED_CELL_RE (c, x # s) \<noteq> []"
    then obtain g q where "(g, q) \<in> set (run GENERATED_CELL_RE (c, x # s))"
      by (metis list.set_intros(1) neq_Nil_conv surj_pair)
    from cell_run[OF this] obtain w rest where "x # s = (''_'' @ w) @ ''_/'' @ rest" by auto
    then have "sublist ''_/'' (x # s)" unfolding sublist_def by blast
    then show False using Cons.prems by blast
  qed
  moreover have "\<not> sublist ''_/'' s" using Cons.prems by (auto simp: sublist_Cons_right)
  ultimately show ?case using Cons.IH by simp
qed

lemma cell_search_found:
  assumes "CHR ''_'' \<notin> set pre" and "list_all is_word w" "w \<noteq> []" and "rest \<noteq> []" "is_word (hd rest)"
  shows "\<exists>g. search_from GENERATED_CELL_RE c (pre @ ''_'' @ w @ ''_/'' @ rest) = Some g \<and> the_grp g ''1'' = ''_'' @ w @ ''_''"
  using assms(1)
proof (induction pre arbitrary: c)
  case Nil
  let ?s = "''_'' @ w @ ''_/'' @ rest"
  obtain g q ms where m: "run GENERATED_CELL_RE (c, ?s) = (g, q) # ms"
    using cell_run_exists[OF assms(2-5), of c] by (metis neq_Nil_conv surj_pair)
  then have "(g, q) \<in> set (run GENERATED_CELL_RE (c, ?s))" by simp
  from cell_run[OF this] obtain v rest' where v: "?s = ''_'' @ v @ ''_/'' @ rest'" "list_all is_word v"
      "the_grp g ''1'' = ''_'' @ v @ ''_''" by auto
  have under: "is_word CHR ''_''" "\<not> is_word CHR ''/''" by (simp_all add: is_word_def is_digit_def is_lower_def is_upper_def)
  have "takeWhile is_word (u @ ''_/'' @ r) = u @ ''_''" if "list_all is_word u" for u r
    using takeWhile_run[of is_word "u @ ''_''" "CHR ''/'' # r"] that under by simp
  from this[OF assms(2), of rest] this[OF v(2), of rest'] have "v = w" using v(1) by simp
  then show ?case using m v(3) by simp
next
  case (Cons x pre)
  have "run GENERATED_CELL_RE (c, (x # pre) @ ''_'' @ w @ ''_/'' @ rest) = []"
  proof (rule ccontr)
    assume "run GENERATED_CELL_RE (c, (x # pre) @ ''_'' @ w @ ''_/'' @ rest) \<noteq> []"
    then obtain g q where "(g, q) \<in> set (run GENERATED_CELL_RE (c, (x # pre) @ ''_'' @ w @ ''_/'' @ rest))"
      by (metis list.set_intros(1) neq_Nil_conv surj_pair)
    from cell_run[OF this] show False using Cons.prems by auto
  qed
  moreover obtain g where "search_from GENERATED_CELL_RE (Some x) (pre @ ''_'' @ w @ ''_/'' @ rest) = Some g"
      "the_grp g ''1'' = ''_'' @ w @ ''_''"
    using Cons.IH Cons.prems by auto
  ultimately show ?case by simp
qed

section \<open>The paths of a timing report\<close>

text \<open>
  An end of a path, as the timing tool names it: a port of the design, or a pin of a cell, whose
  name Yosys made of a number or a word between underscores, below some instance.
\<close>

datatype point = Port string | Pin string string string

fun point_text :: "point \<Rightarrow> string" where
  "point_text (Port p) = p"
| "point_text (Pin pre c pin) = pre @ ''_'' @ c @ ''_/'' @ pin"

fun point_cells :: "point \<Rightarrow> string list" where
  "point_cells (Port p) = []"
| "point_cells (Pin pre c pin) = [''_'' @ c @ ''_'']"

fun good_point :: "point \<Rightarrow> bool" where
  "good_point (Port p) \<longleftrightarrow> \<not> sublist ''_/'' p \<and> take 1 p \<noteq> ''_''"
| "good_point (Pin pre c pin) \<longleftrightarrow>
     CHR ''_'' \<notin> set pre \<and> c \<noteq> [] \<and> list_all is_word c \<and> pin \<noteq> [] \<and> is_word (hd pin)"

text \<open>A port keeps its name, and a pin is called by the name that Yosys has for its cell.\<close>

fun readable_name :: "(string \<Rightarrow> string) \<Rightarrow> point \<Rightarrow> string" where
  "readable_name tr (Port p) = p"
| "readable_name tr (Pin pre c pin) = tr (''_'' @ c @ ''_'')"

text \<open>A path: where it starts and ends, the text of its slack, and what else its row has.\<close>

record report_path =
  start_point :: point
  end_point :: point
  slack_text :: string
  other_columns :: "string list"

definition path_row :: "report_path \<Rightarrow> string list" where
  "path_row p = [point_text (start_point p), point_text (end_point p), slack_text p] @ other_columns p"

definition good_path :: "report_path \<Rightarrow> bool" where
  "good_path p \<longleftrightarrow> good_point (start_point p) \<and> good_point (end_point p) \<and> py_float (slack_text p) \<noteq> None"

definition path_cells :: "report_path \<Rightarrow> string list" where
  "path_cells p = point_cells (start_point p) @ point_cells (end_point p)"

definition slack :: "report_path \<Rightarrow> rat" where
  "slack p = (case py_float (slack_text p) of None \<Rightarrow> 0 | Some q \<Rightarrow> q)"

definition readable_line :: "(string \<Rightarrow> string) \<Rightarrow> (rat \<Rightarrow> string) \<Rightarrow> report_path \<Rightarrow> string" where
  "readable_line tr show_float p =
     readable_name tr (start_point p) @ '','' @ readable_name tr (end_point p) @ '','' @ show_float (slack p) @ [newline]"

text \<open>The report after the translation, and the cells whose names it takes.\<close>

definition readable_report :: "(string \<Rightarrow> string) \<Rightarrow> (rat \<Rightarrow> string) \<Rightarrow> report_path list \<Rightarrow> string" where
  "readable_report tr show_float paths =
     ''Start Point, End Point, WNS (ns)'' @ [newline] @ concat (map (readable_line tr show_float) paths)"

definition generated_cells :: "report_path list list \<Rightarrow> string set" where
  "generated_cells reports = set (concat (map path_cells (concat reports)))"

section \<open>What is read of a path\<close>

fun point_key :: "point \<Rightarrow> string" where
  "point_key (Port p) = p"
| "point_key (Pin pre c pin) = ''_'' @ c @ ''_''"

lemma read_point:
  assumes "good_point p"
  shows "point_of (point_text p) = point_key p" and "cells_of (point_text p) = point_cells p"
proof -
  have "point_of (point_text p) = point_key p \<and> cells_of (point_text p) = point_cells p"
  proof (cases p)
    case (Port s)
    then show ?thesis using assms cell_search_absent by (simp add: point_of_def cells_of_def re_search_def)
  next
    case (Pin pre c pin)
    then obtain g where "re_search GENERATED_CELL_RE (point_text p) = Some g" "the_grp g ''1'' = ''_'' @ c @ ''_''"
      using cell_search_found[of pre c pin None] assms by (auto simp: re_search_def)
    then show ?thesis using Pin by (simp add: point_of_def cells_of_def)
  qed
  then show "point_of (point_text p) = point_key p" and "cells_of (point_text p) = point_cells p" by auto
qed

lemma read_path:
  assumes "good_path p"
  shows "extract_row (path_row p) = Inr (path_cells p, point_key (start_point p), point_key (end_point p), slack p)"
  using assms by (auto simp: good_path_def path_row_def path_cells_def slack_def read_point)

lemma read_paths:
  assumes "list_all good_path paths"
  shows "extract_path_info (map path_row paths) = Inr (set (concat (map path_cells paths)),
    map (\<lambda>p. (point_key (start_point p), point_key (end_point p), slack p)) paths)"
proof -
  have "emap extract_row (map path_row paths) =
      Inr (map (\<lambda>p. (path_cells p, point_key (start_point p), point_key (end_point p), slack p)) paths)"
    using assms by (induction paths) (simp_all add: read_path del: extract_row.simps)
  then show ?thesis by (simp add: extract_path_info_def o_def)
qed

text \<open>What the names of the cells are made of.\<close>

lemma cell_words:
  assumes "list_all (list_all good_path) reports" and "c \<in> generated_cells reports"
  shows "list_all is_word c" and "take 1 c = ''_''"
proof -
  obtain paths p where p: "paths \<in> set reports" "p \<in> set paths" "c \<in> set (path_cells p)"
    using assms(2) by (auto simp: generated_cells_def)
  then have "good_path p" using assms(1) by (auto simp: list_all_iff)
  moreover have "list_all is_word c \<and> take 1 c = ''_''" if "c \<in> set (point_cells x)" "good_point x" for x
    using that by (cases x) (auto simp: is_word_def)
  ultimately show "list_all is_word c" and "take 1 c = ''_''"
    using p(3) by (auto simp: path_cells_def good_path_def)
qed

lemma word_no_newline: "list_all is_word c \<Longrightarrow> newline \<notin> set c"
  by (auto simp: list_all_iff is_word_def is_digit_def is_lower_def is_upper_def)

lemma renamed_key:
  assumes "good_point x" and "set (point_cells x) \<subseteq> cells" and "\<And>c. c \<in> cells \<Longrightarrow> take 1 c = ''_''"
    and "\<And>k. dget d k = (if k \<in> cells then Some (tr k) else None)"
  shows "dget_or d (point_key x) (point_key x) = readable_name tr x"
proof (cases x)
  case (Port p)
  then have "p \<notin> cells" using assms(1,3) by auto
  then show ?thesis using Port assms(4) by (simp add: dget_or_def)
qed (use assms in \<open>simp add: dget_or_def\<close>)

section \<open>Both steps of the flow\<close>

lemma paths_differ: "script_path gen_out \<noteq> names_path gen_out"
  by (simp add: script_path_def names_path_def ys_translate_script_filename_def ys_translated_names_def)

text \<open>
  Yosys runs the script: for each of the cells that it selects, the name that Yosys has for its
  output and its own name are added to the file of the names.
\<close>

definition yosys_lists :: "(string list \<Rightarrow> syn_files \<Rightarrow> syn_files) \<Rightarrow> (string \<Rightarrow> string) \<Rightarrow> string \<Rightarrow> string \<Rightarrow> bool" where
  "yosys_lists yosys tr top_level gen_out \<longleftrightarrow>
     (\<forall>cells fs. list_all (list_all is_word) cells \<longrightarrow>
        fs (script_path gen_out) = Some (create_translate_names_script cells top_level gen_out) \<longrightarrow>
        yosys [''yosys'', ''-s'', script_path gen_out] fs =
          fs(names_path gen_out \<mapsto>
            (case fs (names_path gen_out) of None \<Rightarrow> [] | Some s \<Rightarrow> s) @ names_listing top_level tr cells))"

text \<open>The files hold the rows of the paths.\<close>

definition holds_paths :: "(string \<Rightarrow> string list list) \<Rightarrow> syn_files \<Rightarrow> string \<Rightarrow> report_path list \<Rightarrow> bool" where
  "holds_paths read_csv fs rpt paths \<longleftrightarrow>
     list_all good_path paths \<and> (case fs rpt of None \<Rightarrow> False | Some s \<Rightarrow> read_csv s = map path_row paths)"

lemma read_report_paths:
  "holds_paths read_csv fs rpt paths \<Longrightarrow> read_report read_csv fs rpt =
    Inr (set (concat (map path_cells paths)), map (\<lambda>p. (point_key (start_point p), point_key (end_point p), slack p)) paths)"
  by (auto simp: holds_paths_def read_report_def read_paths split: option.splits)

lemma read_reports:
  assumes "list_all2 (holds_paths read_csv fs) rpts reports"
  shows "\<exists>rs. emap (read_report read_csv fs) rpts = Inr rs \<and> \<Union> (set (map fst rs)) = generated_cells reports"
  using assms
proof (induction rule: list_all2_induct)
  case (Cons r rpts paths reports)
  then show ?case using read_report_paths[OF Cons(1)] by (auto simp: generated_cells_def)
qed (simp add: generated_cells_def)

lemma translated_paths:
  assumes "list_all good_path paths" and "set (concat (map path_cells paths)) \<subseteq> cells"
    and "\<And>c. c \<in> cells \<Longrightarrow> take 1 c = ''_''" and "\<And>k. dget d k = (if k \<in> cells then Some (tr k) else None)"
  shows "map (\<lambda>(a, b, w). (dget_or d a a, dget_or d b b, w))
      (map (\<lambda>p. (point_key (start_point p), point_key (end_point p), slack p)) paths) =
    map (\<lambda>p. (readable_name tr (start_point p), readable_name tr (end_point p), slack p)) paths"
proof -
  have "dget_or d (point_key x) (point_key x) = readable_name tr x"
    if "p \<in> set paths" "x = start_point p \<or> x = end_point p" for p x
    by (rule renamed_key[OF _ _ assms(3,4)]) (use assms(1,2) that in \<open>auto simp: list_all_iff good_path_def path_cells_def\<close>)
  then show ?thesis by simp
qed

text \<open>
  C35. The timing reports of the flow are rewritten for people: whatever paths the rows of the
  reports give, after both steps the file of a report has, below a header, one line for each
  path in the same order, with its start point, its end point and its slack.  A port keeps its
  name; a pin of a cell that Yosys generated is called by the name Yosys has for that cell, with
  the name of the pin and of the instances above left out; further columns are dropped.  Yosys
  is asked for every such cell of every report, in whatever order the set of them is gone
  through, and the files other than this report, the script and the names are left alone.
\<close>

theorem timing_report_translated:
  assumes "list_all2 (holds_paths read_csv fs) rpts reports" and "(rpt, paths) \<in> set (zip rpts reports)"
    and "set (set_order (generated_cells reports)) = generated_cells reports"
    and "yosys_lists yosys tr top_level gen_out" and "\<And>c. newline \<notin> set (tr c)"
    and "CHR ''/'' \<notin> set top_level" and "newline \<notin> set top_level" and "fs (names_path gen_out) = None"
    and "rpt \<noteq> script_path gen_out"
  shows "\<exists>fs'. ebind (build_translated_names read_csv set_order yosys top_level gen_out rpts fs)
      (translate_timing_csv read_csv show_float rpt gen_out) = Inr fs' \<and>
    fs' rpt = Some (readable_report tr show_float paths) \<and>
    (\<forall>f. f \<notin> {rpt, script_path gen_out, names_path gen_out} \<longrightarrow> fs' f = fs f)"
proof -
  let ?cells = "generated_cells reports"
  let ?order = "set_order ?cells"
  let ?fs1 = "fs(script_path gen_out \<mapsto> create_translate_names_script ?order top_level gen_out)"
  let ?fs2 = "?fs1(names_path gen_out \<mapsto> names_listing top_level tr ?order)"
  have good: "list_all (list_all good_path) reports"
    using assms(1) by (auto simp: list_all2_conv_all_nth list_all_length holds_paths_def)
  have words: "list_all (list_all is_word) ?order"
    using cell_words(1)[OF good] assms(3) by (auto simp: list_all_iff)
  have report: "holds_paths read_csv fs rpt paths" "paths \<in> set reports"
    using assms(1,2) by (auto simp: list_all2_iff dest: set_zip_rightD)
  then have rpt: "rpt \<noteq> names_path gen_out" "list_all good_path paths"
    using assms(8) by (auto simp: holds_paths_def split: option.splits)
  obtain rs where rs: "emap (read_report read_csv fs) rpts = Inr rs" "\<Union> (set (map fst rs)) = ?cells"
    using read_reports[OF assms(1)] by blast
  have "yosys [''yosys'', ''-s'', script_path gen_out] ?fs1 = ?fs2"
    using assms(4,8) words paths_differ[of gen_out] by (simp add: yosys_lists_def)
  then have built: "build_translated_names read_csv set_order yosys top_level gen_out rpts fs = Inr ?fs2"
    using rs(2) by (simp add: build_translated_names_def rs(1) Let_def)
  have "holds_paths read_csv ?fs2 rpt paths"
    using report(1) assms(9) rpt(1) by (simp add: holds_paths_def)
  note read = read_report_paths[OF this]
  obtain d where d: "build_translated_names_dict (names_listing top_level tr ?order) = Inr d"
      "\<And>k. dget d k = (if k \<in> ?cells then Some (tr k) else None)"
    using names_dict_listing[OF assms(6,7), of ?order tr "[]"] assms(3,5) words word_no_newline
    by (auto simp: build_translated_names_dict_def list_all_iff)
  have "set (concat (map path_cells paths)) \<subseteq> ?cells" using report(2) by (auto simp: generated_cells_def)
  note names = translated_paths[OF rpt(2) this cell_words(2)[OF good] d(2)]
  have lines: "map (timing_line show_float) (map (\<lambda>p. (readable_name tr (start_point p), readable_name tr (end_point p), slack p)) paths) =
      map (readable_line tr show_float) paths"
    by (simp add: timing_line_def readable_line_def)
  have "translate_timing_csv read_csv show_float rpt gen_out ?fs2 =
      Inr (?fs2(rpt \<mapsto> readable_report tr show_float paths))"
    using lines names
    by (simp add: translate_timing_csv_def translate_timing_into_def read translate_path_info_def d(1) readable_report_def
        timing_header_def del: map_map)
  then show ?thesis using built by simp
qed

text \<open>Two reports: a path from a generated cell to a port, and one between cells below an instance.\<close>

definition demo_path :: report_path where
  "demo_path = \<lparr>start_point = Pin [] ''12'' ''Q'', end_point = Port ''data_o'', slack_text = ''0.5'', other_columns = []\<rparr>"

definition demo_path2 :: report_path where
  "demo_path2 = \<lparr>start_point = Pin ''core/'' ''13'' ''Q'', end_point = Pin [] ''12'' ''D'', slack_text = ''-1'', other_columns = []\<rparr>"

definition demo_syn_files :: syn_files where
  "demo_syn_files = [''r.csv.rpt'' \<mapsto> ''_12_/Q,data_o,0.5'', ''s.csv.rpt'' \<mapsto> ''core/_13_/Q,_12_/D,-1'']"

definition demo_tr :: "string \<Rightarrow> string" where
  "demo_tr c = (if c = ''_12_'' then ''pc_q[0]'' else ''imm_q'')"

definition demo_csv :: "string \<Rightarrow> string list list" where
  "demo_csv s = [split_on CHR '','' s]"

text \<open>A program that reads the cells off the lines of the script that select them.\<close>

definition demo_selected :: "string \<Rightarrow> string list" where
  "demo_selected s = map (\<lambda>l. takeWhile (\<lambda>c. c \<noteq> CHR '' '') (drop 7 l)) (filter (prefix ''select '') (file_lines s))"

definition demo_yosys :: "string list \<Rightarrow> syn_files \<Rightarrow> syn_files" where
  "demo_yosys cmd fs =
     (case fs (last cmd) of
        None \<Rightarrow> fs
      | Some s \<Rightarrow> fs(names_path ''gen'' \<mapsto>
          (case fs (names_path ''gen'') of None \<Rightarrow> [] | Some t \<Rightarrow> t) @ names_listing ''ibex_top'' demo_tr (demo_selected s)))"

lemma word_takeWhile:
  assumes "list_all is_word c"
  shows "takeWhile (\<lambda>x. x \<noteq> CHR '' '') (c @ CHR '' '' # r) = c"
proof -
  have "\<not> is_word CHR '' ''" by (simp add: is_word_def is_digit_def is_lower_def is_upper_def)
  then have "list_all (\<lambda>x. x \<noteq> CHR '' '') c" using assms by (auto simp: list_all_iff)
  from takeWhile_run[OF this] show ?thesis by simp
qed

lemma demo_selected_lines:
  assumes "newline \<notin> set l"
  shows "demo_selected (l @ newline # s) =
    (if prefix ''select '' (l @ [newline]) then [takeWhile (\<lambda>c. c \<noteq> CHR '' '') (drop 7 (l @ [newline]))] else []) @ demo_selected s"
  using file_lines_first[OF assms, of s] by (simp add: demo_selected_def)

lemma demo_selected_script:
  assumes "list_all (list_all is_word) cells"
  shows "demo_selected (create_translate_names_script cells ''ibex_top'' ''gen'') = cells"
proof -
  let ?line = "\<lambda>cell. ''select '' @ cell @ '' %x:+[Q]'' @ [newline] @
      ''tee -a '' @ ''gen'' @ ''/'' @ ys_translated_names @ '' select -list'' @ [newline]"
  have body: "demo_selected (concat (map ?line cs)) = cs" if "list_all (list_all is_word) cs" for cs
    using that
  proof (induction cs)
    case Nil
    show ?case by (simp add: demo_selected_def file_lines_def)
  next
    case (Cons c cs)
    let ?tee = "''tee -a gen/ys_translated_names select -list''" and ?sel = "''select '' @ c @ '' %x:+[Q]''"
    have c: "list_all is_word c" using Cons.prems by simp
    then have n: "newline \<notin> set ?sel" using word_no_newline by simp
    have t: "newline \<notin> set ?tee" by simp
    have "concat (map ?line (c # cs)) = ?sel @ newline # (?tee @ newline # concat (map ?line cs))"
      by (simp add: ys_translated_names_def)
    then have "demo_selected (concat (map ?line (c # cs))) = [takeWhile (\<lambda>x. x \<noteq> CHR '' '') (drop 7 (?sel @ [newline]))] @
        demo_selected (concat (map ?line cs))"
      using demo_selected_lines[OF n, of "?tee @ newline # concat (map ?line cs)"]
        demo_selected_lines[OF t, of "concat (map ?line cs)"] by (simp del: concat.simps list.map)
    then show ?case using Cons word_takeWhile[OF c] by simp
  qed
  have t: "newline \<notin> set (''tcl '' @ ys_tcl)" "newline \<notin> set ''cd ibex_top''" by (simp_all add: ys_tcl_def)
  have "create_translate_names_script cells ''ibex_top'' ''gen'' =
      (''tcl '' @ ys_tcl) @ newline # (''cd ibex_top'' @ newline # concat (map ?line cells))"
    by (simp add: create_translate_names_script_def)
  then have "demo_selected (create_translate_names_script cells ''ibex_top'' ''gen'') = demo_selected (concat (map ?line cells))"
    using demo_selected_lines[OF t(1), of "''cd ibex_top'' @ newline # concat (map ?line cells)"]
      demo_selected_lines[OF t(2), of "concat (map ?line cells)"] by (simp del: concat.simps list.map)
  then show ?thesis using body[OF assms] by simp
qed

lemma demo_yosys_lists: "yosys_lists demo_yosys demo_tr ''ibex_top'' ''gen''"
  by (simp add: yosys_lists_def demo_yosys_def demo_selected_script)

lemma demo_good:
  "good_path demo_path" "good_path demo_path2"
  "map path_row [demo_path] = demo_csv ''_12_/Q,data_o,0.5''" "map path_row [demo_path2] = demo_csv ''core/_13_/Q,_12_/D,-1''"
proof -
  have "good_point (Pin [] ''12'' ''Q'')" "good_point (Port ''data_o'')" "good_point (Pin ''core/'' ''13'' ''Q'')"
    "good_point (Pin [] ''12'' ''D'')" "py_float ''0.5'' \<noteq> None" "py_float ''-1'' \<noteq> None"
    by code_simp+
  then show "good_path demo_path" "good_path demo_path2" by (simp_all add: good_path_def demo_path_def demo_path2_def)
  show "map path_row [demo_path] = demo_csv ''_12_/Q,data_o,0.5''" "map path_row [demo_path2] = demo_csv ''core/_13_/Q,_12_/D,-1''"
    by (simp_all add: path_row_def demo_path_def demo_path2_def demo_csv_def)
qed

lemma timing_report_translated_witness:
  "\<exists>fs'. ebind (build_translated_names demo_csv (\<lambda>A. [''_12_'', ''_13_'']) demo_yosys ''ibex_top'' ''gen''
        [''r.csv.rpt'', ''s.csv.rpt''] demo_syn_files)
      (translate_timing_csv demo_csv (\<lambda>q. ''-1.0'') ''s.csv.rpt'' ''gen'') = Inr fs' \<and>
    fs' ''s.csv.rpt'' = Some (''Start Point, End Point, WNS (ns)'' @ [newline] @ ''imm_q,pc_q[0],-1.0'' @ [newline])"
proof -
  have "holds_paths demo_csv demo_syn_files ''r.csv.rpt'' [demo_path]" "holds_paths demo_csv demo_syn_files ''s.csv.rpt'' [demo_path2]"
    using demo_good by (simp_all add: holds_paths_def demo_syn_files_def)
  then have files: "list_all2 (holds_paths demo_csv demo_syn_files) [''r.csv.rpt'', ''s.csv.rpt''] [[demo_path], [demo_path2]]"
    by simp
  have cells: "generated_cells [[demo_path], [demo_path2]] = {''_12_'', ''_13_''}"
    by (auto simp: generated_cells_def path_cells_def demo_path_def demo_path2_def)
  have "\<exists>fs'. ebind (build_translated_names demo_csv (\<lambda>A. [''_12_'', ''_13_'']) demo_yosys ''ibex_top'' ''gen''
        [''r.csv.rpt'', ''s.csv.rpt''] demo_syn_files)
      (translate_timing_csv demo_csv (\<lambda>q. ''-1.0'') ''s.csv.rpt'' ''gen'') = Inr fs' \<and>
    fs' ''s.csv.rpt'' = Some (readable_report demo_tr (\<lambda>q. ''-1.0'') [demo_path2]) \<and>
    (\<forall>f. f \<notin> {''s.csv.rpt'', script_path ''gen'', names_path ''gen''} \<longrightarrow> fs' f = demo_syn_files f)"
    by (rule timing_report_translated[OF files _ _ demo_yosys_lists])
      (simp_all add: cells demo_tr_def demo_syn_files_def names_path_def ys_translated_names_def script_path_def
        ys_translate_script_filename_def)
  then show ?thesis by (auto simp: readable_report_def readable_line_def demo_path2_def demo_tr_def)
qed

section \<open>The number of gates\<close>

text \<open>The area a line of the report accounts for, in the unit of the library.\<close>

definition gates_of :: "string \<Rightarrow> (string \<times> rat option) option" where
  "gates_of line =
     (case split_ws line of
        [] \<Rightarrow> None
      | gate # rest \<Rightarrow> Some (gate, case rest of [] \<Rightarrow> None | n # _ \<Rightarrow> py_float n))"

definition line_area :: "(string, rat) pydict \<Rightarrow> string \<Rightarrow> rat" where
  "line_area cells line =
     (case gates_of line of
        Some (gate, Some n) \<Rightarrow> n * (case dget cells gate of None \<Rightarrow> 0 | Some area \<Rightarrow> area)
      | _ \<Rightarrow> 0)"

definition counted_line :: "(string, rat) pydict \<Rightarrow> string \<Rightarrow> bool" where
  "counted_line cells line \<longleftrightarrow>
     (case gates_of line of Some (gate, None) \<Rightarrow> dget cells gate = None | _ \<Rightarrow> True)"

lemma dget_map_values: "dget (map (\<lambda>(k, v). (k, f v)) d) k = map_option f (dget d k)"
  by (induction d) auto

lemma report_line_area:
  assumes "counted_line cells line"
  shows "report_line path (map (\<lambda>(g, a). (g, a / r)) cells) (i, line) ge = Inr (ge + line_area cells line / r)"
  using assms
  by (auto simp: report_line_def counted_line_def line_area_def gates_of_def dget_map_values split: list.splits option.splits)

lemma report_fold:
  assumes "list_all (counted_line cells) ls"
  shows "efold (report_line path (map (\<lambda>(g, a). (g, a / r)) cells)) (List.enumerate i ls) ge =
    Inr (ge + sum_list (map (line_area cells) ls) / r)"
  using assms
  by (induction ls arbitrary: i ge) (simp_all add: report_line_area add_divide_distrib)

text \<open>
  For a library that can be read and a report whose lines on its cells are well formed, the
  number of gates is the area of the report over the area of the reference cell, in thousands.
\<close>

theorem kge_is_area_over_reference:
  assumes "fs lib_path = Some lib_file" and "fs report_path = Some report"
    and "efold (lib_line lib_path) (List.enumerate 0 (file_lines lib_file)) ([], None) = Inr (cells, open_cell)"
    and "dget cells ref_cell = Some r" and "r \<noteq> 0"
    and "list_all (counted_line cells) (file_lines report)"
  shows "kge_main fs lib_path report_path ref_cell =
    Inr (of_int (round_even (sum_list (map (line_area cells) (file_lines report)) / r / 1000 * 100)) / 100)"
  using assms by (simp add: kge_main_def read_lib_def get_kge_def report_fold mult.commute)

text \<open>Two cells in the library, and 30 inverters and 5 gates of the other kind.\<close>

definition demo_lib :: string where
  "demo_lib = concat (map (\<lambda>l. l @ [newline])
     [''  cell (NAND2_X1) {'', CHR 0x09 # ''area : 0.8;'', ''  cell (INV_X1) {'', CHR 0x09 # ''area : 0.4;''])"

definition demo_area_report :: string where
  "demo_area_report = concat (map (\<lambda>l. l @ [newline]) [''  INV_X1  30'', [], ''  NAND2_X1 5'', ''Chip area''])"

definition demo_cells :: "(string, rat) pydict" where
  "demo_cells = [(''NAND2_X1'', 4 / 5), (''INV_X1'', 2 / 5)]"

lemma demo_texts:
  "file_lines demo_lib = map (\<lambda>l. l @ [newline])
     [''  cell (NAND2_X1) {'', CHR 0x09 # ''area : 0.8;'', ''  cell (INV_X1) {'', CHR 0x09 # ''area : 0.4;'']"
  "file_lines demo_area_report = map (\<lambda>l. l @ [newline]) [''  INV_X1  30'', [], ''  NAND2_X1 5'', ''Chip area'']"
  by code_simp+

lemma demo_words:
  "split_ws (''  cell (NAND2_X1) {'' @ [newline]) = [''cell'', ''(NAND2_X1)'', ''{'']"
  "split_ws (''  cell (INV_X1) {'' @ [newline]) = [''cell'', ''(INV_X1)'', ''{'']"
  "split_ws (CHR 0x09 # ''area : 0.8;'' @ [newline]) = [''area'', '':'', ''0.8;'']"
  "split_ws (CHR 0x09 # ''area : 0.4;'' @ [newline]) = [''area'', '':'', ''0.4;'']"
  "split_ws (''  INV_X1  30'' @ [newline]) = [''INV_X1'', ''30'']"
  "split_ws (''  NAND2_X1 5'' @ [newline]) = [''NAND2_X1'', ''5'']"
  "split_ws (''Chip area'' @ [newline]) = [''Chip'', ''area'']"
  "split_ws [newline] = []"
  by code_simp+

lemma demo_numbers:
  "py_float ''0.8'' = Some (4 / 5)" "py_float ''0.4'' = Some (2 / 5)" "py_float ''30'' = Some 30"
  "py_float ''5'' = Some 5" "py_float ''area'' = None"
  by code_simp+

lemmas demo_kge_simps = demo_texts demo_words[simplified] demo_numbers demo_cells_def

lemma demo_lib_reads:
  "efold (lib_line ''l'') (List.enumerate 0 (file_lines demo_lib)) ([], None) = Inr (demo_cells, None)"
  by (simp add: demo_kge_simps lib_line_def strip_chars_def)

lemma demo_report_lines:
  "list_all (counted_line demo_cells) (file_lines demo_area_report)"
  "map (line_area demo_cells) (file_lines demo_area_report) = [12, 0, 4, 0]"
  by (simp_all add: demo_kge_simps counted_line_def line_area_def gates_of_def)

theorem kge_is_area_over_reference_witness:
  "kge_main [''l'' \<mapsto> demo_lib, ''r'' \<mapsto> demo_area_report] ''l'' ''r'' ''NAND2_X1'' = Inr (1 / 50)"
proof -
  have "kge_main [''l'' \<mapsto> demo_lib, ''r'' \<mapsto> demo_area_report] ''l'' ''r'' ''NAND2_X1'' =
      Inr (of_int (round_even (sum_list (map (line_area demo_cells) (file_lines demo_area_report)) / (4 / 5) / 1000 * 100)) / 100)"
    by (rule kge_is_area_over_reference[OF _ _ demo_lib_reads _ _ demo_report_lines(1)])
      (simp_all add: demo_cells_def)
  then show ?thesis by (simp add: demo_report_lines(2) round_even_def)
qed

end
