(* ===== verification/ToolReq.thy ===== *)
theory ToolReq
  imports PyVal PyRe Shlex
begin

text \<open>
  \<^verbatim>\<open>util/check_tool_requirements.py\<close>: reads the least version of each tool, asks the tools for
  theirs, brings both to one format and compares them.  Running a command, importing a module
  and the order of versions, which is that of the library \<^verbatim>\<open>packaging\<close>, are parameters.
\<close>

section \<open>Requirements\<close>

datatype tool_class =
    Generic_tool | Edalize_tool | Vcs_tool | Verible_tool | Verilator_tool | Vivado_tool | Ninja_tool

record tool_req =
  tr_tool :: string
  tr_min_version :: string
  tr_as_needed :: bool
  tr_class :: tool_class

text \<open>A requirement that is wrong, with the path of its file and the message; or another exception.\<close>

datatype req_error = Req_err string string | Req_exception string

definition tool_classes :: "(string \<times> tool_class) list" where
  "tool_classes =
     [(''edalize'', Edalize_tool), (''vcs'', Vcs_tool), (''verible'', Verible_tool), (''verilator'', Verilator_tool),
      (''vivado'', Vivado_tool), (''ninja'', Ninja_tool)]"

definition without_key :: "string \<Rightarrow> (pyval \<times> pyval) list \<Rightarrow> (pyval \<times> pyval) list" where
  "without_key k d = filter (\<lambda>(k', _). k' \<noteq> PStr k) d"

definition key_text :: "pyval \<Rightarrow> req_error + string" where
  "key_text k = (case k of PStr s \<Rightarrow> Inr s | _ \<Rightarrow> Inl (Req_exception ''TypeError''))"

definition dict_err :: "string \<Rightarrow> string \<Rightarrow> string \<Rightarrow> req_error + 'a" where
  "dict_err path tool msg = Inl (Req_err path (''Dict for '' @ tool @ '' in __TOOL_REQUIREMENTS__'' @ msg))"

definition dict_to_tool_req :: "string \<Rightarrow> string \<Rightarrow> (pyval \<times> pyval) list \<Rightarrow> req_error + tool_req" where
  "dict_to_tool_req path tool raw =
     (case dict_get raw ''min_version'' of
           None \<Rightarrow> dict_err path tool ('' is missing required key: '' @ [CHR 0x22] @ ''min_version'' @ [CHR 0x22] @ ''.'')
         | Some (PStr min_version) \<Rightarrow>
             let raw1 = without_key ''min_version'' raw
             in ebind (case dict_get raw1 ''as_needed'' of
                         None \<Rightarrow> Inr False
                       | Some (PBool b) \<Rightarrow> Inr b
                       | Some _ \<Rightarrow> dict_err path tool '' has as_needed that is not a bool.'') (\<lambda>as_needed.
                let raw2 = without_key ''as_needed'' raw1
                in if raw2 \<noteq> []
                   then ebind (emap (\<lambda>(k, _). key_text k) raw2) (\<lambda>ks.
                          dict_err path tool ('' has unexpected keys: '' @ join '', '' ks @ ''.''))
                   else Inr \<lparr>tr_tool = tool, tr_min_version = min_version, tr_as_needed = as_needed,
                             tr_class = (case map_of tool_classes tool of None \<Rightarrow> Generic_tool | Some c \<Rightarrow> c)\<rparr>)
         | Some _ \<Rightarrow> dict_err path tool '' has min_version that is not a string.'')"

definition read_entry :: "string \<Rightarrow> pyval \<times> pyval \<Rightarrow> req_error + string \<times> tool_req" where
  "read_entry path entry =
     (case entry of
        (PStr tool, raw_val) \<Rightarrow>
          ebind (case raw_val of
                   PStr s \<Rightarrow> Inr [(PStr ''min_version'', PStr s)]
                 | PDict d \<Rightarrow> Inr d
                 | _ \<Rightarrow> Inl (Req_err path (''Value for '' @ tool @ '' in __TOOL_REQUIREMENTS__ is not a string or dict.'')))
            (\<lambda>d. ebind (dict_to_tool_req path tool d) (\<lambda>r. Inr (tool, r)))
      | (k, _) \<Rightarrow> Inl (Req_err path (''Invalid key in __TOOL_REQUIREMENTS__: '' @ py_repr k)))"

text \<open>The value that running the file gave to the name, if it gave one.\<close>

definition read_tool_requirements :: "string \<Rightarrow> pyval option \<Rightarrow> req_error + (string \<times> tool_req) list" where
  "read_tool_requirements path raw =
     (case raw of
        None \<Rightarrow> Inl (Req_err path ''The Python file at did not define __TOOL_REQUIREMENTS__.'')
      | Some PNone \<Rightarrow> Inl (Req_err path ''The Python file at did not define __TOOL_REQUIREMENTS__.'')
      | Some (PDict d) \<Rightarrow> emap (read_entry path) d
      | Some _ \<Rightarrow> Inl (Req_err path ''__TOOL_REQUIREMENTS__ is not a dict.''))"

text \<open>The requirements of the repository, and where they are beside the program.\<close>

definition TOOL_REQUIREMENTS :: pyval where
  "TOOL_REQUIREMENTS =
     PDict [(PStr ''verilator'', PStr ''4.210''), (PStr ''edalize'', PStr ''0.2.0''),
       (PStr ''vcs'', PDict [(PStr ''min_version'', PStr ''2020.03-SP2''), (PStr ''as_needed'', PBool True)]),
       (PStr ''vivado'', PDict [(PStr ''min_version'', PStr ''2020.2''), (PStr ''as_needed'', PBool True)])]"

text \<open>
  The end of \<^verbatim>\<open>doc/conf.py\<close>: what the documentation says of the requirements, with the versions
  as they were given.
\<close>

definition rst_line :: "string \<times> tool_req \<Rightarrow> string" where
  "rst_line entry = ''.. |tool_requirements.'' @ fst entry @ ''| replace:: '' @ tr_min_version (snd entry) @ [newline]"

definition rst_epilog :: "(string \<times> tool_req) list \<Rightarrow> string" where
  "rst_epilog = foldl (\<lambda>acc entry. acc @ rst_line entry) []"

section \<open>Installed versions\<close>

text \<open>
  What the system answers: a command with additions to its environment ends with an output or
  an error, the shell command of one tool likewise, a module has a version or is not found; the
  versions of the library, which may not parse, and their order.
\<close>

record 'v tool_env =
  te_run :: "string list \<Rightarrow> (string \<times> string) list \<Rightarrow> string + string"
  te_shell :: "string \<Rightarrow> string + string"
  te_module :: "string \<Rightarrow> string option"
  te_parse :: "string \<Rightarrow> string + 'v"
  te_less :: "'v \<Rightarrow> 'v \<Rightarrow> bool"

definition tool_cmd :: "tool_class \<Rightarrow> string list" where
  "tool_cmd c =
     (case c of
        Verible_tool \<Rightarrow> [''verible-verilog-lint'', ''--version'']
      | Vivado_tool \<Rightarrow> [''vivado'', ''-version'']
      | Vcs_tool \<Rightarrow> [''vcs'', ''-full64'', ''-ID'']
      | Ninja_tool \<Rightarrow> [''ninja'', ''--version'']
      | _ \<Rightarrow> [])"

definition tool_overrides :: "tool_class \<Rightarrow> (string \<times> string) list" where
  "tool_overrides c = (if c = Vcs_tool then [(''VCS_ARCH_OVERRIDE'', ''linux'')] else [])"

definition VIVADO_RE :: re where
  "VIVADO_RE = seqs [Lit ''Vivado v'', Grp ''1'' (star any_char), one_of is_space]"

definition VCS_RE :: re where
  "VCS_RE = seqs [Lit ''Compiler version = VCS '', one_of is_upper, Lit ''-'', Grp ''1'' (star any_char)]"

definition version_regex :: "tool_class \<Rightarrow> re option" where
  "version_regex c = (case c of Vivado_tool \<Rightarrow> Some VIVADO_RE | Vcs_tool \<Rightarrow> Some VCS_RE | _ \<Rightarrow> None)"

definition get_tool_cmd :: "tool_req \<Rightarrow> string list" where
  "get_tool_cmd r = (if tool_cmd (tr_class r) \<noteq> [] then tool_cmd (tr_class r) else [tr_tool r, ''--version''])"

definition parse_version_output :: "tool_req \<Rightarrow> string \<Rightarrow> string + string" where
  "parse_version_output r stdout =
     (case version_regex (tr_class r) of
        None \<Rightarrow>
          (case split_ws (hd (split_on newline stdout)) of
             [] \<Rightarrow> Inl ''Empty first line.''
           | ws \<Rightarrow> Inr (last ws))
      | Some regex \<Rightarrow>
          of_option ''No line matched version regex.''
            (map_option (\<lambda>line. the_grp (the (re_match regex (rstrip line))) ''1'')
              (List.find (\<lambda>line. re_match regex (rstrip line) \<noteq> None) (split_on newline stdout))))"

text \<open>Failures are messages of a \<open>RuntimeError\<close>; the tool that needs a shell may also end with an \<open>IndexError\<close>.\<close>

datatype version_error = Version_runtime string | Version_index

definition verilator_version :: "'v tool_env \<Rightarrow> version_error + string" where
  "verilator_version env =
     (case te_shell env ''verilator --version'' of
        Inl e \<Rightarrow> Inl (Version_runtime (''Unable to call Verilator to check version: '' @ e))
      | Inr out \<Rightarrow>
          (case split_on CHR '' '' out of
             _ # w # _ \<Rightarrow> Inr (strip w)
           | _ \<Rightarrow> Inl Version_index))"

definition edalize_version :: "'v tool_env \<Rightarrow> string \<Rightarrow> version_error + string" where
  "edalize_version env tool =
     of_option (Version_runtime (''Unable to import '' @ tool @ '' to check version'')) (te_module env tool)"

definition run_version :: "'v tool_env \<Rightarrow> tool_req \<Rightarrow> version_error + string" where
  "run_version env r =
     (let cmd = get_tool_cmd r; cmd_txt = repr_str (join '' '' (map quote cmd)); overrides = tool_overrides (tr_class r)
      in case te_run env cmd overrides of
           Inl e \<Rightarrow>
             Inl (Version_runtime (''Failed to run '' @ cmd_txt @
               (if overrides = [] then []
                else '' (with environment overrides: '' @ join '', '' (map (\<lambda>(k, v). k @ ''='' @ v) overrides) @ '')'') @
               '' to check version: '' @ e))
         | Inr out \<Rightarrow>
             if out = [] then Inl (Version_runtime (''No output from running '' @ cmd_txt @ '' to check version.''))
             else (case parse_version_output r out of
                     Inl e \<Rightarrow> Inl (Version_runtime (''Bad output from running '' @ cmd_txt @ '' to check version: '' @ e))
                   | Inr v \<Rightarrow> Inr v))"

definition get_version :: "'v tool_env \<Rightarrow> tool_req \<Rightarrow> version_error + string" where
  "get_version env r =
     (case tr_class r of
        Verilator_tool \<Rightarrow> verilator_version env
      | Edalize_tool \<Rightarrow> edalize_version env (tr_tool r)
      | _ \<Rightarrow> run_version env r)"

section \<open>Semantic versions\<close>

definition bad_format :: "string \<Rightarrow> string" where
  "bad_format version = version @ '' has invalid version string format.''"

definition VERIBLE_VERSION_RE :: re where
  "VERIBLE_VERSION_RE =
     seqs [Lit ''v'', Grp ''1'' (plus is_digit), Lit ''.'', Grp ''2'' (plus is_digit), Lit ''-'',
           Grp ''3'' (plus is_digit), Lit ''-g'', plus (\<lambda>c. is_digit c \<or> c \<in> set ''abcdef''), Eos]"

definition VIVADO_VERSION_RE :: re where
  "VIVADO_VERSION_RE =
     seqs [Grp ''1'' (plus is_digit), Lit ''.'', Grp ''2'' (plus is_digit), Opt (Seq (Lit ''.'') (Grp ''3'' (plus is_digit)))]"

text \<open>The separator of year and month is any character.\<close>

definition VCS_VERSION_RE :: "bool \<Rightarrow> re" where
  "VCS_VERSION_RE from_req =
     seqs ([Grp ''1'' (plus is_digit), one_of any_char, Grp ''2'' (plus is_digit),
            Opt (Seq (Lit ''-SP'') (Grp ''3'' (plus is_digit))), Opt (Seq (Lit ''-'') (Grp ''4'' (plus is_digit)))] @
           (if from_req then [Eos] else []))"

definition NINJA_VERSION_RE :: re where
  "NINJA_VERSION_RE =
     seqs [Grp ''1'' (plus is_digit), Lit ''.'', Grp ''2'' (plus is_digit), Lit ''.'', Grp ''3'' (plus is_digit)]"

definition digits_or_0 :: "groups \<Rightarrow> string \<Rightarrow> nat" where
  "digits_or_0 m n = (case grp m n of None \<Rightarrow> 0 | Some s \<Rightarrow> the (read_nat 10 s))"

definition dotted :: "groups \<Rightarrow> string" where
  "dotted m = join ''.'' (map (the_grp m) [''1'', ''2'', ''3''])"

definition verible_semver :: "string \<Rightarrow> string + string" where
  "verible_semver version = of_option (bad_format version) (map_option dotted (re_fullmatch VERIBLE_VERSION_RE version))"

definition vivado_semver :: "string \<Rightarrow> string + string" where
  "vivado_semver version =
     of_option (bad_format version) (map_option (\<lambda>m. join ''.'' [the_grp m ''1'', the_grp m ''2'',
         case grp m ''3'' of None \<Rightarrow> ''0'' | Some s \<Rightarrow> s]) (re_fullmatch VIVADO_VERSION_RE version))"

definition vcs_semver :: "string \<Rightarrow> bool \<Rightarrow> string + string" where
  "vcs_semver version from_req =
     (case re_match (VCS_VERSION_RE from_req) version of
        None \<Rightarrow> Inl (repr_str version @ '' is not a recognised VCS version string.'')
      | Some m \<Rightarrow>
          let sp = digits_or_0 m ''3''; patch = digits_or_0 m ''4''; comb = show_nat (sp * 100 + patch)
          in Inr (the_grp m ''1'' @ ''.'' @ the_grp m ''2'' @ comb))"

definition ninja_semver :: "string \<Rightarrow> string + string" where
  "ninja_semver version = of_option (bad_format version) (map_option dotted (re_match NINJA_VERSION_RE version))"

definition to_semver :: "tool_class \<Rightarrow> string \<Rightarrow> bool \<Rightarrow> string + string" where
  "to_semver c version from_req =
     (case c of
        Verible_tool \<Rightarrow> verible_semver version
      | Vivado_tool \<Rightarrow> vivado_semver version
      | Vcs_tool \<Rightarrow> vcs_semver version from_req
      | Ninja_tool \<Rightarrow> ninja_semver version
      | _ \<Rightarrow> Inr version)"

section \<open>The check\<close>

definition check :: "'v tool_env \<Rightarrow> tool_req \<Rightarrow> version_error + bool \<times> string" where
  "check env r =
     (case to_semver (tr_class r) (tr_min_version r) True of
        Inl e \<Rightarrow> Inr (False, ''Failed to convert requirement to semantic version: '' @ e)
      | Inr min_semver \<Rightarrow>
     (case te_parse env min_semver of
        Inl e \<Rightarrow> Inr (False, ''Bad semver inferred from required version ('' @ min_semver @ ''): '' @ e)
      | Inr min_sv \<Rightarrow>
     (case get_version env r of
        Inl (Version_runtime e) \<Rightarrow> Inr (False, e)
      | Inl e \<Rightarrow> Inl e
      | Inr actual_version \<Rightarrow>
     (case to_semver (tr_class r) actual_version False of
        Inl e \<Rightarrow> Inr (False, ''Failed to convert installed to semantic version: '' @ e)
      | Inr actual_semver \<Rightarrow>
     (case te_parse env actual_semver of
        Inl e \<Rightarrow> Inr (False, ''Bad semver inferred from installed version ('' @ actual_semver @ ''): '' @ e)
      | Inr actual_sv \<Rightarrow>
          if te_less env actual_sv min_sv
          then Inr (False, ''Installed version is too old: found version '' @ actual_version @ '', but need at least '' @ tr_min_version r)
          else Inr (True, ''Sufficiently recent version (found '' @ actual_version @ ''; needed '' @ tr_min_version r @ '')''))))))"

text \<open>The tools whose check fails, and those that were named but not met.\<close>

definition check_step :: "'v tool_env \<Rightarrow> string \<times> tool_req \<Rightarrow> string list \<times> string list \<Rightarrow>
    version_error + string list \<times> string list" where
  "check_step env entry acc =
     (case (entry, acc) of ((tool, r), (pending, missing)) \<Rightarrow>
        if tr_as_needed r \<and> tool \<notin> set pending then Inr (pending, missing)
        else ebind (check env r) (\<lambda>(good, msg).
               Inr (filter (\<lambda>t. t \<noteq> tool) pending, if good then missing else missing @ [tool])))"

definition check_tools :: "'v tool_env \<Rightarrow> (string \<times> tool_req) list \<Rightarrow> string list \<Rightarrow> version_error + int" where
  "check_tools env reqs tools =
     ebind (efold (check_step env) reqs (tools, [])) (\<lambda>(pending, missing).
       Inr (if missing = [] \<and> pending = [] then 0 else 1))"

text \<open>The status, or the exception that ends the program.\<close>

definition tool_main :: "'v tool_env \<Rightarrow> string \<Rightarrow> pyval option \<Rightarrow> string list \<Rightarrow> (req_error + version_error) + int" where
  "tool_main env path raw tools =
     (case read_tool_requirements path raw of
        Inl (Req_err _ _) \<Rightarrow> Inr 1
      | Inl e \<Rightarrow> Inl (Inl e)
      | Inr reqs \<Rightarrow> (case check_tools env reqs tools of Inl e \<Rightarrow> Inl (Inr e) | Inr rc \<Rightarrow> Inr rc))"

section \<open>Properties\<close>

lemma check_fold:
  assumes "efold (check_step env) reqs (pending, missing) = Inr (pending', missing')"
    and "distinct (map fst reqs)"
  shows "set pending' = set pending - fst ` set reqs \<and>
    (missing' = [] \<longleftrightarrow> missing = [] \<and>
      (\<forall>(tool, r) \<in> set reqs. (tr_as_needed r \<and> tool \<notin> set pending) \<or> (\<exists>msg. check env r = Inr (True, msg))))"
  using assms
proof (induction reqs arbitrary: pending missing)
  case Nil
  then show ?case by simp
next
  case (Cons e reqs)
  obtain tool r where e: "e = (tool, r)" by (cases e)
  have fresh: "tool \<notin> fst ` set reqs" using Cons.prems(2) e by simp
  have d: "distinct (map fst reqs)" using Cons.prems(2) by simp
  show ?case
  proof (cases "tr_as_needed r \<and> tool \<notin> set pending")
    case True
    then have "check_step env e (pending, missing) = Inr (pending, missing)" using e by (simp add: check_step_def)
    then have "efold (check_step env) reqs (pending, missing) = Inr (pending', missing')" using Cons.prems(1) by simp
    from Cons.IH[OF this d] show ?thesis using True e by auto
  next
    case False
    obtain good msg where c: "check env r = Inr (good, msg)"
        "efold (check_step env) reqs (filter (\<lambda>t. t \<noteq> tool) pending, if good then missing else missing @ [tool]) =
          Inr (pending', missing')"
    proof -
      obtain acc where acc: "check_step env (tool, r) (pending, missing) = Inr acc"
          "efold (check_step env) reqs acc = Inr (pending', missing')"
        using Cons.prems(1) e by (auto simp: raise_simps)
      from acc(1) False obtain good msg where "check env r = Inr (good, msg)"
          "acc = (filter (\<lambda>t. t \<noteq> tool) pending, if good then missing else missing @ [tool])"
        by (auto simp: check_step_def raise_simps)
      then show thesis using acc(2) that by blast
    qed
    have "t \<noteq> tool" if "(t, x) \<in> set reqs" for t x using fresh that by force
    then have "(\<forall>(t, r) \<in> set reqs. (tr_as_needed r \<and> t \<notin> set (filter (\<lambda>t. t \<noteq> tool) pending)) \<or> (\<exists>msg. check env r = Inr (True, msg))) \<longleftrightarrow>
        (\<forall>(t, r) \<in> set reqs. (tr_as_needed r \<and> t \<notin> set pending) \<or> (\<exists>msg. check env r = Inr (True, msg)))"
      by (auto intro!: ball_cong)
    then show ?thesis using Cons.IH[OF c(2) d] False c(1) e by auto
  qed
qed

text \<open>
  C36. When the check ends with a status, the status is zero exactly when every tool that is
  required, always or because it was named, meets its requirement, and every tool that was
  named has one.
\<close>

theorem check_tools_status:
  assumes "check_tools env reqs tools = Inr rc" and "distinct (map fst reqs)"
  shows "rc = 0 \<longleftrightarrow> set tools \<subseteq> fst ` set reqs \<and>
    (\<forall>(tool, r) \<in> set reqs. (tr_as_needed r \<and> tool \<notin> set tools) \<or> (\<exists>msg. check env r = Inr (True, msg)))"
proof -
  obtain pending missing where f: "efold (check_step env) reqs (tools, []) = Inr (pending, missing)"
      "rc = (if missing = [] \<and> pending = [] then 0 else 1)"
    using assms(1) by (auto simp: check_tools_def raise_simps)
  have "pending = [] \<longleftrightarrow> set tools \<subseteq> fst ` set reqs"
    using check_fold[OF f(1) assms(2)] by (metis Diff_eq_empty_iff set_empty)
  then show ?thesis using check_fold[OF f(1) assms(2)] f(2) by auto
qed

definition demo_reqs :: "(string \<times> tool_req) list" where
  "demo_reqs =
     [(''ninja'', \<lparr>tr_tool = ''ninja'', tr_min_version = ''1.10.0'', tr_as_needed = False, tr_class = Ninja_tool\<rparr>),
      (''vivado'', \<lparr>tr_tool = ''vivado'', tr_min_version = ''2020.2'', tr_as_needed = True, tr_class = Vivado_tool\<rparr>)]"

text \<open>Versions that are made of numbers, as the library orders them.\<close>

definition release_parse :: "string \<Rightarrow> string + nat list" where
  "release_parse s =
     (let ps = split_on CHR ''.'' s
      in if list_all (\<lambda>p. p \<noteq> [] \<and> list_all is_digit p) ps then Inr (map (\<lambda>p. the (read_nat 10 p)) ps) else Inl ''Invalid version'')"

fun release_less :: "nat list \<Rightarrow> nat list \<Rightarrow> bool" where
  "release_less xs [] = False"
| "release_less [] (y # ys) = (0 < y \<or> release_less [] ys)"
| "release_less (x # xs) (y # ys) = (x < y \<or> x = y \<and> release_less xs ys)"

definition demo_tools :: "string \<Rightarrow> nat list tool_env" where
  "demo_tools out = \<lparr>te_run = (\<lambda>cmd env. Inr out), te_shell = (\<lambda>c. Inl ''not found''), te_module = (\<lambda>m. None),
     te_parse = release_parse, te_less = release_less\<rparr>"

lemma check_tools_status_witness:
  "(0 :: int) = 0 \<longleftrightarrow> set [''ninja''] \<subseteq> fst ` set demo_reqs \<and>
    (\<forall>(tool, r) \<in> set demo_reqs. (tr_as_needed r \<and> tool \<notin> set [''ninja'']) \<or>
      (\<exists>msg. check (demo_tools ''1.10.2.git'') r = Inr (True, msg)))"
proof (rule check_tools_status)
  show "check_tools (demo_tools ''1.10.2.git'') demo_reqs [''ninja''] = Inr 0" by code_simp
  show "distinct (map fst demo_reqs)" by (simp add: demo_reqs_def)
qed

text \<open>The first way an expression matches a text, from any position.\<close>

definition firsts :: "re \<Rightarrow> string \<Rightarrow> groups \<Rightarrow> string \<Rightarrow> bool" where
  "firsts r s g t \<longleftrightarrow> (\<forall>p. \<exists>p' ms. run r (p, s) = (g, (p', t)) # ms)"

lemma firsts_Seq: "firsts r s g t \<Longrightarrow> firsts q t h u \<Longrightarrow> firsts (Seq r q) s (g @ h) u"
  unfolding firsts_def
proof
  fix p
  assume r: "\<forall>p. \<exists>p' ms. run r (p, s) = (g, (p', t)) # ms" and q: "\<forall>p. \<exists>p' ms. run q (p, t) = (h, (p', u)) # ms"
  obtain p1 m1 where 1: "run r (p, s) = (g, (p1, t)) # m1" using r by blast
  obtain p2 m2 where 2: "run q (p1, t) = (h, (p2, u)) # m2" using q by blast
  show "\<exists>p' ms. run (Seq r q) (p, s) = (g @ h, (p', u)) # ms"
    using run_Seq_first[of r _ g _ q h] 1 2 by blast
qed

lemma firsts_Empty: "firsts Empty s [] s" and firsts_Eos: "firsts Eos [] [] []"
  by (simp_all add: firsts_def)

lemma firsts_Lit: "firsts (Lit w) (w @ t) [] t"
  unfolding firsts_def by (intro allI run_Lit_first)

lemma firsts_Opt: "firsts r s g t \<Longrightarrow> firsts (Opt r) s g t"
  unfolding firsts_def by (metis append_Cons run.simps(6))

lemma firsts_Opt_skip: "(\<And>p. run r (p, s) = []) \<Longrightarrow> firsts (Opt r) s [] s"
  by (simp add: firsts_def)

lemma firsts_group:
  "list_all c w \<Longrightarrow> w \<noteq> [] \<Longrightarrow> t = [] \<or> \<not> c (hd t) \<Longrightarrow> firsts (Grp n (plus c)) (w @ t) [(n, w)] t"
  unfolding firsts_def plus_def by (intro allI, drule run_group_first[of c w t 1]) (auto simp: Suc_le_eq)

lemma firsts_one_of: "c x \<Longrightarrow> firsts (one_of c) (x # t) [] t"
  by (auto simp: firsts_def one_of_def rep_counts_def Let_def advance_def)

lemma firsts_match: "firsts r s g t \<Longrightarrow> re_match r s = Some g"
  unfolding firsts_def re_match_def by (metis list.case(2) old.prod.case)

lemmas firsts_intros = firsts_Empty firsts_Eos firsts_Lit firsts_group firsts_one_of

text \<open>A month with two digits, and the versions made of a year, a month and a service pack.\<close>

definition two_digits :: "nat \<Rightarrow> string" where
  "two_digits m = [digit_char (m div 10), digit_char (m mod 10)]"

lemma is_digit_char: "d < 10 \<Longrightarrow> is_digit (digit_char d)"
  by (simp add: is_digit_def digit_char_def)

lemma two_digits_ok: "m < 100 \<Longrightarrow> list_all is_digit (two_digits m) \<and> two_digits m \<noteq> []"
  by (simp add: two_digits_def is_digit_char)

lemma digit_facts: "is_digit CHR ''0''" "\<not> is_digit CHR ''.''" "\<not> is_digit CHR ''-''"
  by (simp_all add: is_digit_def)

lemma digit_char_0: "digit_char 0 = CHR ''0''"
  by code_simp

lemma vcs_plain:
  assumes "list_all is_digit y" "y \<noteq> []" "list_all is_digit m" "m \<noteq> []"
  shows "to_semver Vcs_tool (y @ ''.'' @ m) False = Inr (y @ ''.'' @ m @ ''0'')"
proof -
  have "firsts (Seq (Grp ''1'' (plus is_digit)) (Seq (one_of any_char) (Seq (Grp ''2'' (plus is_digit))
      (Seq (Opt (Seq (Lit ''-SP'') (Grp ''3'' (plus is_digit)))) (Seq (Opt (Seq (Lit ''-'') (Grp ''4'' (plus is_digit)))) Empty)))))
      (y @ ''.'' @ m) ([(''1'', y)] @ [] @ [(''2'', m)] @ [] @ [] @ []) []"
    using assms firsts_group[of is_digit m "[]"]
    by (intro firsts_Seq) (auto intro!: firsts_intros firsts_Opt_skip simp: is_digit_def any_char_def)
  then have "re_match (VCS_VERSION_RE False) (y @ ''.'' @ m) = Some [(''1'', y), (''2'', m)]"
    unfolding VCS_VERSION_RE_def seqs_def by (auto dest: firsts_match)
  moreover have "show_nat 0 = ''0''" unfolding show_nat_def by (subst show_base.simps) (simp add: digit_char_0)
  ultimately show ?thesis by (simp add: to_semver_def vcs_semver_def the_grp_def grp_def digits_or_0_def)
qed

lemma vcs_pack:
  assumes "list_all is_digit y" "y \<noteq> []" "list_all is_digit m" "m \<noteq> []" "0 < s" "s < 10"
  shows "to_semver Vcs_tool (y @ ''.'' @ m @ ''-SP'' @ [digit_char s]) True =
    Inr (y @ ''.'' @ m @ [digit_char s, CHR ''0'', CHR ''0''])"
proof -
  have "firsts (Grp ''3'' (plus is_digit)) [digit_char s] [(''3'', [digit_char s])] []"
    using firsts_group[of is_digit "[digit_char s]" "[]"] assms(6) by (simp add: is_digit_char)
  then have pack: "firsts (Opt (Seq (Lit ''-SP'') (Grp ''3'' (plus is_digit)))) (''-SP'' @ [digit_char s])
      ([] @ [(''3'', [digit_char s])]) []"
    by (rule firsts_Opt[OF firsts_Seq[OF firsts_Lit]])
  have "firsts (Seq (Grp ''1'' (plus is_digit)) (Seq (one_of any_char) (Seq (Grp ''2'' (plus is_digit))
      (Seq (Opt (Seq (Lit ''-SP'') (Grp ''3'' (plus is_digit)))) (Seq (Opt (Seq (Lit ''-'') (Grp ''4'' (plus is_digit))))
      (Seq Eos Empty))))))
      (y @ ''.'' @ m @ ''-SP'' @ [digit_char s])
      ([(''1'', y)] @ [] @ [(''2'', m)] @ ([] @ [(''3'', [digit_char s])]) @ [] @ [] @ []) []"
    using assms pack by (intro firsts_Seq)
      (auto intro!: firsts_intros firsts_Opt_skip simp: digit_facts any_char_def is_digit_char)
  then have "re_match (VCS_VERSION_RE True) (y @ ''.'' @ m @ ''-SP'' @ [digit_char s]) =
      Some [(''1'', y), (''2'', m), (''3'', [digit_char s])]"
    unfolding VCS_VERSION_RE_def seqs_def by (auto dest: firsts_match)
  moreover have "read_nat 10 [digit_char s] = Some s"
    using assms(6) by (simp add: read_nat_def drop_base_prefix_def digit_val_digit_char digit_char_props(4))
  moreover have "show_nat (100 * s) = [digit_char s, CHR ''0'', CHR ''0'']"
  proof -
    have "show_base 10 s = [digit_char s]" using assms by (subst show_base.simps) simp
    moreover have "show_base 10 (10 * s) = show_base 10 s @ [digit_char 0]" using assms by (subst show_base.simps) simp
    moreover have "show_base 10 (100 * s) = show_base 10 (10 * s) @ [digit_char 0]" using assms by (subst show_base.simps) simp
    ultimately show ?thesis by (simp add: show_nat_def digit_char_0)
  qed
  ultimately show ?thesis by (simp add: to_semver_def vcs_semver_def the_grp_def grp_def digits_or_0_def mult.commute)
qed

text \<open>
  A requirement for VCS with a service pack refuses every later release of the same year: the
  month and the pack are run together into one number, so that a month without a pack is always
  the smaller one.
\<close>

theorem vcs_later_month_refused:
  assumes "1 \<le> n" "n < m" "m \<le> 12" "0 < s" "s < 10" and "list_all is_digit y" "y \<noteq> []"
    and "tr_class r = Vcs_tool" "tr_min_version r = y @ ''.'' @ two_digits n @ ''-SP'' @ [digit_char s]"
    and "get_version env r = Inr (y @ ''.'' @ two_digits m)"
    and parse: "\<And>a. list_all is_digit a \<Longrightarrow> a \<noteq> [] \<Longrightarrow> \<exists>v. te_parse env (y @ ''.'' @ a) = Inr v"
    and order: "\<And>a b v w. list_all is_digit a \<Longrightarrow> list_all is_digit b \<Longrightarrow> te_parse env (y @ ''.'' @ a) = Inr v \<Longrightarrow>
      te_parse env (y @ ''.'' @ b) = Inr w \<Longrightarrow> te_less env v w \<longleftrightarrow> the (read_nat 10 a) < the (read_nat 10 b)"
  shows "\<exists>msg. check env r = Inr (False, msg)"
proof -
  let ?a = "two_digits m @ ''0''" and ?b = "two_digits n @ [digit_char s, CHR ''0'', CHR ''0'']"
  have ok: "list_all is_digit (two_digits m)" "two_digits m \<noteq> []" "list_all is_digit (two_digits n)" "two_digits n \<noteq> []"
    using assms(1-3) two_digits_ok[of m] two_digits_ok[of n] by auto
  have d: "list_all is_digit ?a" "list_all is_digit ?b" using ok assms(5) by (auto simp: is_digit_char digit_facts)
  obtain v w where p: "te_parse env (y @ ''.'' @ ?a) = Inr v" "te_parse env (y @ ''.'' @ ?b) = Inr w"
    using parse[OF d(1)] parse[OF d(2)] ok by auto
  have "digit_val CHR ''0'' = Some 0" by (simp add: digit_val_def is_digit_def)
  then have "read_nat 10 ?a = Some (10 * m)" "read_nat 10 ?b = Some (1000 * n + 100 * s)"
    using assms(1-5)
    by (simp_all add: read_nat_def drop_base_prefix_def two_digits_def digit_val_digit_char digit_char_props(4))
  then have "te_less env v w" using order[OF d p] assms(1,3) by simp
  moreover have "to_semver Vcs_tool (y @ ''.'' @ two_digits m) False = Inr (y @ ''.'' @ ?a)"
    using vcs_plain[OF assms(6,7) ok(1,2)] by simp
  moreover have "to_semver Vcs_tool (tr_min_version r) True = Inr (y @ ''.'' @ ?b)"
    using vcs_pack[OF assms(6,7) ok(3,4) assms(4,5)] unfolding assms(9) by simp
  ultimately show ?thesis using p assms(8,10) by (simp add: check_def)
qed

lemma release_parse_year:
  assumes "list_all is_digit a"
  shows "release_parse (''2020'' @ ''.'' @ a) = (if a = [] then Inl ''Invalid version'' else Inr [2020, the (read_nat 10 a)])"
proof -
  have "split_on CHR ''.'' (''2020'' @ CHR ''.'' # a) = ''2020'' # split_on CHR ''.'' a" by (rule split_on_append) simp
  moreover have "split_on CHR ''.'' a = [a]"
    using assms by (intro split_on_absent) (auto simp: list_all_iff is_digit_def)
  moreover have "read_nat 10 ''2020'' = Some 2020" by code_simp
  ultimately show ?thesis using assms by (simp add: release_parse_def is_digit_def)
qed

definition demo_vcs :: tool_req where
  "demo_vcs = \<lparr>tr_tool = ''vcs'', tr_min_version = ''2020.03-SP2'', tr_as_needed = True, tr_class = Vcs_tool\<rparr>"

lemma vcs_later_month_refused_witness:
  "\<exists>msg. check (demo_tools ''Compiler version = VCS Q-2020.12'') demo_vcs = Inr (False, msg)"
proof (rule vcs_later_month_refused[where y = "''2020''" and n = 3 and m = 12 and s = 2])
  show "tr_min_version demo_vcs = ''2020'' @ ''.'' @ two_digits 3 @ ''-SP'' @ [digit_char 2]" by code_simp
  show "get_version (demo_tools ''Compiler version = VCS Q-2020.12'') demo_vcs = Inr (''2020'' @ ''.'' @ two_digits 12)"
    by code_simp
  have parse: "te_parse (demo_tools x) = release_parse" "te_less (demo_tools x) = release_less" for x
    by (simp_all add: demo_tools_def)
  show "\<exists>v. te_parse (demo_tools x) (''2020'' @ ''.'' @ a) = Inr v" if "list_all is_digit a" "a \<noteq> []" for x a
    using release_parse_year[OF that(1)] that(2) unfolding parse by simp
  show "te_less (demo_tools x) v w \<longleftrightarrow> the (read_nat 10 a) < the (read_nat 10 b)"
    if "list_all is_digit a" "list_all is_digit b" "te_parse (demo_tools x) (''2020'' @ ''.'' @ a) = Inr v"
      "te_parse (demo_tools x) (''2020'' @ ''.'' @ b) = Inr w" for x a b v w
    using that(3,4) unfolding parse release_parse_year[OF that(1)] release_parse_year[OF that(2)]
    by (auto split: if_split_asm)
qed (simp_all add: is_digit_def demo_vcs_def)

section \<open>The requirements of the repository\<close>

text \<open>
  They can be read: two tools are always required, two as needed, each of a class of its own, and
  the documentation has a line for each.
\<close>

lemma rst_epilog_concat: "rst_epilog reqs = concat (map rst_line reqs)"
proof -
  have "foldl (\<lambda>acc entry. acc @ rst_line entry) acc reqs = acc @ concat (map rst_line reqs)" for acc
    by (induction reqs arbitrary: acc) simp_all
  then show ?thesis by (simp add: rst_epilog_def)
qed

lemma repository_requirements:
  "\<exists>reqs. read_tool_requirements path (Some TOOL_REQUIREMENTS) = Inr reqs \<and>
     map (\<lambda>(tool, r). (tool, tr_min_version r, tr_as_needed r, tr_class r)) reqs =
       [(''verilator'', ''4.210'', False, Verilator_tool), (''edalize'', ''0.2.0'', False, Edalize_tool),
        (''vcs'', ''2020.03-SP2'', True, Vcs_tool), (''vivado'', ''2020.2'', True, Vivado_tool)] \<and>
     file_lines (rst_epilog reqs) = map rst_line reqs"
  by (simp add: read_tool_requirements_def TOOL_REQUIREMENTS_def read_entry_def dict_to_tool_req_def dict_get_def
      without_key_def tool_classes_def rst_epilog_concat rst_line_def file_lines_def)

end
