(* ===== verification/JsonText.thy ===== *)
theory JsonText
  imports PyStr Complex_Main
begin

text \<open>
  What \<^verbatim>\<open>json.dumps\<close> writes, on ASCII text: the values, their text, and the lemma that the text
  is one line, whatever the strings in it are.
\<close>

section \<open>Values and their text\<close>

datatype json_value =
    JV_string string
  | JV_int int
  | JV_float rat
  | JV_list "json_value list"
  | JV_dict "(string \<times> json_value) list"
  | JV_null

definition json_char :: "char \<Rightarrow> string" where
  "json_char c =
     (if c = CHR 0x22 then [CHR 0x5C, CHR 0x22]
      else if c = CHR 0x5C then [CHR 0x5C, CHR 0x5C]
      else if c = newline then [CHR 0x5C, CHR ''n'']
      else if c = CHR 0x0D then [CHR 0x5C, CHR ''r'']
      else if c = CHR 0x09 then [CHR 0x5C, CHR ''t'']
      else if c = CHR 0x08 then [CHR 0x5C, CHR ''b'']
      else if c = CHR 0x0C then [CHR 0x5C, CHR ''f'']
      else if (of_char c :: nat) < 32 \<or> 127 < (of_char c :: nat)
      then CHR 0x5C # ''u00'' @ [digit_char (of_char c div 16), digit_char (of_char c mod 16)]
      else [c])"

definition json_string :: "string \<Rightarrow> string" where
  "json_string s = [CHR 0x22] @ concat (map json_char s) @ [CHR 0x22]"

text \<open>\<open>json.dumps\<close>, with the shortest text of a floating point number as a parameter.\<close>

fun json_dumps :: "(rat \<Rightarrow> string) \<Rightarrow> json_value \<Rightarrow> string" where
  "json_dumps float_str (JV_string s) = json_string s"
| "json_dumps float_str (JV_int i) = show_int i"
| "json_dumps float_str (JV_float q) = float_str q"
| "json_dumps float_str (JV_list vs) = ''['' @ join '', '' (map (json_dumps float_str) vs) @ '']''"
| "json_dumps float_str (JV_dict d) =
     ''{'' @ join '', '' (map (\<lambda>(k, v). json_string k @ '': '' @ json_dumps float_str v) d) @ ''}''"
| "json_dumps float_str JV_null = ''null''"

section \<open>One line\<close>

lemma digit_char_not_newline: "d < 16 \<Longrightarrow> digit_char d \<noteq> newline"
  using code_digit_char[of d] by (auto split: if_splits)

lemma json_char_one_line: "newline \<notin> set (json_char c)"
proof -
  have "code c div 16 < 16" using nat_of_char_less_256[of c] by linarith
  then have "newline \<noteq> digit_char (code c div 16)" "newline \<noteq> digit_char (code c mod 16)"
    using digit_char_not_newline by (metis, metis mod_less_divisor zero_less_numeral)
  then show ?thesis by (auto simp: json_char_def)
qed

lemma json_string_one_line: "newline \<notin> set (json_string s)"
  using json_char_one_line by (auto simp: json_string_def)

lemma set_join: "set (join sep ws) \<subseteq> set sep \<union> \<Union> (set ` set ws)"
  by (induction sep ws rule: join.induct) auto

lemma join_one_line:
  assumes "newline \<notin> set sep" and "\<And>w. w \<in> set ws \<Longrightarrow> newline \<notin> set w"
  shows "newline \<notin> set (join sep ws)"
  using assms set_join[of sep ws] by blast

lemma json_dumps_one_line:
  assumes "\<And>q. newline \<notin> set (float_str q)"
  shows "newline \<notin> set (json_dumps float_str v)"
  using assms
proof (induction float_str v rule: json_dumps.induct)
  case (2 float_str i)
  then show ?case using show_int_chars[of newline i] by (auto simp: is_digit_def)
next
  case (4 float_str vs)
  have "newline \<notin> set w" if "w \<in> set (map (json_dumps float_str) vs)" for w
    using that 4 by auto
  then have "newline \<notin> set (join '', '' (map (json_dumps float_str) vs))"
    by (intro join_one_line) auto
  then show ?case by simp
next
  case (5 float_str d)
  have "newline \<notin> set w"
    if "w \<in> set (map (\<lambda>(k, v). json_string k @ '': '' @ json_dumps float_str v) d)" for w
    using that 5 json_string_one_line by fastforce
  then have "newline \<notin> set (join '', '' (map (\<lambda>(k, v). json_string k @ '': '' @ json_dumps float_str v) d))"
    by (intro join_one_line) auto
  then show ?case by simp
qed (use json_string_one_line in auto)

end
