(* ===== verification/Reports.thy ===== *)
theory Reports
  imports ReportUtil JsonText
begin

text \<open>
  \<^verbatim>\<open>collect_results.py\<close> and \<^verbatim>\<open>report_lib\<close>: the results of all tests are collected into reports in
  five forms, as text, as JUnit XML, as HTML, as JSON and as an SVG dashboard, and into the
  status of the regression.
\<close>

section \<open>Text\<close>

definition box_comment :: "string \<Rightarrow> string" where
  "box_comment line = (let hr = replicate 80 CHR ''#'' in hr @ [newline] @ ''# '' @ line @ [newline] @ hr)"

definition gen_summary_line :: "'a list \<Rightarrow> 'a list \<Rightarrow> build_error + string" where
  "gen_summary_line passing_tests failing_tests =
     (let total_tests = length passing_tests + length failing_tests
      in if total_tests = 0 then Inl Zero_division
         else let pass_pct = of_nat (length passing_tests) / of_nat total_tests * 100
              in Inr (show_fixed 2 pass_pct @ ''% PASS '' @ show_nat (length passing_tests) @ '' PASSED, '' @
                      show_nat (length failing_tests) @ '' FAILED''))"

definition printed :: "string \<Rightarrow> string" where
  "printed s = s @ [newline]"

definition output_results_text :: "(path \<Rightarrow> path) \<Rightarrow> test_run_result list \<Rightarrow> test_run_result list \<Rightarrow>
    (string, string) pydict \<Rightarrow> build_error + string" where
  "output_results_text resolve passing_tests failing_tests summary_dict =
     ebind (gen_summary_line passing_tests failing_tests) (\<lambda>summary.
     ebind (emap (gen_test_run_result_text resolve) failing_tests) (\<lambda>failing.
     ebind (emap (gen_test_run_result_text resolve) passing_tests) (\<lambda>passing.
       Inr (printed summary @
            printed (pprint_dict (map (\<lambda>(k, v). (k, PStr v)) summary_dict)) @
            printed ([newline] @ box_comment ''Details of failing tests'') @
            (if failing_tests = [] then printed ''No failing tests. Nice job!'' else []) @
            concat (map printed failing) @
            printed ([newline] @ box_comment ''Details of passing tests'') @
            (if passing_tests = [] then printed ''No passing tests. Hmmmm...'' else []) @
            concat (map printed passing)))))"

section \<open>JUnit XML\<close>

text \<open>The objects of the XML library: a case with its output and its failures, and a suite.\<close>

record test_case =
  tc_name :: string
  tc_stdout :: string
  tc_failures :: "string list"

type_synonym test_suite = "string option \<times> test_case list"

record suite_info =
  unmerged :: "test_case list"
  merged_stdout :: string
  merged_failures :: string

definition new_suite :: suite_info where
  "new_suite = \<lparr>unmerged = [], merged_stdout = [], merged_failures = []\<rparr>"

definition add_to_suite :: "string \<Rightarrow> test_run_result \<Rightarrow> suite_info \<Rightarrow> suite_info" where
  "add_to_suite result_text t info =
     (let test_case = \<lparr>tc_name = run_name t, tc_stdout = result_text,
            tc_failures = (if passed t = Some True then [] else [result_text])\<rparr>
      in \<lparr>unmerged = unmerged info @ [test_case],
          merged_stdout = merged_stdout info @ result_text @ [newline],
          merged_failures = merged_failures info @ (if passed t = Some True then [] else result_text)\<rparr>)"

definition suite_step :: "(path \<Rightarrow> path) \<Rightarrow> test_run_result \<Rightarrow> (string option, suite_info) pydict \<Rightarrow>
    build_error + (string option, suite_info) pydict" where
  "suite_step resolve t d =
     ebind (gen_test_run_result_text resolve t) (\<lambda>result_text.
       Inr (dset (testname t) (add_to_suite result_text t (dget_or d (testname t) new_suite)) d))"

definition junit_suites :: "(path \<Rightarrow> path) \<Rightarrow> test_run_result list \<Rightarrow> test_run_result list \<Rightarrow>
    build_error + test_suite list \<times> test_suite list" where
  "junit_suites resolve passing_tests failing_tests =
     ebind (efold (suite_step resolve) (passing_tests @ failing_tests) []) (\<lambda>info.
       Inr (map (\<lambda>(name, i). (name, unmerged i)) info,
            map (\<lambda>(name, i). (name, [\<lparr>tc_name = str_or_None name, tc_stdout = merged_stdout i,
                                     tc_failures = [merged_failures i]\<rparr>])) info))"

section \<open>The report for the dashboard of the simulations\<close>

definition opt_name :: "string option \<Rightarrow> json_value" where
  "opt_name n = (case n of None \<Rightarrow> JV_null | Some s \<Rightarrow> JV_string s)"

definition dvsim_test :: "string option \<times> int \<times> int \<Rightarrow> build_error + json_value" where
  "dvsim_test entry =
     (case entry of (test_name, passing, failing) \<Rightarrow>
        let total_runs = passing + failing
        in if total_runs = 0 then Inl Zero_division
           else Inr (JV_dict
             [(''name'', opt_name test_name), (''max_runtime_s'', JV_int 0),
              (''simulated_time_us'', JV_int 0), (''passing_runs'', JV_int passing),
              (''total_runs'', JV_int total_runs),
              (''pass_rate'', JV_float (of_int (round_even (of_int passing / of_int total_runs * 100 * 100)) / 100))]))"

definition create_dvsim_report_dict :: "string \<Rightarrow> string \<Rightarrow> string \<Rightarrow> (string option, int \<times> int) pydict \<Rightarrow>
    (string, rat option) pydict option \<Rightarrow> build_error + json_value" where
  "create_dvsim_report_dict tool block_name block_variant test_summary_dict cov_summary_dict =
     ebind (emap dvsim_test test_summary_dict) (\<lambda>dvsim_test_info.
     ebind (case cov_summary_dict of
              None \<Rightarrow> Inr []
            | Some d \<Rightarrow>
                emap (\<lambda>(cov_name, cov_value). case cov_value of
                        None \<Rightarrow> Inl (Report_type_error ''*'')
                      | Some q \<Rightarrow> Inr (cov_name, JV_float (q * 100))) d) (\<lambda>coverage.
       Inr (JV_dict
         [(''tool'', JV_string (if tool = ''xlm'' then ''xcelium'' else tool)),
          (''block_name'', JV_string block_name), (''block_variant'', JV_string block_variant),
          (''results'', JV_dict [(''coverage'', JV_dict coverage), (''testpoints'', JV_list []),
             (''unmapped_tests'', JV_list dvsim_test_info)])])))"

section \<open>HTML\<close>

definition pct_str :: "rat \<Rightarrow> string" where
  "pct_str pct_val = show_fixed 1 (pct_val * 100) @ ''%''"

definition pct_style :: "rat \<Rightarrow> string" where
  "pct_style pct_val = ''background-color: '' @ css_red_green_gradient pct_val @ '';''"

text \<open>What the template is rendered with.\<close>

record html_data =
  run_datetime :: string
  sha1 :: string
  test_summaries :: "(string option \<times> int \<times> int \<times> rat) list"
  cov_summary :: "(string, rat option) pydict option"
  passing_tests_acc :: int
  total_tests_acc :: int
  pass_rate_acc :: rat
  html_tests :: "test_run_result list"

definition summary_entry :: "string option \<times> int \<times> int \<Rightarrow> build_error + string option \<times> int \<times> int \<times> rat" where
  "summary_entry e =
     (case e of (name, passing, failing) \<Rightarrow>
        if passing + failing = 0 then Inl Zero_division
        else Inr (name, passing, passing + failing, of_int passing / of_int (passing + failing)))"

definition html_report :: "regression_metadata \<Rightarrow> test_run_result list \<Rightarrow> (string option, int \<times> int) pydict \<Rightarrow>
    (string, rat option) pydict option \<Rightarrow> build_error + html_data" where
  "html_report m all_tests test_summary_dict cov_summary_dict =
     ebind (emap summary_entry test_summary_dict) (\<lambda>summaries.
     let passing_acc = sum_list (map (\<lambda>(_, p, _). p) test_summary_dict);
         total_acc = sum_list (map (\<lambda>(_, p, f). p + f) test_summary_dict)
     in if total_acc = 0 then Inl Zero_division
        else Inr \<lparr>run_datetime = md_creation_datetime m, sha1 = md_git_commit m, test_summaries = summaries,
          cov_summary = cov_summary_dict, passing_tests_acc = passing_acc, total_tests_acc = total_acc,
          pass_rate_acc = of_int passing_acc / of_int total_acc, html_tests = all_tests\<rparr>)"

section \<open>The dashboard\<close>

text \<open>The elements of the SVG library that are used; a group may be moved to the right.\<close>

datatype svg_element =
    Svg_G "int option" "svg_element list"
  | Svg_Rect rat rat int int string
  | Svg_Text rat rat "string list" string
  | Svg_Style string

definition SVG_DASHBOARD_HEIGHT :: int where "SVG_DASHBOARD_HEIGHT = 20"
definition SVG_DASHBOARD_GAP :: int where "SVG_DASHBOARD_GAP = 5"
definition SVG_DASHBOARD_VALUE_WIDTH :: int where "SVG_DASHBOARD_VALUE_WIDTH = 60"
definition SVG_DASHBOARD_NAME_BG_COLOUR :: string where "SVG_DASHBOARD_NAME_BG_COLOUR = ''#666''"
definition SVG_DASHBOARD_PLAIN_VALUE_BG_COLOUR :: string where "SVG_DASHBOARD_PLAIN_VALUE_BG_COLOUR = ''#6cf''"

definition SVG_DASHBOARD_STYLE :: string where
  "SVG_DASHBOARD_STYLE =
     [newline] @ ''.text { font: 12px sans-serif;'' @ [newline] @ ''        text-anchor: middle;'' @ [newline] @
     ''        dominant-baseline: middle;}'' @ [newline] @ ''.name { fill: white; }'' @ [newline] @
     ''.value { fill: black; }'' @ [newline]"

record dashboard_element =
  de_name :: string
  de_value :: string
  de_name_width :: int
  de_value_colour :: string
  de_value_width :: int
  de_height :: int

definition new_element :: "string \<Rightarrow> string \<Rightarrow> int \<Rightarrow> string \<Rightarrow> dashboard_element" where
  "new_element name val name_width colour =
     \<lparr>de_name = name, de_value = val, de_name_width = name_width, de_value_colour = colour,
      de_value_width = SVG_DASHBOARD_VALUE_WIDTH, de_height = SVG_DASHBOARD_HEIGHT\<rparr>"

definition box_elements :: "int \<Rightarrow> int \<Rightarrow> string \<Rightarrow> string \<Rightarrow> string \<Rightarrow> svg_element list" where
  "box_elements width height colour cls txt_val =
     [Svg_Rect 0 0 width height colour, Svg_Text (of_int width / 2) (of_int height / 2) [''text'', cls] txt_val]"

definition element_svg :: "dashboard_element \<Rightarrow> svg_element list" where
  "element_svg e =
     [Svg_G None (box_elements (de_name_width e) (de_height e) SVG_DASHBOARD_NAME_BG_COLOUR ''name'' (de_name e)),
      Svg_G (Some (de_name_width e)) (box_elements (de_value_width e) (de_height e) (de_value_colour e) ''value'' (de_value e))]"

definition element_width :: "dashboard_element \<Rightarrow> int" where
  "element_width e = de_name_width e + de_value_width e"

fun dashboard_svg :: "int \<Rightarrow> int \<Rightarrow> dashboard_element list \<Rightarrow> svg_element list" where
  "dashboard_svg element_gap cur_x [] = []"
| "dashboard_svg element_gap cur_x (e # es) =
     Svg_G (Some cur_x) (element_svg e) # dashboard_svg element_gap (cur_x + element_width e + element_gap) es"

definition dashboard_width :: "int \<Rightarrow> dashboard_element list \<Rightarrow> int" where
  "dashboard_width element_gap es = foldl (\<lambda>acc e. acc + element_width e + element_gap) 0 es - element_gap"

definition cov_item :: "(string, rat option) pydict \<Rightarrow> string \<Rightarrow> build_error + rat" where
  "cov_item d k =
     (case dget d k of
        None \<Rightarrow> Inl (Report_key_error k)
      | Some None \<Rightarrow> Inl (Report_type_error k)
      | Some (Some q) \<Rightarrow> Inr q)"

definition coverage_elements :: "(string, rat option) pydict \<Rightarrow> build_error + dashboard_element list" where
  "coverage_elements d =
     ebind (emap (cov_item d) [''block'', ''branch'', ''statement'', ''expression'', ''fsm'']) (\<lambda>qs.
     let code_coverage = sum_list qs / 5
     in ebind (cov_item d ''covergroup'') (\<lambda>cg.
          Inr [new_element ''Functional Coverage'' (pct_str cg) 150 (css_red_green_gradient cg),
               new_element ''Code Coverage'' (pct_str code_coverage) 120 (css_red_green_gradient code_coverage)]))"

definition dashboard_elements :: "(string option, int \<times> int) pydict \<Rightarrow> (string, rat option) pydict option \<Rightarrow>
    build_error + dashboard_element list" where
  "dashboard_elements test_summary_dict cov_summary_dict =
     (let passing_tests = sum_list (map (\<lambda>(_, p, _). p) test_summary_dict);
          failing_tests = sum_list (map (\<lambda>(_, _, f). f) test_summary_dict);
          total_tests = passing_tests + failing_tests
      in if total_tests = 0 then Inl Zero_division
         else
           let passing_pct = of_int passing_tests / of_int total_tests
           in ebind (case cov_summary_dict of
                       None \<Rightarrow> Inr []
                     | Some d \<Rightarrow> if d = [] then Inr [] else coverage_elements d) (\<lambda>cov_elements.
                Inr ([new_element ''Total Tests'' (show_int total_tests) 120 SVG_DASHBOARD_PLAIN_VALUE_BG_COLOUR,
                      new_element ''Tests Passing'' (pct_str passing_pct) 120 (css_red_green_gradient passing_pct)] @
                     cov_elements)))"

text \<open>The width, the height and the elements of the picture.\<close>

definition results_svg :: "(string option, int \<times> int) pydict \<Rightarrow> (string, rat option) pydict option \<Rightarrow>
    build_error + int \<times> int \<times> svg_element list" where
  "results_svg test_summary_dict cov_summary_dict =
     ebind (dashboard_elements test_summary_dict cov_summary_dict) (\<lambda>es.
       Inr (dashboard_width SVG_DASHBOARD_GAP es, SVG_DASHBOARD_HEIGHT,
            Svg_Style SVG_DASHBOARD_STYLE # dashboard_svg SVG_DASHBOARD_GAP 0 es))"

section \<open>Collecting the results\<close>

text \<open>
  The libraries that write XML, HTML and SVG, the text of floating point numbers, and whether
  the SVG library is there.
\<close>

record report_env = build_env +
  rp_junit :: "test_suite list \<Rightarrow> string"
  rp_html :: "html_data \<Rightarrow> build_error + string"
  rp_float :: "rat \<Rightarrow> string"
  rp_svg :: "int \<times> int \<times> svg_element list \<Rightarrow> string"
  rp_svg_present :: bool

text \<open>
  The passing and the failing tests and the summary.  A file that cannot be read ends the
  collection; the handler for other failures makes a result with a field that does not exist.
\<close>

definition collect_step :: "test_run_result store \<Rightarrow> path \<Rightarrow>
    test_run_result list \<times> test_run_result list \<times> (string, string) pydict \<Rightarrow>
    build_error + test_run_result list \<times> test_run_result list \<times> (string, string) pydict" where
  "collect_step trrs f acc =
     (case acc of (passing, failing, summary) \<Rightarrow>
        (case construct_from_pickle trrs f of
           Inl (Runtime_error e) \<Rightarrow> Inl (Report_type_error ''name'')
         | Inl e \<Rightarrow> Inl (In_md (Script e))
         | Inr t \<Rightarrow>
             let ok = (passed t = Some True);
                 line = (if ok then ''PASS''
                         else ''FAILED'' @ (if failure_mode t = Some TIMEOUT then '' {T}'' else []))
             in Inr (if ok then passing @ [t] else passing, if ok then failing else failing @ [t],
                     dset (run_name t) line summary)))"

definition collect_tests where
  "collect_tests trrs m = efold (collect_step trrs) (md_tests_pickle_files m) ([], [], [])"

definition open_report :: "path \<Rightarrow> unit build_step" where
  "open_report p st = (Inr (), st\<lparr>bs_files := (bs_files st)(path_str p \<mapsto> [])\<rparr>)"

definition write_report :: "path \<Rightarrow> build_error + string \<Rightarrow> unit build_step" where
  "write_report p content =
     sbind (raise_or content) (\<lambda>s st. (Inr (), st\<lparr>bs_files := (bs_files st)(path_str p \<mapsto> s)\<rparr>))"

definition cov_summary_of :: "regression_metadata \<Rightarrow> build_state \<Rightarrow>
    (build_error + (string, rat option) pydict option) \<times> build_state" where
  "cov_summary_of m st =
     (if md_simulator m = ''xlm'' then create_cov_summary_dict (bs_files st) m else Inr (Some []), st)"

definition report_in :: "regression_metadata \<Rightarrow> string \<Rightarrow> path" where
  "report_in m name = child_of (md_dir_run m) name"

definition write_reports :: "report_env \<Rightarrow> regression_metadata \<Rightarrow>
    test_run_result list \<times> test_run_result list \<times> (string, string) pydict \<Rightarrow> unit build_step" where
  "write_reports env m collected =
     (case collected of (passing_tests, failing_tests, summary_dict) \<Rightarrow>
        let all_tests = passing_tests @ failing_tests;
            suites = junit_suites (se_resolve env) passing_tests failing_tests
        in sbind (open_report (report_in m ''regr_junit.xml'')) (\<lambda>_.
           sbind (open_report (report_in m ''regr_junit_merged.xml'')) (\<lambda>_.
           sbind (write_report (report_in m ''regr_junit.xml'') (ebind suites (\<lambda>s. Inr (rp_junit env (fst s))))) (\<lambda>_.
           sbind (write_report (report_in m ''regr_junit_merged.xml'') (ebind suites (\<lambda>s. Inr (rp_junit env (snd s))))) (\<lambda>_.
           sbind (open_report (report_in m ''regr.log'')) (\<lambda>_.
           sbind (write_report (report_in m ''regr.log'')
                    (output_results_text (se_resolve env) passing_tests failing_tests summary_dict)) (\<lambda>_.
           let test_summary_dict = create_test_summary_dict all_tests
           in sbind (cov_summary_of m) (\<lambda>cov_summary_dict.
              sbind (open_report (report_in m ''report.html'')) (\<lambda>_.
              sbind (write_report (report_in m ''report.html'')
                       (ebind (html_report m all_tests test_summary_dict cov_summary_dict) (rp_html env))) (\<lambda>_.
              sbind (open_report (report_in m ''report.json'')) (\<lambda>_.
              sbind (write_report (report_in m ''report.json'')
                       (ebind (create_dvsim_report_dict (md_simulator m) ''ibex'' ''opentitan'' test_summary_dict cov_summary_dict)
                         (\<lambda>j. Inr (json_dumps (rp_float env) j)))) (\<lambda>_.
              if rp_svg_present env
              then sbind (open_report (report_in m ''summary.svg'')) (\<lambda>_.
                   write_report (report_in m ''summary.svg'')
                     (ebind (results_svg test_summary_dict cov_summary_dict) (\<lambda>s. Inr (rp_svg env s))))
              else raise_or (Inr ())))))))))))))"

definition with_report_files :: "regression_metadata \<Rightarrow> regression_metadata" where
  "with_report_files m =
     m\<lparr>md_regr_log := Some (report_in m ''regr.log''), md_regr_log_junit := Some (report_in m ''regr_junit.xml''),
       md_regr_log_junit_merged := Some (report_in m ''regr_junit_merged.xml'')\<rparr>"

definition collect_body :: "report_env \<Rightarrow> test_run_result store \<Rightarrow> regression_metadata \<Rightarrow> build_state \<Rightarrow>
    (build_error option \<times> regression_metadata) \<times> build_state" where
  "collect_body env trrs m st =
     (case collect_tests trrs m of
        Inl e \<Rightarrow> ((Some e, m), st)
      | Inr collected \<Rightarrow>
          (case write_reports env (with_report_files m) collected st of
             (Inl e, st') \<Rightarrow> ((Some e, with_report_files m), st')
           | (Inr _, st') \<Rightarrow> ((None, with_report_files m), st')))"

definition collect_results :: "report_env \<Rightarrow> test_run_result store \<Rightarrow> path \<Rightarrow> int build_step" where
  "collect_results env trrs dir =
     sbind (locked (build_env.truncate env) dir (collect_body env trrs)) (\<lambda>m.
       raise_or (ebind (collect_tests trrs m) (\<lambda>(passing, failing, summary). Inr (if failing = [] then 0 else 1))))"

section \<open>Properties\<close>

abbreviation test_ok :: "test_run_result \<Rightarrow> bool" where
  "test_ok t \<equiv> passed t = Some True"

lemma collect_step_loaded:
  "construct_from_pickle trrs x = Inr t \<Longrightarrow> \<exists>s'. collect_step trrs x (p, f, s) =
    Inr (if test_ok t then p @ [t] else p, if test_ok t then f else f @ [t], s')"
  by (simp add: collect_step_def Let_def)

lemma collect_step_missing:
  "construct_from_pickle trrs x = Inl e \<Longrightarrow> \<exists>e'. collect_step trrs x acc = Inl e'"
  by (cases e) (auto simp: collect_step_def split: prod.split)

lemma all_loaded:
  "list_all2 (\<lambda>x t. c x = Inr t) xs ts \<Longrightarrow> list_all P ts \<longleftrightarrow> (\<forall>x \<in> set xs. \<exists>t. c x = Inr t \<and> P t)"
  by (induction rule: list_all2_induct) auto

lemma collect_fold:
  assumes "efold (collect_step trrs) fs (p, f, s) = Inr (p', f', s')"
  shows "\<exists>ts. list_all2 (\<lambda>x t. construct_from_pickle trrs x = Inr t) fs ts \<and>
    p' = p @ filter test_ok ts \<and> f' = f @ filter (\<lambda>t. \<not> test_ok t) ts"
  using assms
proof (induction fs arbitrary: p f s)
  case Nil
  then show ?case by simp
next
  case (Cons x fs)
  obtain t where t: "construct_from_pickle trrs x = Inr t"
    using Cons.prems collect_step_missing[of trrs x _ "(p, f, s)"] by (cases "construct_from_pickle trrs x") auto
  then obtain s1 where "efold (collect_step trrs) fs (if test_ok t then p @ [t] else p, if test_ok t then f else f @ [t], s1) =
      Inr (p', f', s')"
    using Cons.prems collect_step_loaded[OF t, of p f s] by auto
  from Cons.IH[OF this] obtain ts where "list_all2 (\<lambda>x t. construct_from_pickle trrs x = Inr t) fs ts"
      "p' = (if test_ok t then p @ [t] else p) @ filter test_ok ts"
      "f' = (if test_ok t then f else f @ [t]) @ filter (\<lambda>t. \<not> test_ok t) ts"
    by blast
  then show ?case using t by (intro exI[of _ "t # ts"]) simp
qed

lemma collect_fold_missing:
  assumes "x \<in> set fs" and "construct_from_pickle trrs x = Inl e"
  shows "\<exists>e. efold (collect_step trrs) fs acc = Inl e"
proof (cases "efold (collect_step trrs) fs acc")
  case (Inr r)
  obtain p f s p' f' s' where acc: "acc = (p, f, s)" "r = (p', f', s')" by (metis prod.exhaust)
  then obtain ts where "list_all2 (\<lambda>x t. construct_from_pickle trrs x = Inr t) fs ts"
    using collect_fold Inr by blast
  then show ?thesis using assms by (auto simp: list_all2_conv_all_nth in_set_conv_nth)
qed blast


lemma write_reports_empty:
  "\<exists>st'. write_reports env m ([], [], s) st = (Inl Zero_division, st') \<and>
    bs_files st' (path_str (report_in m ''regr.log'')) = Some [] \<and> bs_md st' = bs_md st"
  by (simp add: write_reports_def sbind_def open_report_def write_report_def raise_or_def junit_suites_def
    output_results_text_def gen_summary_line_def)

lemma collect_verdict:
  assumes "collect_results env trrs dir st = (Inr rc, st')" and "md_from_metadata_dir (bs_md st) dir = Inr m"
    and "md_pickle_file m = child_of dir ''metadata.pickle''"
  shows "md_tests_pickle_files m \<noteq> [] \<and> rc \<in> {0, 1} \<and>
    (rc = 0 \<longleftrightarrow> (\<forall>f \<in> set (md_tests_pickle_files m). \<exists>t. construct_from_pickle trrs f = Inr t \<and> passed t = Some True))"
proof -
  obtain m' st1 where l: "locked (build_env.truncate env) dir (collect_body env trrs) st = (Inr m', st1)"
      "ebind (collect_tests trrs m') (\<lambda>(passing, failing, summary). Inr (if failing = [] then 0 else 1)) = Inr rc"
    using assms(1) by (auto simp: collect_results_def sbind_Inr raise_or_def)
  have pick: "md_pickle_file (with_report_files m) = md_pickle_file m"
      "md_tests_pickle_files (with_report_files m) = md_tests_pickle_files m"
    by (simp_all add: with_report_files_def)
  have "md_pickle_file (snd (fst (collect_body env trrs m st))) = child_of dir ''metadata.pickle''"
    using assms(3) by (auto simp: collect_body_def pick split: sum.split prod.split)
  then obtain st2 where b: "collect_body env trrs m st = ((None, m'), st2)"
    using locked_Inr[OF l(1) assms(2)] by blast
  then obtain p f s where c: "collect_tests trrs m = Inr (p, f, s)" "m' = with_report_files m"
      "write_reports env m' (p, f, s) st = (Inr (), st2)"
    by (auto simp: collect_body_def split: sum.splits prod.splits)
  obtain ts where ts: "list_all2 (\<lambda>x t. construct_from_pickle trrs x = Inr t) (md_tests_pickle_files m) ts"
      "p = filter test_ok ts" "f = filter (\<lambda>t. \<not> test_ok t) ts"
    using collect_fold c(1) unfolding collect_tests_def by fastforce
  have "rc = (if f = [] then 0 else 1)"
    using l(2) c(1,2) by (auto simp: collect_tests_def pick)
  moreover have "f = [] \<longleftrightarrow> (\<forall>x \<in> set (md_tests_pickle_files m). \<exists>t. construct_from_pickle trrs x = Inr t \<and> test_ok t)"
    using all_loaded[OF ts(1), of test_ok] unfolding ts(3) by (simp add: filter_empty_conv list_all_iff)
  moreover have "p @ f \<noteq> []"
    using c(3) write_reports_empty[of env m' s st] by auto
  ultimately show ?thesis using ts by auto
qed

text \<open>
  When collecting the results ends with a status, there was at least one test, and the
  status is zero exactly when the stored result of every test of the regression is a pass.
\<close>

theorem collect_status:
  assumes "collect_results env trrs dir st = (Inr rc, st')" and "md_from_metadata_dir (bs_md st) dir = Inr m"
    and "md_pickle_file m = child_of dir ''metadata.pickle''"
  shows "md_tests_pickle_files m \<noteq> [] \<and> rc \<in> {0, 1} \<and>
    (rc = 0 \<longleftrightarrow> (\<forall>f \<in> set (md_tests_pickle_files m). \<exists>t. construct_from_pickle trrs f = Inr t \<and> passed t = Some True))"
  by (rule collect_verdict[OF assms])

text \<open>
  A regression without tests cannot be reported: the collection fails dividing by zero when
  it writes the summary line, and leaves an empty log.
\<close>

theorem collect_no_tests:
  assumes "md_from_metadata_dir (bs_md st) dir = Inr m" and "md_tests_pickle_files m = []"
  shows "\<exists>st'. collect_results env trrs dir st = (Inl Zero_division, st') \<and>
    bs_files st' (path_str (report_in m ''regr.log'')) = Some []"
proof -
  obtain st1 where w: "write_reports env (with_report_files m) ([], [], []) st = (Inl Zero_division, st1)"
      "bs_files st1 (path_str (report_in (with_report_files m) ''regr.log'')) = Some []" "bs_md st1 = bs_md st"
    using write_reports_empty by blast
  have "collect_body env trrs m st = ((Some Zero_division, with_report_files m), st1)"
    using w(1) assms(2) by (simp add: collect_body_def collect_tests_def)
  moreover have "report_in (with_report_files m) n = report_in m n" for n
    by (simp add: report_in_def with_report_files_def)
  ultimately show ?thesis using w(2,3) assms(1)
    by (simp add: collect_results_def sbind_def locked_def locked_metadata_def md_export_def export_def Let_def)
qed

text \<open>
  One result that cannot be read ends the collection: it fails, and not one report is
  written, whatever the other tests did.
\<close>

theorem collect_unreadable:
  assumes "md_from_metadata_dir (bs_md st) dir = Inr m"
    and "f \<in> set (md_tests_pickle_files m)" "construct_from_pickle trrs f = Inl e"
  shows "\<exists>e' st'. collect_results env trrs dir st = (Inl e', st') \<and> bs_files st' = bs_files st"
proof -
  obtain e' where "collect_tests trrs m = Inl e'"
    using collect_fold_missing[OF assms(2,3)] unfolding collect_tests_def by blast
  then have "collect_body env trrs m st = ((Some e', m), st)" by (simp add: collect_body_def)
  then show ?thesis using assms(1)
    by (simp add: collect_results_def sbind_def locked_def locked_metadata_def md_export_def export_def Let_def)
qed

fun tiled :: "int \<Rightarrow> int \<Rightarrow> dashboard_element list \<Rightarrow> svg_element list \<Rightarrow> bool" where
  "tiled g x [] bs \<longleftrightarrow> bs = []"
| "tiled g x (e # es) (Svg_G (Some y) b # bs) \<longleftrightarrow> x = y \<and> b = element_svg e \<and> tiled g (y + element_width e + g) es bs"
| "tiled g x _ _ \<longleftrightarrow> False"

lemma tiled_dashboard: "tiled g x es (dashboard_svg g x es)"
  by (induction es arbitrary: x) simp_all

lemma dashboard_width_sum: "dashboard_width g es = sum_list (map element_width es) + g * int (length es) - g"
proof -
  have "foldl (\<lambda>acc e. acc + element_width e + g) a es = a + sum_list (map element_width es) + g * int (length es)" for a
    by (induction es arbitrary: a) (simp_all add: algebra_simps)
  then show ?thesis by (simp add: dashboard_width_def)
qed

text \<open>
  The boxes of the dashboard stand side by side: the first starts at zero, each starts a gap
  after the end of the one before, and the width of the picture is the end of the last.
\<close>

theorem dashboard_tiles:
  assumes "results_svg tests cov = Inr (width, height, pic)"
  shows "\<exists>es. dashboard_elements tests cov = Inr es \<and> hd pic = Svg_Style SVG_DASHBOARD_STYLE \<and>
    tiled SVG_DASHBOARD_GAP 0 es (tl pic) \<and>
    width = sum_list (map element_width es) + SVG_DASHBOARD_GAP * (int (length es) - 1)"
  using assms tiled_dashboard[of SVG_DASHBOARD_GAP 0]
  by (auto simp: results_svg_def raise_simps dashboard_width_sum algebra_simps)

lemma dashboard_tiles_witness:
  "\<exists>width height pic es. results_svg [(Some ''t'', 3, 1)] (Some []) = Inr (width, height, pic) \<and>
    dashboard_elements [(Some ''t'', 3, 1)] (Some []) = Inr es \<and> hd pic = Svg_Style SVG_DASHBOARD_STYLE \<and>
    tiled SVG_DASHBOARD_GAP 0 es (tl pic) \<and>
    width = sum_list (map element_width es) + SVG_DASHBOARD_GAP * (int (length es) - 1)"
proof -
  have "\<exists>width height pic. results_svg [(Some ''t'', 3, 1)] (Some []) = Inr (width, height, pic)"
    by (simp add: results_svg_def dashboard_elements_def Let_def)
  then show ?thesis using dashboard_tiles by blast
qed

definition demo_report_env :: report_env where
  "demo_report_env =
     \<lparr>se_exec = (\<lambda>cmd fs. (Returned 0, fs)), se_resolve = id, se_environ = Map.empty,
      se_read_file = (\<lambda>f. None), se_yaml_load = (\<lambda>t. None), se_ibex_root = ''/ibex'', se_testlist = (\<lambda>p. Inr []),
      se_sim_yaml = [], be_pkg_config = (\<lambda>c. None), be_glob = (\<lambda>p pat. []), be_env_exec = (\<lambda>e cmd fs. (Returned 0, fs)),
      be_render = (\<lambda>f c. f), rp_junit = (\<lambda>s. ''<testsuites/>''), rp_html = (\<lambda>d. Inr ''<html/>''),
      rp_float = (\<lambda>q. ''1.0''), rp_svg = (\<lambda>s. ''<svg/>''), rp_svg_present = True\<rparr>"

definition demo_result :: test_run_result where
  "demo_result = new_result\<lparr>testname := Some ''t'', seed := Some 3, passed := Some True\<rparr>"

definition demo_report_md :: "path list \<Rightarrow> regression_metadata" where
  "demo_report_md fs = demo_metadata\<lparr>md_simulator := ''vcs'', md_tests_pickle_files := fs\<rparr>"

definition demo_report_state :: "path list \<Rightarrow> build_state" where
  "demo_report_state fs = \<lparr>bs_dirs = [], bs_files = Map.empty,
     bs_md = \<lparr>pickles = [(path_of ''/out/metadata/metadata.pickle'', demo_report_md fs)], yamls = []\<rparr>\<rparr>"

definition demo_trrs :: "test_run_result store" where
  "demo_trrs = \<lparr>pickles = [(path_of ''/p'', demo_result)], yamls = []\<rparr>"

lemma demo_report_loads:
  "md_from_metadata_dir (bs_md (demo_report_state fs)) (path_of ''/out/metadata'') = Inr (demo_report_md fs)"
proof -
  have "child_of (path_of ''/out/metadata'') ''metadata.pickle'' = path_of ''/out/metadata/metadata.pickle''" by code_simp
  then show ?thesis by (simp add: md_from_metadata_dir_def construct_from_pickle_def demo_report_state_def)
qed

lemma demo_text: "\<exists>s. gen_test_run_result_text r demo_result = Inr s"
  by (simp add: gen_test_run_result_text_def lesskeys_def relative_str_def demo_result_def new_result_def Let_def)

text \<open>The reports on one run that passed are written.\<close>

lemma demo_reports_written:
  assumes "md_simulator m = ''vcs''" and "testname t = Some n" and "passed t = Some True"
    and "gen_test_run_result_text (se_resolve demo_report_env) t = Inr res"
  shows "\<exists>st'. write_reports demo_report_env m ([t], [], s) st = (Inr (), st') \<and> bs_md st' = bs_md st"
proof -
  have counts: "create_test_summary_dict [t] = [(Some n, (1, 0))]"
    by (simp add: create_test_summary_dict_def count_test_def assms(2,3) dget_or_def)
  have suites: "\<exists>a b. junit_suites (se_resolve demo_report_env) [t] [] = Inr (a, b)"
    by (simp add: junit_suites_def suite_step_def assms(4))
  have log: "\<exists>x. output_results_text (se_resolve demo_report_env) [t] [] s = Inr x"
    by (simp add: output_results_text_def gen_summary_line_def assms(4) Let_def)
  have html: "\<exists>x. html_report m [t] [(Some n, (1, 0))] (Some []) = Inr x"
    by (simp add: html_report_def summary_entry_def)
  have json: "\<exists>x. create_dvsim_report_dict ''vcs'' ''ibex'' ''opentitan'' [(Some n, (1, 0))] (Some []) = Inr x"
    by (simp add: create_dvsim_report_dict_def dvsim_test_def)
  have svg: "\<exists>x. results_svg [(Some n, (1, 0))] (Some []) = Inr x"
    by (simp add: results_svg_def dashboard_elements_def Let_def)
  have env: "rp_html demo_report_env d = Inr ''<html/>''" "rp_svg_present demo_report_env" for d
    by (simp_all add: demo_report_env_def)
  show ?thesis
    using suites log html json svg assms(1)
    by (auto simp: write_reports_def sbind_def open_report_def write_report_def raise_or_def counts cov_summary_of_def env Let_def)
qed

text \<open>Collecting the results of a regression with one run, which passed.\<close>

lemma demo_collected:
  assumes "md_from_metadata_dir (bs_md st) dir = Inr m" and "md_simulator m = ''vcs''"
    and "md_tests_pickle_files m = [f]" and "construct_from_pickle trrs f = Inr t"
    and "testname t = Some n" and "passed t = Some True"
    and "gen_test_run_result_text (se_resolve demo_report_env) t = Inr res"
  shows "\<exists>rc st'. collect_results demo_report_env trrs dir st = (Inr rc, st')"
proof -
  have c: "collect_tests trrs m = Inr ([t], [], [(run_name t, ''PASS'')])"
    "collect_tests trrs (with_report_files m) = Inr ([t], [], [(run_name t, ''PASS'')])"
    by (simp_all add: collect_tests_def with_report_files_def collect_step_def assms(3-6))
  obtain st1 where w: "write_reports demo_report_env (with_report_files m) ([t], [], [(run_name t, ''PASS'')]) st =
      (Inr (), st1)" "bs_md st1 = bs_md st"
    using demo_reports_written[of "with_report_files m", OF _ assms(5-7)] assms(2)
    by (auto simp: with_report_files_def)
  then show ?thesis
    using assms(1)
    by (simp add: collect_results_def sbind_def raise_or_def locked_def locked_metadata_def md_export_def export_def Let_def
      collect_body_def c)
qed

lemma collect_status_witness:
  "\<exists>rc st'. collect_results demo_report_env demo_trrs (path_of ''/out/metadata'') (demo_report_state [path_of ''/p'']) =
      (Inr rc, st') \<and>
    md_tests_pickle_files (demo_report_md [path_of ''/p'']) \<noteq> [] \<and> rc \<in> {0, 1} \<and>
    (rc = 0 \<longleftrightarrow> (\<forall>f \<in> set (md_tests_pickle_files (demo_report_md [path_of ''/p''])).
      \<exists>t. construct_from_pickle demo_trrs f = Inr t \<and> passed t = Some True))"
proof -
  obtain res where res: "gen_test_run_result_text (se_resolve demo_report_env) demo_result = Inr res"
    using demo_text by blast
  have "\<exists>rc st'. collect_results demo_report_env demo_trrs (path_of ''/out/metadata'') (demo_report_state [path_of ''/p'']) =
      (Inr rc, st')"
    by (rule demo_collected[OF demo_report_loads, where t = demo_result and n = "''t''" and f = "path_of ''/p''"])
      (simp_all add: demo_report_md_def demo_trrs_def construct_from_pickle_def demo_result_def res[unfolded demo_result_def])
  moreover have "md_pickle_file (demo_report_md [path_of ''/p'']) = child_of (path_of ''/out/metadata'') ''metadata.pickle''"
    by (simp add: demo_report_md_def demo_metadata_def) code_simp
  ultimately show ?thesis using collect_status[OF _ demo_report_loads] by blast
qed

lemma collect_no_tests_witness:
  "\<exists>st'. collect_results demo_report_env demo_trrs (path_of ''/out/metadata'') (demo_report_state []) = (Inl Zero_division, st') \<and>
    bs_files st' (path_str (report_in (demo_report_md []) ''regr.log'')) = Some []"
  by (rule collect_no_tests[OF demo_report_loads]) (simp add: demo_report_md_def)

lemma collect_unreadable_witness:
  "\<exists>e' st'. collect_results demo_report_env demo_trrs (path_of ''/out/metadata'') (demo_report_state [path_of ''/p'', path_of ''/q'']) =
      (Inl e', st') \<and> bs_files st' = bs_files (demo_report_state [path_of ''/p'', path_of ''/q''])"
proof (rule collect_unreadable[OF demo_report_loads, where f = "path_of ''/q''"])
  show "construct_from_pickle demo_trrs (path_of ''/q'') = Inl (Os_error (path_str (path_of ''/q'')))"
    by (simp add: construct_from_pickle_def demo_trrs_def) code_simp
qed (simp add: demo_report_md_def)

abbreviation case_verdict :: "test_case \<Rightarrow> string \<times> bool" where
  "case_verdict c \<equiv> (tc_name c, tc_failures c = [])"

abbreviation test_verdict :: "test_run_result \<Rightarrow> string \<times> bool" where
  "test_verdict t \<equiv> (run_name t, test_ok t)"

lemma suites_fold:
  assumes "efold (suite_step resolve) ts d = Inr d'"
  shows "map case_verdict (unmerged (dget_or d' n new_suite)) =
      map case_verdict (unmerged (dget_or d n new_suite)) @ map test_verdict (filter (\<lambda>t. testname t = n) ts) \<and>
    dkeys d' = dkeys (fold count_test ts (map (\<lambda>(k, v). (k, c)) d))"
  using assms
proof (induction ts arbitrary: d)
  case Nil
  then show ?case by (simp add: case_prod_beta comp_def)
next
  case (Cons t ts)
  obtain txt' where g: "gen_test_run_result_text resolve t = Inr txt'"
    using Cons.prems by (auto simp: suite_step_def raise_simps)
  let ?d = "dset (testname t) (add_to_suite txt' t (dget_or d (testname t) new_suite)) d"
  have "suite_step resolve t d = Inr ?d" using g by (simp add: suite_step_def)
  then have rest: "efold (suite_step resolve) ts ?d = Inr d'" using Cons.prems by simp
  have keys: "dkeys (fold count_test ts a) = dkeys (fold count_test ts b)" if "dkeys a = dkeys b" for a b
    using that by (simp add: fold_count_keys)
  have "dkeys (map (\<lambda>(k, v). (k, c)) ?d) = dkeys (count_test t (map (\<lambda>(k, v). (k, c)) d))"
    by (simp add: count_test_def dkeys_dset case_prod_beta comp_def split: prod.split)
  from keys[OF this] have k: "dkeys (fold count_test ts (map (\<lambda>(k, v). (k, c)) ?d)) =
      dkeys (fold count_test (t # ts) (map (\<lambda>(k, v). (k, c)) d))"
    by simp
  have u: "map case_verdict (unmerged (dget_or ?d n new_suite)) =
      map case_verdict (unmerged (dget_or d n new_suite)) @ (if testname t = n then [test_verdict t] else [])"
    by (simp add: dget_or_def add_to_suite_def Let_def)
  show ?case using Cons.IH[OF rest] unfolding u k by simp
qed

text \<open>
  The normal XML report has one suite for each test name, in the order in which the names
  first occur, with one case for each run, which has a failure exactly if the run did not
  pass; the merged report has one case for each name.
\<close>

theorem junit_suites_complete:
  assumes "junit_suites resolve passing_tests failing_tests = Inr (normal, merged)"
  shows "map fst normal = first_names (passing_tests @ failing_tests) \<and>
    map case_verdict (case map_of normal n of None \<Rightarrow> [] | Some cs \<Rightarrow> cs) =
      map test_verdict (filter (\<lambda>t. testname t = n) (passing_tests @ failing_tests)) \<and>
    map (\<lambda>(name, cs). (name, length cs)) merged = map (\<lambda>name. (name, 1)) (map fst normal)"
proof -
  obtain info where i: "efold (suite_step resolve) (passing_tests @ failing_tests) [] = Inr info"
      "normal = map (\<lambda>(name, i). (name, unmerged i)) info"
      "merged = map (\<lambda>(name, i). (name, [\<lparr>tc_name = str_or_None name, tc_stdout = merged_stdout i,
                                     tc_failures = [merged_failures i]\<rparr>])) info"
    using assms by (auto simp: junit_suites_def raise_simps)
  have keys: "map fst normal = dkeys info" by (simp add: i(2) case_prod_beta comp_def)
  have "map_of normal n = map_option unmerged (dget info n)"
    unfolding i(2) by (induction info) auto
  then have "(case map_of normal n of None \<Rightarrow> [] | Some cs \<Rightarrow> cs) = unmerged (dget_or info n new_suite)"
    by (simp add: dget_or_def new_suite_def split: option.split)
  moreover have "map (\<lambda>(name, cs). (name, length cs)) merged = map (\<lambda>name. (name, 1)) (map fst normal)"
    unfolding keys by (simp add: i(3) case_prod_beta comp_def)
  moreover have "map fst normal = first_names (passing_tests @ failing_tests)"
    using suites_fold[OF i(1), of n "(0, 0)"] fold_count_keys[of "passing_tests @ failing_tests" "[]"] keys by simp
  moreover have "map case_verdict (unmerged (dget_or info n new_suite)) =
      map test_verdict (filter (\<lambda>t. testname t = n) (passing_tests @ failing_tests))"
    using suites_fold[OF i(1), of n "(0, 0)"] by (simp add: dget_or_def new_suite_def)
  ultimately show ?thesis by metis
qed

lemma junit_suites_complete_witness:
  "\<exists>normal merged. junit_suites id [demo_result] [] = Inr (normal, merged) \<and>
    map fst normal = first_names ([demo_result] @ []) \<and>
    map case_verdict (case map_of normal (Some ''t'') of None \<Rightarrow> [] | Some cs \<Rightarrow> cs) =
      map test_verdict (filter (\<lambda>t. testname t = Some ''t'') ([demo_result] @ [])) \<and>
    map (\<lambda>(name, cs). (name, length cs)) merged = map (\<lambda>name. (name, 1)) (map fst normal)"
proof -
  obtain res where "gen_test_run_result_text id demo_result = Inr res" using demo_text by blast
  then have "\<exists>normal merged. junit_suites id [demo_result] [] = Inr (normal, merged)"
    by (simp add: junit_suites_def suite_step_def)
  then obtain normal merged where j: "junit_suites id [demo_result] [] = Inr (normal, merged)" by blast
  show ?thesis using junit_suites_complete[OF j, of "Some ''t''"] j by blast
qed

end
