(* ===== verification/FormalFiles.thy ===== *)
theory FormalFiles
  imports PyRe PyVal
begin

text \<open>
  The scripts that edit files of the formal flow: \<^verbatim>\<open>dv/formal/smt2manip.py\<close>, which turns a
  file of Yosys into the problem of one step of the proof, and \<^verbatim>\<open>dv/formal/spec/fix_bugs.py\<close>,
  which edits the output of the Sail compiler.  The files are arguments and results.
\<close>

section \<open>smt2manip.py\<close>

definition not_blank :: "char \<Rightarrow> bool" where
  "not_blank c \<longleftrightarrow> c \<noteq> CHR '' ''"

definition ASSERT_RE :: re where
  "ASSERT_RE = seqs [Lit ''; yosys-smt2-assert '', Grp ''1'' (plus is_digit), Lit '' '', Grp ''2'' (plus not_blank)]"

definition STATE_RE :: re where
  "STATE_RE = seqs [Lit ''  (|top_a '', Grp ''1'' (plus is_digit), Lit ''| state)'']"

definition TOP_U :: string where
  "TOP_U = ''(define-fun |top_u| ((state |top_s|)) Bool (and''"

text \<open>The lines the script tells apart, in the order in which it tries them.\<close>

datatype smt_line = Assert_comment string string | Assert_state string | Top_u | Other_line

definition kind_of :: "string \<Rightarrow> smt_line" where
  "kind_of line =
     (case re_match ASSERT_RE line of
        Some m \<Rightarrow> Assert_comment (the_grp m ''1'') (the_grp m ''2'')
      | None \<Rightarrow>
          (case re_match STATE_RE line of
             Some m \<Rightarrow> Assert_state (the_grp m ''1'')
           | None \<Rightarrow> if line = TOP_U then Top_u else Other_line))"

datatype smt_error = Assertion_error | Value_error string

text \<open>Step and name of a property, from what follows the first six characters up to a dollar.\<close>

definition step_and_name :: "string \<Rightarrow> smt_error + int \<times> string" where
  "step_and_name full =
     (let name = hd (split_on CHR ''$'' (drop 6 full))
      in ebind (guard_else (prefix ''Step'' name) Assertion_error) (\<lambda>_.
         case split1 CHR ''_'' name of
           (step, None) \<Rightarrow> Inl (Value_error name)
         | (step, Some rest) \<Rightarrow>
             ebind (of_option (Value_error step) (read_int 10 (drop 4 step))) (\<lambda>i. Inr (i, rest))))"

record manip =
  mapped :: "string list"
  to_assume :: "string list"
  to_delete :: "string list"
  printed :: "string list"

definition said :: "string \<Rightarrow> string \<Rightarrow> string \<Rightarrow> string" where
  "said what name i = what @ '' '' @ name @ '' ('' @ i @ '')''"

definition is_cover :: "string \<Rightarrow> bool" where
  "is_cover name \<longleftrightarrow> suffix ''_Cover'' name"

definition assume_line :: "string \<Rightarrow> string" where
  "assume_line i = ''  (|top_a '' @ i @ ''| state)''"

definition manip_comment :: "int \<Rightarrow> string list \<Rightarrow> string \<Rightarrow> string \<Rightarrow> int \<Rightarrow> string \<Rightarrow> manip \<Rightarrow> manip" where
  "manip_comment at props line i step name st =
     (if is_cover name \<or> at < step \<or> step = at \<and> props \<noteq> [] \<and> name \<notin> set props
      then st\<lparr>mapped := mapped st @ [line], to_delete := to_delete st @ [i],
              printed := printed st @ [said ''Delete'' name i]\<rparr>
      else if step < at
      then st\<lparr>mapped := mapped st @ [line], to_assume := to_assume st @ [i],
              printed := printed st @ [said ''Assert2Assume'' name i]\<rparr>
      else st\<lparr>mapped := mapped st @ [line], printed := printed st @ [said ''Keep'' name i]\<rparr>)"

definition manip_line :: "int \<Rightarrow> string list \<Rightarrow> string \<Rightarrow> manip \<Rightarrow> smt_error + manip" where
  "manip_line at props line st =
     (case kind_of line of
        Assert_comment i full \<Rightarrow>
          ebind (step_and_name full) (\<lambda>(step, name). Inr (manip_comment at props line i step name st))
      | Assert_state i \<Rightarrow>
          Inr (if i \<in> set (to_assume st) \<or> i \<in> set (to_delete st) then st
               else st\<lparr>mapped := mapped st @ [line]\<rparr>)
      | Top_u \<Rightarrow> Inr (st\<lparr>mapped := mapped st @ [line] @ map assume_line (to_assume st)\<rparr>)
      | Other_line \<Rightarrow> Inr (st\<lparr>mapped := mapped st @ [line]\<rparr>))"

text \<open>The text written and the lines printed; an error writes nothing.\<close>

definition smt2manip :: "int \<Rightarrow> string list \<Rightarrow> string \<Rightarrow> smt_error + string \<times> string list" where
  "smt2manip at props smt2 =
     ebind (efold (manip_line at props) (split_on newline smt2)
              \<lparr>mapped = [], to_assume = [], to_delete = [], printed = []\<rparr>)
       (\<lambda>st. Inr (join [newline] (mapped st), printed st))"

section \<open>fix_bugs.py\<close>

definition pmpcfg_ent :: string where
  "pmpcfg_ent = join [newline] [[], ''typedef struct {'', ''    logic [7:0] bits;'', ''} t_Pmpcfg_ent;'', []]"

definition call_of_main :: string where
  "call_of_main = join [newline]
     [''        wX_sail_invoke_arg_0[0] = 0; wX_sail_invoke_arg_1[0] = 0;'',
      ''        write_ram_sail_invoke_arg_0[0] = Write_plain; write_ram_sail_invoke_arg_0[1] = Write_plain;'',
      ''        write_ram_sail_invoke_arg_1[0] = 0; write_ram_sail_invoke_arg_1[1] = 0;'',
      ''        write_ram_sail_invoke_arg_2[0] = 0; write_ram_sail_invoke_arg_2[1] = 0;'',
      ''        write_ram_sail_invoke_arg_3[0] = 0; write_ram_sail_invoke_arg_3[1] = 0;'',
      ''        read_ram_sail_invoke_arg_0[0] = Read_plain; read_ram_sail_invoke_arg_0[1] = Read_plain;'',
      ''        read_ram_sail_invoke_arg_1[0] = 0; read_ram_sail_invoke_arg_1[1] = 0;'',
      ''        sail_reached_unreachable_loc = 0;'',
      ''        main_result = main(insn_bits, mode); '']"

definition spec_edits :: "(string \<times> string) list" where
  "spec_edits =
     [(pmpcfg_ent, []),
      (''struct {'', ''struct packed {''),
      (''sail_return = sail_internal_pick(zz498);'', ''/* removed */''),
      (''sail_return = sail_internal_pick(zz495);'', ''/* removed */''),
      (''        main_result = main(insn_bits, mode);'', call_of_main),
      (''sail_reached_unreachable = 1;'',
       ''if (!sail_reached_unreachable) begin sail_reached_unreachable = 1; sail_reached_unreachable_loc = `__LINE__; end''),
      (''module sail_ibexspec('',
       join [newline] [''module sail_ibexspec('', ''    output logic sail_reached_unreachable,'',
         ''    output logic [31:0] sail_reached_unreachable_loc,'']),
      (''logic sail_reached_unreachable;'', []),
      (''logic [31:0] sail_reached_unreachable_loc;'', [])]"

definition fix_spec :: "string \<Rightarrow> string" where
  "fix_spec c = fold (\<lambda>(old, new). replace old new) spec_edits c"

definition fix_genlib :: "string \<Rightarrow> string" where
  "fix_genlib c = replace ''struct'' ''struct packed'' pmpcfg_ent @ [newline] @ c"

text \<open>Both files of the build, or the name of the first that cannot be read.\<close>

definition fix_bugs :: "(string \<rightharpoonup> string) \<Rightarrow> (string \<rightharpoonup> string) \<times> string option" where
  "fix_bugs fs =
     (case fs ''build/ibexspec.sv'' of
        None \<Rightarrow> (fs, Some ''build/ibexspec.sv'')
      | Some spec \<Rightarrow>
          (let fs1 = fs(''build/ibexspec.sv'' \<mapsto> fix_spec spec)
           in case fs1 ''build/sail_genlib_ibexspec.sv'' of
                None \<Rightarrow> (fs1, Some ''build/sail_genlib_ibexspec.sv'')
              | Some lib \<Rightarrow> (fs1(''build/sail_genlib_ibexspec.sv'' \<mapsto> fix_genlib lib), None)))"

section \<open>What is selected\<close>

text \<open>The properties that the comments of a file announce: number, step and name.\<close>

definition comment_of :: "string \<Rightarrow> (string \<times> int \<times> string) option" where
  "comment_of line =
     (case kind_of line of
        Assert_comment i full \<Rightarrow> (case step_and_name full of Inr (step, name) \<Rightarrow> Some (i, step, name) | Inl _ \<Rightarrow> None)
      | _ \<Rightarrow> None)"

definition announced :: "string list \<Rightarrow> (string \<times> int \<times> string) list" where
  "announced ls = List.map_filter comment_of ls"

text \<open>The properties of the step that are to be proved, and those of earlier steps.\<close>

definition selected :: "int \<Rightarrow> string list \<Rightarrow> string \<times> int \<times> string \<Rightarrow> bool" where
  "selected at props = (\<lambda>(i, step, name).
     \<not> is_cover name \<and> step = at \<and> (props = [] \<or> name \<in> set props))"

definition earlier :: "int \<Rightarrow> string \<times> int \<times> string \<Rightarrow> bool" where
  "earlier at = (\<lambda>(i, step, name). \<not> is_cover name \<and> step < at)"

text \<open>The file with the properties told apart beforehand.\<close>

definition select_line :: "int \<Rightarrow> string list \<Rightarrow> (string \<times> int \<times> string) list \<Rightarrow> string \<Rightarrow> string list" where
  "select_line at props ps line =
     (case kind_of line of
        Assert_state i \<Rightarrow> if i \<in> set (map fst (filter (selected at props) ps)) then [line] else []
      | Top_u \<Rightarrow> line # map (\<lambda>p. assume_line (fst p)) (filter (earlier at) ps)
      | _ \<Rightarrow> [line])"

text \<open>Comments, with the names that the script expects, come before the lines they are about.\<close>

definition announces :: "string \<Rightarrow> bool" where
  "announces line \<longleftrightarrow> comment_of line \<noteq> None \<or> kind_of line = Other_line"

definition uses :: "(string \<times> int \<times> string) list \<Rightarrow> string \<Rightarrow> bool" where
  "uses ps line = (case kind_of line of
     Assert_comment _ _ \<Rightarrow> False | Assert_state i \<Rightarrow> i \<in> set (map fst ps) | _ \<Rightarrow> True)"

definition dropped :: "int \<Rightarrow> string list \<Rightarrow> string \<times> int \<times> string \<Rightarrow> bool" where
  "dropped at props p \<longleftrightarrow> \<not> selected at props p \<and> \<not> earlier at p"

lemma announced_simps:
  "announced [] = []"
  "announced (l # ls) = (case comment_of l of None \<Rightarrow> announced ls | Some p \<Rightarrow> p # announced ls)"
  by (simp_all add: announced_def map_filter_simps split: option.split)

lemma announce_loop:
  assumes "list_all announces ls"
  shows "\<exists>out. efold (manip_line at props) ls st = Inr (st\<lparr>mapped := mapped st @ ls,
    to_assume := to_assume st @ map fst (filter (earlier at) (announced ls)),
    to_delete := to_delete st @ map fst (filter (dropped at props) (announced ls)), printed := out\<rparr>)"
  using assms
proof (induction ls arbitrary: st)
  case Nil
  show ?case by (auto simp: announced_simps intro!: exI[of _ "printed st"])
next
  case (Cons l ls)
  show ?case
  proof (cases "comment_of l")
    case None
    then have "kind_of l = Other_line" using Cons.prems by (simp add: announces_def)
    then show ?thesis
      using Cons.IH[of "st\<lparr>mapped := mapped st @ [l]\<rparr>"] Cons.prems None
      by (auto simp: manip_line_def announced_simps)
  next
    case (Some p)
    obtain i step name where p: "p = (i, step, name)" by (cases p)
    obtain full where l: "kind_of l = Assert_comment i full" "step_and_name full = Inr (step, name)"
      using Some by (auto simp: comment_of_def p split: smt_line.splits sum.splits)
    have "manip_line at props l st = Inr (manip_comment at props l i step name st)"
      by (simp add: manip_line_def l)
    then show ?thesis
      using Cons.IH[of "manip_comment at props l i step name st"] Cons.prems
      by (auto simp: announced_simps Some p manip_comment_def earlier_def selected_def dropped_def)
  qed
qed

lemma use_loop:
  assumes "list_all (uses ps) ls" and "distinct (map fst ps)"
    and "to_assume st = map fst (filter (earlier at) ps)" and "to_delete st = map fst (filter (dropped at props) ps)"
  shows "efold (manip_line at props) ls st = Inr (st\<lparr>mapped := mapped st @ concat (map (select_line at props ps) ls)\<rparr>)"
  using assms(1,3,4)
proof (induction ls arbitrary: st)
  case (Cons l ls)
  have one: "manip_line at props l st = Inr (st\<lparr>mapped := mapped st @ select_line at props ps l\<rparr>)"
  proof (cases "kind_of l")
    case (Assert_state i)
    then obtain p where p: "p \<in> set ps" "fst p = i"
      using Cons.prems(1) by (auto simp: uses_def)
    have same: "q = p" if "q \<in> set ps" "fst q = i" for q
      using assms(2) p that by (metis distinct_map inj_onD)
    have "(i \<in> set (map fst (filter P ps))) = P p" for P
      using p same by force
    then show ?thesis
      using Cons.prems Assert_state
      by (auto simp: manip_line_def select_line_def dropped_def selected_def earlier_def)
  qed (use Cons.prems in \<open>auto simp: manip_line_def select_line_def uses_def\<close>)
  then show ?case using Cons by simp
qed simp

text \<open>
  C33. In a file whose comments come first, the problem written for a step keeps the assertions of
  exactly the properties of that step that are asked for, and assumes exactly those of the
  earlier steps; cover properties and later steps are neither asserted nor assumed.
\<close>

theorem smt2manip_selects:
  assumes "list_all announces pre" and "list_all (uses (announced pre)) post" and "distinct (map fst (announced pre))"
    and "pre \<noteq> []" and "list_all (\<lambda>l. newline \<notin> set l) (pre @ post)"
  shows "\<exists>out. smt2manip at props (join [newline] (pre @ post)) =
    Inr (join [newline] (pre @ concat (map (select_line at props (announced pre)) post)), out)"
proof -
  let ?st = "\<lparr>mapped = [], to_assume = [], to_delete = [], printed = []\<rparr>"
  have "split_on newline (join [newline] (pre @ post)) = pre @ post"
    using assms(4,5) by (intro split_on_join) (auto simp: list_all_iff)
  moreover obtain out where out: "efold (manip_line at props) pre ?st = Inr (?st\<lparr>mapped := pre,
      to_assume := map fst (filter (earlier at) (announced pre)),
      to_delete := map fst (filter (dropped at props) (announced pre)), printed := out\<rparr>)"
    using announce_loop[OF assms(1), of at props ?st] by auto
  ultimately show ?thesis
    using use_loop[OF assms(2,3), of "?st\<lparr>mapped := pre,
      to_assume := map fst (filter (earlier at) (announced pre)),
      to_delete := map fst (filter (dropped at props) (announced pre)), printed := out\<rparr>" at props]
    by (simp add: smt2manip_def efold_append)
qed

text \<open>A file with a property of each of the steps 0 and 1, and a cover property.\<close>

definition demo_pre :: "string list" where
  "demo_pre = [''; yosys-smt2-assert 0 step..Step0_Pc$1'', ''; yosys-smt2-assert 1 step..Step1_Mem$2'',
     ''; yosys-smt2-assert 2 step..Step1_Mem_Cover$3'']"

definition demo_post :: "string list" where
  "demo_post = [''  (|top_a 0| state)'', ''  (|top_a 1| state)'', ''  (|top_a 2| state)'', TOP_U]"

lemma demo_announced:
  "announced demo_pre = [(''0'', 0, ''Pc''), (''1'', 1, ''Mem''), (''2'', 1, ''Mem_Cover'')]"
  by code_simp

lemma demo_announces: "list_all announces demo_pre"
  by code_simp

lemma demo_uses: "list_all (uses (announced demo_pre)) demo_post"
  by code_simp

lemma demo_selected:
  "concat (map (select_line 1 [] (announced demo_pre)) demo_post) =
     [''  (|top_a 1| state)'', TOP_U, ''  (|top_a 0| state)'']"
  by code_simp

theorem smt2manip_selects_witness:
  "\<exists>out. smt2manip 1 [] (join [newline] (demo_pre @ demo_post)) =
     Inr (join [newline] (demo_pre @ [''  (|top_a 1| state)'', TOP_U, ''  (|top_a 0| state)'']), out)"
proof -
  have lines: "list_all (\<lambda>l. newline \<notin> set l) (demo_pre @ demo_post)" by code_simp
  have names: "distinct (map fst (announced demo_pre))" by (simp add: demo_announced)
  have some: "demo_pre \<noteq> []" by (simp add: demo_pre_def)
  show ?thesis
    using smt2manip_selects[OF demo_announces demo_uses names some lines, of 1 "[]"] unfolding demo_selected .
qed

end
