(* ===== verification/ProofRunner.thy ===== *)
theory ProofRunner
  imports Complex_Main Prelude "HOL-Library.Multiset"
begin

text \<open>
  \<^verbatim>\<open>dv/formal/conductor.py\<close>, the management of processes: a process that is polled, killed and
  restarted, and the runner that starts processes while there are processors and memory and
  takes the latest back when memory runs short.  Memory is in GB and time in seconds.
\<close>

section \<open>Processes\<close>

datatype kill_mark = Kill | Restart

datatype reason = OK | TIMEOUT | UNINTERESTED

record process_result =
  res_code :: "int option"
  res_reason :: reason
  res_mem :: rat
  res_dt :: rat
  res_out :: "string option"
  res_err :: "string option"

datatype future = Waiting | Cancelled | Done process_result

text \<open>
  \<open>pid\<close> names the process; \<open>alive\<close> says that the system process runs, that is, it was started
  and neither seen to end nor killed since.
\<close>

record process =
  pid :: nat
  cmd :: string
  expected_memory :: rat
  expected_time :: rat
  timeout :: "rat option"
  kill_mark :: "kill_mark option"
  debug_slow_count :: int
  started :: bool
  alive :: bool
  future :: future
  max_memory :: rat
  start_time :: rat

definition new_process :: "nat \<Rightarrow> string \<Rightarrow> rat \<Rightarrow> rat \<Rightarrow> rat option \<Rightarrow> process" where
  "new_process n c mem time tmo =
     \<lparr>pid = n, cmd = c, expected_memory = mem, expected_time = time, timeout = tmo, kill_mark = None,
      debug_slow_count = 0, started = False, alive = False, future = Waiting, max_memory = 0,
      start_time = 0\<rparr>"

text \<open>What polling sees of the system process.\<close>

record observation =
  rss :: rat
  exit_code :: "int option"
  clock :: rat
  out_text :: string
  err_text :: string

definition start :: "rat \<Rightarrow> process \<Rightarrow> process" where
  "start now p = p\<lparr>started := True, alive := True, start_time := now, max_memory := 0, debug_slow_count := 0\<rparr>"

definition kill :: "process \<Rightarrow> process" where
  "kill p = p\<lparr>kill_mark := Some Kill\<rparr>"

definition kill_restart :: "process \<Rightarrow> process" where
  "kill_restart p = p\<lparr>kill_mark := Some Restart\<rparr>"

text \<open>\<open>ProcessFuture.cancel\<close>: the process is marked, and a future that waits is cancelled.\<close>

definition cancel :: "process \<Rightarrow> process" where
  "cancel p = (kill p)\<lparr>future := (case future p of Waiting \<Rightarrow> Cancelled | f \<Rightarrow> f)\<rparr>"

datatype runner_error = Assertion_error | Invalid_state

text \<open>\<open>if not self.future.cancelled(): self.future.set_result(...)\<close>\<close>

definition finish :: "int option \<Rightarrow> reason \<Rightarrow> observation \<Rightarrow> process \<Rightarrow> runner_error + process" where
  "finish c r ob p =
     (case future p of
        Cancelled \<Rightarrow> Inr p
      | Done _ \<Rightarrow> Inl Invalid_state
      | Waiting \<Rightarrow>
          Inr (p\<lparr>future := Done \<lparr>res_code = c, res_reason = r, res_mem = max_memory p,
                                res_dt = clock ob - start_time p, res_out = Some (out_text ob), res_err = Some (err_text ob)\<rparr>\<rparr>))"

definition poll :: "observation \<Rightarrow> process \<Rightarrow> runner_error + bool \<times> process" where
  "poll ob p0 =
     (if \<not> started p0 then Inl Assertion_error
      else
        let p = p0\<lparr>max_memory := max (rss ob) (max_memory p0)\<rparr>;
            d = clock ob - start_time p
        in if exit_code ob \<noteq> None \<and> kill_mark p = None
           then ebind (finish (exit_code ob) OK ob p) (\<lambda>q. Inr (True, q\<lparr>alive := False\<rparr>))
           else if kill_mark p = Some Restart
           then Inr (True, p\<lparr>alive := False, kill_mark := None,
                      expected_memory := max (expected_memory p) (max_memory p),
                      expected_time := max (expected_time p) d\<rparr>)
           else if (case timeout p of None \<Rightarrow> False | Some t \<Rightarrow> t < d)
           then ebind (finish None TIMEOUT ob p) (\<lambda>q. Inr (True, q\<lparr>alive := False\<rparr>))
           else if kill_mark p = Some Kill
           then ebind (finish None UNINTERESTED ob p) (\<lambda>q. Inr (True, q\<lparr>alive := False\<rparr>))
           else Inr (False, if debug_slow_count p < \<lfloor>d / 60\<rfloor> then p\<lparr>debug_slow_count := \<lfloor>d / 60\<rfloor>\<rparr> else p))"

section \<open>The runner\<close>

definition GLOBAL_MEMORY_BUFFER :: rat where "GLOBAL_MEMORY_BUFFER = 5"

definition MAX_RUNNING :: "nat option \<Rightarrow> int" where
  "MAX_RUNNING cpu_count =
     (case cpu_count of None \<Rightarrow> 8 | Some n \<Rightarrow> if n = 0 then 8 else int n) - 2"

record settings =
  cpus :: "nat option"
  arg_max_mem :: rat
  no_kill :: bool

record runner =
  pending :: "process list"
  running :: "process list"
  first_start :: rat
  debug_count :: int

definition new_runner :: "rat \<Rightarrow> runner" where
  "new_runner now = \<lparr>pending = [], running = [], first_start = now, debug_count = 0\<rparr>"

definition append_process :: "process \<Rightarrow> runner \<Rightarrow> runner" where
  "append_process p s = s\<lparr>pending := p # pending s\<rparr>"

definition children_used_mem :: "runner \<Rightarrow> rat" where
  "children_used_mem s = sum_list (map max_memory (running s))"

definition mem_avail :: "settings \<Rightarrow> rat \<Rightarrow> runner \<Rightarrow> rat" where
  "mem_avail cfg global_free s =
     (if arg_max_mem cfg = 0 then global_free
      else min global_free (max (arg_max_mem cfg - children_used_mem s) 0))"

text \<open>
  One cycle sees the free memory, each process once when it is taken back and once when the
  processes that ended are dropped, and the clock.
\<close>

record cycle =
  global_free :: rat
  shed_obs :: "nat \<Rightarrow> observation"
  drop_obs :: "nat \<Rightarrow> observation"
  start_clock :: "nat \<Rightarrow> rat"
  now :: rat

text \<open>Processes are taken back, the latest first, while memory is short and more than one runs.\<close>

function shed :: "settings \<Rightarrow> (nat \<Rightarrow> observation) \<Rightarrow> rat \<Rightarrow> process list \<Rightarrow> process list \<Rightarrow>
    runner_error + rat \<times> process list \<times> process list" where
  "shed cfg obs free run pend =
     (if \<not> no_kill cfg \<and> free < GLOBAL_MEMORY_BUFFER \<and> 1 < length run
      then
        let p = kill_restart (last run)
        in ebind (poll (obs (pid p)) p) (\<lambda>(_, p').
             shed cfg obs (free + max (max_memory p) 3) (butlast run) (pend @ [p']))
      else Inr (free, run, pend))"
  by pat_completeness auto
termination
  by (relation "measure (\<lambda>(_, _, _, run, _). length run)") auto

declare shed.simps [simp del]

text \<open>Processes are started, the last pending first, while there are processors and memory.\<close>

function launch :: "settings \<Rightarrow> (nat \<Rightarrow> rat) \<Rightarrow> rat \<Rightarrow> process list \<Rightarrow> process list \<Rightarrow>
    process list \<times> process list" where
  "launch cfg clk free run pend =
     (if int (length run) < MAX_RUNNING (cpus cfg) \<and> pend \<noteq> [] \<and>
         expected_memory (last pend) + GLOBAL_MEMORY_BUFFER < free
      then
        let p = start (clk (pid (last pend))) (last pend)
        in launch cfg clk (free - max (expected_memory p) 3) (run @ [p]) (butlast pend)
      else (run, pend))"
  by pat_completeness auto
termination
  by (relation "measure (\<lambda>(_, _, _, _, pend). length pend)") auto

declare launch.simps [simp del]

text \<open>The processes that go on and those that ended.\<close>

fun drop_finished :: "(nat \<Rightarrow> observation) \<Rightarrow> process list \<Rightarrow> runner_error + process list \<times> process list" where
  "drop_finished obs [] = Inr ([], [])"
| "drop_finished obs (p # ps) =
     ebind (poll (obs (pid p)) p) (\<lambda>(ended, p').
     ebind (drop_finished obs ps) (\<lambda>(kept, dropped).
       Inr (if ended then (kept, p' # dropped) else (p' # kept, dropped))))"

definition runner_poll :: "settings \<Rightarrow> cycle \<Rightarrow> runner \<Rightarrow> runner_error + runner \<times> process list" where
  "runner_poll cfg c s =
     ebind (shed cfg (shed_obs c) (mem_avail cfg (global_free c) s) (running s) (pending s))
       (\<lambda>(free, run, pend).
        case launch cfg (start_clock c) free run pend of (run', pend') \<Rightarrow>
          ebind (drop_finished (drop_obs c) run') (\<lambda>(kept, dropped).
            let first = (if first_start s = 0 \<and> length pend' < length pend then now c else first_start s);
                n = \<lfloor>(now c - first) / 30\<rfloor>
            in Inr (s\<lparr>pending := pend', running := kept, first_start := first,
                      debug_count := max n (debug_count s)\<rparr>,
                    dropped)))"

section \<open>Processes, lemmas\<close>

text \<open>A process among the running, among the pending, and one that has ended.\<close>

definition runnable :: "process \<Rightarrow> bool" where
  "runnable p \<longleftrightarrow> started p \<and> alive p \<and> kill_mark p \<noteq> Some Restart \<and> (\<forall>r. future p \<noteq> Done r)"

definition waiting_ok :: "process \<Rightarrow> bool" where
  "waiting_ok p \<longleftrightarrow> \<not> alive p \<and> kill_mark p \<noteq> Some Restart \<and> (\<forall>r. future p \<noteq> Done r)"

definition ended :: "process \<Rightarrow> bool" where
  "ended p \<longleftrightarrow> \<not> alive p \<and> future p \<noteq> Waiting"

lemmas process_states = runnable_def waiting_ok_def ended_def

lemma finish_result:
  "(\<forall>r. future p \<noteq> Done r) \<Longrightarrow> \<exists>q. finish c r ob p = Inr q \<and> pid q = pid p \<and> future q \<noteq> Waiting"
  by (cases "future p") (auto simp: finish_def)

lemma kill_mark_cases: "k = None \<or> k = Some Kill \<or> k = Some Restart"
  by (cases k) (use kill_mark.exhaust in auto)

lemma poll_result:
  assumes "runnable p"
  shows "\<exists>b q. poll ob p = Inr (b, q) \<and> pid q = pid p \<and> (if b then ended q else runnable q)"
proof -
  let ?p = "p\<lparr>max_memory := max (rss ob) (max_memory p)\<rparr>"
  have f: "\<exists>q. finish c r ob ?p = Inr q \<and> pid q = pid p \<and> future q \<noteq> Waiting" for c r
    using finish_result[of ?p c r ob] assms by (simp add: runnable_def)
  obtain q1 q2 q3 where q: "finish (exit_code ob) OK ob ?p = Inr q1" "pid q1 = pid p" "future q1 \<noteq> Waiting"
      "finish None TIMEOUT ob ?p = Inr q2" "pid q2 = pid p" "future q2 \<noteq> Waiting"
      "finish None UNINTERESTED ob ?p = Inr q3" "pid q3 = pid p" "future q3 \<noteq> Waiting"
    using f by metis
  show ?thesis
    using assms q kill_mark_cases[of "kill_mark p"]
    by (auto simp: poll_def Let_def process_states)
qed

lemma poll_restart:
  assumes "runnable p"
  shows "\<exists>q. poll ob (kill_restart p) = Inr (True, q) \<and> pid q = pid p \<and> waiting_ok q"
  using assms by (simp add: poll_def kill_restart_def Let_def process_states)

lemma start_runnable: "waiting_ok p \<Longrightarrow> runnable (start t p) \<and> pid (start t p) = pid p"
  by (simp add: start_def process_states)

lemma cancel_states:
  "pid (cancel p) = pid p" "runnable p \<Longrightarrow> runnable (cancel p)" "waiting_ok p \<Longrightarrow> waiting_ok (cancel p)"
  "ended p \<Longrightarrow> ended (cancel p)"
  by (auto simp: cancel_def kill_def process_states split: future.splits)

section \<open>The runner, lemmas\<close>

definition pids :: "process list \<Rightarrow> nat multiset" where
  "pids ps = mset (map pid ps)"

lemma pids_simps [simp]:
  "pids [] = {#}" "pids (p # ps) = add_mset (pid p) (pids ps)" "pids (ps @ qs) = pids ps + pids qs"
  by (simp_all add: pids_def)

lemma snoc_exhaust: "ps \<noteq> [] \<Longrightarrow> \<exists>qs q. ps = qs @ [q]"
  by (metis append_butlast_last_id)

lemma shed_result:
  assumes "list_all runnable run" "list_all waiting_ok pend"
  shows "\<exists>free' run' pend'. shed cfg obs free run pend = Inr (free', run', pend') \<and>
    list_all runnable run' \<and> list_all waiting_ok pend' \<and>
    pids run' + pids pend' = pids run + pids pend \<and> length run' \<le> length run"
  using assms
proof (induction cfg obs free run pend rule: shed.induct)
  case (1 cfg obs free run pend)
  show ?case
  proof (cases "\<not> no_kill cfg \<and> free < GLOBAL_MEMORY_BUFFER \<and> 1 < length run")
    case True
    then obtain qs q where run: "run = qs @ [q]" using snoc_exhaust[of run] by fastforce
    then have ok: "list_all runnable qs" "runnable q" using "1.prems" by auto
    obtain q' where q': "poll (obs (pid q)) (kill_restart q) = Inr (True, q')" "pid q' = pid q" "waiting_ok q'"
      using poll_restart[OF ok(2)] by blast
    have kp: "pid (kill_restart q) = pid q" "max_memory (kill_restart q) = max_memory q"
      by (simp_all add: kill_restart_def)
    have IH: "\<exists>free' run' pend'. shed cfg obs (free + max (max_memory q) 3) qs (pend @ [q']) = Inr (free', run', pend') \<and>
        list_all runnable run' \<and> list_all waiting_ok pend' \<and>
        pids run' + pids pend' = pids qs + pids (pend @ [q']) \<and> length run' \<le> length qs"
      using "1.IH"[OF True, of "kill_restart (last run)" "(True, q')" True q'] ok q' "1.prems"(2) run kp by simp
    have "shed cfg obs free run pend = shed cfg obs (free + max (max_memory q) 3) qs (pend @ [q'])"
      using True run q' kp by (subst shed.simps) (simp add: Let_def)
    then show ?thesis using IH q'(2) run by force
  next
    case False
    then show ?thesis using "1.prems" by (subst shed.simps) auto
  qed
qed

lemma launch_result:
  assumes "list_all runnable run" "list_all waiting_ok pend"
  shows "\<exists>run' pend'. launch cfg clk free run pend = (run', pend') \<and>
    list_all runnable run' \<and> list_all waiting_ok pend' \<and> pids run' + pids pend' = pids run + pids pend \<and>
    int (length run') \<le> max (int (length run)) (MAX_RUNNING (cpus cfg))"
  using assms
proof (induction cfg clk free run pend rule: launch.induct)
  case (1 cfg clk free run pend)
  let ?go = "int (length run) < MAX_RUNNING (cpus cfg) \<and> pend \<noteq> [] \<and>
      expected_memory (last pend) + GLOBAL_MEMORY_BUFFER < free"
  show ?case
  proof (cases ?go)
    case True
    then obtain qs q where pend: "pend = qs @ [q]" using snoc_exhaust[of pend] by blast
    let ?q = "start (clk (pid q)) q"
    have q: "runnable ?q" "pid ?q = pid q" using start_runnable "1.prems"(2) pend by auto
    have "launch cfg clk free run pend = launch cfg clk (free - max (expected_memory ?q) 3) (run @ [?q]) qs"
      using True pend by (subst launch.simps) (simp add: Let_def)
    moreover have "\<exists>run' pend'. launch cfg clk (free - max (expected_memory ?q) 3) (run @ [?q]) qs = (run', pend') \<and>
        list_all runnable run' \<and> list_all waiting_ok pend' \<and> pids run' + pids pend' = pids (run @ [?q]) + pids qs \<and>
        int (length run') \<le> max (int (length (run @ [?q]))) (MAX_RUNNING (cpus cfg))"
      using "1.IH"[OF True, of ?q] "1.prems" q pend by simp
    ultimately show ?thesis using pend q(2) True by (auto simp: max_def)
  next
    case False
    then have "launch cfg clk free run pend = (run, pend)" by (subst launch.simps) (rule if_not_P)
    then show ?thesis using "1.prems" by simp
  qed
qed

lemma drop_result:
  assumes "list_all runnable run"
  shows "\<exists>kept dropped. drop_finished obs run = Inr (kept, dropped) \<and> list_all runnable kept \<and>
    list_all ended dropped \<and> pids kept + pids dropped = pids run \<and> length kept \<le> length run"
  using assms
proof (induction run)
  case (Cons p ps)
  obtain b q where q: "poll (obs (pid p)) p = Inr (b, q)" "pid q = pid p" "if b then ended q else runnable q"
    using poll_result[of p "obs (pid p)"] Cons.prems by auto
  obtain kept dropped where "drop_finished obs ps = Inr (kept, dropped)" "list_all runnable kept"
      "list_all ended dropped" "pids kept + pids dropped = pids ps" "length kept \<le> length ps"
    using Cons by auto
  then show ?case using q by (cases b) auto
qed simp

lemma runner_poll_result:
  assumes "list_all runnable (running s)" "list_all waiting_ok (pending s)"
  shows "\<exists>s' dropped. runner_poll cfg c s = Inr (s', dropped) \<and>
    list_all runnable (running s') \<and> list_all waiting_ok (pending s') \<and> list_all ended dropped \<and>
    pids (running s') + pids (pending s') + pids dropped = pids (running s) + pids (pending s) \<and>
    int (length (running s')) \<le> max (int (length (running s))) (MAX_RUNNING (cpus cfg))"
proof -
  obtain free run1 pend1 where 1: "shed cfg (shed_obs c) (mem_avail cfg (global_free c) s) (running s) (pending s) =
        Inr (free, run1, pend1)" "list_all runnable run1" "list_all waiting_ok pend1"
      "pids run1 + pids pend1 = pids (running s) + pids (pending s)" "length run1 \<le> length (running s)"
    using shed_result[OF assms] by blast
  obtain run2 pend2 where 2: "launch cfg (start_clock c) free run1 pend1 = (run2, pend2)"
      "list_all runnable run2" "list_all waiting_ok pend2" "pids run2 + pids pend2 = pids run1 + pids pend1"
      "int (length run2) \<le> max (int (length run1)) (MAX_RUNNING (cpus cfg))"
    using launch_result[OF 1(2,3)] by blast
  obtain kept dropped where 3: "drop_finished (drop_obs c) run2 = Inr (kept, dropped)" "list_all runnable kept"
      "list_all ended dropped" "pids kept + pids dropped = pids run2" "length kept \<le> length run2"
    using drop_result[OF 2(2)] by blast
  have "pids kept + pids pend2 + pids dropped = pids (running s) + pids (pending s)"
    using 1(4) 2(4) 3(4) by (metis add.assoc add.commute)
  then show ?thesis
    using 1(1,5) 2(1,3,5) 3 by (simp add: runner_poll_def Let_def)
qed

section \<open>The runner in use\<close>

text \<open>
  The processes that were handed to the runner, by number, and the ones that ended.  Between
  the cycles processes are added and, when a race is decided, cancelled wherever they are.
\<close>

definition cancel_if :: "nat \<Rightarrow> process \<Rightarrow> process" where
  "cancel_if n p = (if pid p = n then cancel p else p)"

definition cancel_in :: "nat \<Rightarrow> runner \<Rightarrow> runner" where
  "cancel_in n s = s\<lparr>pending := map (cancel_if n) (pending s), running := map (cancel_if n) (running s)\<rparr>"

inductive reach :: "settings \<Rightarrow> runner \<Rightarrow> process list \<Rightarrow> nat list \<Rightarrow> bool" for cfg where
  create: "reach cfg (new_runner t) [] []"
| submit: "reach cfg s ended_ps ids \<Longrightarrow> n \<notin> set ids \<Longrightarrow>
    reach cfg (append_process (new_process n c mem time tmo) s) ended_ps (n # ids)"
| cancelled: "reach cfg s ended_ps ids \<Longrightarrow> reach cfg (cancel_in n s) (map (cancel_if n) ended_ps) ids"
| cycle: "reach cfg s ended_ps ids \<Longrightarrow> runner_poll cfg c s = Inr (s', dropped) \<Longrightarrow>
    reach cfg s' (ended_ps @ dropped) ids"

definition runner_inv :: "settings \<Rightarrow> runner \<Rightarrow> process list \<Rightarrow> nat list \<Rightarrow> bool" where
  "runner_inv cfg s ended_ps ids \<longleftrightarrow>
     list_all runnable (running s) \<and> list_all waiting_ok (pending s) \<and> list_all ended ended_ps \<and>
     int (length (running s)) \<le> max 0 (MAX_RUNNING (cpus cfg)) \<and>
     pids (running s) + pids (pending s) + pids ended_ps = mset ids \<and> distinct ids"

lemma cancel_if_map:
  "list_all runnable ps \<Longrightarrow> list_all runnable (map (cancel_if n) ps)"
  "list_all waiting_ok ps \<Longrightarrow> list_all waiting_ok (map (cancel_if n) ps)"
  "list_all ended ps \<Longrightarrow> list_all ended (map (cancel_if n) ps)"
  "pids (map (cancel_if n) ps) = pids ps"
proof -
  have "pid (cancel_if n p) = pid p" for p by (simp add: cancel_if_def cancel_states)
  then show "pids (map (cancel_if n) ps) = pids ps" by (simp add: pids_def comp_def)
qed (auto simp: list_all_iff cancel_if_def cancel_states)

lemma submit_inv:
  assumes "runner_inv cfg s ended_ps ids" and "n \<notin> set ids"
  shows "runner_inv cfg (append_process (new_process n c mem time tmo) s) ended_ps (n # ids)"
  using assms by (simp add: runner_inv_def append_process_def new_process_def waiting_ok_def)

lemma cycle_inv:
  assumes "runner_inv cfg s ended_ps ids" and "runner_poll cfg c s = Inr (s', dropped)"
  shows "runner_inv cfg s' (ended_ps @ dropped) ids"
proof -
  have inv: "list_all runnable (running s)" "list_all waiting_ok (pending s)" "list_all ended ended_ps"
      "int (length (running s)) \<le> max 0 (MAX_RUNNING (cpus cfg))"
      "pids (running s) + pids (pending s) + pids ended_ps = mset ids" "distinct ids"
    using assms(1) by (simp_all add: runner_inv_def)
  have r: "list_all runnable (running s')" "list_all waiting_ok (pending s')" "list_all ended dropped"
      "pids (running s') + pids (pending s') + pids dropped = pids (running s) + pids (pending s)"
      "int (length (running s')) \<le> max (int (length (running s))) (MAX_RUNNING (cpus cfg))"
    using runner_poll_result[OF inv(1,2), of cfg c] assms(2) by auto
  have "pids (running s') + pids (pending s') + pids (ended_ps @ dropped) =
      (pids (running s') + pids (pending s') + pids dropped) + pids ended_ps"
    by (simp add: ac_simps)
  also have "\<dots> = mset ids" unfolding r(4) by (rule inv(5))
  finally show ?thesis using inv r by (auto simp: runner_inv_def)
qed

lemma reach_inv: "reach cfg s ended_ps ids \<Longrightarrow> runner_inv cfg s ended_ps ids"
proof (induction rule: reach.induct)
  case (create t)
  then show ?case by (simp add: runner_inv_def new_runner_def)
next
  case (submit s ended_ps ids n c mem time tmo)
  then show ?case using submit_inv by blast
next
  case (cancelled s ended_ps ids n)
  then show ?case by (simp add: runner_inv_def cancel_in_def cancel_if_map)
next
  case (cycle s ended_ps ids c s' dropped)
  then show ?case using cycle_inv by blast
qed

text \<open>
  C2. Whatever is submitted, cancelled and observed: no process is lost or doubled, each is in
  exactly one of the pending, the running and the ended; exactly the running ones have a system
  process, never more of them than processors are used; and the future of a process is decided
  when it ended and not before.
\<close>

theorem runner_conserves:
  assumes "reach cfg s ended_ps ids"
  shows "mset (map pid (pending s @ running s @ ended_ps)) = mset ids \<and>
    distinct (map pid (pending s @ running s @ ended_ps)) \<and>
    list_all alive (running s) \<and> list_all (\<lambda>p. \<not> alive p) (pending s @ ended_ps) \<and>
    int (length (running s)) \<le> max 0 (MAX_RUNNING (cpus cfg)) \<and>
    list_all (\<lambda>p. future p \<noteq> Waiting) ended_ps \<and>
    list_all (\<lambda>p. \<forall>r. future p \<noteq> Done r) (pending s @ running s)"
proof -
  have inv: "runner_inv cfg s ended_ps ids" by (rule reach_inv[OF assms])
  then have m: "mset (map pid (pending s @ running s @ ended_ps)) = mset ids"
    by (simp add: runner_inv_def pids_def ac_simps)
  moreover have "distinct (map pid (pending s @ running s @ ended_ps))"
    using m inv mset_eq_imp_distinct_iff[OF m] by (simp add: runner_inv_def)
  ultimately show ?thesis using inv by (auto simp: runner_inv_def list_all_iff process_states)
qed

definition demo_settings :: settings where
  "demo_settings = \<lparr>cpus = Some 4, arg_max_mem = 0, no_kill = False\<rparr>"

definition demo_obs :: "int option \<Rightarrow> rat \<Rightarrow> rat \<Rightarrow> observation" where
  "demo_obs code mem t = \<lparr>rss = mem, exit_code = code, clock = t, out_text = [], err_text = []\<rparr>"

definition demo_cycle :: "rat \<Rightarrow> (nat \<Rightarrow> int option) \<Rightarrow> rat \<Rightarrow> cycle" where
  "demo_cycle free codes t =
     \<lparr>global_free = free, shed_obs = (\<lambda>n. demo_obs (codes n) 1 t), drop_obs = (\<lambda>n. demo_obs (codes n) 1 t),
      start_clock = (\<lambda>n. t), now = t\<rparr>"

definition demo_two :: runner where
  "demo_two = append_process (new_process 2 ''b'' 0 0 None) (append_process (new_process 1 ''a'' 0 0 None) (new_runner 0))"

lemma demo_two_reach: "reach demo_settings demo_two [] [2, 1]"
  unfolding demo_two_def by (intro reach.intros) simp_all

lemma runner_conserves_witness:
  "mset (map pid (pending demo_two @ running demo_two @ ([] :: process list))) = mset [2, 1] \<and>
    distinct (map pid (pending demo_two @ running demo_two @ ([] :: process list))) \<and>
    list_all alive (running demo_two) \<and> list_all (\<lambda>p. \<not> alive p) (pending demo_two @ ([] :: process list)) \<and>
    int (length (running demo_two)) \<le> max 0 (MAX_RUNNING (cpus demo_settings)) \<and>
    list_all (\<lambda>p. future p \<noteq> Waiting) ([] :: process list) \<and>
    list_all (\<lambda>p. \<forall>r. future p \<noteq> Done r) (pending demo_two @ running demo_two)"
  by (rule runner_conserves[OF demo_two_reach])

text \<open>
  C21. No cycle ever fails: a process that was not started is not polled and no future is decided
  twice, whatever was submitted, cancelled and observed before.
\<close>

theorem runner_never_fails:
  assumes "reach cfg s ended_ps ids"
  shows "\<exists>s' dropped. runner_poll cfg c s = Inr (s', dropped) \<and> reach cfg s' (ended_ps @ dropped) ids"
proof -
  have "list_all runnable (running s)" "list_all waiting_ok (pending s)"
    using reach_inv[OF assms] by (simp_all add: runner_inv_def)
  then obtain s' dropped where "runner_poll cfg c s = Inr (s', dropped)"
    using runner_poll_result by blast
  then show ?thesis using reach.cycle[OF assms] by blast
qed

lemma runner_never_fails_witness:
  "\<exists>s' dropped. runner_poll demo_settings (demo_cycle 16 (\<lambda>n. Some 20) 1) demo_two = Inr (s', dropped) \<and>
     reach demo_settings s' ([] @ dropped) [2, 1]"
  by (rule runner_never_fails[OF demo_two_reach])

section \<open>The abstract pool of jobs\<close>

text \<open>
  What the runner is for: a pool of jobs that wait, run and are done, of which at most a given
  number runs at a time; jobs are started, put back and finished one at a time.
\<close>

record job_pool =
  waiting_jobs :: "nat multiset"
  running_jobs :: "nat multiset"
  done_jobs :: "nat multiset"

inductive pool_step :: "int \<Rightarrow> job_pool \<Rightarrow> job_pool \<Rightarrow> bool" for limit where
  begin_job: "n \<in># waiting_jobs s \<Longrightarrow> int (size (running_jobs s)) < limit \<Longrightarrow>
    pool_step limit s (s\<lparr>waiting_jobs := waiting_jobs s - {#n#}, running_jobs := add_mset n (running_jobs s)\<rparr>)"
| put_back: "n \<in># running_jobs s \<Longrightarrow>
    pool_step limit s (s\<lparr>waiting_jobs := add_mset n (waiting_jobs s), running_jobs := running_jobs s - {#n#}\<rparr>)"
| end_job: "n \<in># running_jobs s \<Longrightarrow>
    pool_step limit s (s\<lparr>running_jobs := running_jobs s - {#n#}, done_jobs := add_mset n (done_jobs s)\<rparr>)"

definition pool :: "nat multiset \<Rightarrow> nat multiset \<Rightarrow> nat multiset \<Rightarrow> job_pool" where
  "pool w r d = \<lparr>waiting_jobs = w, running_jobs = r, done_jobs = d\<rparr>"

definition abs_runner :: "runner \<Rightarrow> process list \<Rightarrow> job_pool" where
  "abs_runner s ended_ps = pool (pids (pending s)) (pids (running s)) (pids ended_ps)"

lemma pool_begin: "int (size r) < limit \<Longrightarrow> pool_step limit (pool (add_mset n w) r d) (pool w (add_mset n r) d)"
  using pool_step.begin_job[of n "pool (add_mset n w) r d" limit] by (simp add: pool_def)

lemma pool_back: "pool_step limit (pool w (add_mset n r) d) (pool (add_mset n w) r d)"
  using pool_step.put_back[of n "pool w (add_mset n r) d" limit] by (simp add: pool_def)

lemma pool_end: "pool_step limit (pool w (add_mset n r) d) (pool w r (add_mset n d))"
  using pool_step.end_job[of n "pool w (add_mset n r) d" limit] by (simp add: pool_def)

lemma size_pids [simp]: "size (pids ps) = length ps"
  by (simp add: pids_def)

lemma shed_pool:
  assumes "shed cfg obs free run pend = Inr (free', run', pend')" "list_all runnable run"
  shows "(pool_step limit)\<^sup>*\<^sup>* (pool (pids pend) (pids run) d) (pool (pids pend') (pids run') d)"
  using assms
proof (induction cfg obs free run pend rule: shed.induct)
  case (1 cfg obs free run pend)
  show ?case
  proof (cases "\<not> no_kill cfg \<and> free < GLOBAL_MEMORY_BUFFER \<and> 1 < length run")
    case True
    then obtain qs q where run: "run = qs @ [q]" using snoc_exhaust[of run] by fastforce
    then have ok: "list_all runnable qs" "runnable q" using "1.prems" by auto
    obtain q' where q': "poll (obs (pid q)) (kill_restart q) = Inr (True, q')" "pid q' = pid q" "waiting_ok q'"
      using poll_restart[OF ok(2)] by blast
    have kp: "pid (kill_restart q) = pid q" "max_memory (kill_restart q) = max_memory q"
      by (simp_all add: kill_restart_def)
    have s: "shed cfg obs (free + max (max_memory q) 3) qs (pend @ [q']) = Inr (free', run', pend')"
      using "1.prems"(1) True run q' kp by (subst (asm) shed.simps) (simp add: Let_def)
    have "(pool_step limit)\<^sup>*\<^sup>* (pool (pids (pend @ [q'])) (pids qs) d) (pool (pids pend') (pids run') d)"
      using "1.IH"[OF True, of "kill_restart (last run)" "(True, q')" True q'] s ok q' run kp by simp
    moreover have "pool_step limit (pool (pids pend) (pids run) d) (pool (pids (pend @ [q'])) (pids qs) d)"
      using pool_back[of limit "pids pend" "pid q" "pids qs" d] q'(2) run by simp
    ultimately show ?thesis by (rule converse_rtranclp_into_rtranclp[rotated])
  next
    case False
    then have "shed cfg obs free run pend = Inr (free, run, pend)" by (subst shed.simps) (rule if_not_P)
    then show ?thesis using "1.prems" by simp
  qed
qed

lemma launch_pool:
  assumes "launch cfg clk free run pend = (run', pend')"
  shows "(pool_step (MAX_RUNNING (cpus cfg)))\<^sup>*\<^sup>* (pool (pids pend) (pids run) d) (pool (pids pend') (pids run') d)"
  using assms
proof (induction cfg clk free run pend rule: launch.induct)
  case (1 cfg clk free run pend)
  let ?go = "int (length run) < MAX_RUNNING (cpus cfg) \<and> pend \<noteq> [] \<and>
      expected_memory (last pend) + GLOBAL_MEMORY_BUFFER < free"
  let ?N = "MAX_RUNNING (cpus cfg)"
  show ?case
  proof (cases ?go)
    case True
    then obtain qs q where pend: "pend = qs @ [q]" using snoc_exhaust[of pend] by blast
    let ?q = "start (clk (pid q)) q"
    have pid: "pid ?q = pid q" by (simp add: start_def)
    have "launch cfg clk (free - max (expected_memory ?q) 3) (run @ [?q]) qs = (run', pend')"
      using "1.prems" True pend by (subst (asm) launch.simps) (simp add: Let_def)
    then have "(pool_step ?N)\<^sup>*\<^sup>* (pool (pids qs) (pids (run @ [?q])) d) (pool (pids pend') (pids run') d)"
      using "1.IH"[OF True, of ?q] pend by simp
    moreover have "pool_step ?N (pool (pids pend) (pids run) d) (pool (pids qs) (pids (run @ [?q])) d)"
      using pool_begin[of "pids run" ?N "pid q" "pids qs" d] True pid pend by simp
    ultimately show ?thesis by (rule converse_rtranclp_into_rtranclp[rotated])
  next
    case False
    then have "launch cfg clk free run pend = (run, pend)" by (subst launch.simps) (rule if_not_P)
    then show ?thesis using "1.prems" by simp
  qed
qed

lemma drop_pool:
  assumes "drop_finished obs run = Inr (kept, dropped)" "list_all runnable run"
  shows "(pool_step limit)\<^sup>*\<^sup>* (pool w (pids run + x) d) (pool w (pids kept + x) (pids dropped + d))"
  using assms
proof (induction run arbitrary: kept dropped x d)
  case (Cons p ps)
  obtain b q where q: "poll (obs (pid p)) p = Inr (b, q)" "pid q = pid p"
    using poll_result[of p "obs (pid p)"] Cons.prems by auto
  then obtain kept1 dropped1 where r: "drop_finished obs ps = Inr (kept1, dropped1)"
      "kept = (if b then kept1 else q # kept1)" "dropped = (if b then q # dropped1 else dropped1)"
    using Cons.prems(1) by (auto simp: raise_simps split: if_splits)
  have ok: "list_all runnable ps" using Cons.prems(2) by simp
  show ?case
  proof (cases b)
    case True
    have "pool_step limit (pool w (pids (p # ps) + x) d) (pool w (pids ps + x) (add_mset (pid p) d))"
      using pool_end[of limit w "pid p" "pids ps + x" d] by simp
    moreover have "(pool_step limit)\<^sup>*\<^sup>* (pool w (pids ps + x) (add_mset (pid p) d))
        (pool w (pids kept1 + x) (pids dropped1 + add_mset (pid p) d))"
      by (rule Cons.IH[OF r(1) ok])
    ultimately show ?thesis
      using r True q(2) by (simp add: converse_rtranclp_into_rtranclp)
  next
    case False
    have "(pool_step limit)\<^sup>*\<^sup>* (pool w (pids ps + add_mset (pid p) x) d)
        (pool w (pids kept1 + add_mset (pid p) x) (pids dropped1 + d))"
      by (rule Cons.IH[OF r(1) ok])
    then show ?thesis using r False q(2) by simp
  qed
qed simp

text \<open>
  C3. The runner refines the pool: every cycle of a reachable runner is a sequence of steps of
  the pool, at no point with more jobs running than it allows.
\<close>

theorem cycle_refines_pool:
  assumes "reach cfg s ended_ps ids" and "runner_poll cfg c s = Inr (s', dropped)"
  shows "(pool_step (MAX_RUNNING (cpus cfg)))\<^sup>*\<^sup>* (abs_runner s ended_ps) (abs_runner s' (ended_ps @ dropped))"
proof -
  let ?N = "MAX_RUNNING (cpus cfg)"
  have ok: "list_all runnable (running s)" "list_all waiting_ok (pending s)"
    using reach_inv[OF assms(1)] by (simp_all add: runner_inv_def)
  obtain free run1 pend1 where r1:
      "shed cfg (shed_obs c) (mem_avail cfg (global_free c) s) (running s) (pending s) = Inr (free, run1, pend1)"
    using shed_result[OF ok] by blast
  obtain run2 pend2 where r2: "launch cfg (start_clock c) free run1 pend1 = (run2, pend2)"
    by (rule prod.exhaust)
  obtain kept where r: "drop_finished (drop_obs c) run2 = Inr (kept, dropped)" "pending s' = pend2" "running s' = kept"
    using assms(2) r1 r2 by (auto simp: runner_poll_def raise_simps Let_def)
  have ok1: "list_all runnable run1" "list_all waiting_ok pend1"
    using shed_result[OF ok] r1 by (metis sum.inject(2) prod.inject)+
  then have ok2: "list_all runnable run2"
    using launch_result[OF ok1] r2 by (metis prod.inject)
  have "(pool_step ?N)\<^sup>*\<^sup>* (abs_runner s ended_ps) (pool (pids pend1) (pids run1) (pids ended_ps))"
    using shed_pool[OF r1 ok(1)] by (simp add: abs_runner_def)
  also have "(pool_step ?N)\<^sup>*\<^sup>* \<dots> (pool (pids pend2) (pids run2) (pids ended_ps))"
    by (rule launch_pool[OF r2])
  also have "(pool_step ?N)\<^sup>*\<^sup>* \<dots> (abs_runner s' (ended_ps @ dropped))"
    using drop_pool[OF r(1) ok2, of ?N "pids pend2" "{#}" "pids ended_ps"] r(2,3)
    by (simp add: abs_runner_def add.commute)
  finally show ?thesis .
qed

lemma cycle_refines_pool_witness:
  "\<exists>s' dropped. runner_poll demo_settings (demo_cycle 16 (\<lambda>n. Some 20) 1) demo_two = Inr (s', dropped) \<and>
    (pool_step (MAX_RUNNING (cpus demo_settings)))\<^sup>*\<^sup>* (abs_runner demo_two []) (abs_runner s' ([] @ dropped))"
proof -
  have "list_all runnable (running demo_two)" "list_all waiting_ok (pending demo_two)"
    using reach_inv[OF demo_two_reach] by (simp_all add: runner_inv_def)
  then obtain s' dropped where
      "runner_poll demo_settings (demo_cycle 16 (\<lambda>n. Some 20) 1) demo_two = Inr (s', dropped)"
    using runner_poll_result by blast
  with cycle_refines_pool[OF demo_two_reach this] show ?thesis by blast
qed

section \<open>Progress\<close>

lemma launch_extends: "\<exists>new. fst (launch cfg clk free run pend) = run @ new"
proof (induction cfg clk free run pend rule: launch.induct)
  case (1 cfg clk free run pend)
  let ?go = "int (length run) < MAX_RUNNING (cpus cfg) \<and> pend \<noteq> [] \<and>
      expected_memory (last pend) + GLOBAL_MEMORY_BUFFER < free"
  show ?case
  proof (cases ?go)
    case True
    let ?q = "start (clk (pid (last pend))) (last pend)"
    obtain new where "fst (launch cfg clk (free - max (expected_memory ?q) 3) (run @ [?q]) (butlast pend)) =
        (run @ [?q]) @ new"
      using "1.IH"[OF True, of ?q] by blast
    moreover have "launch cfg clk free run pend =
        launch cfg clk (free - max (expected_memory ?q) 3) (run @ [?q]) (butlast pend)"
      using True by (subst launch.simps) (simp add: Let_def)
    ultimately show ?thesis by simp
  next
    case False
    then have "launch cfg clk free run pend = (run, pend)" by (subst launch.simps) (rule if_not_P)
    then show ?thesis by simp
  qed
qed

lemma drop_polls:
  assumes "drop_finished obs run = Inr (kept, dropped)" "p \<in> set run" "poll (obs (pid p)) p = Inr (True, q)"
  shows "q \<in> set dropped"
  using assms
proof (induction run arbitrary: kept dropped)
  case (Cons x xs)
  then obtain b y kept1 dropped1 where r: "poll (obs (pid x)) x = Inr (b, y)"
      "drop_finished obs xs = Inr (kept1, dropped1)" "dropped = (if b then y # dropped1 else dropped1)"
    by (auto simp: raise_simps split: if_splits)
  show ?case
  proof (cases "x = p")
    case True
    then show ?thesis using r Cons.prems(3) by simp
  next
    case False
    then have "q \<in> set dropped1" using Cons.IH[OF r(2)] Cons.prems by simp
    then show ?thesis using r(3) by simp
  qed
qed simp

text \<open>
  C25. A running process that ends by itself, and was not given up, is done at the next cycle in
  which memory is not short: its result is delivered with its exit code and the most memory it
  was seen to use.
\<close>

theorem exit_delivered:
  assumes "reach cfg s ended_ps ids" and "p \<in> set (running s)"
    and "no_kill cfg \<or> GLOBAL_MEMORY_BUFFER \<le> mem_avail cfg (global_free c) s"
    and "kill_mark p = None" "future p = Waiting" "exit_code (drop_obs c (pid p)) = Some code"
    and "runner_poll cfg c s = Inr (s', dropped)"
  shows "\<exists>q r. q \<in> set dropped \<and> pid q = pid p \<and> future q = Done r \<and> res_code r = Some code \<and>
    res_reason r = OK \<and> res_mem r = max (rss (drop_obs c (pid p))) (max_memory p)"
proof -
  have run: "runnable p" using reach_inv[OF assms(1)] assms(2) by (auto simp: runner_inv_def list_all_iff)
  let ?free = "mem_avail cfg (global_free c) s"
  have "shed cfg (shed_obs c) ?free (running s) (pending s) = Inr (?free, running s, pending s)"
    using assms(3) by (subst shed.simps) auto
  moreover obtain new pend' where "launch cfg (start_clock c) ?free (running s) (pending s) = (running s @ new, pend')"
    using launch_extends by (metis prod.collapse)
  ultimately obtain kept where d: "drop_finished (drop_obs c) (running s @ new) = Inr (kept, dropped)"
    using assms(7) by (auto simp: runner_poll_def raise_simps Let_def)
  let ?ob = "drop_obs c (pid p)"
  let ?r = "\<lparr>res_code = Some code, res_reason = OK, res_mem = max (rss ?ob) (max_memory p),
      res_dt = clock ?ob - start_time p, res_out = Some (out_text ?ob), res_err = Some (err_text ?ob)\<rparr>"
  let ?q = "p\<lparr>max_memory := max (rss ?ob) (max_memory p), future := Done ?r, alive := False\<rparr>"
  have "poll ?ob p = Inr (True, ?q)"
    using run assms(4,5,6) by (simp add: poll_def finish_def Let_def runnable_def)
  then have "?q \<in> set dropped" using drop_polls[OF d, of p ?q] assms(2) by simp
  then show ?thesis by (intro exI[of _ ?q] exI[of _ ?r]) simp
qed

text \<open>Two cycles of the example: both start, and the first ends.\<close>

definition demo_running :: runner where
  "demo_running = (case runner_poll demo_settings (demo_cycle 16 (\<lambda>n. None) 1) demo_two of
     Inr (s, _) \<Rightarrow> s | Inl _ \<Rightarrow> demo_two)"

definition demo_p1 :: process where
  "demo_p1 = \<lparr>pid = 1, cmd = ''a'', expected_memory = 0, expected_time = 0, timeout = None, kill_mark = None,
     debug_slow_count = 0, started = True, alive = True, future = Waiting, max_memory = 1, start_time = 1\<rparr>"

lemmas runner_eval = runner_poll_def mem_avail_def children_used_mem_def shed.simps launch.simps poll_def
  finish_def start_def kill_restart_def MAX_RUNNING_def GLOBAL_MEMORY_BUFFER_def Let_def

lemma demo_running_eq:
  "runner_poll demo_settings (demo_cycle 16 (\<lambda>n. None) 1) demo_two = Inr (demo_running, [])"
  "demo_running = \<lparr>pending = [], running = [demo_p1, demo_p1\<lparr>pid := 2, cmd := ''b''\<rparr>], first_start = 1,
     debug_count = 0\<rparr>"
  by (simp_all add: demo_running_def demo_two_def append_process_def new_process_def new_runner_def demo_settings_def
      demo_cycle_def demo_obs_def demo_p1_def runner_eval)

lemma demo_running_reach: "reach demo_settings demo_running [] [2, 1]"
  using reach.cycle[OF demo_two_reach demo_running_eq(1)] by simp

lemma exit_delivered_witness:
  "\<exists>s' dropped q r. runner_poll demo_settings (demo_cycle 16 (\<lambda>n. if n = 1 then Some 20 else None) 2) demo_running =
     Inr (s', dropped) \<and> q \<in> set dropped \<and> pid q = 1 \<and> future q = Done r \<and> res_code r = Some 20 \<and>
     res_reason r = OK"
proof -
  let ?c = "demo_cycle 16 (\<lambda>n. if n = 1 then Some 20 else None) 2"
  have "list_all runnable (running demo_running)" "list_all waiting_ok (pending demo_running)"
    using reach_inv[OF demo_running_reach] by (simp_all add: runner_inv_def)
  then obtain s' dropped where r: "runner_poll demo_settings ?c demo_running = Inr (s', dropped)"
    using runner_poll_result by blast
  have "\<exists>q r. q \<in> set dropped \<and> pid q = pid demo_p1 \<and> future q = Done r \<and> res_code r = Some 20 \<and>
      res_reason r = OK \<and> res_mem r = max (rss (drop_obs ?c (pid demo_p1))) (max_memory demo_p1)"
    by (rule exit_delivered[OF demo_running_reach _ _ _ _ _ r])
      (simp_all add: demo_running_eq(2) demo_settings_def demo_cycle_def demo_obs_def demo_p1_def mem_avail_def
        GLOBAL_MEMORY_BUFFER_def)
  then show ?thesis using r by (auto simp: demo_p1_def)
qed

text \<open>
  The runner keeps two processors free, so on a machine with two or one it never runs
  anything: whatever is submitted and however long it polls, no process is started or ended.
\<close>

theorem few_processors_never_run:
  assumes "reach cfg s ended_ps ids" and "cpus cfg = Some n" "n = 1 \<or> n = 2"
  shows "running s = [] \<and> ended_ps = [] \<and> length (pending s) = length ids"
proof -
  have zero: "running u = [] \<and> e = []" if "reach cfg u e is" for u e "is"
    using that
  proof (induction rule: reach.induct)
    case (create t)
    then show ?case by (simp add: new_runner_def)
  next
    case (submit s ended_ps ids n c mem time tmo)
    then show ?case by (simp add: append_process_def)
  next
    case (cancelled s ended_ps ids n)
    then show ?case by (simp add: cancel_in_def)
  next
    case (cycle s ended_ps ids c s' dropped)
    have "MAX_RUNNING (cpus cfg) \<le> 0" using assms(2,3) by (auto simp: MAX_RUNNING_def)
    then have "launch cfg clk free [] pend = ([], pend)" for clk free pend
      by (subst launch.simps) simp
    moreover have "shed cfg obs free [] pend = Inr (free, [], pend)" for obs free pend
      by (subst shed.simps) simp
    ultimately show ?case using cycle by (auto simp: runner_poll_def Let_def)
  qed
  have "pids (running s) + pids (pending s) + pids ended_ps = mset ids"
    using reach_inv[OF assms(1)] by (simp add: runner_inv_def)
  then have "pids (pending s) = mset ids" using zero[OF assms(1)] by simp
  then have "length (pending s) = length ids" by (metis size_mset size_pids)
  then show ?thesis using zero[OF assms(1)] by simp
qed

lemma few_processors_never_run_witness:
  "running demo_two = [] \<and> ([] :: process list) = [] \<and> length (pending demo_two) = length [2 :: nat, 1]"
proof (rule few_processors_never_run[where n = 2])
  show "reach (demo_settings\<lparr>cpus := Some 2\<rparr>) demo_two [] [2, 1]"
    unfolding demo_two_def by (intro reach.intros) simp_all
qed simp_all

text \<open>
  When memory is short, a process that was given up because its race was decided is not
  ended but put back to run again, its mark forgotten: with 4 GB free the cycle kills the second
  of the two processes and starts it anew.
\<close>

theorem given_up_restarted:
  "\<exists>s' q. runner_poll demo_settings (demo_cycle 4 (\<lambda>n. None) 2) (cancel_in 2 demo_running) = Inr (s', []) \<and>
     q \<in> set (running s') \<and> pid q = 2 \<and> future q = Cancelled \<and> kill_mark q = None \<and> start_time q = 2"
  by (simp add: demo_running_eq(2) demo_p1_def cancel_in_def cancel_if_def cancel_def kill_def demo_settings_def
      demo_cycle_def demo_obs_def runner_eval conj_disj_distribR ex_disj_distrib)

text \<open>Cycles a second apart in which memory is short and no process ends by itself.\<close>

fun short_cycles :: "nat \<Rightarrow> runner \<Rightarrow> runner_error + runner \<times> process list" where
  "short_cycles 0 s = Inr (s, [])"
| "short_cycles (Suc k) s =
     ebind (short_cycles k s) (\<lambda>(s1, e1).
     ebind (runner_poll demo_settings (demo_cycle 4 (\<lambda>n. None) (3 + of_nat k)) s1) (\<lambda>(s2, e2). Inr (s2, e1 @ e2)))"

definition thrashing :: "rat \<Rightarrow> int \<Rightarrow> int \<Rightarrow> runner" where
  "thrashing t n slow = \<lparr>pending = [],
     running = [demo_p1\<lparr>debug_slow_count := slow\<rparr>,
       demo_p1\<lparr>pid := 2, cmd := ''b'', expected_memory := 1, expected_time := 1, start_time := t\<rparr>],
     first_start = 1, debug_count = n\<rparr>"

lemma thrashing_cycle:
  "\<exists>n' slow'. runner_poll demo_settings (demo_cycle 4 (\<lambda>n. None) (t + 1)) (thrashing t n slow) =
     Inr (thrashing (t + 1) n' slow', [])"
  by (simp add: thrashing_def demo_p1_def demo_settings_def demo_cycle_def demo_obs_def runner_eval)

text \<open>
  Taking back a small process frees, in the runner's reckoning, at least 3 GB, which is
  enough to start it again in the same cycle: while 4 GB are free the runner kills and restarts
  the second of two processes in every cycle, so that it never runs for longer than that.
\<close>

theorem restart_forever:
  "\<exists>n slow. short_cycles k (thrashing 2 0 0) = Inr (thrashing (2 + of_nat k) n slow, [])"
proof (induction k)
  case (Suc k)
  then obtain n slow where "short_cycles k (thrashing 2 0 0) = Inr (thrashing (2 + of_nat k) n slow, [])" by blast
  moreover obtain n' slow' where "runner_poll demo_settings (demo_cycle 4 (\<lambda>n. None) (2 + of_nat k + 1))
      (thrashing (2 + of_nat k) n slow) = Inr (thrashing (2 + of_nat k + 1) n' slow', [])"
    using thrashing_cycle by blast
  ultimately have "short_cycles (Suc k) (thrashing 2 0 0) = Inr (thrashing (2 + of_nat (Suc k)) n' slow', [])"
    by (simp add: ac_simps)
  then show ?case by blast
next
  case 0
  show ?case by (intro exI) simp
qed

end
