(* ===== verification/Regression.thy ===== *)
theory Regression
  imports Reports CheckLogs RunRtl
begin

text \<open>
  The steps of a regression together: the results are created, the steps of the runs follow
  in the order the makefile happens to take, those of different runs interleaved, and the
  verdict is collected.  What passes between the steps is in the files of the results.
\<close>

section \<open>The stages of a run\<close>

datatype stage = Generate | Compile | Simulate | Check

type_synonym run_id = "string \<times> int"

type_synonym event = "stage \<times> run_id"

datatype stage_error = Generate_failed md_error | Step_failed step_error | Check_failed "script_error + log_error"

text \<open>What the steps are given; every run has a temporary directory of its own.\<close>

record stage_env =
  st_sim :: sim_env
  st_cwd :: string
  st_root :: path
  st_tmp :: "run_id \<Rightarrow> string"
  st_read_file :: "string \<Rightarrow> string option"
  st_yaml_load :: "string \<Rightarrow> pyval option"

definition result_file :: "path \<Rightarrow> run_id \<Rightarrow> path" where
  "result_file dir tds = child_of dir (tds_str (fst tds) (snd tds) @ ''.pickle'')"

abbreviation result_of :: "path \<Rightarrow> run_id \<Rightarrow> gen_state \<Rightarrow> script_error + test_run_result" where
  "result_of dir tds st \<equiv> construct_from_pickle (gen_results st) (result_file dir tds)"

text \<open>The files as the check of the logs finds them.\<close>

definition read_files :: "gen_state \<Rightarrow> path \<Rightarrow> string option" where
  "read_files st p = gen_files st (path_str p)"

fun run_stage :: "stage_env \<Rightarrow> regression_metadata store \<Rightarrow> path \<Rightarrow> event \<Rightarrow> gen_state \<Rightarrow>
    stage_error + int \<times> gen_state" where
  "run_stage env mds dir (Generate, tds) st =
     map_sum Generate_failed id (run_instr_gen (se_exec (st_sim env)) (st_read_file env) (st_yaml_load env)
       (se_resolve (st_sim env)) (st_cwd env) (st_root env) (st_tmp env tds) mds dir tds st)"
| "run_stage env mds dir (Compile, tds) st =
     map_sum Step_failed id (compile_test (se_exec (st_sim env)) (se_resolve (st_sim env)) (se_environ (st_sim env))
       (st_root env) (st_tmp env tds) mds dir tds st)"
| "run_stage env mds dir (Simulate, tds) st =
     map_sum Step_failed id (run_rtl (st_sim env) mds dir tds st)"
| "run_stage env mds dir (Check, tds) st =
     (case check_logs_main (se_resolve (st_sim env)) (read_files st) dir tds (gen_results st) of
        Inl e \<Rightarrow> Inl (Check_failed e)
      | Inr results \<Rightarrow> Inr (0, st\<lparr>gen_results := results\<rparr>))"

text \<open>
  A history: the makefile stops starting steps where one raises, and what the ones before
  it left is what the collection sees.
\<close>

definition run_events :: "stage_env \<Rightarrow> regression_metadata store \<Rightarrow> path \<Rightarrow> event list \<Rightarrow> gen_state \<Rightarrow>
    stage_error + gen_state" where
  "run_events env mds dir = efold (\<lambda>e st. ebind (run_stage env mds dir e st) (\<lambda>(rc, st'). Inr st'))"

section \<open>Every stage keeps to the file of its run\<close>

text \<open>A result at home: it loads from the file it names.\<close>

definition at_home :: "path \<Rightarrow> run_id \<Rightarrow> gen_state \<Rightarrow> bool" where
  "at_home dir tds st \<longleftrightarrow>
     (case result_of dir tds st of Inl _ \<Rightarrow> False | Inr t \<Rightarrow> pickle_file t = Some (result_file dir tds))"

lemma at_homeI: "result_of dir tds st = Inr t \<Longrightarrow> pickle_file t = Some (result_file dir tds) \<Longrightarrow> at_home dir tds st"
  by (simp add: at_home_def)

lemma at_homeE:
  assumes "at_home dir tds st"
  obtains t where "result_of dir tds st = Inr t" "pickle_file t = Some (result_file dir tds)"
  using assms by (auto simp: at_home_def split: sum.splits)

lemma map_sum_Inr [simp]: "map_sum f id x = Inr y \<longleftrightarrow> x = Inr y"
  by (cases x) simp_all

lemma from_dir: "trr_from_metadata_dir (gen_results st) dir (tds_str (fst tds) (snd tds)) = result_of dir tds st"
  by (simp add: trr_from_metadata_dir_def result_file_def)

text \<open>What a stage may do to the stored results: change that of its run, and keep it at home.\<close>

definition own_only :: "path \<Rightarrow> run_id \<Rightarrow> gen_state \<Rightarrow> gen_state \<Rightarrow> bool" where
  "own_only dir tds st st' \<longleftrightarrow> at_home dir tds st' \<and>
     (\<forall>f. f \<noteq> result_file dir tds \<longrightarrow> construct_from_pickle (gen_results st') f = construct_from_pickle (gen_results st) f)"

lemma own_only_export:
  assumes "trr_export resolve t (gen_results st) = Inr results" and "pickle_file t = Some (result_file dir tds)"
  shows "own_only dir tds st (st'\<lparr>gen_results := results\<rparr>) \<and> result_of dir tds (st'\<lparr>gen_results := results\<rparr>) = Inr t"
  using trr.save_load[OF assms(1)] trr.save_other[OF assms(1)] assms(2)
  by (auto simp: own_only_def at_home_def)

lemma own_only_refl: "at_home dir tds st \<Longrightarrow> gen_results st' = gen_results st \<Longrightarrow> own_only dir tds st st'"
  by (simp add: own_only_def at_home_def)

text \<open>The stages before the check do not decide whether the run passed.\<close>

lemma gen_run_own:
  assumes "gen_run exec resolve cwd td m d test orig_list t st = Inr (rc, st')"
    and "pickle_file t = Some (result_file dir tds)"
  shows "own_only dir tds st st' \<and> (\<exists>t'. result_of dir tds st' = Inr t' \<and> passed t' = passed t)"
proof -
  obtain t' results fs where r: "trr_export resolve t' (gen_results st) = Inr results" "pickle_file t' = pickle_file t"
      "passed t' = passed t" "st' = (st\<lparr>gen_files := fs\<rparr>)\<lparr>gen_results := results\<rparr>"
    using assms(1) by (auto simp: gen_run_def Let_def raise_simps lift_Inr)
  then show ?thesis using own_only_export[OF r(1), of dir tds "st\<lparr>gen_files := fs\<rparr>"] assms(2) by auto
qed

lemma generate_own:
  assumes "run_instr_gen exec read_file yaml_load resolve cwd rt td mds dir tds st = Inr (rc, st')"
    and "result_of dir tds st = Inr t" and "pickle_file t = Some (result_file dir tds)"
  shows "own_only dir tds st st' \<and> (\<exists>t'. result_of dir tds st' = Inr t' \<and> passed t' = passed t)"
  using assms(1)
  apply (clarsimp simp: run_instr_gen_def Let_def raise_simps lift_Inr from_dir assms(2) simp del: if_split)
  apply (split if_split_asm)
   apply (force simp: assms(2) intro: own_only_refl at_homeI[OF assms(2,3)])
  apply (drule gen_run_own[where tds = tds and dir = dir])
   apply (simp add: assms(3))
  apply (clarsimp simp: own_only_def)
  done

lemma adapt_kept:
  "adapt_cmds environ m d t ws = Inr (cmds, t') \<Longrightarrow> pickle_file t' = pickle_file t \<and> passed t' = passed t"
  by (auto simp: adapt_cmds_def split: if_splits)

lemma riscvdv_kept:
  assumes "get_riscvdv_compile_cmds exec resolve environ rt td m t fs = Inr (Cmds cmds, t', fs')"
  shows "pickle_file t' = pickle_file t \<and> passed t' = passed t"
  using assms
  apply (clarsimp simp: get_riscvdv_compile_cmds_def Let_def raise_simps lift_Inr simp del: if_split)
  apply (split if_split_asm)
   apply simp
  apply (clarsimp simp: Let_def raise_simps lift_Inr dest!: adapt_kept)
  done

lemma directed_kept:
  assumes "get_directed_compile_cmds environ t = Inr (cmds, t')"
  shows "pickle_file t' = pickle_file t \<and> passed t' = passed t"
  using assms by (clarsimp simp: get_directed_compile_cmds_def Let_def raise_simps lift_Inr)

lemma compile_cmds_kept:
  assumes "compile_cmds_of exec resolve environ rt td m t fs = Inr (cmds, lg, t', fs')"
  shows "pickle_file t' = pickle_file t \<and> passed t' = passed t"
  using assms
  by (auto simp: compile_cmds_of_def dest: riscvdv_kept directed_kept
    split: option.splits TestType.splits sum.splits prod.splits compile_cmds.splits)

lemma case_sum_Inr:
  "(case x of Inl e \<Rightarrow> Inl (f e) | Inr y \<Rightarrow> g y) = Inr z \<longleftrightarrow> (\<exists>y. x = Inr y \<and> g y = Inr z)"
  by (cases x) auto

lemma compile_own:
  assumes "compile_test exec resolve environ rt td mds dir tds st = Inr (rc, st')"
    and "result_of dir tds st = Inr t" and "pickle_file t = Some (result_file dir tds)"
  shows "own_only dir tds st st' \<and> (\<exists>t'. result_of dir tds st' = Inr t' \<and> passed t' = passed t)"
proof -
  obtain m cmds lg t1 fs ws results fs' where r:
      "compile_cmds_of exec resolve environ rt td m t (gen_files st) = Inr (cmds, lg, t1, fs)"
      "trr_export resolve (t1\<lparr>compile_asm_log := Some lg, compile_asm_cmds := Some ws\<rparr>) (gen_results st) = Inr results"
      "st' = (st\<lparr>gen_files := fs'\<rparr>)\<lparr>gen_results := results\<rparr>"
    using assms(1) by (auto simp: compile_test_def from_dir assms(2) raise_simps case_sum_Inr)
  show ?thesis
    using own_only_export[OF r(2), of dir tds "st\<lparr>gen_files := fs'\<rparr>"] compile_cmds_kept[OF r(1)] assms(3) r(3)
    by (auto simp: own_only_def)
qed

lemma sim_commands_passed:
  assumes "sim_commands env m t = Inr (cmds, stdout, t1)"
  shows "passed t1 = passed t"
  using assms by (auto simp: sim_commands_def prepare_result_def Let_def raise_simps)

lemma simulate_own:
  assumes "run_rtl env mds dir tds st = Inr (rc, st')"
    and "result_of dir tds st = Inr t" and "pickle_file t = Some (result_file dir tds)"
  shows "own_only dir tds st st' \<and> (\<exists>t'. result_of dir tds st' = Inr t' \<and> passed t' = passed t)"
proof -
  obtain m cmds stdout t1 results timed_out fs results' where r: "sim_commands env m t = Inr (cmds, stdout, t1)"
      "trr_export (se_resolve env) t1 (gen_results st) = Inr results"
      "trr_export (se_resolve env) (if timed_out then killed m t1 else t1) results = Inr results'"
      "st' = (st\<lparr>made_dirs := the (dir_test t) # made_dirs st, gen_files := fs\<rparr>)\<lparr>gen_results := results'\<rparr>"
    using assms(1,2) by (auto simp: run_rtl_def from_dir raise_simps split: prod.splits)
  let ?t = "if timed_out then killed m t1 else t1" and ?st = "st\<lparr>gen_results := results\<rparr>"
  have t: "pickle_file t1 = Some (result_file dir tds)" "pickle_file ?t = Some (result_file dir tds)" "passed ?t = passed t"
    using sim_commands_result(1)[OF r(1)] sim_commands_passed[OF r(1)] assms(3) by (simp_all add: killed_def)
  have "own_only dir tds st (st\<lparr>gen_results := results\<rparr>)"
    using own_only_export[OF r(2) t(1)] by blast
  moreover have "own_only dir tds ?st st' \<and> result_of dir tds st' = Inr ?t"
    using own_only_export[of "se_resolve env" ?t ?st, OF _ t(2)] r(3,4) by simp
  ultimately show ?thesis using t(3) by (auto simp: own_only_def)
qed

lemma compare_kept:
  assumes "compare_test_run read_file t = Inr t'"
  shows "pickle_file t' = pickle_file t"
  using assms
  by (auto simp: compare_test_run_def check_log_def fail_with_def uvm_failure_def raise_simps
    split: if_splits option.splits sum.splits log_error.splits)

lemma check_own:
  assumes "check_logs_main resolve read_file dir tds (gen_results st) = Inr results"
    and "result_of dir tds st = Inr t" and "pickle_file t = Some (result_file dir tds)"
  shows "own_only dir tds st (st\<lparr>gen_results := results\<rparr>) \<and>
    (\<exists>t'. result_of dir tds (st\<lparr>gen_results := results\<rparr>) = Inr t' \<and> compare_test_run read_file t = Inr t')"
proof -
  obtain t' where r: "compare_test_run read_file t = Inr t'" "trr_export resolve t' (gen_results st) = Inr results"
    using assms(1,2) by (auto simp: check_logs_main_def from_dir split: sum.splits)
  show ?thesis using own_only_export[OF r(2), of dir tds st] compare_kept[OF r(1)] assms(3) r(1) by simp
qed

section \<open>Histories\<close>

text \<open>What a stage does, whichever it is.\<close>

lemma stage_own:
  assumes "run_stage env mds dir (s, tds) st = Inr (rc, st')" and "at_home dir tds st"
  shows "own_only dir tds st st'"
    and "s \<noteq> Check \<Longrightarrow> result_of dir tds st = Inr t \<Longrightarrow> \<exists>t'. result_of dir tds st' = Inr t' \<and> passed t' = passed t"
    and "s = Check \<Longrightarrow> result_of dir tds st = Inr t \<Longrightarrow>
      \<exists>t'. result_of dir tds st' = Inr t' \<and> compare_test_run (read_files st) t = Inr t'"
proof -
  obtain u where u: "result_of dir tds st = Inr u" "pickle_file u = Some (result_file dir tds)"
    using assms(2) by (rule at_homeE)
  note own = generate_own[OF _ u] compile_own[OF _ u] simulate_own[OF _ u] check_own[OF _ u]
  show "own_only dir tds st st'"
    using assms(1) own by (cases s) (auto split: sum.splits)
  show "\<exists>t'. result_of dir tds st' = Inr t' \<and> passed t' = passed t"
    if "s \<noteq> Check" "result_of dir tds st = Inr t"
    using assms(1) own that u(1) by (cases s) auto
  show "\<exists>t'. result_of dir tds st' = Inr t' \<and> compare_test_run (read_files st) t = Inr t'"
    if "s = Check" "result_of dir tds st = Inr t"
    using assms(1) own that u(1) by (auto split: sum.splits)
qed

lemma run_events_append:
  "run_events env mds dir (xs @ ys) st = ebind (run_events env mds dir xs st) (run_events env mds dir ys)"
  by (simp add: run_events_def efold_append)

lemma run_events_Nil [simp]: "run_events env mds dir [] st = Inr st"
  by (simp add: run_events_def)

lemma run_events_Cons:
  "run_events env mds dir (e # es) st = Inr st' \<longleftrightarrow>
     (\<exists>rc s. run_stage env mds dir e st = Inr (rc, s) \<and> run_events env mds dir es s = Inr st')"
  by (auto simp: run_events_def raise_simps)

text \<open>The runs of a regression, each with a file of its own, in which its result is.\<close>

definition homed :: "path \<Rightarrow> run_id set \<Rightarrow> gen_state \<Rightarrow> bool" where
  "homed dir R st \<longleftrightarrow> inj_on (result_file dir) R \<and> (\<forall>tds \<in> R. at_home dir tds st)"

lemma own_only_other:
  assumes "own_only dir tds st st'" and "result_file dir r \<noteq> result_file dir tds"
  shows "result_of dir r st' = result_of dir r st"
  using assms by (simp add: own_only_def)

lemma stage_homed:
  assumes "run_stage env mds dir e st = Inr (rc, st')" and "homed dir R st" and "snd e \<in> R"
  shows "homed dir R st' \<and> (\<forall>r \<in> R. r \<noteq> snd e \<longrightarrow> result_of dir r st' = result_of dir r st)"
proof -
  obtain s tds where e: "e = (s, tds)" by (cases e)
  have own: "own_only dir tds st st'"
    using stage_own(1) assms e by (auto simp: homed_def)
  have other: "result_of dir r st' = result_of dir r st" if "r \<in> R" "r \<noteq> tds" for r
  proof (rule own_only_other[OF own])
    show "result_file dir r \<noteq> result_file dir tds"
      using assms(2,3) that e by (auto simp: homed_def dest: inj_onD)
  qed
  have "at_home dir r st'" if "r \<in> R" for r
    using own other[OF that] assms(2) that by (cases "r = tds") (auto simp: own_only_def homed_def at_home_def)
  then show ?thesis using assms(2) other e by (auto simp: homed_def)
qed

lemma events_homed:
  assumes "run_events env mds dir es st = Inr st'" and "homed dir R st" and "snd ` set es \<subseteq> R"
  shows "homed dir R st'"
  using assms
proof (induction es arbitrary: st)
  case (Cons e es)
  then obtain rc s where s: "run_stage env mds dir e st = Inr (rc, s)" "run_events env mds dir es s = Inr st'"
    by (auto simp: run_events_Cons)
  show ?case
    by (rule Cons.IH[OF s(2)]) (use stage_homed[OF s(1) Cons.prems(2)] Cons.prems(3) in auto)
qed simp

text \<open>Stages of other runs leave the result of a run as it is.\<close>

lemma events_other:
  assumes "run_events env mds dir es st = Inr st'" and "homed dir R st" and "snd ` set es \<subseteq> R"
    and "tds \<in> R" "tds \<notin> snd ` set es"
  shows "result_of dir tds st' = result_of dir tds st"
  using assms
proof (induction es arbitrary: st)
  case (Cons e es)
  then obtain rc s where s: "run_stage env mds dir e st = Inr (rc, s)" "run_events env mds dir es s = Inr st'"
    by (auto simp: run_events_Cons)
  have h: "homed dir R s" "result_of dir tds s = result_of dir tds st"
    using stage_homed[OF s(1) Cons.prems(2)] Cons.prems(3-5) by auto
  have "result_of dir tds st' = result_of dir tds s"
    by (rule Cons.IH[OF s(2) h(1)]) (use Cons.prems(3-5) in auto)
  then show ?case using h(2) by simp
qed simp

text \<open>Before its check nothing says that a run passed.\<close>

lemma events_unchecked:
  assumes "run_events env mds dir es st = Inr st'" and "homed dir R st" and "snd ` set es \<subseteq> R"
    and "tds \<in> R" "(Check, tds) \<notin> set es" and "result_of dir tds st = Inr t"
  shows "\<exists>t'. result_of dir tds st' = Inr t' \<and> passed t' = passed t"
  using assms
proof (induction es arbitrary: st t)
  case (Cons e es)
  then obtain rc s where s: "run_stage env mds dir e st = Inr (rc, s)" "run_events env mds dir es s = Inr st'"
    by (auto simp: run_events_Cons)
  obtain k r where e: "e = (k, r)" by (cases e)
  have h: "homed dir R s" "r \<noteq> tds \<Longrightarrow> result_of dir tds s = result_of dir tds st"
    using stage_homed[OF s(1) Cons.prems(2)] Cons.prems(3,4) e by auto
  have "\<exists>t1. result_of dir tds s = Inr t1 \<and> passed t1 = passed t"
  proof (cases "r = tds")
    case True
    then show ?thesis
      using stage_own(2)[of env mds dir k tds st rc s t] s(1) e Cons.prems by (auto simp: homed_def)
  next
    case False
    then show ?thesis using h(2) Cons.prems(6) by auto
  qed
  then obtain t1 where t1: "result_of dir tds s = Inr t1" "passed t1 = passed t" by blast
  have "\<exists>t'. result_of dir tds st' = Inr t' \<and> passed t' = passed t1"
    by (rule Cons.IH[OF s(2) h(1) _ _ _ t1(1)]) (use Cons.prems(3-5) in auto)
  then show ?case using t1(2) by simp
qed auto

section \<open>The verdict\<close>

text \<open>What a run that passes leaves: no timeout, a trace with instructions, and a log without errors.\<close>

definition trace_ok :: "(path \<Rightarrow> string option) \<Rightarrow> test_run_result \<Rightarrow> bool" where
  "trace_ok read_file t =
     (case rtl_trace t of None \<Rightarrow> False
      | Some p \<Rightarrow> (case process_ibex_sim_log (read_file p) True of Inl _ \<Rightarrow> False | Inr _ \<Rightarrow> True))"

definition log_ok :: "(path \<Rightarrow> string option) \<Rightarrow> test_run_result \<Rightarrow> bool" where
  "log_ok read_file t =
     (case rtl_log t of None \<Rightarrow> False
      | Some p \<Rightarrow>
          (case read_file p of None \<Rightarrow> False
           | Some text_of_log \<Rightarrow> list_ex is_pass_line (file_lines text_of_log) \<and> \<not> list_ex is_fail_line (file_lines text_of_log) \<and>
               \<not> list_ex is_error_line (before_result (file_lines text_of_log))))"

definition logs_pass :: "(path \<Rightarrow> string option) \<Rightarrow> test_run_result \<Rightarrow> bool" where
  "logs_pass read_file t \<longleftrightarrow> failure_mode t \<noteq> Some TIMEOUT \<and> trace_ok read_file t \<and> log_ok read_file t"

lemma compare_logs_pass:
  assumes "compare_test_run read_file t = Inr t'" and "passed t \<noteq> Some True"
  shows "passed t' = Some True \<longleftrightarrow> logs_pass read_file t"
proof (cases "failure_mode t = Some TIMEOUT")
  case True
  then show ?thesis using assms by (auto simp: compare_test_run_def logs_pass_def)
next
  case False
  then obtain p where p: "rtl_trace t = Some p"
    using assms(1) by (auto simp: compare_test_run_def split: option.splits)
  show ?thesis
  proof (cases "process_ibex_sim_log (read_file p) True")
    case (Inl e)
    then show ?thesis
      using assms False p by (cases e) (auto simp: compare_test_run_def logs_pass_def trace_ok_def fail_with_def)
  next
    case (Inr rows)
    then have "check_log read_file t = Inr t'" using assms(1) False p by (simp add: compare_test_run_def)
    from check_log_passed[OF this assms(2)] show ?thesis
      using False p Inr by (auto simp: logs_pass_def trace_ok_def log_ok_def split: option.split)
  qed
qed

text \<open>Each run is checked once, by the last of its stages.\<close>

definition checked_last :: "event list \<Rightarrow> run_id \<Rightarrow> bool" where
  "checked_last es tds \<longleftrightarrow>
     (let own = filter (\<lambda>e. snd e = tds) es
      in own \<noteq> [] \<and> last own = (Check, tds) \<and> (Check, tds) \<notin> set (butlast own))"

lemma checked_last_split:
  assumes "checked_last es tds"
  shows "\<exists>before after. es = before @ (Check, tds) # after \<and> tds \<notin> snd ` set after \<and> (Check, tds) \<notin> set before"
proof -
  have "(Check, tds) \<in> set es"
    using assms last_in_set by (fastforce simp: checked_last_def Let_def)
  then obtain before after where es: "es = before @ (Check, tds) # after" "(Check, tds) \<notin> set before"
    by (meson split_list_first)
  have "filter (\<lambda>e. snd e = tds) after = []"
  proof (rule ccontr)
    assume "filter (\<lambda>e. snd e = tds) after \<noteq> []"
    then have "(Check, tds) \<in> set (butlast (filter (\<lambda>e. snd e = tds) es))"
      by (simp add: es(1) butlast_append)
    then show False using assms by (simp add: checked_last_def Let_def)
  qed
  then have "tds \<notin> snd ` set after" by (auto simp: filter_empty_conv)
  then show ?thesis using es by blast
qed

lemma created_home:
  assumes "create_results resolve inp m specs st0 = Inr (ts, gen_results st)"
    and "distinct (map (\<lambda>s. fst (fst s)) specs)" and "list_all (\<lambda>s. CHR ''/'' \<notin> set (fst (fst s))) specs"
  shows "homed (md_dir_metadata m) (set (run_names m specs)) st"
    and "tds \<in> set (run_names m specs) \<Longrightarrow>
      \<exists>t. result_of (md_dir_metadata m) tds st = Inr t \<and> passed t = None"
proof -
  let ?dir = "md_dir_metadata m"
  have "inj_on (result_file ?dir) (set (run_names m specs))"
    using run_names_noslash[OF assms(3)] by (auto intro!: inj_onI simp: result_file_def dest!: result_file_inj)
  moreover have loads: "\<exists>t. result_of ?dir r st = Inr t \<and> pickle_file t = Some (result_file ?dir r) \<and> passed t = None"
    if r: "r \<in> set (run_names m specs)" for r
  proof -
    obtain k where k: "k < length (run_names m specs)" "r = run_names m specs ! k"
      using r by (auto simp: in_set_conv_nth)
    note names = conjunct1[OF create_results_names[OF assms(1)]]
    have t: "ts ! k \<in> set ts" "pickle_file (ts ! k) = Some (result_file ?dir r)"
      using list_all2_nthD[OF names k(1)] list_all2_lengthD[OF names] k
      by (auto simp: result_file_def split_def)
    then show ?thesis using created_loads[OF assms t(1)] created_not_passed[OF assms(1) t(1)] by auto
  qed
  moreover have "at_home ?dir r st" if "r \<in> set (run_names m specs)" for r
    using loads[OF that] at_homeI by blast
  ultimately show "homed ?dir (set (run_names m specs)) st"
    unfolding homed_def by blast
  show "\<exists>t. result_of ?dir tds st = Inr t \<and> passed t = None" if "tds \<in> set (run_names m specs)"
    using loads[OF that] by blast
qed

text \<open>What the history made of a run: passed exactly when its check found that the logs pass.\<close>

definition passed_check :: "stage_env \<Rightarrow> regression_metadata store \<Rightarrow> path \<Rightarrow> event list \<Rightarrow> gen_state \<Rightarrow> run_id \<Rightarrow> bool" where
  "passed_check env mds dir es st tds \<longleftrightarrow>
     (case run_events env mds dir (takeWhile (\<lambda>e. e \<noteq> (Check, tds)) es) st of
        Inl _ \<Rightarrow> False
      | Inr s \<Rightarrow> (case result_of dir tds s of Inl _ \<Rightarrow> False | Inr t \<Rightarrow> logs_pass (read_files s) t))"

lemma run_verdict:
  assumes "homed dir R st" and "run_events env mds dir es st = Inr st'" and "snd ` set es \<subseteq> R" and "tds \<in> R"
    and "result_of dir tds st = Inr t" and "passed t = None" and "checked_last es tds"
  shows "\<exists>t'. result_of dir tds st' = Inr t' \<and> (passed t' = Some True \<longleftrightarrow> passed_check env mds dir es st tds)"
proof -
  obtain before after where es: "es = before @ (Check, tds) # after" "tds \<notin> snd ` set after" "(Check, tds) \<notin> set before"
    using checked_last_split[OF assms(7)] by blast
  obtain s rc s' where s: "run_events env mds dir before st = Inr s"
      "run_stage env mds dir (Check, tds) s = Inr (rc, s')" "run_events env mds dir after s' = Inr st'"
    using assms(2) by (auto simp: es(1) run_events_append raise_simps run_events_Cons)
  have subs: "snd ` set before \<subseteq> R" "snd ` set after \<subseteq> R" using assms(3) es(1) by auto
  have h: "homed dir R s" by (rule events_homed[OF s(1) assms(1) subs(1)])
  obtain u where u: "result_of dir tds s = Inr u" "passed u = None"
    using events_unchecked[OF s(1) assms(1) subs(1) assms(4) es(3) assms(5)] assms(6) by auto
  obtain t' where t': "result_of dir tds s' = Inr t'" "compare_test_run (read_files s) u = Inr t'"
    using stage_own(3)[OF s(2) _ refl u(1)] h assms(4) by (auto simp: homed_def)
  have "homed dir R s'" using stage_homed[OF s(2) h] assms(4) by simp
  then have "result_of dir tds st' = Inr t'"
    using events_other[OF s(3) _ subs(2) assms(4) es(2)] t'(1) by simp
  moreover have "takeWhile (\<lambda>e. e \<noteq> (Check, tds)) es = before"
    unfolding es(1) using es(3) by (subst takeWhile_append2) auto
  ultimately show ?thesis
    using compare_logs_pass[OF t'(2)] u by (simp add: passed_check_def s(1))
qed

text \<open>
  C1. However the steps of the runs are interleaved, the regression is a success exactly when
  every one of its runs passed its own check: no step loses, overwrites or decides the result
  of another run.
\<close>

theorem regression_verdict:
  assumes "create_results resolve inp m specs st0 = Inr (ts, gen_results st)"
    and "distinct (map (\<lambda>s. fst (fst s)) specs)" and "list_all (\<lambda>s. CHR ''/'' \<notin> set (fst (fst s))) specs"
    and "run_events env mds (md_dir_metadata m) es st = Inr st'"
    and "snd ` set es \<subseteq> set (run_names m specs)" and "list_all (checked_last es) (run_names m specs)"
    and "collect_results cenv (gen_results st') (md_dir_metadata m) bst = (Inr rc, bst')"
    and "md_from_metadata_dir (bs_md bst) (md_dir_metadata m) = Inr m'"
    and "md_pickle_file m' = child_of (md_dir_metadata m) ''metadata.pickle''"
    and "md_tests_pickle_files m' = map (result_file (md_dir_metadata m)) (run_names m specs)"
  shows "rc = 0 \<longleftrightarrow> list_all (passed_check env mds (md_dir_metadata m) es st) (run_names m specs)"
proof -
  note home = created_home[OF assms(1-3)]
  have "\<exists>t'. result_of (md_dir_metadata m) tds st' = Inr t' \<and>
      (passed t' = Some True \<longleftrightarrow> passed_check env mds (md_dir_metadata m) es st tds)"
    if r: "tds \<in> set (run_names m specs)" for tds
    using home(2)[OF r] run_verdict[OF home(1) assms(4,5) r] assms(6) r by (auto simp: list_all_iff)
  then show ?thesis
    using collect_verdict[OF assms(7-9)] assms(10) by (fastforce simp: list_all_iff)
qed

section \<open>A regression with one run\<close>

definition demo_flow_md :: regression_metadata where
  "demo_flow_md = demo_gen_metadata\<lparr>md_seed := 3, md_dir_metadata := path_of ''/md'', md_dir_tests := path_of ''/t'',
     md_pickle_file := path_of ''/md/metadata.pickle'', md_tests_pickle_files := [path_of ''/md/empty.3.pickle'']\<rparr>"

definition demo_flow_specs :: "((string \<times> int \<times> TestType) \<times> test_entry) list" where
  "demo_flow_specs = [((''empty'', 1, DIRECTED), [])]"

text \<open>Every command leaves the trace and the log of a good simulation.\<close>

definition demo_left :: "files \<Rightarrow> files" where
  "demo_left fs = fs(''/t/empty.3/trace_core_00000000.log'' \<mapsto> ibex_line,
     ''/t/empty.3/rtl_sim_stdstreams.log'' \<mapsto> ''RISC-V UVM TEST PASSED'')"

definition demo_flow_exec :: exec where
  "demo_flow_exec cmd fs = (Returned 0, demo_left fs)"

definition demo_flow_env :: stage_env where
  "demo_flow_env = \<lparr>st_sim = (demo_rtl_env demo_flow_exec)\<lparr>se_environ := [''TOOLS'' \<mapsto> ''/tools'',
       ''RISCV_TOOLCHAIN'' \<mapsto> ''/r'', ''RISCV_GCC'' \<mapsto> ''gcc'', ''RISCV_OBJCOPY'' \<mapsto> ''objcopy'']\<rparr>,
     st_cwd = ''/w'', st_root = path_of ''/ibex'', st_tmp = (\<lambda>tds. ''/tmp/d''), st_read_file = (\<lambda>f. None),
     st_yaml_load = (\<lambda>s. None)\<rparr>"

definition demo_flow_mds :: "regression_metadata store" where
  "demo_flow_mds = \<lparr>pickles = [(path_of ''/md/metadata.pickle'', demo_flow_md)], yamls = []\<rparr>"

definition demo_flow_created :: test_run_result where
  "demo_flow_created = (base_result demo_flow_md ''empty'' DIRECTED 3)
     \<lparr>directed_data := Some (dtest_entry (hd (dy_tests directed_model)))\<rparr>"

definition demo_flow_compiled :: "path \<Rightarrow> string list list \<Rightarrow> test_run_result" where
  "demo_flow_compiled lg ws = demo_flow_created\<lparr>
     assembly := map_option (path_of \<circ> py_str) (dict_get (dtest_entry (hd (dy_tests directed_model))) ''test_srcs''),
     objectfile := Some (path_of ''/t/empty.3/test.o''), test_run_result.binary := Some (path_of ''/t/empty.3/test.bin''),
     compile_asm_log := Some lg, compile_asm_cmds := Some ws\<rparr>"

lemma demo_flow_made:
  "emap (\<lambda>(spec, testseed). make_result demo_inputs demo_flow_md spec testseed) (runs demo_flow_md demo_flow_specs) =
    Inr [demo_flow_created]"
  by code_simp

lemma demo_flow_directed:
  "case get_directed_compile_cmds (se_environ (st_sim demo_flow_env)) demo_flow_created of
     Inl _ \<Rightarrow> False
   | Inr (cmds, t) \<Rightarrow> t\<lparr>compile_asm_log := Some lg, compile_asm_cmds := Some ws\<rparr> = demo_flow_compiled lg ws"
  by code_simp

lemma demo_flow_sim:
  "case sim_commands (st_sim demo_flow_env) demo_flow_md (demo_flow_compiled lg ws) of
     Inl _ \<Rightarrow> False
   | Inr (cmds, stdout, t) \<Rightarrow> cmds \<noteq> [] \<and> rtl_trace t = Some (path_of ''/t/empty.3/trace_core_00000000.log'') \<and>
       rtl_log t = Some (path_of ''/t/empty.3/rtl_sim_stdstreams.log'') \<and>
       testname t = Some ''empty'' \<and> (case lesskeys t of Inl _ \<Rightarrow> False | Inr _ \<Rightarrow> True)"
  by code_simp

lemma demo_flow_fields:
  "pickle_file demo_flow_created = Some (path_of ''/md/empty.3.pickle'')"
  "yaml_file demo_flow_created = Some (path_of ''/t/empty.3/trr.yaml'')"
  "dir_test demo_flow_created = Some (path_of ''/t/empty.3'')" "testtype demo_flow_created = Some DIRECTED"
  "passed demo_flow_created = None" "failure_mode demo_flow_created = None"
  by code_simp+

lemma demo_flow_file: "result_file (path_of ''/md'') (''empty'', 3) = path_of ''/md/empty.3.pickle''"
  by code_simp

lemma demo_flow_loads: "md_from_metadata_dir demo_flow_mds (path_of ''/md'') = Inr demo_flow_md"
  by (simp add: md_from_metadata_dir_def construct_from_pickle_def demo_flow_mds_def) code_simp

lemma words_formatted: "emap (format_to_cmd resolve) (map words_cmd cmds) = Inr cmds"
proof -
  have "format_to_cmd resolve (words_cmd ws) = Inr ws" for ws
    by (induction ws) (simp_all add: format_to_cmd_def words_cmd_def format_to_str_def)
  then show ?thesis by (induction cmds) simp_all
qed

text \<open>The files after a command that does not fail.\<close>

lemma demo_flow_in_order:
  "\<exists>fs'. run_in_order demo_flow_exec v (Redirect_file n False) cmds fs = Inr (0, fs')"
  by (induction cmds arbitrary: fs)
    (simp_all add: run_cmd_on_def demo_flow_exec_def run_one_def bad_redirect_def run_status_def)

definition good_files :: "(string \<rightharpoonup> string) \<Rightarrow> bool" where
  "good_files fs \<longleftrightarrow> fs ''/t/empty.3/trace_core_00000000.log'' = Some ibex_line \<and>
     fs ''/t/empty.3/rtl_sim_stdstreams.log'' = Some ''RISC-V UVM TEST PASSED''"

lemma demo_flow_simulates:
  "\<exists>fs'. run_until_timeout demo_flow_exec v (Redirect_file n False) cmds fs = Inr (False, fs') \<and>
    (cmds \<noteq> [] \<or> good_files fs \<longrightarrow> good_files fs')"
proof (induction cmds arbitrary: fs)
  case (Cons c cs)
  have "good_files (demo_left fs)" by (simp add: demo_left_def good_files_def)
  then show ?case
    using Cons.IH[of "demo_left fs"]
    by (simp add: demo_flow_exec_def run_one_def bad_redirect_def run_status_def)
qed simp

lemma demo_flow_creates:
  "\<exists>store. create_results id demo_inputs demo_flow_md demo_flow_specs \<lparr>pickles = [], yamls = []\<rparr> = Inr ([demo_flow_created], store)"
proof -
  obtain store where "trr_export id demo_flow_created \<lparr>pickles = [], yamls = []\<rparr> = Inr store"
    using trr_export_total[OF demo_flow_fields(1-3)] by blast
  then show ?thesis by (simp add: create_results_def demo_flow_made lift_def id_def)
qed

text \<open>Compilation and simulation leave the result ready for the check.\<close>

lemma demo_flow_compiles:
  assumes "result_of (path_of ''/md'') (''empty'', 3) st = Inr demo_flow_created"
  shows "\<exists>lg ws st'. run_stage demo_flow_env demo_flow_mds (path_of ''/md'') (Compile, (''empty'', 3)) st = Inr (0, st') \<and>
    result_of (path_of ''/md'') (''empty'', 3) st' = Inr (demo_flow_compiled lg ws)"
proof -
  let ?env = "se_environ (st_sim demo_flow_env)" and ?dir = "path_of ''/t/empty.3''"
  obtain cmds t where c: "get_directed_compile_cmds ?env demo_flow_created = Inr (cmds, t)"
    using demo_flow_directed[where lg = "path_of ''/l''" and ws = "[]"] by (auto split: sum.splits)
  let ?lg = "child_of ?dir ''compile.directed.log''"
  have t: "t\<lparr>compile_asm_log := Some ?lg, compile_asm_cmds := Some cmds\<rparr> = demo_flow_compiled ?lg cmds"
    using demo_flow_directed[where lg = ?lg and ws = cmds] c by simp
  have f: "pickle_file (demo_flow_compiled ?lg cmds) = Some (path_of ''/md/empty.3.pickle'')"
      "yaml_file (demo_flow_compiled ?lg cmds) = Some (path_of ''/t/empty.3/trr.yaml'')"
      "dir_test (demo_flow_compiled ?lg cmds) = Some ?dir"
    by (simp_all add: demo_flow_compiled_def demo_flow_fields)
  obtain results where e: "trr_export id (demo_flow_compiled ?lg cmds) (gen_results st) = Inr results"
    using trr_export_total[OF f] by blast
  obtain fs where r: "run_in_order demo_flow_exec (md_verbose demo_flow_md) (Redirect_file (path_str ?lg) False) cmds (gen_files st) =
      Inr (0, fs)"
    using demo_flow_in_order by blast
  have env: "se_exec (st_sim demo_flow_env) = demo_flow_exec" "se_resolve (st_sim demo_flow_env) = id"
    by (simp_all add: demo_flow_env_def demo_rtl_env_def)
  have "compile_test demo_flow_exec id ?env (st_root demo_flow_env) (st_tmp demo_flow_env (''empty'', 3)) demo_flow_mds
      (path_of ''/md'') (''empty'', 3) st = Inr (0, st\<lparr>gen_files := fs, gen_results := results\<rparr>)"
    using assms from_dir[of st "path_of ''/md''" "(''empty'', 3)"] c e r
    by (simp add: compile_test_def demo_flow_loads compile_cmds_of_def demo_flow_fields words_formatted t)
  moreover have "result_of (path_of ''/md'') (''empty'', 3) (st\<lparr>gen_files := fs, gen_results := results\<rparr>) =
      Inr (demo_flow_compiled ?lg cmds)"
    using trr.save_load[OF e] f(1) by (simp add: demo_flow_file)
  ultimately show ?thesis by (auto simp: env)
qed

lemma demo_flow_runs:
  assumes "result_of (path_of ''/md'') (''empty'', 3) st = Inr (demo_flow_compiled lg ws)"
  shows "\<exists>t st'. run_stage demo_flow_env demo_flow_mds (path_of ''/md'') (Simulate, (''empty'', 3)) st = Inr (0, st') \<and>
    result_of (path_of ''/md'') (''empty'', 3) st' = Inr t \<and> good_files (gen_files st') \<and>
    rtl_trace t = Some (path_of ''/t/empty.3/trace_core_00000000.log'') \<and>
    rtl_log t = Some (path_of ''/t/empty.3/rtl_sim_stdstreams.log'') \<and> testname t = Some ''empty'' \<and>
    failure_mode t = None \<and> yaml_file t = Some (path_of ''/t/empty.3/trr.yaml'') \<and>
    dir_test t = Some (path_of ''/t/empty.3'') \<and> pickle_file t = Some (path_of ''/md/empty.3.pickle'') \<and>
    (\<exists>ks. lesskeys t = Inr ks)"
proof -
  let ?c = "demo_flow_compiled lg ws"
  obtain cmds stdout t where c: "sim_commands (st_sim demo_flow_env) demo_flow_md ?c = Inr (cmds, stdout, t)"
    using demo_flow_sim[where lg = lg and ws = ws] by (auto split: sum.splits)
  have t: "cmds \<noteq> []" "rtl_trace t = Some (path_of ''/t/empty.3/trace_core_00000000.log'')"
      "rtl_log t = Some (path_of ''/t/empty.3/rtl_sim_stdstreams.log'')" "testname t = Some ''empty''" "\<exists>ks. lesskeys t = Inr ks"
    using demo_flow_sim[where lg = lg and ws = ws] c by (auto split: sum.splits)
  have f: "pickle_file t = Some (path_of ''/md/empty.3.pickle'')" "yaml_file t = Some (path_of ''/t/empty.3/trr.yaml'')"
      "dir_test t = Some (path_of ''/t/empty.3'')" "failure_mode t = None"
    using sim_commands_result[OF c] by (simp_all add: demo_flow_compiled_def demo_flow_fields)
  obtain res1 where e1: "trr_export id t (gen_results st) = Inr res1" using trr_export_total[OF f(1-3)] by blast
  obtain res2 where e2: "trr_export id t res1 = Inr res2" using trr_export_total[OF f(1-3)] by blast
  obtain fs where r: "run_until_timeout demo_flow_exec (md_verbose demo_flow_md) (Redirect_file (path_str stdout) False) cmds
      (gen_files st) = Inr (False, fs)" "good_files fs"
    using demo_flow_simulates[of "md_verbose demo_flow_md" "path_str stdout" cmds "gen_files st"] t(1) by blast
  have env: "se_exec (st_sim demo_flow_env) = demo_flow_exec" "se_resolve (st_sim demo_flow_env) = id"
    by (simp_all add: demo_flow_env_def demo_rtl_env_def)
  have "trr_from_metadata_dir (gen_results st) (path_of ''/md'') (tds_str ''empty'' 3) = Inr ?c"
    using assms from_dir[of st "path_of ''/md''" "(''empty'', 3)"] by simp
  then have "run_stage demo_flow_env demo_flow_mds (path_of ''/md'') (Simulate, (''empty'', 3)) st =
      Inr (0, st\<lparr>made_dirs := the (dir_test ?c) # made_dirs st, gen_files := fs, gen_results := res2\<rparr>)"
    using c e1 e2 r by (simp add: run_rtl_def demo_flow_loads sc_lift_def md_lift_def cmd_lift_def env)
  moreover have "construct_from_pickle res2 (result_file (path_of ''/md'') (''empty'', 3)) = Inr t"
    using trr.save_load[OF e2] f(1) by (simp add: demo_flow_file)
  ultimately show ?thesis using t f r(2) by auto
qed

text \<open>The files of a good simulation pass the check.\<close>

lemma demo_flow_logs:
  "path_str (path_of ''/t/empty.3/trace_core_00000000.log'') = ''/t/empty.3/trace_core_00000000.log''"
  "path_str (path_of ''/t/empty.3/rtl_sim_stdstreams.log'') = ''/t/empty.3/rtl_sim_stdstreams.log''"
  "case process_ibex_sim_log (Some ibex_line) True of Inl _ \<Rightarrow> False | Inr _ \<Rightarrow> True"
  "case check_ibex_uvm_log ''RISC-V UVM TEST PASSED'' of Inl _ \<Rightarrow> False | Inr (uvm_pass, ls, fmode) \<Rightarrow> uvm_pass"
  by code_simp+

lemma demo_flow_checks:
  assumes "result_of (path_of ''/md'') (''empty'', 3) st = Inr t" and "good_files (gen_files st)"
    and "rtl_trace t = Some (path_of ''/t/empty.3/trace_core_00000000.log'')"
    and "rtl_log t = Some (path_of ''/t/empty.3/rtl_sim_stdstreams.log'')" and "failure_mode t = None"
    and "pickle_file t = Some (path_of ''/md/empty.3.pickle'')" and "yaml_file t = Some (path_of ''/t/empty.3/trr.yaml'')"
    and "dir_test t = Some (path_of ''/t/empty.3'')"
  shows "\<exists>st'. run_stage demo_flow_env demo_flow_mds (path_of ''/md'') (Check, (''empty'', 3)) st = Inr (0, st') \<and>
    result_of (path_of ''/md'') (''empty'', 3) st' = Inr (t\<lparr>passed := Some True\<rparr>)"
proof -
  have files: "read_files st (path_of ''/t/empty.3/trace_core_00000000.log'') = Some ibex_line"
      "read_files st (path_of ''/t/empty.3/rtl_sim_stdstreams.log'') = Some ''RISC-V UVM TEST PASSED''"
    using assms(2) by (simp_all add: read_files_def good_files_def demo_flow_logs(1,2))
  obtain rows ls fmode where logs: "process_ibex_sim_log (Some ibex_line) True = Inr rows"
      "check_ibex_uvm_log ''RISC-V UVM TEST PASSED'' = Inr (True, ls, fmode)"
    using demo_flow_logs(3,4) by (auto split: sum.splits)
  have checked: "compare_test_run (read_files st) t = Inr (t\<lparr>passed := Some True\<rparr>)"
    using assms(3-5) by (simp add: compare_test_run_def check_log_def files logs)
  obtain results where e: "trr_export id (t\<lparr>passed := Some True\<rparr>) (gen_results st) = Inr results"
    using trr_export_total[of "t\<lparr>passed := Some True\<rparr>"] assms(6-8) by fastforce
  have env: "se_resolve (st_sim demo_flow_env) = id" by (simp add: demo_flow_env_def demo_rtl_env_def)
  have "trr_from_metadata_dir (gen_results st) (path_of ''/md'') (tds_str ''empty'' 3) = Inr t"
    using assms(1) from_dir[of st "path_of ''/md''" "(''empty'', 3)"] by simp
  then have "run_stage demo_flow_env demo_flow_mds (path_of ''/md'') (Check, (''empty'', 3)) st =
      Inr (0, st\<lparr>gen_results := results\<rparr>)"
    by (simp add: check_logs_main_def checked e env)
  moreover have "construct_from_pickle results (result_file (path_of ''/md'') (''empty'', 3)) = Inr (t\<lparr>passed := Some True\<rparr>)"
    using trr.save_load[OF e] assms(6) by (simp add: demo_flow_file)
  ultimately show ?thesis by auto
qed

abbreviation demo_flow_events :: "event list" where
  "demo_flow_events \<equiv> [(Compile, (''empty'', 3)), (Simulate, (''empty'', 3)), (Check, (''empty'', 3))]"

lemma lesskeys_passed: "lesskeys (t\<lparr>passed := b\<rparr>) = lesskeys t"
proof -
  have "relative_str (t\<lparr>passed := b\<rparr>) v = relative_str t v" for v
    by (auto simp: relative_str_def split: option.split)
  then show ?thesis by (simp add: lesskeys_def)
qed

lemma demo_flow_history:
  assumes "result_of (path_of ''/md'') (''empty'', 3) st = Inr demo_flow_created"
  shows "\<exists>st' t res. run_events demo_flow_env demo_flow_mds (path_of ''/md'') demo_flow_events st = Inr st' \<and>
    result_of (path_of ''/md'') (''empty'', 3) st' = Inr t \<and> passed t = Some True \<and> testname t = Some ''empty'' \<and>
    gen_test_run_result_text (se_resolve demo_report_env) t = Inr res"
proof -
  obtain lg ws st1 where 1: "run_stage demo_flow_env demo_flow_mds (path_of ''/md'') (Compile, (''empty'', 3)) st = Inr (0, st1)"
      "result_of (path_of ''/md'') (''empty'', 3) st1 = Inr (demo_flow_compiled lg ws)"
    using demo_flow_compiles[OF assms] by blast
  obtain t st2 ks where 2: "run_stage demo_flow_env demo_flow_mds (path_of ''/md'') (Simulate, (''empty'', 3)) st1 = Inr (0, st2)"
      "result_of (path_of ''/md'') (''empty'', 3) st2 = Inr t" "good_files (gen_files st2)"
      "rtl_trace t = Some (path_of ''/t/empty.3/trace_core_00000000.log'')"
      "rtl_log t = Some (path_of ''/t/empty.3/rtl_sim_stdstreams.log'')" "testname t = Some ''empty''"
      "failure_mode t = None" "yaml_file t = Some (path_of ''/t/empty.3/trr.yaml'')"
      "dir_test t = Some (path_of ''/t/empty.3'')" "pickle_file t = Some (path_of ''/md/empty.3.pickle'')"
      "lesskeys t = Inr ks"
    using demo_flow_runs[OF 1(2)] by blast
  obtain st3 where 3: "run_stage demo_flow_env demo_flow_mds (path_of ''/md'') (Check, (''empty'', 3)) st2 = Inr (0, st3)"
      "result_of (path_of ''/md'') (''empty'', 3) st3 = Inr (t\<lparr>passed := Some True\<rparr>)"
    using demo_flow_checks[OF 2(2-5,7) 2(10,8,9)] by blast
  have "run_events demo_flow_env demo_flow_mds (path_of ''/md'') demo_flow_events st = Inr st3"
    using 1(1) 2(1) 3(1) by (simp add: run_events_Cons del: run_stage.simps)
  moreover have "lesskeys (t\<lparr>passed := Some True\<rparr>) = Inr ks"
    using 2(11) by (simp add: lesskeys_passed)
  then have "\<exists>res. gen_test_run_result_text (se_resolve demo_report_env) (t\<lparr>passed := Some True\<rparr>) = Inr res"
    by (simp add: gen_test_run_result_text_def Let_def)
  ultimately show ?thesis using 3(2) 2(6) by auto
qed

theorem regression_verdict_witness:
  "\<exists>st st' bst' rc. run_events demo_flow_env demo_flow_mds (md_dir_metadata demo_flow_md) demo_flow_events st = Inr st' \<and>
     collect_results demo_report_env (gen_results st') (md_dir_metadata demo_flow_md)
       \<lparr>bs_dirs = [], bs_files = Map.empty, bs_md = demo_flow_mds\<rparr> = (Inr rc, bst') \<and>
     (rc = 0 \<longleftrightarrow> list_all (passed_check demo_flow_env demo_flow_mds (md_dir_metadata demo_flow_md) demo_flow_events st)
        (run_names demo_flow_md demo_flow_specs))"
proof -
  have md: "md_dir_metadata demo_flow_md = path_of ''/md''" by (simp add: demo_flow_md_def)
  have names: "run_names demo_flow_md demo_flow_specs = [(''empty'', 3)]" by code_simp
  obtain store where created: "create_results id demo_inputs demo_flow_md demo_flow_specs \<lparr>pickles = [], yamls = []\<rparr> =
      Inr ([demo_flow_created], store)"
    using demo_flow_creates by blast
  let ?st = "\<lparr>made_dirs = [], gen_files = Map.empty, gen_results = store\<rparr>"
  have specs: "distinct (map (\<lambda>s. fst (fst s)) demo_flow_specs)"
      "list_all (\<lambda>s. CHR ''/'' \<notin> set (fst (fst s))) demo_flow_specs"
    by (simp_all add: demo_flow_specs_def)
  have "result_of (path_of ''/md'') (''empty'', 3) ?st = Inr demo_flow_created"
    using created_loads[OF created specs, of demo_flow_created] by (simp add: demo_flow_fields demo_flow_file)
  then obtain st' t res where h: "run_events demo_flow_env demo_flow_mds (path_of ''/md'') demo_flow_events ?st = Inr st'"
      "result_of (path_of ''/md'') (''empty'', 3) st' = Inr t" "passed t = Some True" "testname t = Some ''empty''"
      "gen_test_run_result_text (se_resolve demo_report_env) t = Inr res"
    using demo_flow_history by blast
  let ?bst = "\<lparr>bs_dirs = [], bs_files = Map.empty, bs_md = demo_flow_mds\<rparr>"
  have loads: "md_from_metadata_dir (bs_md ?bst) (path_of ''/md'') = Inr demo_flow_md" by (simp add: demo_flow_loads)
  obtain rc bst' where c: "collect_results demo_report_env (gen_results st') (path_of ''/md'') ?bst = (Inr rc, bst')"
    using demo_collected[OF loads _ _ _ h(4,3,5), of "path_of ''/md/empty.3.pickle''" "gen_results st'"] h(2)
    by (auto simp: demo_flow_file demo_flow_md_def demo_gen_metadata_def)
  have "rc = 0 \<longleftrightarrow> list_all (passed_check demo_flow_env demo_flow_mds (md_dir_metadata demo_flow_md) demo_flow_events ?st)
      (run_names demo_flow_md demo_flow_specs)"
  proof (rule regression_verdict)
    show "create_results id demo_inputs demo_flow_md demo_flow_specs \<lparr>pickles = [], yamls = []\<rparr> =
        Inr ([demo_flow_created], gen_results ?st)" using created by simp
    show "run_events demo_flow_env demo_flow_mds (md_dir_metadata demo_flow_md) demo_flow_events ?st = Inr st'"
      using h(1) by (simp only: md)
    show "snd ` set demo_flow_events \<subseteq> set (run_names demo_flow_md demo_flow_specs)" by (simp add: names)
    show "list_all (checked_last demo_flow_events) (run_names demo_flow_md demo_flow_specs)"
      by (simp add: names checked_last_def)
    show "collect_results demo_report_env (gen_results st') (md_dir_metadata demo_flow_md) ?bst = (Inr rc, bst')"
      using c by (simp only: md)
    show "md_from_metadata_dir (bs_md ?bst) (md_dir_metadata demo_flow_md) = Inr demo_flow_md"
      using loads by (simp only: md)
    show "md_pickle_file demo_flow_md = child_of (md_dir_metadata demo_flow_md) ''metadata.pickle''" by code_simp
    show "md_tests_pickle_files demo_flow_md =
        map (result_file (md_dir_metadata demo_flow_md)) (run_names demo_flow_md demo_flow_specs)"
      by code_simp
  qed (rule specs)+
  then show ?thesis using h(1) c by (auto simp only: md)
qed

text \<open>
  C10. Whatever steps of whatever runs have been taken, in whatever order, the result of every
  run of the regression is in a file of its own, loads, and names the file it was loaded from.
\<close>

theorem results_stay_at_home:
  assumes "create_results resolve inp m specs st0 = Inr (ts, gen_results st)"
    and "distinct (map (\<lambda>s. fst (fst s)) specs)" and "list_all (\<lambda>s. CHR ''/'' \<notin> set (fst (fst s))) specs"
    and "run_events env mds (md_dir_metadata m) es st = Inr st'"
    and "snd ` set es \<subseteq> set (run_names m specs)"
  shows "homed (md_dir_metadata m) (set (run_names m specs)) st'"
  by (rule events_homed[OF assms(4) created_home(1)[OF assms(1-3)] assms(5)])

theorem results_stay_at_home_witness:
  "\<exists>st st'. run_events demo_flow_env demo_flow_mds (md_dir_metadata demo_flow_md) demo_flow_events st = Inr st' \<and>
     homed (md_dir_metadata demo_flow_md) (set (run_names demo_flow_md demo_flow_specs)) st'"
proof -
  have md: "md_dir_metadata demo_flow_md = path_of ''/md''" by (simp add: demo_flow_md_def)
  have names: "run_names demo_flow_md demo_flow_specs = [(''empty'', 3)]" by code_simp
  obtain store where created: "create_results id demo_inputs demo_flow_md demo_flow_specs \<lparr>pickles = [], yamls = []\<rparr> =
      Inr ([demo_flow_created], store)"
    using demo_flow_creates by blast
  let ?st = "\<lparr>made_dirs = [], gen_files = Map.empty, gen_results = store\<rparr>"
  have specs: "distinct (map (\<lambda>s. fst (fst s)) demo_flow_specs)"
      "list_all (\<lambda>s. CHR ''/'' \<notin> set (fst (fst s))) demo_flow_specs"
    by (simp_all add: demo_flow_specs_def)
  have "result_of (path_of ''/md'') (''empty'', 3) ?st = Inr demo_flow_created"
    using created_loads[OF created specs, of demo_flow_created] by (simp add: demo_flow_fields demo_flow_file)
  then obtain st' where h: "run_events demo_flow_env demo_flow_mds (path_of ''/md'') demo_flow_events ?st = Inr st'"
    using demo_flow_history by blast
  have "homed (md_dir_metadata demo_flow_md) (set (run_names demo_flow_md demo_flow_specs)) st'"
    by (rule results_stay_at_home[of id demo_inputs demo_flow_md demo_flow_specs "\<lparr>pickles = [], yamls = []\<rparr>"
          "[demo_flow_created]" ?st demo_flow_env demo_flow_mds demo_flow_events st'])
      (use created specs h in \<open>simp_all add: md names\<close>)
  then show ?thesis using h by (auto simp only: md)
qed

end
