(* ===== verification/Strategies.thy ===== *)
theory Strategies
  imports ProofRunner PyRe
begin

text \<open>
  \<^verbatim>\<open>dv/formal/conductor.py\<close>, the construction of proof strategies: the tree of the properties by
  the prefixes of their names, races between engines, and the recursive search for a strategy.
\<close>

datatype conductor_error =
    Awaited_twice
  | Assert_failed
  | Index_error
  | Value_error string
  | Exit int

section \<open>The tree of the names\<close>

datatype prop_tree = Leaf string | Branch "prop_tree list"

text \<open>\<open>re.split\<close> for an expression that matches no empty text; \<open>None\<close> is a group without part.\<close>

function split_from :: "re \<Rightarrow> string list \<Rightarrow> char option \<Rightarrow> string \<Rightarrow> string \<Rightarrow> string option list" where
  "split_from r names c acc [] = [Some acc]"
| "split_from r names c acc (x # xs) =
     (case run r (c, x # xs) of
        [] \<Rightarrow> split_from r names (Some x) (acc @ [x]) xs
      | (g, (c', rest)) # _ \<Rightarrow>
          if length rest < length (x # xs)
          then Some acc # map (grp g) names @ split_from r names c' [] rest
          else split_from r names (Some x) (acc @ [x]) xs)"
  by pat_completeness auto
termination
  by (relation "measure (\<lambda>(_, _, _, _, s). length s)") auto

definition re_split :: "re \<Rightarrow> string list \<Rightarrow> string \<Rightarrow> string option list" where
  "re_split r names s = split_from r names None [] s"

definition CHUNK_RE :: re where
  "CHUNK_RE = Alt (Seq (Lit ''_'') (Grp ''1'' (one_of is_upper))) (Alt (Lit ''_'') (Grp ''2'' (one_of is_upper)))"

definition nts :: "string option \<Rightarrow> string" where
  "nts x = (case x of None \<Rightarrow> [] | Some s \<Rightarrow> s)"

fun triples :: "string option list \<Rightarrow> string list" where
  "triples (a # b # c # rest) = (nts a @ nts b @ nts c) # triples rest"
| "triples _ = []"

definition chunk_name :: "string \<Rightarrow> string list" where
  "chunk_name name =
     (case re_split CHUNK_RE [''1'', ''2''] name of
        [] \<Rightarrow> []
      | s # rest \<Rightarrow> (if nts s \<noteq> [] then [nts s] else []) @ triples rest)"

text \<open>One pass over the names: those that are done and the buckets of the others.\<close>

type_synonym chunked = "string list \<times> string"

fun bucket_step :: "chunked \<Rightarrow> string list \<times> (string, chunked list) pydict \<Rightarrow>
    conductor_error + string list \<times> (string, chunked list) pydict" where
  "bucket_step ([], name) (fin, buckets) = Inl Index_error"
| "bucket_step ([c], name) (fin, buckets) = Inr (fin @ [name], buckets)"
| "bucket_step (c # d # cs, name) (fin, buckets) =
     Inr (fin, dset c (dget_or buckets c [] @ [(d # cs, name)]) buckets)"

definition bucket_pass :: "chunked list \<Rightarrow> conductor_error + string list \<times> (string, chunked list) pydict" where
  "bucket_pass props = efold bucket_step props ([], [])"

definition weight :: "chunked list \<Rightarrow> nat" where
  "weight props = sum_list (map (\<lambda>p. length (fst p)) props)"

definition names_of :: "chunked list \<Rightarrow> string multiset" where
  "names_of props = mset (map snd props)"

definition bucket_sum :: "('v list \<Rightarrow> 'm::comm_monoid_add) \<Rightarrow> ('k, 'v list) pydict \<Rightarrow> 'm" where
  "bucket_sum f d = sum_list (map (\<lambda>(k, b). f b) d)"

text \<open>Adding to a bucket adds to the sum over the buckets.\<close>

lemma bucket_sum_add:
  assumes add: "\<And>xs ys. f (xs @ ys) = f xs + f ys" and nil: "f [] = 0"
  shows "bucket_sum f (dset c (dget_or d c [] @ xs) d) = bucket_sum f d + f xs"
proof (induction d)
  case Nil
  then show ?case by (simp add: bucket_sum_def dget_or_def)
next
  case (Cons kb d)
  then show ?case
    by (cases kb) (auto simp: bucket_sum_def dget_or_def add ac_simps split: option.splits)
qed

lemma bucket_nonempty: "list_all (\<lambda>(k, b). b \<noteq> []) d \<Longrightarrow> xs \<noteq> [] \<Longrightarrow>
    list_all (\<lambda>(k, b). b \<noteq> []) (dset c (dget_or d c [] @ xs) d)"
proof (induction d)
  case (Cons kb d)
  then show ?case by (cases kb) (auto simp: dget_or_def split: option.splits)
qed (simp add: dget_or_def)

lemma bucket_pass_sums:
  assumes "efold bucket_step props (fin, d) = Inr (fin', d')"
  shows "bucket_sum (\<lambda>b. weight b + length b) d' + length fin' =
      bucket_sum (\<lambda>b. weight b + length b) d + length fin + weight props \<and>
    mset fin' + bucket_sum names_of d' = mset fin + bucket_sum names_of d + names_of props \<and>
    (list_all (\<lambda>(k, b). b \<noteq> []) d \<longrightarrow> list_all (\<lambda>(k, b). b \<noteq> []) d')"
  using assms
proof (induction props arbitrary: fin d)
  case Nil
  then show ?case by (simp add: weight_def names_of_def)
next
  case (Cons p props)
  obtain fin1 d1 where 1: "bucket_step p (fin, d) = Inr (fin1, d1)" "efold bucket_step props (fin1, d1) = Inr (fin', d')"
    using Cons.prems by (auto simp: raise_simps)
  note IH = Cons.IH[OF 1(2)]
  obtain chunks name where p: "p = (chunks, name)" by (cases p)
  have add: "weight (xs @ ys) + length (xs @ ys) = (weight xs + length xs) + (weight ys + length ys)"
    "names_of (xs @ ys) = names_of xs + names_of ys" for xs ys :: "chunked list"
    by (simp_all add: weight_def names_of_def)
  show ?case
  proof (cases chunks)
    case Nil
    then show ?thesis using 1(1) p by simp
  next
    case (Cons c cs)
    show ?thesis
    proof (cases cs)
      case Nil
      then show ?thesis using 1(1) p Cons IH by (auto simp: weight_def names_of_def)
    next
      case (Cons e es)
      then have chunks: "chunks = c # e # es" using \<open>chunks = c # cs\<close> by simp
      let ?b = "[(e # es, name)]"
      have d1: "fin1 = fin" "d1 = dset c (dget_or d c [] @ ?b) d" using 1(1) p chunks by auto
      have "bucket_sum (\<lambda>b. weight b + length b) d1 = bucket_sum (\<lambda>b. weight b + length b) d + (weight ?b + length ?b)"
        unfolding d1(2) by (rule bucket_sum_add) (simp_all add: add weight_def)
      moreover have "bucket_sum names_of d1 = bucket_sum names_of d + names_of ?b"
        unfolding d1(2) by (rule bucket_sum_add) (simp_all add: add names_of_def)
      moreover have "list_all (\<lambda>(k, b). b \<noteq> []) d \<Longrightarrow> list_all (\<lambda>(k, b). b \<noteq> []) d1"
        unfolding d1(2) by (rule bucket_nonempty) simp_all
      moreover have "weight (p # props) = (weight ?b + length ?b) + weight props"
          "names_of (p # props) = names_of ?b + names_of props"
        by (simp_all add: p chunks weight_def names_of_def)
      ultimately show ?thesis using IH d1(1) by (simp add: add.assoc add.left_commute)
    qed
  qed
qed

lemma bucket_weight:
  assumes "bucket_pass props = Inr (fin, d)" "(k, b) \<in> set d"
  shows "weight b < weight props"
proof -
  have s: "bucket_sum (\<lambda>b. weight b + length b) d + length fin = weight props"
    and ne: "list_all (\<lambda>(k, b). b \<noteq> []) d"
    using bucket_pass_sums[OF assms(1)[unfolded bucket_pass_def]] by (simp_all add: bucket_sum_def)
  have "weight b + length b \<in> set (map (\<lambda>(k, b). weight b + length b) d)" using assms(2) by force
  then have "weight b + length b \<le> bucket_sum (\<lambda>b. weight b + length b) d"
    unfolding bucket_sum_def by (rule member_le_sum_list) (rule le0)
  moreover have "b \<noteq> []" using ne assms(2) by (auto simp: list_all_iff)
  ultimately show ?thesis using s by (cases b) auto
qed

text \<open>\<open>group\<close>: the names that are done, and a branch for each bucket.\<close>

function group :: "chunked list \<Rightarrow> conductor_error + prop_tree list" where
  "group props =
     (case bucket_pass props of
        Inl e \<Rightarrow> Inl e
      | Inr (fin, buckets) \<Rightarrow>
          ebind (emap (\<lambda>(k, b). group b) buckets) (\<lambda>subtrees. Inr (map Leaf fin @ map Branch subtrees)))"
  by pat_completeness auto
termination
  by (relation "measure weight") (auto dest: bucket_weight)

declare group.simps [simp del]

definition split_by_prefixes :: "string list \<Rightarrow> conductor_error + prop_tree list" where
  "split_by_prefixes names = group (map (\<lambda>name. (chunk_name name, name)) names)"

text \<open>\<open>find_all\<close>: the names of a tree, from left to right.\<close>

fun find_all :: "prop_tree \<Rightarrow> string list" where
  "find_all (Leaf s) = [s]"
| "find_all (Branch ts) = concat (map find_all ts)"

section \<open>The tree of the names, properties\<close>

lemma split_from_shape: "length names = 2 \<Longrightarrow> \<exists>a rest. split_from r names c acc s = Some a # rest \<and>
    (if rest = [] then a = acc @ s else 3 \<le> length rest)"
proof (induction r names c acc s rule: split_from.induct)
  case (2 r names c acc x xs)
  show ?case
  proof (cases "run r (c, x # xs)")
    case Nil
    obtain a t where "split_from r names (Some x) (acc @ [x]) xs = Some a # t"
        "if t = [] then a = (acc @ [x]) @ xs else 3 \<le> length t"
      using "2.IH"(1)[OF Nil "2.prems"] by blast
    then show ?thesis using Nil by simp
  next
    case (Cons m ms)
    obtain g c' rest where m: "m = (g, (c', rest))" by (cases m) auto
    show ?thesis
    proof (cases "length rest < length (x # xs)")
      case True
      then obtain a t where "split_from r names c' [] rest = Some a # t"
        using "2.IH"(2)[OF Cons] m "2.prems" by fastforce
      then show ?thesis using Cons m True "2.prems" by simp
    next
      case False
      obtain a t where "split_from r names (Some x) (acc @ [x]) xs = Some a # t"
          "if t = [] then a = (acc @ [x]) @ xs else 3 \<le> length t"
        using "2.IH"(3)[OF Cons m[symmetric] refl] False "2.prems" by auto
      then show ?thesis using Cons m False by simp
    qed
  qed
qed simp

lemma chunk_name_nonempty: "name \<noteq> [] \<Longrightarrow> chunk_name name \<noteq> []"
proof -
  assume ne: "name \<noteq> []"
  obtain a rest where s: "re_split CHUNK_RE [''1'', ''2''] name = Some a # rest"
      "if rest = [] then a = name else 3 \<le> length rest"
    using split_from_shape[of "[''1'', ''2'']" CHUNK_RE None "[]" name] unfolding re_split_def by auto
  show ?thesis
  proof (cases "rest = []")
    case True
    then show ?thesis using s ne by (simp add: chunk_name_def nts_def)
  next
    case False
    then obtain x y z w where "rest = x # y # z # w"
      using s(2) by (cases rest; cases "tl rest"; cases "tl (tl rest)") auto
    then show ?thesis using s(1) by (simp add: chunk_name_def)
  qed
qed

lemma bucket_pass_total:
  assumes "list_all (\<lambda>(cs, name). cs \<noteq> []) props"
  shows "\<exists>fin' d'. efold bucket_step props (fin, d) = Inr (fin', d') \<and>
    (list_all (\<lambda>(k, b). list_all (\<lambda>(cs, name). cs \<noteq> []) b) d \<longrightarrow>
     list_all (\<lambda>(k, b). list_all (\<lambda>(cs, name). cs \<noteq> []) b) d')"
  using assms
proof (induction props arbitrary: fin d)
  case (Cons p props)
  obtain c cs name where p: "p = (c # cs, name)" using Cons.prems by (cases p) (auto simp: neq_Nil_conv)
  show ?case
  proof (cases cs)
    case Nil
    then show ?thesis using p Cons by simp
  next
    case (Cons e es)
    let ?P = "\<lambda>(cs :: string list, name :: string). cs \<noteq> []"
    have keep: "list_all (\<lambda>(k, b). list_all ?P b) d \<Longrightarrow>
        list_all (\<lambda>(k, b). list_all ?P b) (dset c (dget_or d c [] @ [(e # es, name)]) d)"
    proof (induction d)
      case (Cons kb d)
      then show ?case by (cases kb) (auto simp: dget_or_def split: option.splits)
    qed (simp add: dget_or_def)
    then show ?thesis using Cons.IH[of fin "dset c (dget_or d c [] @ [(e # es, name)]) d"] Cons.prems p Cons by auto
  qed
qed simp

lemma group_names:
  "list_all (\<lambda>(cs, name). cs \<noteq> []) props \<Longrightarrow>
    \<exists>ts. group props = Inr ts \<and> mset (concat (map find_all ts)) = names_of props"
proof (induction props rule: group.induct)
  case (1 props)
  obtain fin d where p: "bucket_pass props = Inr (fin, d)"
      "list_all (\<lambda>(k, b). list_all (\<lambda>(cs, name). cs \<noteq> []) b) d"
    using bucket_pass_total[OF "1.prems", of "[]" "[]"] by (auto simp: bucket_pass_def)
  have sub: "\<exists>ts. group b = Inr ts \<and> mset (concat (map find_all ts)) = names_of b" if "(k, b) \<in> set d" for k b
    using "1.IH"[OF p(1) refl that refl] p(2) that by (auto simp: list_all_iff)
  have all: "\<exists>tss. emap (\<lambda>(k, b). group b) d' = Inr tss \<and>
      mset (concat (map find_all (map Branch tss))) = bucket_sum names_of d'" if "set d' \<subseteq> set d" for d'
    using that
  proof (induction d')
    case (Cons kb d')
    obtain k b where kb: "kb = (k, b)" by (cases kb)
    obtain ts where "group b = Inr ts" "mset (concat (map find_all ts)) = names_of b"
      using sub[of k b] Cons.prems kb by auto
    moreover obtain tss where "emap (\<lambda>(k, b). group b) d' = Inr tss"
        "mset (concat (map find_all (map Branch tss))) = bucket_sum names_of d'"
      using Cons by auto
    ultimately show ?case using kb by (simp add: bucket_sum_def)
  qed (simp add: bucket_sum_def)
  obtain tss where t: "emap (\<lambda>(k, b). group b) d = Inr tss"
      "mset (concat (map find_all (map Branch tss))) = bucket_sum names_of d"
    using all[of d] by auto
  have "mset fin + bucket_sum names_of d = names_of props"
    using bucket_pass_sums[OF p(1)[unfolded bucket_pass_def]] by (simp add: bucket_sum_def)
  moreover have "concat (map find_all (map Leaf fin)) = fin" by (induction fin) auto
  ultimately show ?case using p(1) t by (subst group.simps) (simp del: map_map)
qed

text \<open>
  C22. No property is lost in the tree: for names that are not empty the splitting ends with a
  tree that holds every name as often as it was given.
\<close>

theorem split_by_prefixes_names:
  assumes "[] \<notin> set names"
  shows "\<exists>ts. split_by_prefixes names = Inr ts \<and> mset (concat (map find_all ts)) = mset names"
proof -
  let ?p = "map (\<lambda>name. (chunk_name name, name)) names"
  have "chunk_name name \<noteq> []" if "name \<in> set names" for name
    using chunk_name_nonempty[of name] that assms by metis
  then have "list_all (\<lambda>(cs, name). cs \<noteq> []) ?p" by (simp add: list_all_iff)
  from group_names[OF this] show ?thesis
    by (simp add: split_by_prefixes_def names_of_def comp_def)
qed

lemma split_by_prefixes_names_witness:
  "\<exists>ts. split_by_prefixes [''Ibex_MemErr'', ''Ibex_MemGnt'', ''Live''] = Inr ts \<and>
     mset (concat (map find_all ts)) = mset [''Ibex_MemErr'', ''Ibex_MemGnt'', ''Live'']"
  by (rule split_by_prefixes_names) simp

section \<open>Races\<close>

text \<open>
  The tasks of a race are coroutines.  The wrappers are closures over the variable of the loop,
  and all of them run after the loop, so each awaits the last task; a coroutine that is awaited
  for the second time raises an error, and the group of tasks passes it on.  A task here is what
  awaiting it gives.
\<close>

definition await_last :: "(conductor_error + 'a option) list \<Rightarrow> nat \<Rightarrow> conductor_error + 'a option" where
  "await_last tasks i = (if i = 0 then last tasks else Inl Awaited_twice)"

definition race :: "(conductor_error + 'a option) list \<Rightarrow> conductor_error + 'a option" where
  "race tasks =
     ebind (emap (await_last tasks) [0..<length tasks])
       (\<lambda>rs. Inr (foldl (\<lambda>winner r. case r of Some x \<Rightarrow> Some x | None \<Rightarrow> winner) None rs))"

section \<open>Exploring\<close>

record strategy =
  st_step :: int
  st_props :: "string list"
  st_config :: string
  st_res :: process_result

text \<open>
  What the outside does: the file for some properties can be prepared, and an engine ends with a
  result on some properties within a time.
\<close>

record engines =
  aig_ok :: "int \<Rightarrow> string list \<Rightarrow> bool"
  attempt :: "string \<Rightarrow> int \<Rightarrow> string list \<Rightarrow> rat option \<Rightarrow> process_result"

definition explore_one :: "engines \<Rightarrow> int \<Rightarrow> string list \<Rightarrow> rat \<Rightarrow> string \<Rightarrow> (string \<times> process_result) option" where
  "explore_one env step props tmo config =
     (let result = attempt env config step props (Some tmo)
      in if res_code result \<in> {Some 10, Some 20} then Some (config, result) else None)"

definition explore :: "engines \<Rightarrow> int \<Rightarrow> string list \<Rightarrow> (string \<times> rat) list \<Rightarrow> rat \<Rightarrow>
    conductor_error + (string \<times> process_result) option" where
  "explore env step props configs tmo =
     ebind (guard_else (aig_ok env step props) Assert_failed) (\<lambda>_.
       race (map (\<lambda>(config, mem). Inr (explore_one env step props tmo config)) configs))"

definition ENGINES :: "bool \<Rightarrow> (string \<times> rat) list" where
  "ENGINES difficult =
     (if difficult then [(''rIC3 -e kind --no-preproc'', 10)]
      else [(''rIC3'', 10), (''rIC3 -e kind --no-preproc'', 10)])"

lemma efold_cong [fundef_cong]:
  "xs = ys \<Longrightarrow> s = t \<Longrightarrow> (\<And>x s. x \<in> set ys \<Longrightarrow> f x s = g x s) \<Longrightarrow> efold f xs s = efold g ys t"
proof (induction ys arbitrary: xs s t)
  case (Cons y ys)
  then show ?case by (auto intro!: ebind_cong)
qed simp

fun nodes :: "prop_tree \<Rightarrow> nat" where
  "nodes (Leaf s) = 1"
| "nodes (Branch ts) = Suc (sum_list (map nodes ts))"

definition is_leaf :: "prop_tree \<Rightarrow> bool" where
  "is_leaf t = (case t of Leaf _ \<Rightarrow> True | Branch _ \<Rightarrow> False)"

definition subtrees :: "prop_tree \<Rightarrow> prop_tree list" where
  "subtrees t = (case t of Leaf _ \<Rightarrow> [] | Branch ts \<Rightarrow> ts)"

text \<open>How a tree is split: each leaf alone, or the branches and the leaves together.\<close>

definition split_parts :: "prop_tree list \<Rightarrow> prop_tree list list" where
  "split_parts ts =
     (if list_all is_leaf ts then map (\<lambda>t. [t]) ts
      else map subtrees (filter (\<lambda>t. \<not> is_leaf t) ts) @ [filter is_leaf ts])"

definition weight_of :: "prop_tree list \<Rightarrow> nat" where
  "weight_of ts = sum_list (map nodes ts)"

lemma nodes_pos [simp]: "0 < nodes t"
  by (cases t) auto

lemma weight_of_length: "length ts \<le> weight_of ts"
proof (induction ts)
  case (Cons t ts)
  moreover have "1 \<le> nodes t" by (cases t) auto
  ultimately show ?case by (simp add: weight_of_def)
qed (simp add: weight_of_def)

lemma weight_of_split: "weight_of ts = weight_of (filter is_leaf ts) + weight_of (filter (\<lambda>t. \<not> is_leaf t) ts)"
  by (induction ts) (auto simp: weight_of_def)

lemma weight_of_member: "t \<in> set ts \<Longrightarrow> nodes t \<le> weight_of ts"
  unfolding weight_of_def by (rule member_le_sum_list) (simp_all)

lemma weight_subtrees: "weight_of (subtrees t) < nodes t"
  by (cases t) (auto simp: subtrees_def weight_of_def)

lemma split_parts_weight:
  assumes "part \<in> set (split_parts ts)" "1 < length ts"
  shows "weight_of part < weight_of ts"
proof (cases "list_all is_leaf ts")
  case True
  then obtain t where t: "t \<in> set ts" "part = [t]" using assms(1) by (auto simp: split_parts_def)
  then have "is_leaf t" using True by (simp add: list_all_iff)
  then have "nodes t = 1" by (cases t) (auto simp: is_leaf_def)
  then show ?thesis using t(2) weight_of_length[of ts] assms(2) by (simp add: weight_of_def)
next
  case False
  then obtain u where u: "u \<in> set ts" "\<not> is_leaf u" by (auto simp: list_all_iff)
  from assms(1) False consider t where "t \<in> set ts" "part = subtrees t" | "part = filter is_leaf ts"
    by (auto simp: split_parts_def)
  then show ?thesis
  proof cases
    case 1
    then show ?thesis using weight_subtrees[of t] weight_of_member[of t ts] by simp
  next
    case 2
    have "nodes u \<le> weight_of (filter (\<lambda>t. \<not> is_leaf t) ts)" using u by (intro weight_of_member) simp
    moreover have "1 \<le> nodes u" by (cases u) auto
    ultimately show ?thesis using 2 weight_of_split[of ts] by simp
  qed
qed

type_synonym found = "strategy list \<times> (int \<times> string) list"

definition without_split :: "engines \<Rightarrow> int \<Rightarrow> bool \<Rightarrow> string list \<Rightarrow> (int \<times> string) list \<Rightarrow>
    conductor_error + found option" where
  "without_split env step difficult props failures =
     ebind (explore env step props (ENGINES difficult) 120) (\<lambda>res. Inr (case res of
         Some (config, r) \<Rightarrow>
           if res_code r = Some 20
           then Some ([\<lparr>st_step = step, st_props = props, st_config = config, st_res = r\<rparr>], failures)
           else None
       | None \<Rightarrow> None))"

definition explore_single :: "engines \<Rightarrow> int \<Rightarrow> bool \<Rightarrow> string list \<Rightarrow> (int \<times> string) list \<Rightarrow>
    conductor_error + found" where
  "explore_single env step difficult props failures =
     ebind (explore env step props (ENGINES difficult) (if difficult then 1800 else 600)) (\<lambda>res. Inr (case res of
         Some (config, r) \<Rightarrow>
           if res_code r = Some 20
           then ([\<lparr>st_step = step, st_props = props, st_config = config, st_res = r\<rparr>], failures)
           else ([], failures)
       | None \<Rightarrow> ([], failures @ [(step, hd props)])))"

text \<open>
  The parts of a split are searched side by side; their failures are collected in the order of
  the parts.  A tree of one child that holds several properties has a branch as that child.
\<close>

function build_strategy_rec :: "engines \<Rightarrow> int \<Rightarrow> bool \<Rightarrow> prop_tree list \<Rightarrow> (int \<times> string) list \<Rightarrow>
    conductor_error + found" where
  "build_strategy_rec env step difficult ts failures =
     (let all_props = concat (map find_all ts)
      in if all_props = [] then Inr ([], failures)
         else if length all_props = 1 then explore_single env step difficult all_props failures
         else if length ts = 1 then build_strategy_rec env step difficult (subtrees (hd ts)) failures
         else ebind (race [without_split env step difficult all_props failures,
                           ebind (efold (\<lambda>part (flat, fs).
                               ebind (build_strategy_rec env step difficult part fs) (\<lambda>(ss, fs'). Inr (flat @ ss, fs')))
                             (split_parts ts) ([], failures)) (\<lambda>r. Inr (Some r))])
                (\<lambda>winner. of_option Assert_failed winner))"
  by pat_completeness auto
termination
proof (relation "measure (\<lambda>(_, _, _, ts, _). weight_of ts)", goal_cases)
  case (2 env step difficult ts failures all_props)
  then obtain t where "ts = [t]" by (cases ts) auto
  then show ?case using weight_subtrees[of t] by (simp add: weight_of_def)
next
  case (3 env step difficult ts failures all_props part s flat fs)
  then have "1 < length ts" by (cases ts; cases "tl ts") auto
  then show ?case using split_parts_weight[of part ts] 3 by simp
qed simp

declare build_strategy_rec.simps [simp del]

section \<open>Exploring, properties\<close>

lemma race_two: "race (a # b # ts) = Inr w \<Longrightarrow> False"
proof -
  assume "race (a # b # ts) = Inr w"
  then have "\<exists>rs. emap (await_last (a # b # ts)) [0..<Suc (Suc (length ts))] = Inr rs"
    by (auto simp: race_def raise_simps)
  then obtain rs where "list_all2 (\<lambda>i r. await_last (a # b # ts) i = Inr r) [0..<Suc (Suc (length ts))] rs"
    unfolding emap_eq_Inr by blast
  then have "\<exists>r. await_last (a # b # ts) ([0..<Suc (Suc (length ts))] ! 1) = Inr r"
    by (auto simp: list_all2_conv_all_nth simp del: upt_Suc)
  then show False by (simp add: await_last_def del: upt_Suc)
qed

lemma race_one [simp]: "race [Inr x] = Inr x"
  by (simp add: race_def await_last_def split: option.split)

lemma explore_easy: "explore env step props (ENGINES False) tmo = Inr w \<Longrightarrow> False"
  using race_two by (fastforce simp: explore_def ENGINES_def raise_simps)

text \<open>
  Without the option for hard properties the search never finds a strategy: two engines race
  for every set of properties, and a race of two always ends with an error, so every search with
  a property in its tree fails, whatever the engines would prove.
\<close>

theorem easy_search_fails:
  assumes "concat (map find_all ts) \<noteq> []"
  shows "\<exists>e. build_strategy_rec env step False ts failures = Inl e"
  using assms
proof (induction "weight_of ts" arbitrary: ts rule: less_induct)
  case less
  let ?props = "concat (map find_all ts)"
  let ?b = "build_strategy_rec env step False ts failures"
  consider "length ?props = 1" | "length ?props \<noteq> 1" "length ts = 1" | "length ?props \<noteq> 1" "length ts \<noteq> 1" by blast
  then show ?case
  proof cases
    case 1
    have "\<nexists>r. explore_single env step False ?props failures = Inr r"
      using explore_easy by (auto simp: explore_single_def raise_simps)
    moreover have "?b = explore_single env step False ?props failures"
      using 1 less.prems by (subst build_strategy_rec.simps) (auto simp: Let_def)
    ultimately show ?thesis by (metis sum.exhaust)
  next
    case 2
    then obtain t where t: "ts = [t]" by (cases ts) auto
    have "find_all t = concat (map find_all (subtrees t))"
      using 2 t by (cases t) (auto simp: subtrees_def)
    then have "concat (map find_all (subtrees t)) \<noteq> []" using less.prems t by simp
    then have "\<exists>e. build_strategy_rec env step False (subtrees t) failures = Inl e"
      using less.hyps[of "subtrees t"] weight_subtrees[of t] t by (simp add: weight_of_def)
    moreover have "?b = build_strategy_rec env step False (subtrees t) failures"
      using 2 t less.prems by (subst build_strategy_rec.simps) (simp add: Let_def)
    ultimately show ?thesis by simp
  next
    case 3
    have "\<exists>x y f. ?b = ebind (race [x, y :: conductor_error + found option]) f"
      by (subst build_strategy_rec.simps) (simp only: Let_def less.prems 3 if_False, blast)
    then obtain x y f where "?b = ebind (race [x, y :: conductor_error + found option]) f" by blast
    then have "\<nexists>w. ?b = Inr w" using race_two[of x y "[]"] by (auto simp: raise_simps)
    then show ?thesis by (metis sum.exhaust)
  qed
qed

definition proving :: engines where
  "proving = \<lparr>aig_ok = (\<lambda>s p. True), attempt = (\<lambda>c s p t. \<lparr>res_code = Some 20, res_reason = OK, res_mem = 1,
     res_dt = 1, res_out = None, res_err = None\<rparr>)\<rparr>"

lemma easy_search_fails_witness: "\<exists>e. build_strategy_rec proving 0 False [Leaf ''Live''] [] = Inl e"
  by (rule easy_search_fails) simp

lemma hard_single:
  assumes "aig_ok env step [p]"
  shows "let r = attempt env ''rIC3 -e kind --no-preproc'' step [p] (Some 1800)
    in build_strategy_rec env step True [Leaf p] failures =
      Inr (if res_code r = Some 20
           then [\<lparr>st_step = step, st_props = [p], st_config = ''rIC3 -e kind --no-preproc'', st_res = r\<rparr>] else [],
           if res_code r \<in> {Some 10, Some 20} then failures else failures @ [(step, p)])"
  using assms
  by (subst build_strategy_rec.simps)
    (auto simp: Let_def explore_single_def explore_def ENGINES_def explore_one_def)

text \<open>
  With that option the search for a single property gives a step exactly when its one engine
  proves it, the step carries the engine's result, and the property is reported as a failure
  exactly when the engine neither proves nor refutes it.
\<close>

theorem hard_search_single:
  assumes "aig_ok env step [p]"
  shows "let r = attempt env ''rIC3 -e kind --no-preproc'' step [p] (Some 1800)
    in build_strategy_rec env step True [Leaf p] failures =
      Inr (if res_code r = Some 20
           then [\<lparr>st_step = step, st_props = [p], st_config = ''rIC3 -e kind --no-preproc'', st_res = r\<rparr>] else [],
           if res_code r \<in> {Some 10, Some 20} then failures else failures @ [(step, p)])"
  by (rule hard_single[OF assms])

lemma hard_search_single_witness:
  "let r = attempt proving ''rIC3 -e kind --no-preproc'' 3 [''Live''] (Some 1800)
    in build_strategy_rec proving 3 True [Leaf ''Live''] [] =
      Inr (if res_code r = Some 20
           then [\<lparr>st_step = 3, st_props = [''Live''], st_config = ''rIC3 -e kind --no-preproc'', st_res = r\<rparr>] else [],
           if res_code r \<in> {Some 10, Some 20} then [] else [] @ [(3, ''Live'')])"
  by (rule hard_search_single) (simp add: proving_def)

end
