(* ===== verification/Conductor.thy ===== *)
theory Conductor
  imports Strategies PyVal
begin

text \<open>
  \<^verbatim>\<open>dv/formal/conductor.py\<close>, the modes of the program: the strategies kept in files, running
  them, and the modes that explore, prove and report, on the properties of a proof run.
\<close>

section \<open>Arguments and files\<close>

record conductor_args =
  ca_mode :: string
  ca_fresh :: bool
  ca_no_store :: bool
  ca_by_step :: bool
  ca_properties :: "string list"
  ca_missing :: bool
  ca_start :: int
  ca_bmc_step :: int
  ca_bmc_start :: int
  ca_hard :: bool
  ca_no_run :: bool
  ca_check_complete :: bool

definition SKIPPED_PROPS :: "string list" where
  "SKIPPED_PROPS =
     [''MType_Div_Data'', ''MType_Rem_Data'', ''MType_Mul_Data'', ''MType_RemU_Data'', ''MType_MulH_Data'',
      ''MType_DivU_Data'', ''MType_MulHU_Data'', ''MType_MulHSH_Data'']"

text \<open>The values of JSON, numbers with and without a fraction apart.\<close>

datatype json = J_null | J_int int | J_num rat | J_str string | J_list "json list"

text \<open>The file of each step, if it is there; \<open>None\<close> is one that does not decode.\<close>

type_synonym strategy_files = "int \<rightharpoonup> json option"

definition reason_str :: "reason \<Rightarrow> string" where
  "reason_str r = (case r of OK \<Rightarrow> ''OK'' | TIMEOUT \<Rightarrow> ''TIMEOUT'' | UNINTERESTED \<Rightarrow> ''UNINTERESTED'')"

definition opt_json :: "('a \<Rightarrow> json) \<Rightarrow> 'a option \<Rightarrow> json" where
  "opt_json f x = (case x of None \<Rightarrow> J_null | Some a \<Rightarrow> f a)"

definition encode_strategy :: "strategy \<Rightarrow> json" where
  "encode_strategy s =
     J_list [J_int (st_step s), J_list (map J_str (st_props s)), J_str (st_config s),
       J_list [opt_json J_int (res_code (st_res s)), J_num (res_mem (st_res s)), J_num (res_dt (st_res s)),
               J_str (reason_str (res_reason (st_res s))), opt_json J_str (res_out (st_res s)),
               opt_json J_str (res_err (st_res s))]]"

text \<open>
  Reading back, for values of the types that are stored: a file with others, which the program
  does not write, is an error here.  The texts of the process may be missing at the end.
\<close>

definition json_str :: "json \<Rightarrow> conductor_error + string" where
  "json_str j = (case j of J_str s \<Rightarrow> Inr s | _ \<Rightarrow> Inl (Value_error ''str''))"

definition json_num :: "json \<Rightarrow> conductor_error + rat" where
  "json_num j = (case j of J_num q \<Rightarrow> Inr q | J_int i \<Rightarrow> Inr (of_int i) | _ \<Rightarrow> Inl (Value_error ''float''))"

definition json_opt :: "(json \<Rightarrow> conductor_error + 'a) \<Rightarrow> json \<Rightarrow> conductor_error + 'a option" where
  "json_opt f j = (if j = J_null then Inr None else ebind (f j) (\<lambda>a. Inr (Some a)))"

definition json_int :: "json \<Rightarrow> conductor_error + int" where
  "json_int j = (case j of J_int i \<Rightarrow> Inr i | _ \<Rightarrow> Inl (Value_error ''int''))"

definition read_reason :: "string \<Rightarrow> conductor_error + reason" where
  "read_reason s = of_option (Value_error s) (List.find (\<lambda>r. reason_str r = s) [OK, TIMEOUT, UNINTERESTED])"

definition item_at :: "nat \<Rightarrow> json list \<Rightarrow> conductor_error + json" where
  "item_at i js = (if i < length js then Inr (js ! i) else Inl Index_error)"

definition json_items :: "json \<Rightarrow> conductor_error + json list" where
  "json_items j = (case j of J_list js \<Rightarrow> Inr js | _ \<Rightarrow> Inl (Value_error ''list''))"

definition decode_result :: "json list \<Rightarrow> conductor_error + process_result" where
  "decode_result js =
     ebind (ebind (item_at 0 js) (json_opt json_int)) (\<lambda>c. ebind (ebind (item_at 3 js) json_str) (\<lambda>rs.
     ebind (read_reason rs) (\<lambda>r. ebind (ebind (item_at 1 js) json_num) (\<lambda>m. ebind (ebind (item_at 2 js) json_num) (\<lambda>d.
     ebind (if 4 < length js then json_opt json_str (js ! 4) else Inr None) (\<lambda>out.
     ebind (if 5 < length js then json_opt json_str (js ! 5) else Inr None) (\<lambda>err.
       Inr \<lparr>res_code = c, res_reason = r, res_mem = m, res_dt = d, res_out = out, res_err = err\<rparr>)))))))"

definition decode_strategy :: "json \<Rightarrow> conductor_error + strategy" where
  "decode_strategy encoded =
     ebind (json_items encoded) (\<lambda>e.
     ebind (ebind (item_at 0 e) json_int) (\<lambda>step.
     ebind (ebind (item_at 1 e) json_items) (\<lambda>ps. ebind (emap json_str ps) (\<lambda>props.
     ebind (ebind (item_at 2 e) json_str) (\<lambda>config.
     ebind (ebind (item_at 3 e) json_items) (\<lambda>rs. ebind (decode_result rs) (\<lambda>r.
       Inr \<lparr>st_step = step, st_props = props, st_config = config, st_res = r\<rparr>)))))))"

definition load_strategy :: "conductor_args \<Rightarrow> strategy_files \<Rightarrow> int \<Rightarrow> conductor_error + strategy list option" where
  "load_strategy args files step =
     (if ca_fresh args then Inr None
      else case files step of
             None \<Rightarrow> Inr None
           | Some None \<Rightarrow> Inr None
           | Some (Some j) \<Rightarrow> ebind (json_items j) (\<lambda>js. ebind (emap decode_strategy js) (\<lambda>ss. Inr (Some ss))))"

text \<open>The files after the strategy of a step was stored, and the strategy as it reads back.\<close>

definition store_strategy :: "conductor_args \<Rightarrow> int \<Rightarrow> strategy list \<Rightarrow> strategy_files \<Rightarrow>
    conductor_error + strategy list \<times> strategy_files" where
  "store_strategy args step ss files =
     (let encoded = map encode_strategy ss
      in ebind (emap decode_strategy encoded) (\<lambda>ss'.
           Inr (ss', if ca_no_store args then files else files(step \<mapsto> Some (J_list encoded)))))"

text \<open>The properties without a proof; the code keeps them in a set, here in the order given.\<close>

definition missing_from :: "strategy list \<Rightarrow> string list \<Rightarrow> string list" where
  "missing_from ss props = remdups (filter (\<lambda>p. p \<notin> set (concat (map st_props ss))) props)"

section \<open>Running strategies\<close>

function split_str_acc :: "string \<Rightarrow> string \<Rightarrow> string \<Rightarrow> string list" where
  "split_str_acc sep acc s =
     (if s = [] then [acc]
      else if sep \<noteq> [] \<and> prefix sep s then acc # split_str_acc sep [] (drop (length sep) s)
      else split_str_acc sep (acc @ [hd s]) (tl s))"
  by pat_completeness auto
termination
  by (relation "measure (\<lambda>(_, _, s). length s)") (auto simp: prefix_def)

declare split_str_acc.simps [simp del]

definition split_str :: "string \<Rightarrow> string \<Rightarrow> string list" where
  "split_str sep s = split_str_acc sep [] s"

text \<open>A proof by induction starts again at the depth at which it succeeded.\<close>

definition rerun_config :: "strategy \<Rightarrow> conductor_error + string" where
  "rerun_config s =
     (case res_err (st_res s) of
        None \<Rightarrow> Inr (st_config s)
      | Some err \<Rightarrow>
          if contains '' -e kind '' (st_config s)
          then case split_str ''[INFO ] k-induction proofed in depth '' err of
                 [_, n] \<Rightarrow> ebind (of_option (Value_error (strip n)) (read_int 10 (strip n)))
                            (\<lambda>i. Inr (st_config s @ '' --start '' @ show_int i))
               | _ \<Rightarrow> Inr (st_config s)
          else Inr (st_config s))"

definition prove :: "engines \<Rightarrow> string \<Rightarrow> int \<Rightarrow> string list \<Rightarrow> conductor_error + process_result" where
  "prove env config step props =
     ebind (guard_else (aig_ok env step props) Assert_failed) (\<lambda>_. Inr (attempt env config step props None))"

text \<open>The strategy in the order it runs, the slowest first, and with each step its result.\<close>

definition run_strategy :: "engines \<Rightarrow> strategy list \<Rightarrow> conductor_error + (process_result \<times> strategy) list" where
  "run_strategy env ss =
     (let sorted = sort_key (\<lambda>s. - res_dt (st_res s)) ss
      in ebind (emap rerun_config sorted) (\<lambda>confs.
         ebind (emap (\<lambda>(conf, s). prove env conf (st_step s) (st_props s)) (zip confs sorted)) (\<lambda>rs.
           Inr (zip rs sorted))))"

section \<open>Modes\<close>

definition enum :: "'a list \<Rightarrow> (int \<times> 'a) list" where
  "enum xs = zip (map int [0..<length xs]) xs"

text \<open>The strategies of the steps that are not skipped; with the option, run as they are loaded.\<close>

definition checked :: "engines \<Rightarrow> conductor_args \<Rightarrow> strategy list \<Rightarrow> conductor_error + unit" where
  "checked env args ss =
     (if ca_by_step args then ebind (run_strategy env ss) (\<lambda>_. Inr ()) else Inr ())"

definition prove_steps :: "engines \<Rightarrow> conductor_args \<Rightarrow> strategy_files \<Rightarrow> string list list \<Rightarrow>
    conductor_error + strategy list" where
  "prove_steps env args files by_step =
     efold (\<lambda>(step, props) acc.
         if step < ca_start args then Inr acc
         else ebind (load_strategy args files step) (\<lambda>ss.
                case ss of
                  None \<Rightarrow> Inr acc
                | Some [] \<Rightarrow> Inr acc
                | Some ss' \<Rightarrow>
                    ebind (checked env args ss') (\<lambda>_. Inr (acc @ ss'))))
       (enum by_step) []"

definition prove_mode :: "engines \<Rightarrow> conductor_args \<Rightarrow> strategy_files \<Rightarrow> (int \<times> string) list \<Rightarrow>
    string list list \<Rightarrow> conductor_error + (process_result \<times> strategy) list" where
  "prove_mode env args files all_props by_step =
     ebind (prove_steps env args files by_step) (\<lambda>all_strategies.
     let covered = concat (map st_props all_strategies);
         uncovered = filter (\<lambda>p. p \<notin> set covered) (map snd all_props)
     in ebind (guard_else (\<not> (ca_check_complete args \<and> uncovered \<noteq> [])) (Exit 1)) (\<lambda>_.
        if ca_by_step args then Inr []
        else ebind (run_strategy env all_strategies) (\<lambda>results.
               ebind (guard_else (list_all (\<lambda>(r, s). res_code r = Some 20) results) (Exit 1)) (\<lambda>_. Inr results))))"

definition construct_strategy :: "engines \<Rightarrow> conductor_args \<Rightarrow> strategy_files \<Rightarrow> int \<Rightarrow> string list \<Rightarrow>
    conductor_error + (bool \<times> strategy list \<times> string list) \<times> strategy_files" where
  "construct_strategy env args files step props =
     ebind (load_strategy args files step) (\<lambda>loaded.
     let ss = (case loaded of None \<Rightarrow> [] | Some x \<Rightarrow> x); not_done = missing_from ss props
     in if not_done = [] then Inr ((False, ss, []), files)
        else
          ebind (if ca_hard args
                 then efold (\<lambda>prop (acc, fs).
                        ebind (build_strategy_rec env step True [Leaf prop] fs) (\<lambda>(x, fs'). Inr (acc @ x, fs')))
                      not_done (ss, [])
                 else ebind (split_by_prefixes not_done) (\<lambda>blocks.
                        ebind (build_strategy_rec env step False blocks []) (\<lambda>(x, fs). Inr (ss @ x, fs))))
            (\<lambda>(ss', failures).
          ebind (store_strategy args step ss' files) (\<lambda>(ss'', files').
            Inr ((True, ss'', map snd failures), files'))))"

definition explore_mode :: "engines \<Rightarrow> conductor_args \<Rightarrow> strategy_files \<Rightarrow> string list list \<Rightarrow>
    conductor_error + string list \<times> strategy_files" where
  "explore_mode env args files by_step =
     efold (\<lambda>(step, props) (all_failures, fs).
         if step < ca_start args then Inr (all_failures, fs)
         else ebind (construct_strategy env args fs step props) (\<lambda>((new, ss, failures), fs').
                ebind (if \<not> ca_no_run args \<and> (\<not> new \<or> length ss \<noteq> 1)
                       then ebind (run_strategy env ss) (\<lambda>_. Inr ()) else Inr ())
                  (\<lambda>_. Inr (all_failures @ failures, fs'))))
       (enum by_step) ([], files)"

text \<open>What the mode reports: the steps of the strategies and, for each step, the properties without one.\<close>

definition info_mode :: "conductor_args \<Rightarrow> strategy_files \<Rightarrow> string list list \<Rightarrow>
    conductor_error + nat \<times> (int \<times> string list) list" where
  "info_mode args files by_step =
     efold (\<lambda>(step, props) (total, report).
         ebind (load_strategy args files step) (\<lambda>loaded.
         let ss = (case loaded of None \<Rightarrow> [] | Some x \<Rightarrow> x);
             accounted_for = concat (map st_props ss);
             unaccounted = filter (\<lambda>p. p \<notin> set accounted_for) props
         in Inr (total + length ss, report @ [(step, unaccounted)])))
       (enum by_step) (0, [])"

section \<open>Selecting the properties\<close>

text \<open>\<open>StepN_rest\<close> between the dollar signs, after a prefix of five characters.\<close>

definition preproc_name :: "string \<Rightarrow> conductor_error + int \<times> string" where
  "preproc_name name =
     (case split_on CHR ''$'' name of
        _ # part # _ \<Rightarrow>
          (let first = drop 5 part
           in ebind (guard_else (prefix ''Step'' first) Assert_failed) (\<lambda>_.
                case split1 CHR ''_'' first of
                  (step, Some rest) \<Rightarrow>
                    ebind (of_option (Value_error (drop 4 step)) (read_int 10 (drop 4 step))) (\<lambda>n. Inr (n, rest))
                | (step, None) \<Rightarrow> Inl (Value_error ''unpack'')))
      | _ \<Rightarrow> Inl Index_error)"

definition pad_to :: "int \<Rightarrow> 'a list list \<Rightarrow> 'a list list" where
  "pad_to n xs = xs @ replicate (nat (n + 1) - length xs) []"

text \<open>A negative step counts from the end of the list.\<close>

definition add_at :: "int \<Rightarrow> 'a \<Rightarrow> 'a list list \<Rightarrow> conductor_error + 'a list list" where
  "add_at step x xs =
     (let i = (if step < 0 then step + int (length xs) else step)
      in if i < 0 \<or> int (length xs) \<le> i then Inl Index_error
         else Inr (xs[nat i := xs ! nat i @ [x]]))"

definition group_by_step :: "(int \<times> string) list \<Rightarrow> int option \<Rightarrow> conductor_error + string list list" where
  "group_by_step names max_step =
     ebind (efold (\<lambda>(step, name) by_step. add_at step name (pad_to step by_step)) names []) (\<lambda>by_step.
       Inr (case max_step of None \<Rightarrow> by_step | Some m \<Rightarrow> pad_to m by_step))"

definition select_props :: "conductor_args \<Rightarrow> strategy_files \<Rightarrow> (int \<times> string) list \<Rightarrow>
    conductor_error + (int \<times> string) list" where
  "select_props args files names =
     ebind (group_by_step names None) (\<lambda>by_step.
     ebind (emap (\<lambda>prop. of_option (Exit 1)
              (map_option (\<lambda>(step, _). (step, prop)) (List.find (\<lambda>(step, name). prop = name) names)))
            (ca_properties args)) (\<lambda>props.
     if ca_missing args
     then efold (\<lambda>(step, sprops) acc. ebind (load_strategy args files step) (\<lambda>ss.
                   Inr (case ss of None \<Rightarrow> acc | Some ss' \<Rightarrow> acc @ map (Pair step) (missing_from ss' sprops))))
            (enum by_step) props
     else Inr (if props = [] then names else props)))"

definition ends_with :: "string \<Rightarrow> string \<Rightarrow> bool" where
  "ends_with s suf \<longleftrightarrow> suffix suf s"

text \<open>What a run ends with: the result of its mode.\<close>

datatype mode_result =
    Bmc "(int \<times> string) list"
  | Info "nat \<times> (int \<times> string list) list"
  | Proved "(process_result \<times> strategy) list"
  | Explored "string list \<times> strategy_files"
  | Usage

definition conductor_main :: "engines \<Rightarrow> conductor_args \<Rightarrow> strategy_files \<Rightarrow> string list \<Rightarrow>
    conductor_error + mode_result" where
  "conductor_main env args files asserts =
     ebind (emap preproc_name asserts) (\<lambda>all_names.
     ebind (guard_else (all_names \<noteq> []) (Value_error ''max() arg is an empty sequence'')) (\<lambda>_.
     let max_step = Max (set (map fst all_names));
         names = filter (\<lambda>(step, name). \<not> ends_with name ''_Cover'') all_names
     in ebind (select_props args files names) (\<lambda>selected.
        let skipped = filter (\<lambda>(step, p). p \<in> set SKIPPED_PROPS) selected;
            props = filter (\<lambda>(step, p). p \<notin> set SKIPPED_PROPS) selected
        in ebind (group_by_step skipped (Some max_step)) (\<lambda>skipped_by_step.
           ebind (group_by_step props (Some max_step)) (\<lambda>by_step.
             if ca_mode args = ''bmc'' then Inr (Bmc props)
             else if ca_mode args = ''info''
             then ebind (info_mode args files by_step) (\<lambda>r. Inr (Info r))
             else if ca_mode args = ''prove''
             then ebind (prove_mode env args files props by_step) (\<lambda>r. Inr (Proved r))
             else if ca_mode args = ''explore''
             then ebind (explore_mode env args files by_step) (\<lambda>r. Inr (Explored r))
             else Inr Usage)))))"

section \<open>Bounded model checking\<close>

definition bmc_config :: "int option \<Rightarrow> int option \<Rightarrow> string" where
  "bmc_config first final =
     ''rIC3 -e bmc --no-preproc --witness'' @
     (case first of None \<Rightarrow> [] | Some i \<Rightarrow> '' --start '' @ show_int i) @
     (case final of None \<Rightarrow> [] | Some i \<Rightarrow> '' --end '' @ show_int i)"

text \<open>The result, and the trace that is written when a counterexample was found.\<close>

definition bmc :: "engines \<Rightarrow> int \<Rightarrow> string list \<Rightarrow> int option \<Rightarrow> int option \<Rightarrow>
    conductor_error + process_result \<times> string option" where
  "bmc env step props first final =
     ebind (prove env (bmc_config first final) step props) (\<lambda>res.
       if res_code res = Some 10
       then ebind (of_option Assert_failed (res_out res)) (\<lambda>out.
              case split1 newline out of
                (_, Some rest) \<Rightarrow> Inr (res, Some rest)
              | (_, None) \<Rightarrow> Inl Index_error)
       else Inr (res, None))"

text \<open>
  The checks of the mode, in order: one property without a bound, or every property at each
  depth in turn, here for the first rounds of a loop that does not end.
\<close>

definition bmc_mode :: "conductor_args \<Rightarrow> (int \<times> string) list \<Rightarrow> nat \<Rightarrow>
    (int \<times> string \<times> int option \<times> int option) list" where
  "bmc_mode args props rounds =
     (case props of
        [] \<Rightarrow> []
      | [(step, prop)] \<Rightarrow> [(step, prop, Some (ca_bmc_start args), None)]
      | _ \<Rightarrow>
          concat (map (\<lambda>k. let i = ca_bmc_start args + int k * ca_bmc_step args
                           in map (\<lambda>(step, prop). (step, prop, Some i, Some i)) props) [0..<rounds]))"

section \<open>Properties\<close>

lemma json_str_simps [simp]:
  "json_str (J_str s) = Inr s" "json_int (J_int i) = Inr i" "json_num (J_num q) = Inr q" "json_items (J_list js) = Inr js"
  by (simp_all add: json_str_def json_int_def json_num_def json_items_def)

lemma json_opt_simps [simp]:
  "json_opt json_str (opt_json J_str x) = Inr x" "json_opt json_int (opt_json J_int y) = Inr y"
  by (simp_all add: json_opt_def opt_json_def split: option.split)

lemma read_reason_str [simp]: "read_reason (reason_str r) = Inr r"
  by (cases r) (simp_all add: read_reason_def reason_str_def)

lemma emap_json_str [simp]: "emap json_str (map J_str ss) = Inr ss"
  by (induction ss) auto

lemma decode_encode [simp]: "decode_strategy (encode_strategy s) = Inr s"
proof -
  have "decode_result [opt_json J_int (res_code r), J_num (res_mem r), J_num (res_dt r), J_str (reason_str (res_reason r)),
      opt_json J_str (res_out r), opt_json J_str (res_err r)] = Inr r" for r
    by (simp add: decode_result_def item_at_def)
  then show ?thesis by (simp add: decode_strategy_def encode_strategy_def item_at_def)
qed

lemma decode_encode_all [simp]: "emap decode_strategy (map encode_strategy ss) = Inr ss"
  by (induction ss) auto

text \<open>
  C26. A strategy that was stored is loaded again as it was, by a run that does not start afresh:
  steps, properties, configurations, and the codes, times, memory and texts of their results.
\<close>

theorem stored_strategy_loads:
  assumes "store_strategy args step ss files = Inr (ss', files')" and "\<not> ca_no_store args" "\<not> ca_fresh args'"
  shows "ss' = ss \<and> load_strategy args' files' step = Inr (Some ss) \<and>
    (\<forall>other. other \<noteq> step \<longrightarrow> load_strategy args' files' other = load_strategy args' files other)"
  using assms by (auto simp: store_strategy_def load_strategy_def Let_def)

definition demo_args :: conductor_args where
  "demo_args = \<lparr>ca_mode = ''prove'', ca_fresh = False, ca_no_store = False, ca_by_step = False, ca_properties = [],
     ca_missing = False, ca_start = 0, ca_bmc_step = 1, ca_bmc_start = 4, ca_hard = False, ca_no_run = False,
     ca_check_complete = True\<rparr>"

definition demo_step :: strategy where
  "demo_step = \<lparr>st_step = 0, st_props = [''Live''], st_config = ''rIC3'', st_res = \<lparr>res_code = Some 20, res_reason = OK,
     res_mem = 1, res_dt = 2, res_out = None, res_err = None\<rparr>\<rparr>"

lemma stored_strategy_loads_witness:
  "load_strategy demo_args (Map.empty((0 :: int) \<mapsto> Some (J_list [encode_strategy demo_step]))) 0 = Inr (Some [demo_step]) \<and>
    load_strategy demo_args (Map.empty(0 \<mapsto> Some (J_list [encode_strategy demo_step]))) 1 = load_strategy demo_args Map.empty 1"
proof -
  have "store_strategy demo_args 0 [demo_step] Map.empty =
      Inr ([demo_step], Map.empty(0 \<mapsto> Some (J_list [encode_strategy demo_step])))"
    by (simp add: store_strategy_def demo_args_def)
  from stored_strategy_loads[OF this, of demo_args] show ?thesis by (simp add: demo_args_def)
qed

lemma run_strategy_results:
  assumes "run_strategy env ss = Inr results"
  shows "map snd results = sort_key (\<lambda>s. - res_dt (st_res s)) ss \<and>
    (\<forall>(r, s) \<in> set results. \<exists>conf. rerun_config s = Inr conf \<and> prove env conf (st_step s) (st_props s) = Inr r)"
proof -
  let ?s = "sort_key (\<lambda>s. - res_dt (st_res s)) ss"
  obtain confs rs where c: "emap rerun_config ?s = Inr confs"
      "emap (\<lambda>(conf, s). prove env conf (st_step s) (st_props s)) (zip confs ?s) = Inr rs" "results = zip rs ?s"
    using assms by (auto simp: run_strategy_def raise_simps Let_def)
  have len: "length confs = length ?s" "length rs = length ?s"
    using emap_Inr_length[OF c(1)] emap_Inr_length[OF c(2)] by simp_all
  have "rerun_config (?s ! i) = Inr (confs ! i)" "prove env (confs ! i) (st_step (?s ! i)) (st_props (?s ! i)) = Inr (rs ! i)"
    if "i < length ?s" for i
    using c(1,2) that len unfolding emap_eq_Inr by (auto simp: list_all2_conv_all_nth)
  then show ?thesis using c(3) len by (auto simp: set_zip)
qed

text \<open>Where the strategies that are run come from: the files of the steps that are not skipped.\<close>

lemma prove_steps_stored:
  assumes "prove_steps env args files by_step = Inr ss" and "s \<in> set ss"
  shows "\<exists>k loaded. k < length by_step \<and> ca_start args \<le> int k \<and>
    load_strategy args files (int k) = Inr (Some loaded) \<and> s \<in> set loaded"
proof -
  let ?f = "\<lambda>(step, props) acc.
      if step < ca_start args then Inr acc
      else ebind (load_strategy args files step) (\<lambda>ss.
             case ss of
               None \<Rightarrow> Inr acc
             | Some [] \<Rightarrow> Inr acc
             | Some ss' \<Rightarrow> ebind (checked env args ss') (\<lambda>_. Inr (acc @ ss')))"
  let ?from = "\<lambda>steps u. \<exists>x \<in> set steps. ca_start args \<le> fst x \<and> (\<exists>l. load_strategy args files (fst x) = Inr (Some l) \<and> u \<in> set l)"
  have "u \<in> set acc \<or> ?from steps u" if "efold ?f steps acc = Inr res" "u \<in> set res" for steps acc res u
    using that
  proof (induction steps arbitrary: acc)
    case (Cons x steps)
    obtain step props where x: "x = (step, props)" by (cases x)
    obtain acc' where 1: "?f x acc = Inr acc'" "efold ?f steps acc' = Inr res"
      using Cons.prems(1) by (auto simp: raise_simps)
    then have "u \<in> set acc' \<or> ?from steps u" using Cons.IH Cons.prems(2) by blast
    moreover have "u \<in> set acc \<or> ?from [x] u" if "u \<in> set acc'"
    proof (cases "step < ca_start args")
      case False
      then obtain l where l: "load_strategy args files step = Inr l" using 1(1) x by (auto simp: raise_simps)
      show ?thesis
      proof (cases "l = None \<or> l = Some []")
        case True
        then have "acc' = acc" using 1(1) x l False by auto
        then show ?thesis using that by simp
      next
        case nonempty: False
        then obtain y ys where y: "l = Some (y # ys)" by (cases l) (auto simp: neq_Nil_conv)
        then have "acc' = acc @ y # ys" using 1(1) x l False by (auto simp: raise_simps)
        then show ?thesis using that x l y False by auto
      qed
    qed (use 1(1) x that in simp)
    ultimately show ?case by auto
  qed simp
  from this[OF assms(1)[unfolded prove_steps_def] assms(2)]
  obtain x l where "x \<in> set (enum by_step)" "ca_start args \<le> fst x" "load_strategy args files (fst x) = Inr (Some l)" "s \<in> set l"
    by auto
  moreover from this(1) obtain k where "k < length by_step" "fst x = int k" by (auto simp: enum_def set_zip)
  ultimately show ?thesis by metis
qed

text \<open>
  A property \<open>p\<close> has a stored strategy that an engine proved again with the result \<open>r\<close>.
\<close>

definition proved_again :: "engines \<Rightarrow> conductor_args \<Rightarrow> strategy_files \<Rightarrow> nat \<Rightarrow> string \<Rightarrow> process_result \<Rightarrow> strategy \<Rightarrow> bool" where
  "proved_again env args files k p r s \<longleftrightarrow>
     (\<exists>loaded conf. load_strategy args files (int k) = Inr (Some loaded) \<and> s \<in> set loaded \<and> p \<in> set (st_props s) \<and>
        rerun_config s = Inr conf \<and> prove env conf (st_step s) (st_props s) = Inr r \<and> res_code r = Some 20)"

lemma prove_mode_covers:
  assumes "prove_mode env args files props by_step = Inr results"
    and "ca_check_complete args" "\<not> ca_by_step args" and "(step, p) \<in> set props"
  shows "\<exists>k r s. k < length by_step \<and> ca_start args \<le> int k \<and> (r, s) \<in> set results \<and> proved_again env args files k p r s"
proof -
  obtain ss where s: "prove_steps env args files by_step = Inr ss"
      "filter (\<lambda>p. p \<notin> set (concat (map st_props ss))) (map snd props) = []"
      "run_strategy env ss = Inr results" "list_all (\<lambda>(r, s). res_code r = Some 20) results"
    using assms(1-3) by (auto simp: prove_mode_def raise_simps Let_def)
  have "p \<in> snd ` set props" using assms(4) by force
  then have "p \<in> set (concat (map st_props ss))" using s(2) unfolding filter_empty_conv by force
  then obtain u where u: "u \<in> set ss" "p \<in> set (st_props u)" by auto
  have "u \<in> snd ` set results"
    using run_strategy_results[OF s(3)] u(1) by (metis list.set_map set_sort)
  then obtain r where r: "(r, u) \<in> set results" by auto
  then obtain conf where "rerun_config u = Inr conf" "prove env conf (st_step u) (st_props u) = Inr r" "res_code r = Some 20"
    using run_strategy_results[OF s(3)] s(4) by (fastforce simp: list_all_iff)
  then show ?thesis
    using prove_steps_stored[OF s(1) u(1)] u(2) r unfolding proved_again_def by blast
qed

text \<open>
  The files hold strategies for the properties of their own steps, the way the mode that
  explores stores them.
\<close>

definition stored_by_step :: "conductor_args \<Rightarrow> strategy_files \<Rightarrow> (int \<times> string) list \<Rightarrow> nat \<Rightarrow> bool" where
  "stored_by_step args files props n \<longleftrightarrow>
     list_all (\<lambda>k. case load_strategy args files (int k) of
         Inr (Some ss) \<Rightarrow> list_all (\<lambda>s. st_step s = int k \<and> list_all (\<lambda>(j, q). q \<notin> set (st_props s) \<or> j = int k) props) ss
       | _ \<Rightarrow> True) [0..<n]"

lemma stored_by_stepD:
  assumes "stored_by_step args files props n" and "k < n" and "load_strategy args files (int k) = Inr (Some ss)" and "s \<in> set ss"
  shows "st_step s = int k" and "(j, q) \<in> set props \<Longrightarrow> q \<in> set (st_props s) \<Longrightarrow> j = int k"
proof -
  have "list_all (\<lambda>s. st_step s = int k \<and> list_all (\<lambda>(j, q). q \<notin> set (st_props s) \<or> j = int k) props) ss"
    using assms(1-3) unfolding stored_by_step_def list_all_iff by force
  then have "st_step s = int k \<and> list_all (\<lambda>(j, q). q \<notin> set (st_props s) \<or> j = int k) props"
    using assms(4) unfolding list_all_iff by blast
  then show "st_step s = int k" and "(j, q) \<in> set props \<Longrightarrow> q \<in> set (st_props s) \<Longrightarrow> j = int k"
    by (auto simp: list_all_iff)
qed

text \<open>
  C4. When the mode that proves ends without a failure, with \<^verbatim>\<open>--check-complete\<close> and without
  \<^verbatim>\<open>--by-step\<close>, every selected property is covered: a strategy that is stored for one of the
  steps from the first one on names it, and an engine proved that strategy again in this run.
  The check goes by the names of the properties.  Where the files hold strategies for the
  properties of their own steps, the strategy is stored for the step of the property, and the
  engine proved it in that step.
\<close>

theorem prove_mode_complete:
  assumes "prove_mode env args files props by_step = Inr results"
    and "ca_check_complete args" "\<not> ca_by_step args"
  shows "\<forall>(step, p) \<in> set props. \<exists>k r s. k < length by_step \<and> ca_start args \<le> int k \<and> (r, s) \<in> set results \<and>
    proved_again env args files k p r s \<and>
    (stored_by_step args files props (length by_step) \<longrightarrow> step = int k \<and> st_step s = step)"
proof -
  have "\<exists>k r s. k < length by_step \<and> ca_start args \<le> int k \<and> (r, s) \<in> set results \<and>
      proved_again env args files k p r s \<and>
      (stored_by_step args files props (length by_step) \<longrightarrow> step = int k \<and> st_step s = step)"
    if sp: "(step, p) \<in> set props" for step p
  proof -
    obtain k r s where k: "k < length by_step" "ca_start args \<le> int k" "(r, s) \<in> set results" "proved_again env args files k p r s"
      using prove_mode_covers[OF assms sp] by blast
    obtain loaded where l: "load_strategy args files (int k) = Inr (Some loaded)" "s \<in> set loaded" "p \<in> set (st_props s)"
      using k(4) unfolding proved_again_def by blast
    have "step = int k \<and> st_step s = step" if "stored_by_step args files props (length by_step)"
      using stored_by_stepD[OF that k(1) l(1,2)] sp l(3) by simp
    then show ?thesis using k by blast
  qed
  then show ?thesis by blast
qed

lemma demo_prove: "prove_mode proving demo_args (Map.empty(0 \<mapsto> Some (J_list [encode_strategy demo_step]))) [(0, ''Live'')]
    [[''Live'']] = Inr [(attempt proving ''rIC3'' 0 [''Live''] None, demo_step)]"
  by (simp add: prove_mode_def prove_steps_def checked_def enum_def load_strategy_def demo_args_def run_strategy_def rerun_config_def
      demo_step_def prove_def proving_def json_items_def decode_encode[of demo_step, unfolded demo_step_def])

lemma prove_mode_complete_witness:
  "\<exists>r s. (r, s) \<in> set [(attempt proving ''rIC3'' 0 [''Live''] None, demo_step)] \<and>
    proved_again proving demo_args (Map.empty(0 \<mapsto> Some (J_list [encode_strategy demo_step]))) 0 ''Live'' r s \<and> st_step s = 0"
proof -
  let ?files = "Map.empty(0 \<mapsto> Some (J_list [encode_strategy demo_step]))"
  have "load_strategy demo_args ?files 0 = Inr (Some [demo_step])" by (simp add: load_strategy_def demo_args_def)
  then have "stored_by_step demo_args ?files [(0, ''Live'')] (length [[''Live'']])"
    by (simp add: stored_by_step_def demo_step_def)
  then show ?thesis using prove_mode_complete[OF demo_prove] by (simp add: demo_args_def)
qed

text \<open>What does not depend on the answers of the engines: whether there are any.\<close>

definition done_or_error :: "'e + 'a \<Rightarrow> 'e option" where
  "done_or_error x = (case x of Inl e \<Rightarrow> Some e | Inr _ \<Rightarrow> None)"

lemma done_or_error_bind:
  "done_or_error x = done_or_error y \<Longrightarrow> ebind x (\<lambda>_. z) = ebind y (\<lambda>_. z)"
  by (cases x; cases y) (auto simp: done_or_error_def)

lemma done_or_error_map: "done_or_error (ebind x (\<lambda>r. Inr (h r))) = done_or_error x"
  by (cases x) (simp_all add: done_or_error_def)

lemma done_or_error_emap:
  "(\<And>x. done_or_error (f x) = done_or_error (g x)) \<Longrightarrow> done_or_error (emap f xs) = done_or_error (emap g xs)"
proof (induction xs)
  case (Cons x xs)
  then have "done_or_error (emap f xs) = done_or_error (emap g xs)" by simp
  then show ?case using Cons.prems[of x]
    by (cases "f x"; cases "g x"; cases "emap f xs"; cases "emap g xs") (auto simp: done_or_error_def)
qed (simp add: done_or_error_def)

lemma prove_attempt: "done_or_error (prove (env\<lparr>attempt := a\<rparr>) conf step props) = done_or_error (prove env conf step props)"
  by (simp add: prove_def done_or_error_def guard_else_def)

lemma run_strategy_attempt: "done_or_error (run_strategy (env\<lparr>attempt := a\<rparr>) ss) = done_or_error (run_strategy env ss)"
proof -
  have "done_or_error (emap (\<lambda>(conf, s). prove (env\<lparr>attempt := a\<rparr>) conf (st_step s) (st_props s)) xs) =
      done_or_error (emap (\<lambda>(conf, s). prove env conf (st_step s) (st_props s)) xs)" for xs
    by (rule done_or_error_emap) (simp add: prove_attempt split: prod.split)
  then show ?thesis
    by (cases "emap rerun_config (sort_key (\<lambda>s. - res_dt (st_res s)) ss)")
      (simp_all add: run_strategy_def Let_def done_or_error_map)
qed

text \<open>
  Step by step the results are not looked at: the outcome of the mode does not depend on
  what the engines answer, so it ends without a failure even if every proof fails.
\<close>

theorem prove_by_step_unchecked:
  assumes "ca_by_step args"
  shows "prove_mode (env\<lparr>attempt := a\<rparr>) args files props by_step = prove_mode env args files props by_step"
proof -
  have "ebind (run_strategy (env\<lparr>attempt := a\<rparr>) ss) (\<lambda>_. Inr ()) = ebind (run_strategy env ss) (\<lambda>_. Inr ())" for ss
    by (rule done_or_error_bind[OF run_strategy_attempt])
  then have "checked (env\<lparr>attempt := a\<rparr>) args = checked env args" by (simp add: checked_def fun_eq_iff)
  then have "prove_steps (env\<lparr>attempt := a\<rparr>) args files by_step = prove_steps env args files by_step"
    unfolding prove_steps_def by (rule ssubst) (rule refl)
  then show ?thesis using assms by (simp add: prove_mode_def)
qed

lemma prove_by_step_unchecked_witness:
  "prove_mode (proving\<lparr>attempt := \<lambda>c s p t. \<lparr>res_code = None, res_reason = TIMEOUT, res_mem = 1, res_dt = 1,
       res_out = None, res_err = None\<rparr>\<rparr>) (demo_args\<lparr>ca_by_step := True\<rparr>)
     (Map.empty(0 \<mapsto> Some (J_list [encode_strategy demo_step]))) [(0, ''Live'')] [[''Live'']] =
   prove_mode proving (demo_args\<lparr>ca_by_step := True\<rparr>)
     (Map.empty(0 \<mapsto> Some (J_list [encode_strategy demo_step]))) [(0, ''Live'')] [[''Live'']]"
  by (rule prove_by_step_unchecked) simp

text \<open>
  The option that names properties is said to restrict the run to them.  The mode that
  proves runs the strategies of all steps all the same: without the check for completeness the
  selected properties make no difference.
\<close>

theorem prove_ignores_selection:
  assumes "\<not> ca_check_complete args" and "length by_step = length by_step'"
  shows "prove_mode env args files props by_step = prove_mode env args files props' by_step'"
proof -
  have "efold (\<lambda>(step, props). h step) (zip is xs) s = efold (\<lambda>(step, props). h step) (zip is ys) s"
    if "length xs = length ys" for h :: "int \<Rightarrow> 's \<Rightarrow> 'x + 's" and "is" and xs ys :: "string list list" and s
    using that
  proof (induction xs arbitrary: ys "is" s)
    case (Cons x xs)
    then obtain y ys' where "ys = y # ys'" "length xs = length ys'" by (cases ys) auto
    then show ?case using Cons.IH[of ys'] by (cases "is") (auto intro!: ebind_cong)
  qed simp
  then have "prove_steps env args files by_step = prove_steps env args files by_step'"
    using assms(2) by (simp add: prove_steps_def enum_def)
  then show ?thesis using assms(1) by (simp add: prove_mode_def Let_def)
qed

lemma prove_ignores_selection_witness:
  "prove_mode proving (demo_args\<lparr>ca_check_complete := False\<rparr>) Map.empty [] [[]] =
   prove_mode proving (demo_args\<lparr>ca_check_complete := False\<rparr>) Map.empty [(0, ''Live'')] [[''Live'']]"
  by (rule prove_ignores_selection) (simp_all add: demo_args_def)

lemma hard_all:
  assumes "efold (\<lambda>prop (acc, fs).
      ebind (build_strategy_rec env step True [Leaf prop] fs) (\<lambda>(x, fs'). Inr (acc @ x, fs'))) ps (ss, fs) = Inr (ss', fs')"
    and "\<forall>p \<in> set ps. aig_ok env step [p]"
  shows "set ss \<subseteq> set ss' \<and> set fs \<subseteq> set fs' \<and> (\<forall>s \<in> set ss' - set ss. res_code (st_res s) = Some 20) \<and>
    (\<forall>p \<in> set ps. p \<in> set (concat (map st_props ss')) \<or> (step, p) \<in> set fs' \<or>
      res_code (attempt env ''rIC3 -e kind --no-preproc'' step [p] (Some 1800)) = Some 10)"
  using assms
proof (induction ps arbitrary: ss fs)
  case (Cons p ps)
  let ?r = "attempt env ''rIC3 -e kind --no-preproc'' step [p] (Some 1800)"
  let ?x = "if res_code ?r = Some 20
    then [\<lparr>st_step = step, st_props = [p], st_config = ''rIC3 -e kind --no-preproc'', st_res = ?r\<rparr>] else []"
  let ?fs = "if res_code ?r \<in> {Some 10, Some 20} then fs else fs @ [(step, p)]"
  have "build_strategy_rec env step True [Leaf p] fs = Inr (?x, ?fs)"
    using hard_single[of env step p fs] Cons.prems(2) unfolding Let_def by simp
  then have "efold (\<lambda>prop (acc, fs).
      ebind (build_strategy_rec env step True [Leaf prop] fs) (\<lambda>(x, fs'). Inr (acc @ x, fs'))) ps (ss @ ?x, ?fs) = Inr (ss', fs')"
    using Cons.prems(1) by simp
  note IH = Cons.IH[OF this]
  have "set (ss @ ?x) \<subseteq> set ss'" "set ?fs \<subseteq> set fs'" "\<forall>s \<in> set ss' - set (ss @ ?x). res_code (st_res s) = Some 20"
    "\<forall>p \<in> set ps. p \<in> set (concat (map st_props ss')) \<or> (step, p) \<in> set fs' \<or>
      res_code (attempt env ''rIC3 -e kind --no-preproc'' step [p] (Some 1800)) = Some 10"
    using IH Cons.prems(2) by (metis list.set_intros(2))+
  moreover from this(1) have "p \<in> set (concat (map st_props ss'))" if "res_code ?r = Some 20"
    using that by (auto intro: bexI[rotated])
  ultimately show ?case by (auto split: if_split_asm)
qed simp

text \<open>
  C16. Constructing a strategy in the hard mode accounts for every property of the step: a step
  of the strategy has it, or it is among the failures, or its engine found a counterexample.
  Every step that was not stored before was proved in this run.
\<close>

theorem hard_construct_accounts:
  assumes "ca_hard args" and "\<forall>p. aig_ok env step [p]"
    and "construct_strategy env args files step props = Inr ((new, ss, failed), files')"
  shows "(\<forall>p \<in> set props. p \<in> set (concat (map st_props ss)) \<or> p \<in> set failed \<or>
      res_code (attempt env ''rIC3 -e kind --no-preproc'' step [p] (Some 1800)) = Some 10) \<and>
    (\<exists>loaded. load_strategy args files step = Inr loaded \<and>
      (\<forall>s \<in> set ss - set (case loaded of None \<Rightarrow> [] | Some x \<Rightarrow> x). res_code (st_res s) = Some 20))"
proof -
  obtain loaded where l: "load_strategy args files step = Inr loaded"
    using assms(3) by (auto simp: construct_strategy_def raise_simps)
  define old where "old = (case loaded of None \<Rightarrow> [] | Some x \<Rightarrow> x)"
  have missing: "p \<in> set (concat (map st_props old)) \<or> p \<in> set (missing_from old props)" if "p \<in> set props" for p
    using that by (auto simp: missing_from_def)
  show ?thesis
  proof (cases "missing_from old props = []")
    case True
    then have "ss = old" using assms(3) l by (simp add: construct_strategy_def old_def[symmetric] Let_def)
    then show ?thesis using l missing True by (auto simp: old_def)
  next
    case False
    then obtain ss' fs where b: "efold (\<lambda>prop (acc, fs).
        ebind (build_strategy_rec env step True [Leaf prop] fs) (\<lambda>(x, fs'). Inr (acc @ x, fs')))
        (missing_from old props) (old, []) = Inr (ss', fs)" "ss = ss'" "failed = map snd fs"
      using assms(1,3) l
      by (auto simp: construct_strategy_def old_def[symmetric] Let_def raise_simps store_strategy_def)
    note all = hard_all[OF b(1)]
    have "\<forall>p \<in> set (missing_from old props). aig_ok env step [p]" using assms(2) by blast
    note all = all[OF this]
    have "p \<in> set (concat (map st_props ss)) \<or> p \<in> set failed \<or>
        res_code (attempt env ''rIC3 -e kind --no-preproc'' step [p] (Some 1800)) = Some 10" if "p \<in> set props" for p
      using missing[OF that] all b(2,3) by (auto simp: image_iff) (metis snd_conv)+
    then show ?thesis using l all b(2) by (auto simp: old_def)
  qed
qed

definition demo_found :: strategy where
  "demo_found = \<lparr>st_step = 0, st_props = [''Live''], st_config = ''rIC3 -e kind --no-preproc'',
     st_res = attempt proving ''rIC3 -e kind --no-preproc'' 0 [''Live''] (Some 1800)\<rparr>"

lemma demo_construct:
  "construct_strategy proving (demo_args\<lparr>ca_hard := True\<rparr>) Map.empty 0 [''Live''] =
    Inr ((True, [demo_found], []), Map.empty(0 \<mapsto> Some (J_list [encode_strategy demo_found])))"
proof -
  have "build_strategy_rec proving 0 True [Leaf ''Live''] [] = Inr ([demo_found], [])"
    using hard_single[of proving 0 "''Live''" "[]"] by (simp add: proving_def demo_found_def Let_def)
  then show ?thesis
    by (simp add: construct_strategy_def load_strategy_def missing_from_def Let_def store_strategy_def demo_args_def)
qed

lemma hard_construct_accounts_witness:
  "(''Live'' \<in> set (concat (map st_props [demo_found])) \<or> ''Live'' \<in> set [] \<or>
      res_code (attempt proving ''rIC3 -e kind --no-preproc'' 0 [''Live''] (Some 1800)) = Some 10) \<and>
    (\<exists>loaded. load_strategy (demo_args\<lparr>ca_hard := True\<rparr>) Map.empty 0 = Inr loaded \<and>
      (\<forall>s \<in> set [demo_found] - set (case loaded of None \<Rightarrow> [] | Some x \<Rightarrow> x). res_code (st_res s) = Some 20))"
  using hard_construct_accounts[OF _ _ demo_construct] by (simp add: proving_def)

lemma pad_to_nth: "i < length (pad_to n xs) \<Longrightarrow> pad_to n xs ! i = (if i < length xs then xs ! i else [])"
  by (simp add: pad_to_def nth_append)

lemma length_pad_to [simp]: "length (pad_to n xs) = max (length xs) (nat (n + 1))"
  by (simp add: pad_to_def)

definition at_step :: "'a list list \<Rightarrow> nat \<Rightarrow> 'a list" where
  "at_step xs i = (if i < length xs then xs ! i else [])"

lemma at_step_pad [simp]: "at_step (pad_to n xs) i = at_step xs i"
  by (auto simp: at_step_def pad_to_nth)

lemma group_names_steps:
  assumes "\<forall>(step, name) \<in> set names. 0 \<le> step"
  shows "\<exists>by_step. efold (\<lambda>(step, name) by_step. add_at step name (pad_to step by_step)) names acc = Inr by_step \<and>
    (\<forall>i. at_step by_step i = at_step acc i @ map snd (filter (\<lambda>(step, _). step = int i) names))"
  using assms
proof (induction names arbitrary: acc)
  case (Cons x names)
  obtain step name where x: "x = (step, name)" "0 \<le> step" using Cons.prems by (cases x) auto
  let ?acc = "(pad_to step acc)[nat step := pad_to step acc ! nat step @ [name]]"
  have add: "add_at step name (pad_to step acc) = Inr ?acc" using x by (auto simp: add_at_def)
  have "at_step ?acc i = at_step acc i @ (if step = int i then [name] else [])" for i
    using x by (auto simp: at_step_def nth_list_update pad_to_nth)
  moreover obtain by_step where
      "efold (\<lambda>(step, name) by_step. add_at step name (pad_to step by_step)) names ?acc = Inr by_step"
      "\<forall>i. at_step by_step i = at_step ?acc i @ map snd (filter (\<lambda>(step, _). step = int i) names)"
    using Cons.IH[of ?acc] Cons.prems by auto
  ultimately show ?case using x add by auto
qed simp

text \<open>
  Grouping by step puts every name into the list of its step, in the order given, and
  leaves no name out.
\<close>

theorem group_by_step_names:
  assumes "\<forall>(step, name) \<in> set names. 0 \<le> step"
  shows "\<exists>by_step. group_by_step names max_step = Inr by_step \<and>
    (\<forall>i. (if i < length by_step then by_step ! i else []) = map snd (filter (\<lambda>(step, _). step = int i) names))"
proof -
  obtain by_step where b: "efold (\<lambda>(step, name) by_step. add_at step name (pad_to step by_step)) names [] = Inr by_step"
      "\<forall>i. at_step by_step i = map snd (filter (\<lambda>(step, _). step = int i) names)"
    using group_names_steps[OF assms, of "[]"] by (auto simp: at_step_def)
  have "at_step (case max_step of None \<Rightarrow> by_step | Some m \<Rightarrow> pad_to m by_step) i = at_step by_step i" for i
    by (cases max_step) simp_all
  then show ?thesis using b unfolding group_by_step_def at_step_def[symmetric] by simp
qed

lemma group_by_step_names_witness:
  "\<exists>by_step. group_by_step [(1, ''Live''), (0, ''Mem''), (1, ''Wrap'')] (Some 2) = Inr by_step \<and>
    (\<forall>i. (if i < length by_step then by_step ! i else []) =
      map snd (filter (\<lambda>(step, _). step = int i) [(1, ''Live''), (0, ''Mem''), (1, ''Wrap'')]))"
  by (rule group_by_step_names) simp

end
