(* ===== verification/ProofLog.thy ===== *)
theory ProofLog
  imports JsonText ReportUtil FormalFiles Shlex Conductor
begin

text \<open>
  \<^verbatim>\<open>dv/formal/conductor.py\<close>, what a proof does beside the engine: the files it is given and
  leaves, the log and the log of the proofs, while other proofs run.  The coroutines take
  turns; between two turns of one any others may take theirs.
\<close>

section \<open>The log\<close>

definition coloured :: "string \<Rightarrow> string \<Rightarrow> string" where
  "coloured sgr s = CHR 0x1B # ''['' @ sgr @ ''m'' @ s @ CHR 0x1B # ''[0m''"

definition green :: "string \<Rightarrow> string" where "green = coloured ''32;1''"
definition red :: "string \<Rightarrow> string" where "red = coloured ''31;1''"
definition white :: "string \<Rightarrow> string" where "white = coloured ''1''"
definition orange :: "string \<Rightarrow> string" where "orange = coloured ''33;1''"
definition gray :: "string \<Rightarrow> string" where "gray = coloured ''90''"

text \<open>
  The surroundings: whether \<^verbatim>\<open>NO_LOG\<close> is set, the readings of the clock in their order, the
  text of a time, the hash of the design, and the text of a floating point number.
\<close>

record log_env =
  no_log :: bool
  clock_reading :: "nat \<Rightarrow> rat"
  stamp :: "rat \<Rightarrow> string"
  root_hash :: string
  float_text :: "rat \<Rightarrow> string"

text \<open>
  What the proofs share: the texts written, the files of the counterexamples, the two
  counters, and the processes handed to the runner so far, in order.
\<close>

record desk =
  readings :: nat
  console :: string
  logfile :: string
  prooflog :: string
  traces :: "string \<rightharpoonup> string"
  aiger_idx :: nat
  cex_id :: nat
  asked :: "process list"

definition write_logfile :: "log_env \<Rightarrow> string \<Rightarrow> desk \<Rightarrow> desk" where
  "write_logfile env s d = (if no_log env then d else d\<lparr>logfile := logfile d @ s @ [newline]\<rparr>)"

definition now :: "log_env \<Rightarrow> desk \<Rightarrow> rat \<times> desk" where
  "now env d = (clock_reading env (readings d), d\<lparr>readings := Suc (readings d)\<rparr>)"

definition log_line :: "log_env \<Rightarrow> (string \<Rightarrow> string) \<Rightarrow> string \<Rightarrow> desk \<Rightarrow> desk" where
  "log_line env c s d =
     (let (t, d1) = now env d; timestr = stamp env t
      in write_logfile env (timestr @ '' '' @ s)
           (d1\<lparr>console := console d1 @ gray timestr @ '' '' @ c s @ [newline]\<rparr>))"

definition log_lines :: "log_env \<Rightarrow> ((string \<Rightarrow> string) \<times> string) list \<Rightarrow> desk \<Rightarrow> desk" where
  "log_lines env = fold (\<lambda>(c, s). log_line env c s)"

text \<open>What the program logs before anything else.\<close>

definition start_up :: "log_env \<Rightarrow> desk \<Rightarrow> desk" where
  "start_up env d =
     (let d1 = write_logfile env [] d;
          d2 = (if SKIPPED_PROPS \<noteq> [] then log_line env orange (''WARNING: Skipped properties are '' @ join '' '' SKIPPED_PROPS) d1
                else d1)
      in log_line env id (''build/all.aig has sha256 '' @ root_hash env) d2)"

section \<open>The end of a proof\<close>

definition spent :: "process_result \<Rightarrow> string" where
  "spent r = show_fixed 3 (res_dt r) @ ''s with '' @ show_fixed 3 (res_mem r) @ ''GB''"

definition rule_line :: string where
  "rule_line = replicate 122 CHR ''=''"

definition smt2_hint :: "int \<Rightarrow> string list \<Rightarrow> string" where
  "smt2_hint step props = ''    python3 smt2manip.py build/all.smt2 sel.smt2 '' @ show_int step @ '' '' @ join '' '' props"

definition proof_message :: "string \<Rightarrow> string \<Rightarrow> int \<Rightarrow> string list \<Rightarrow> process_result \<Rightarrow>
    ((string \<Rightarrow> string) \<times> string) list" where
  "proof_message config path step props r =
     (let n = show_nat (length props); k = show_int step; plain = (\<lambda>s. (id, s)); alarm = (\<lambda>s. (red, s))
      in if res_code r = Some 20
         then [(green, ''UNSAT: '' @ n @ '' properties in step '' @ k @ '' proven in '' @ spent r)]
         else if res_code r = Some 10
         then [alarm rule_line, alarm rule_line, alarm rule_line,
               alarm (''       ==================== SAT: CEX in step '' @ k @ '', discovered in '' @ spent r @ '' =================='' ),
               alarm rule_line, alarm rule_line, alarm rule_line,
               alarm (''One of these properties in step '' @ k @ '' is not valid: '' @ join '' '' props),
               plain ''To recover a witness run the following:'',
               plain (''    '' @ config @ '' '' @ path @ '' --witness | tail -n +2 > witness.aiw''),
               plain ''Or the following:'',
               plain (''    rIC3 -e bmc --no-preproc '' @ path @ '' --witness | tail -n +2 > witness.aiw''),
               plain ''Or, to compare against another engine:'',
               plain (smt2_hint step props),
               plain ''    yosys-smtbmc -s yices sel.smt2'',
               plain ''Then to view the trace:'',
               plain ''    build/aig-manip build/all.aig simulate build/all.ywmap build/all.vmap witness.aiw trace.vcd'',
               plain ''    gtkwave trace.vcd'']
         else if res_code r = Some 30
         then [(orange, ''UNDETERMINED: Failed to find a CEX or proof for '' @ n @ '' properties in step '' @ k @ '' ('' @ spent r @ '')'')]
         else if res_code r = Some (- 9)
         then [alarm (''KILLED by OS: Failed to prove '' @ n @ '' properties in step '' @ k @ '' ('' @ spent r @ '')'')]
         else case res_code r of
                None \<Rightarrow> [alarm (''TIMEOUT: Failed to prove '' @ n @ '' properties in step '' @ k @ '' ('' @ spent r @ '')'')]
              | Some c \<Rightarrow> [alarm (''Unknown Exit Code '' @ show_int c @ '': Failed to prove '' @ n @ '' properties in step '' @ k @
                    '' ('' @ spent r @ '')'')])"

text \<open>The entry in the log of the proofs: what was proved, and the fields of the result.\<close>

definition opt_value :: "('a \<Rightarrow> json_value) \<Rightarrow> 'a option \<Rightarrow> json_value" where
  "opt_value f x = (case x of None \<Rightarrow> JV_null | Some a \<Rightarrow> f a)"

definition result_fields :: "process_result \<Rightarrow> (string \<times> json_value) list" where
  "result_fields r =
     [(''code'', opt_value JV_int (res_code r)), (''reason'', JV_string (reason_str (res_reason r))),
      (''max_mem'', JV_float (res_mem r)), (''dt'', JV_float (res_dt r)),
      (''stdout'', opt_value JV_string (res_out r)), (''stderr'', opt_value JV_string (res_err r))]"

definition proof_entry :: "log_env \<Rightarrow> rat \<Rightarrow> string \<Rightarrow> int \<Rightarrow> string list \<Rightarrow> process_result \<Rightarrow> json_value" where
  "proof_entry env t config step props r =
     JV_list [JV_float t,
       JV_list [JV_list (map JV_string props), JV_int step, JV_string (root_hash env), JV_string config],
       JV_dict (result_fields r)]"

definition write_proof :: "log_env \<Rightarrow> string \<Rightarrow> int \<Rightarrow> string list \<Rightarrow> process_result \<Rightarrow> desk \<Rightarrow> desk" where
  "write_proof env config step props r d =
     (if no_log env then d
      else let (t, d1) = now env d
           in d1\<lparr>prooflog := prooflog d1 @ json_dumps (float_text env) (proof_entry env t config step props r) @ [newline]\<rparr>)"

definition proof_done :: "log_env \<Rightarrow> string \<Rightarrow> string \<Rightarrow> int \<Rightarrow> string list \<Rightarrow> process_result \<Rightarrow> desk \<Rightarrow> desk" where
  "proof_done env config path step props r d =
     log_lines env (proof_message config path step props r) (write_proof env config step props r d)"

section \<open>The proofs and their turns\<close>

text \<open>
  A coroutine that proves, one that looks for a counterexample, and one that prepares to
  explore; the engines that the last then races are in the model of races, not among the
  processes here.
\<close>

datatype proof_job =
    Prove_job string int "string list" "rat option" rat
  | Bmc_job int "string list" "rat option" "int option" "int option"
  | Explore_job int "string list"

fun job_step :: "proof_job \<Rightarrow> int" where
  "job_step (Prove_job config step props tmo mem) = step"
| "job_step (Bmc_job step props tmo first final) = step"
| "job_step (Explore_job step props) = step"

fun job_props :: "proof_job \<Rightarrow> string list" where
  "job_props (Prove_job config step props tmo mem) = props"
| "job_props (Bmc_job step props tmo first final) = props"
| "job_props (Explore_job step props) = props"

fun job_config :: "proof_job \<Rightarrow> string" where
  "job_config (Prove_job config step props tmo mem) = config"
| "job_config (Bmc_job step props tmo first final) = bmc_config first final"
| "job_config (Explore_job step props) = []"

fun job_timeout :: "proof_job \<Rightarrow> rat option" where
  "job_timeout (Prove_job config step props tmo mem) = tmo"
| "job_timeout (Bmc_job step props tmo first final) = tmo"
| "job_timeout (Explore_job step props) = None"

fun job_memory :: "proof_job \<Rightarrow> rat" where
  "job_memory (Prove_job config step props tmo mem) = mem"
| "job_memory (Bmc_job step props tmo first final) = 10"
| "job_memory (Explore_job step props) = 0"

text \<open>
  Where a coroutine stands: what it waits for, or what it gave.  The number of the trace is
  kept beside the result of a search that wrote one.
\<close>

datatype phase =
    Fresh
  | Preparing string
  | Prepared string
  | Proving string
  | Simulating nat process_result
  | Ended process_result "nat option"
  | Raised conductor_error

definition shell :: "string \<Rightarrow> rat \<Rightarrow> rat option \<Rightarrow> desk \<Rightarrow> desk" where
  "shell c mem tmo d = d\<lparr>asked := asked d @ [new_process (length (asked d)) c mem 0 tmo]\<rparr>"

definition aiger_name :: "nat \<Rightarrow> string" where
  "aiger_name n = ''build/aiger-'' @ show_nat n @ ''.aig''"

definition select_cmd :: "string \<Rightarrow> int \<Rightarrow> string list \<Rightarrow> string" where
  "select_cmd name step props =
     ''build/aig-manip build/all.aig select '' @ name @ '' build/all.ywmap '' @ show_int step @ '' '' @ join '' '' props"

definition prepare_aiger :: "int \<Rightarrow> string list \<Rightarrow> desk \<Rightarrow> string \<times> desk" where
  "prepare_aiger step props d =
     (let name = aiger_name (aiger_idx d)
      in (name, shell (select_cmd name step props) (1 / 2) None (d\<lparr>aiger_idx := Suc (aiger_idx d)\<rparr>)))"

definition engine_cmd :: "string \<Rightarrow> string \<Rightarrow> string" where
  "engine_cmd config name = config @ '' '' @ name"

definition witness_name :: "nat \<Rightarrow> string" where
  "witness_name k = ''witness-'' @ show_nat k @ ''.aiw''"

definition vcd_name :: "nat \<Rightarrow> string" where
  "vcd_name k = ''trace-'' @ show_nat k @ ''.vcd''"

definition simulate_cmd :: "nat \<Rightarrow> string" where
  "simulate_cmd k =
     ''./aig-manip/target/release/aig-manip build/all.aig simulate build/all.ywmap build/all.vmap '' @
     witness_name k @ '' '' @ vcd_name k"

text \<open>A search that has ended; the number is taken before the text of the process is split.\<close>

definition bmc_found :: "log_env \<Rightarrow> process_result \<Rightarrow> desk \<Rightarrow> phase \<times> desk" where
  "bmc_found env res d =
     (if res_code res \<noteq> Some 10 then (Ended res None, d)
      else case res_out res of
             None \<Rightarrow> (Raised Assert_failed, d)
           | Some out \<Rightarrow>
               (let own_id = cex_id d; d1 = d\<lparr>cex_id := Suc (cex_id d)\<rparr>
                in case split1 newline out of
                     (_, None) \<Rightarrow> (Raised Index_error, d1)
                   | (_, Some witness) \<Rightarrow>
                       (Simulating own_id res,
                        shell (simulate_cmd own_id) 0 None
                          (log_line env white (''Written trace to '' @ witness_name own_id)
                            (d1\<lparr>traces := (traces d1)(witness_name own_id \<mapsto> witness)\<rparr>)))))"

text \<open>A coroutine goes on with the result of the process it waits for.\<close>

fun resume :: "log_env \<Rightarrow> proof_job \<Rightarrow> process_result \<Rightarrow> phase \<Rightarrow> desk \<Rightarrow> phase \<times> desk" where
  "resume env job res Fresh d =
     (let (name, d1) = prepare_aiger (job_step job) (job_props job) d in (Preparing name, d1))"
| "resume env job res (Preparing name) d =
     (if res_code res \<noteq> Some 0 then (Raised Assert_failed, d)
      else case job of
             Explore_job _ _ \<Rightarrow> (Prepared name, d)
           | _ \<Rightarrow> (Proving name, shell (engine_cmd (job_config job) name) (job_memory job) (job_timeout job) d))"
| "resume env job res (Proving name) d =
     (let d1 = proof_done env (job_config job) name (job_step job) (job_props job) res d
      in case job of
           Bmc_job _ _ _ _ _ \<Rightarrow> bmc_found env res d1
         | _ \<Rightarrow> (Ended res None, d1))"
| "resume env job res (Simulating k found) d =
     (Ended found (Some k), log_line env white (''Produced VCD file at '' @ vcd_name k) d)"
| "resume env job res ph d = (ph, d)"

text \<open>
  A turn of one of the coroutines; \<open>reply\<close> is what the processes it waits for give, in each of
  its phases.  The order of the turns is arbitrary.  An error that one of
  them raises ends the program, and the history there.
\<close>

type_synonym reply = "nat \<Rightarrow> phase \<Rightarrow> process_result"

definition turn :: "log_env \<Rightarrow> reply \<Rightarrow> proof_job list \<Rightarrow> nat \<Rightarrow> phase list \<times> desk \<Rightarrow> phase list \<times> desk" where
  "turn env reply jobs i st =
     (case st of (phs, d) \<Rightarrow>
        if i < length jobs
        then let (ph, d1) = resume env (jobs ! i) (reply i (phs ! i)) (phs ! i) d in (phs[i := ph], d1)
        else (phs, d))"

definition conduct :: "log_env \<Rightarrow> reply \<Rightarrow> proof_job list \<Rightarrow> nat list \<Rightarrow> desk \<Rightarrow> phase list \<times> desk" where
  "conduct env reply jobs schedule d = fold (turn env reply jobs) schedule (replicate (length jobs) Fresh, d)"

section \<open>Files that are told apart by a number\<close>

locale numbered_files =
  fixes name_of :: "nat \<Rightarrow> string"
  assumes file_inj: "name_of m = name_of n \<Longrightarrow> m = n"
begin

lemma file_eq: "name_of m = name_of n \<longleftrightarrow> m = n"
  using file_inj by blast

lemma earlier_kept: "k < n \<Longrightarrow> (fs(name_of n \<mapsto> w)) (name_of k) = fs (name_of k)"
  by (simp add: file_eq)

lemma distinct_files: "distinct (map name_of ns) = distinct ns"
  by (simp add: distinct_map file_eq inj_on_def)

end

interpretation aiger: numbered_files aiger_name
  by unfold_locales (simp add: aiger_name_def show_nat_inj)

interpretation witness: numbered_files witness_name
  by unfold_locales (simp add: witness_name_def show_nat_inj)

section \<open>What the log leaves alone\<close>

lemma log_line_kept [simp]:
  "traces (log_line env c s d) = traces d" "aiger_idx (log_line env c s d) = aiger_idx d"
  "cex_id (log_line env c s d) = cex_id d" "asked (log_line env c s d) = asked d"
  "prooflog (log_line env c s d) = prooflog d"
  by (simp_all add: log_line_def now_def write_logfile_def Let_def)

lemma log_lines_kept [simp]:
  "traces (log_lines env ms d) = traces d" "aiger_idx (log_lines env ms d) = aiger_idx d"
  "cex_id (log_lines env ms d) = cex_id d" "asked (log_lines env ms d) = asked d"
  "prooflog (log_lines env ms d) = prooflog d"
  by (induction ms arbitrary: d) (auto simp: log_lines_def split: prod.splits)

lemma proof_done_kept [simp]:
  "traces (proof_done env config path step props r d) = traces d"
  "aiger_idx (proof_done env config path step props r d) = aiger_idx d"
  "cex_id (proof_done env config path step props r d) = cex_id d"
  "asked (proof_done env config path step props r d) = asked d"
  by (simp_all add: proof_done_def write_proof_def now_def Let_def)

section \<open>Proofs beside each other\<close>

text \<open>What each coroutine gives when nothing runs beside it, as the modes use it.\<close>

fun explores :: "proof_job \<Rightarrow> bool" where
  "explores (Explore_job _ _) = True"
| "explores _ = False"

fun outcome :: "engines \<Rightarrow> proof_job \<Rightarrow> conductor_error + process_result \<times> string option" where
  "outcome eng (Prove_job config step props tmo mem) = ebind (prove eng config step props) (\<lambda>r. Inr (r, None))"
| "outcome eng (Bmc_job step props tmo first final) = bmc eng step props first final"
| "outcome eng (Explore_job step props) = Inl Assert_failed"

text \<open>The processes give what the engines do.\<close>

fun fits :: "engines \<Rightarrow> proof_job \<Rightarrow> phase \<Rightarrow> process_result \<Rightarrow> bool" where
  "fits eng job (Preparing name) res \<longleftrightarrow> (res_code res = Some 0 \<longleftrightarrow> aig_ok eng (job_step job) (job_props job))"
| "fits eng job (Proving name) res \<longleftrightarrow>
     res = attempt eng (job_config job) (job_step job) (job_props job) (job_timeout job)"
| "fits eng job ph res \<longleftrightarrow> True"

definition replies :: "engines \<Rightarrow> proof_job list \<Rightarrow> reply \<Rightarrow> bool" where
  "replies eng jobs reply \<longleftrightarrow> (\<forall>i < length jobs. \<forall>ph. fits eng (jobs ! i) ph (reply i ph))"

text \<open>A coroutine that is over gave the outcome, and the file of its trace holds the trace.\<close>

fun agrees :: "conductor_error + process_result \<times> string option \<Rightarrow> (string \<rightharpoonup> string) \<Rightarrow> phase \<Rightarrow> bool" where
  "agrees (Inl e) fs ph \<longleftrightarrow> ph = Raised e"
| "agrees (Inr (res, None)) fs ph \<longleftrightarrow> ph = Ended res None"
| "agrees (Inr (res, Some w)) fs ph \<longleftrightarrow>
     (case ph of Ended r (Some k) \<Rightarrow> r = res \<and> fs (witness_name k) = Some w | _ \<Rightarrow> False)"

definition so_far :: "engines \<Rightarrow> proof_job \<Rightarrow> (string \<rightharpoonup> string) \<Rightarrow> phase \<Rightarrow> bool" where
  "so_far eng job fs ph \<longleftrightarrow>
     (case ph of
        Fresh \<Rightarrow> True
      | Preparing _ \<Rightarrow> True
      | Prepared _ \<Rightarrow> explores job
      | Proving _ \<Rightarrow> aig_ok eng (job_step job) (job_props job)
      | Simulating k res \<Rightarrow> agrees (outcome eng job) fs (Ended res (Some k))
      | _ \<Rightarrow> agrees (outcome eng job) fs ph)"

fun phase_trace :: "phase \<Rightarrow> nat option" where
  "phase_trace (Simulating k res) = Some k"
| "phase_trace (Ended res k) = k"
| "phase_trace _ = None"

lemma agrees_mono:
  assumes "agrees x fs ph" and "\<And>k. phase_trace ph = Some k \<Longrightarrow> fs' (witness_name k) = fs (witness_name k)"
  shows "agrees x fs' ph"
  using assms by (cases "(x, fs, ph)" rule: agrees.cases) (auto split: phase.splits option.splits)

lemma so_far_mono:
  assumes "so_far eng job fs ph" and "\<And>k. phase_trace ph = Some k \<Longrightarrow> fs' (witness_name k) = fs (witness_name k)"
  shows "so_far eng job fs' ph"
  using assms by (auto simp: so_far_def split: phase.splits intro: agrees_mono)

text \<open>One turn: the outcome is that of the job alone, and only a new file is written.\<close>

definition writes_new :: "desk \<Rightarrow> phase \<Rightarrow> desk \<Rightarrow> phase \<Rightarrow> bool" where
  "writes_new d ph d' ph' \<longleftrightarrow>
     (\<forall>k < cex_id d. traces d' (witness_name k) = traces d (witness_name k)) \<and> cex_id d \<le> cex_id d' \<and>
     (phase_trace ph' = phase_trace ph \<or>
      phase_trace ph = None \<and> phase_trace ph' = Some (cex_id d) \<and> cex_id d < cex_id d')"

lemma bmc_found_sound:
  assumes "bmc_found env res d = (ph', d')"
    and "aig_ok eng step props" and "res = attempt eng (bmc_config first final) step props None"
  shows "so_far eng (Bmc_job step props tmo first final) (traces d') ph' \<and> writes_new d (Proving name) d' ph'"
  using assms
  by (auto simp: bmc_found_def so_far_def writes_new_def bmc_def prove_def shell_def Let_def witness.file_eq
      split: if_splits option.splits prod.splits)

lemma resume_sound:
  assumes "resume env job res ph d = (ph', d')" and "fits eng job ph res" and "job_timeout job = None"
    and "\<not> explores job" and "so_far eng job (traces d) ph"
  shows "so_far eng job (traces d') ph' \<and> writes_new d ph d' ph'"
proof (cases ph)
  case Fresh
  then show ?thesis using assms by (auto simp: so_far_def writes_new_def prepare_aiger_def shell_def Let_def)
next
  case (Preparing name)
  then show ?thesis using assms
    by (cases job) (auto simp: so_far_def writes_new_def shell_def prove_def bmc_def split: if_splits)
next
  case (Proving name)
  show ?thesis
  proof (cases job)
    case (Bmc_job step props tmo first final)
    let ?d = "proof_done env (job_config job) name (job_step job) (job_props job) res d"
    have "bmc_found env res ?d = (ph', d')" using assms(1) Proving Bmc_job by (simp add: Let_def)
    then have "so_far eng job (traces d') ph' \<and> writes_new ?d (Proving name) d' ph'"
      using bmc_found_sound assms(2,3,5) Proving Bmc_job by (simp add: so_far_def)
    then show ?thesis using Proving by (simp add: writes_new_def)
  qed (use assms Proving in \<open>auto simp: so_far_def writes_new_def prove_def Let_def\<close>)
qed (use assms in \<open>auto simp: so_far_def writes_new_def\<close>)

text \<open>The state of all the coroutines: each as if alone, and no two of them with one trace.\<close>

definition consistent :: "engines \<Rightarrow> proof_job list \<Rightarrow> phase list \<times> desk \<Rightarrow> bool" where
  "consistent eng jobs st \<longleftrightarrow>
     (case st of (phs, d) \<Rightarrow> length phs = length jobs \<and>
        (\<forall>i < length jobs. so_far eng (jobs ! i) (traces d) (phs ! i) \<and> (\<forall>k. phase_trace (phs ! i) = Some k \<longrightarrow> k < cex_id d)) \<and>
        (\<forall>i < length jobs. \<forall>j < length jobs. i \<noteq> j \<longrightarrow> phase_trace (phs ! i) \<noteq> None \<longrightarrow> phase_trace (phs ! i) \<noteq> phase_trace (phs ! j)))"

lemma consistent_apart:
  assumes "consistent eng jobs (phs, d)" and "i < length jobs" "j < length jobs" and "i \<noteq> j"
    and "phase_trace (phs ! i) \<noteq> None"
  shows "phase_trace (phs ! j) \<noteq> phase_trace (phs ! i)"
proof -
  have "\<forall>i < length jobs. \<forall>j < length jobs. i \<noteq> j \<longrightarrow> phase_trace (phs ! i) \<noteq> None \<longrightarrow>
      phase_trace (phs ! i) \<noteq> phase_trace (phs ! j)"
    using assms(1) unfolding consistent_def by blast
  then show ?thesis using assms(2-5) by metis
qed

definition plain_jobs :: "proof_job list \<Rightarrow> bool" where
  "plain_jobs jobs \<longleftrightarrow> list_all (\<lambda>job. job_timeout job = None \<and> \<not> explores job) jobs"

lemma resume_consistent:
  assumes "consistent eng jobs (phs, d)" and "resume env (jobs ! i) r (phs ! i) d = (ph', d')"
    and "plain_jobs jobs" and "fits eng (jobs ! i) (phs ! i) r" and i_ok: "i < length jobs"
  shows "consistent eng jobs (phs[i := ph'], d')"
proof -
  note c = assms(1)[unfolded consistent_def, simplified]
  have sound: "so_far eng (jobs ! i) (traces d') ph' \<and> writes_new d (phs ! i) d' ph'"
    using resume_sound[OF assms(2), of eng] c i_ok assms(3,4) by (simp add: plain_jobs_def list_all_length)
  then have new: "\<And>k. k < cex_id d \<Longrightarrow> traces d' (witness_name k) = traces d (witness_name k)" "cex_id d \<le> cex_id d'"
      "phase_trace ph' = phase_trace (phs ! i) \<or>
       phase_trace (phs ! i) = None \<and> phase_trace ph' = Some (cex_id d) \<and> cex_id d < cex_id d'"
    by (auto simp: writes_new_def)
  have bound: "phase_trace (phs ! j) = Some k \<Longrightarrow> k < cex_id d" if "j < length jobs" for j k
    using c that by blast
  have others: "so_far eng (jobs ! j) (traces d') (phs ! j)" if "j < length jobs" for j
    using so_far_mono[of eng "jobs ! j" "traces d" "phs ! j" "traces d'"] c that new(1) bound by blast
  have nth: "phs[i := ph'] ! j = (if j = i then ph' else phs ! j)" if "j < length jobs" for j
    using that c by simp
  have apart: "phase_trace (phs ! a) \<noteq> phase_trace (phs ! b)"
    if "a < length jobs" "b < length jobs" "a \<noteq> b" "phase_trace (phs ! a) \<noteq> None" for a b
    using c that by blast
  have "phase_trace ph' \<noteq> None \<Longrightarrow> phase_trace ph' \<noteq> phase_trace (phs ! j)" if "j < length jobs" "j \<noteq> i" for j
    using new(3) apart[OF i_ok that(1)] bound[OF that(1), of "cex_id d"] that(2) by auto
  moreover have "k < cex_id d'" if "phase_trace ph' = Some k" for k
    using new(2,3) bound[OF i_ok] that by fastforce
  moreover have "k < cex_id d'" if "j < length jobs" "phase_trace (phs ! j) = Some k" for j k
    using bound[OF that] new(2) by simp
  ultimately show ?thesis
    using c i_ok sound others by (simp add: consistent_def nth) (metis option.discI)
qed

lemma turn_consistent:
  assumes "consistent eng jobs st" and "replies eng jobs reply" and "plain_jobs jobs"
  shows "consistent eng jobs (turn env reply jobs i st)"
proof -
  obtain phs d where st: "st = (phs, d)" by (cases st)
  obtain ph' d' where r: "resume env (jobs ! i) (reply i (phs ! i)) (phs ! i) d = (ph', d')"
    by (cases "resume env (jobs ! i) (reply i (phs ! i)) (phs ! i) d")
  show ?thesis
    using resume_consistent[OF assms(1)[unfolded st] r assms(3)] assms(1,2) r
    by (simp add: st turn_def replies_def)
qed

lemma conduct_consistent:
  assumes "replies eng jobs reply" and "plain_jobs jobs"
  shows "consistent eng jobs (conduct env reply jobs schedule d)"
proof -
  have "consistent eng jobs (replicate (length jobs) Fresh, d)" by (simp add: consistent_def so_far_def)
  then have "consistent eng jobs (fold (turn env reply jobs) schedule st)"
    if "consistent eng jobs st" for st
    using that by (induction schedule arbitrary: st) (use assms turn_consistent in auto)
  then show ?thesis by (simp add: conduct_def consistent_def so_far_def)
qed

text \<open>Every turn takes a coroutine further, so four end it.\<close>

fun rank :: "phase \<Rightarrow> nat" where
  "rank Fresh = 0"
| "rank (Preparing _) = 1"
| "rank (Proving _) = 2"
| "rank (Simulating _ _) = 3"
| "rank _ = 4"

lemma resume_rank:
  assumes "resume env job res ph d = (ph', d')"
  shows "min 4 (Suc (rank ph)) \<le> rank ph'"
  using assms
  by (cases "(env, job, res, ph, d)" rule: resume.cases)
    (auto simp: Let_def bmc_found_def split: if_splits proof_job.splits option.splits prod.splits)

lemma turn_rank:
  assumes "turn env reply jobs i (phs, d) = (phs', d')" and "length phs = length jobs" and "j < length jobs"
  shows "length phs' = length jobs" and "min 4 (rank (phs ! j) + (if i = j then 1 else 0)) \<le> rank (phs' ! j)"
proof -
  show "length phs' = length jobs"
    using assms by (auto simp: turn_def split: if_splits prod.splits)
  show "min 4 (rank (phs ! j) + (if i = j then 1 else 0)) \<le> rank (phs' ! j)"
  proof (cases "i = j")
    case True
    then show ?thesis
      using assms resume_rank[of env "jobs ! j" "reply j (phs ! j)" "phs ! j" d "phs' ! j" d']
      by (auto simp: turn_def split: prod.splits)
  next
    case False
    then show ?thesis using assms by (auto simp: turn_def split: if_splits prod.splits)
  qed
qed

lemma conduct_rank:
  assumes "fold (turn env reply jobs) schedule (phs, d) = (phs', d')" and "length phs = length jobs" and "j < length jobs"
  shows "min 4 (rank (phs ! j) + count_list schedule j) \<le> rank (phs' ! j)"
  using assms
proof (induction schedule arbitrary: phs d)
  case (Cons i schedule)
  obtain phs1 d1 where t: "turn env reply jobs i (phs, d) = (phs1, d1)" by (cases "turn env reply jobs i (phs, d)")
  have "min 4 (rank (phs1 ! j) + count_list schedule j) \<le> rank (phs' ! j)"
    using Cons.IH[of phs1 d1] Cons.prems t turn_rank(1)[OF t] by simp
  then show ?case using turn_rank(2)[OF t Cons.prems(2,3)] by (auto split: if_splits)
qed simp

lemma consistent_agrees:
  assumes "consistent eng jobs (phs, d)" and "plain_jobs jobs" and "i < length jobs" and "4 \<le> rank (phs ! i)"
  shows "agrees (outcome eng (jobs ! i)) (traces d) (phs ! i)"
proof -
  have "\<not> explores (jobs ! i)" using assms(2,3) by (simp add: plain_jobs_def list_all_length)
  moreover have "so_far eng (jobs ! i) (traces d) (phs ! i)" using assms(1,3) by (simp add: consistent_def)
  ultimately show ?thesis using assms(4) by (cases "phs ! i") (simp_all add: so_far_def)
qed

lemma conduct_agrees:
  assumes "replies eng jobs reply" and "plain_jobs jobs" and "conduct env reply jobs schedule d = (phs, d')"
    and "i < length jobs" and "4 \<le> count_list schedule i"
  shows "consistent eng jobs (phs, d')" and "agrees (outcome eng (jobs ! i)) (traces d') (phs ! i)"
proof -
  show c: "consistent eng jobs (phs, d')" using conduct_consistent[OF assms(1,2)] assms(3) by metis
  have "4 \<le> rank (phs ! i)"
    using conduct_rank[of env reply jobs schedule "replicate (length jobs) Fresh" d phs d' i] assms(3-5)
    by (simp add: conduct_def)
  then show "agrees (outcome eng (jobs ! i)) (traces d') (phs ! i)"
    by (rule consistent_agrees[OF c assms(2,4)])
qed

text \<open>
  C7. Proofs and searches that run beside each other, their turns in any order, each give what
  they give alone once they had four turns: the result of the engine or the error, and for a
  counterexample its trace, in a file that no other one writes.
\<close>

theorem interleaved_proofs:
  assumes "replies eng jobs reply" and "plain_jobs jobs" and "conduct env reply jobs schedule d = (phs, d')"
    and "i < length jobs" and "4 \<le> count_list schedule i"
  shows "agrees (outcome eng (jobs ! i)) (traces d') (phs ! i) \<and>
    (\<forall>j < length jobs. j \<noteq> i \<longrightarrow> phase_trace (phs ! i) \<noteq> None \<longrightarrow> phase_trace (phs ! j) \<noteq> phase_trace (phs ! i))"
proof -
  note c = conduct_agrees[OF assms]
  moreover have "phase_trace (phs ! j) \<noteq> phase_trace (phs ! i)"
    if "j < length jobs" "j \<noteq> i" "phase_trace (phs ! i) \<noteq> None" for j
    using consistent_apart[OF c(1) assms(4) that(1)] that(2,3) by blast
  ultimately show ?thesis by blast
qed

text \<open>Two searches that both find a counterexample, and a proof, by turns.\<close>

definition demo_engines :: engines where
  "demo_engines =
     \<lparr>aig_ok = (\<lambda>step props. props \<noteq> []),
      attempt = (\<lambda>config step props tmo.
        if step = 0 then \<lparr>res_code = Some 20, res_reason = OK, res_mem = 1, res_dt = 2, res_out = Some [], res_err = Some []\<rparr>
        else \<lparr>res_code = Some 10, res_reason = OK, res_mem = 1, res_dt = 2,
              res_out = Some (''1'' @ [newline] @ concat props), res_err = Some []\<rparr>)\<rparr>"

definition demo_jobs :: "proof_job list" where
  "demo_jobs =
     [Bmc_job 1 [''LoadA''] None None None, Prove_job ''rIC3'' 0 [''Mem''] None 10, Bmc_job 2 [''LoadB''] None (Some 3) (Some 3)]"

definition demo_reply :: "engines \<Rightarrow> proof_job list \<Rightarrow> reply" where
  "demo_reply eng jobs i ph =
     (case ph of
        Proving name \<Rightarrow> attempt eng (job_config (jobs ! i)) (job_step (jobs ! i)) (job_props (jobs ! i)) (job_timeout (jobs ! i))
      | _ \<Rightarrow> \<lparr>res_code = (if aig_ok eng (job_step (jobs ! i)) (job_props (jobs ! i)) then Some 0 else Some 1),
             res_reason = OK, res_mem = 0, res_dt = 0, res_out = Some [], res_err = Some []\<rparr>)"

lemma demo_replies: "replies eng jobs (demo_reply eng jobs)"
proof -
  have "fits eng (jobs ! i) ph (demo_reply eng jobs i ph)" for i ph
    by (cases ph) (simp_all add: demo_reply_def)
  then show ?thesis by (simp add: replies_def)
qed

definition demo_log_env :: log_env where
  "demo_log_env =
     \<lparr>no_log = False, clock_reading = of_nat, stamp = (\<lambda>t. ''[now]''), root_hash = ''ab'', float_text = (\<lambda>q. show_fixed 1 q)\<rparr>"

definition new_desk :: desk where
  "new_desk =
     \<lparr>readings = 0, console = [], logfile = [], prooflog = [], traces = Map.empty, aiger_idx = 0, cex_id = 0, asked = []\<rparr>"

definition demo_schedule :: "nat list" where
  "demo_schedule = [0, 1, 2, 2, 0, 0, 2, 2, 1, 1, 0, 0]"

definition demo_conduct :: "phase list \<times> desk" where
  "demo_conduct = conduct demo_log_env (demo_reply demo_engines demo_jobs) demo_jobs demo_schedule new_desk"

lemma interleaved_proofs_witness:
  "agrees (outcome demo_engines (demo_jobs ! 2)) (traces (snd demo_conduct)) (fst demo_conduct ! 2)"
  using interleaved_proofs[OF demo_replies, of demo_jobs demo_log_env demo_engines demo_schedule new_desk
      "fst demo_conduct" "snd demo_conduct" 2]
  by (simp add: demo_jobs_def plain_jobs_def demo_conduct_def demo_schedule_def)

section \<open>Running a strategy\<close>

text \<open>
  The proofs that are gathered when a strategy runs, and what gathering them gives: their
  results in the order of the strategy, or the error of one.
\<close>

definition strategy_order :: "strategy list \<Rightarrow> strategy list" where
  "strategy_order = sort_key (\<lambda>s. - res_dt (st_res s))"

definition strategy_jobs :: "strategy list \<Rightarrow> conductor_error + proof_job list" where
  "strategy_jobs ss =
     ebind (emap rerun_config (strategy_order ss)) (\<lambda>confs.
       Inr (map (\<lambda>(conf, s). Prove_job conf (st_step s) (st_props s) None (res_mem (st_res s) * (11 / 10)))
              (zip confs (strategy_order ss))))"

definition gathered :: "phase list \<Rightarrow> conductor_error + process_result list" where
  "gathered = emap (\<lambda>ph. case ph of Ended r _ \<Rightarrow> Inr r | Raised e \<Rightarrow> Inl e | _ \<Rightarrow> Inl Assert_failed)"

lemma emap_nth_cong:
  "length xs = length ys \<Longrightarrow> (\<And>i. i < length ys \<Longrightarrow> f (xs ! i) = g (ys ! i)) \<Longrightarrow> emap f xs = emap g ys"
proof (induction xs arbitrary: ys)
  case (Cons x xs)
  then obtain y ys' where ys: "ys = y # ys'" by (cases ys) auto
  have "f x = g y" using Cons.prems(2)[of 0] ys by simp
  moreover have "emap f xs = emap g ys'"
    by (rule Cons.IH) (use Cons.prems(1) Cons.prems(2)[of "Suc i" for i] ys in auto)
  ultimately show ?case by (simp add: ys)
qed simp

text \<open>
  C8. The proofs of a strategy, whatever the order of their turns, give together what the modes
  take a run of the strategy to give: every result with its step, or an error.
\<close>

theorem strategies_run_interleaved:
  assumes "strategy_jobs ss = Inr jobs" and "replies eng jobs reply"
    and "conduct env reply jobs schedule d = (phs, d')" and "list_all (\<lambda>i. 4 \<le> count_list schedule i) [0..<length jobs]"
  shows "run_strategy eng ss = ebind (gathered phs) (\<lambda>rs. Inr (zip rs (strategy_order ss)))"
proof -
  obtain confs where confs: "emap rerun_config (strategy_order ss) = Inr confs"
      "jobs = map (\<lambda>(conf, s). Prove_job conf (st_step s) (st_props s) None (res_mem (st_res s) * (11 / 10)))
        (zip confs (strategy_order ss))"
    using assms(1) by (auto simp: strategy_jobs_def raise_simps)
  let ?prove = "\<lambda>(conf, s). prove eng conf (st_step s) (st_props s)"
  have plain: "plain_jobs jobs" by (auto simp: confs(2) plain_jobs_def list_all_iff)
  have len: "length phs = length jobs"
    using conduct_consistent[OF assms(2) plain, of env schedule d] by (simp add: assms(3) consistent_def)
  have "(case phs ! i of Ended r _ \<Rightarrow> Inr r | Raised e \<Rightarrow> Inl e | _ \<Rightarrow> Inl Assert_failed) =
      ?prove (zip confs (strategy_order ss) ! i)" if i: "i < length jobs" for i
  proof -
    obtain conf s where z: "zip confs (strategy_order ss) ! i = (conf, s)" by fastforce
    have "agrees (outcome eng (jobs ! i)) (traces d') (phs ! i)"
      using conduct_agrees(2)[OF assms(2) plain assms(3) i] assms(4) i by (simp add: list_all_iff)
    moreover have "jobs ! i = Prove_job conf (st_step s) (st_props s) None (res_mem (st_res s) * (11 / 10))"
      using i z confs(2) by simp
    ultimately show ?thesis by (cases "prove eng conf (st_step s) (st_props s)") (auto simp: z)
  qed
  then have "gathered phs = emap ?prove (zip confs (strategy_order ss))"
    unfolding gathered_def using len confs(2) by (intro emap_nth_cong) simp_all
  then show ?thesis
    using confs(1) by (simp add: run_strategy_def Let_def strategy_order_def split_def)
qed

definition demo_strategy :: "strategy list" where
  "demo_strategy =
     [\<lparr>st_step = 0, st_props = [''Mem''], st_config = ''rIC3'', st_res = attempt demo_engines ''rIC3'' 0 [''Mem''] None\<rparr>,
      \<lparr>st_step = 1, st_props = [''LoadA''], st_config = ''rIC3 -e bmc'', st_res = attempt demo_engines ''rIC3'' 0 [''Mem''] None\<rparr>]"

definition demo_strategy_jobs :: "proof_job list" where
  "demo_strategy_jobs = [Prove_job ''rIC3'' 0 [''Mem''] None (11 / 10), Prove_job ''rIC3 -e bmc'' 1 [''LoadA''] None (11 / 10)]"

lemma strategies_run_interleaved_witness:
  "run_strategy demo_engines demo_strategy =
     ebind (gathered (fst (conduct demo_log_env (demo_reply demo_engines demo_strategy_jobs) demo_strategy_jobs
         [1, 0, 0, 1, 1, 0, 0, 1] new_desk)))
       (\<lambda>rs. Inr (zip rs (strategy_order demo_strategy)))"
proof (rule strategies_run_interleaved[OF _ demo_replies surjective_pairing])
  show "strategy_jobs demo_strategy = Inr demo_strategy_jobs"
    by code_simp
qed (simp add: demo_strategy_jobs_def)

section \<open>The prepared files\<close>

text \<open>The commands that have a file among their words.\<close>

definition mentions :: "string \<Rightarrow> string \<Rightarrow> bool" where
  "mentions name c \<longleftrightarrow> name \<in> set (split_on CHR '' '' c)"

definition about :: "string \<Rightarrow> desk \<Rightarrow> string list" where
  "about name d = filter (mentions name) (map cmd (asked d))"

definition job_cmds :: "proof_job \<Rightarrow> string \<Rightarrow> string list" where
  "job_cmds job name =
     select_cmd name (job_step job) (job_props job) # (if explores job then [] else [engine_cmd (job_config job) name])"

text \<open>Engines and properties do not name prepared files themselves.\<close>

definition aiger_like :: "string \<Rightarrow> bool" where
  "aiger_like w \<longleftrightarrow> prefix ''build/aiger-'' w"

definition clean_job :: "proof_job \<Rightarrow> bool" where
  "clean_job job \<longleftrightarrow>
     \<not> list_ex aiger_like (split_on CHR '' '' (join '' '' (job_props job))) \<and>
     \<not> list_ex aiger_like (split_on CHR '' '' (job_config job))"

lemma split_on_sep: "split_on c (a @ c # b) = split_on c a @ split_on c b"
proof (induction a)
  case (Cons x a)
  obtain w ws where "split_on c a = w # ws" by (meson neq_Nil_conv split_on_nonempty)
  then show ?case using Cons by auto
qed simp

lemma mentions_space: "mentions name (a @ CHR '' '' # b) \<longleftrightarrow> mentions name a \<or> mentions name b"
  by (simp add: mentions_def split_on_sep)

lemma mentions_word: "CHR '' '' \<notin> set w \<Longrightarrow> mentions name w \<longleftrightarrow> name = w"
  by (simp add: mentions_def split_on_absent)

lemma show_nat_plain: "c \<in> set (show_nat n) \<Longrightarrow> is_digit c"
  using show_nat_digits[of n] by (auto simp: list_all_iff)

lemma no_space:
  "CHR '' '' \<notin> set (show_nat n)" "CHR '' '' \<notin> set (show_int i)"
  using show_nat_plain[of "CHR '' ''" n] show_int_chars[of "CHR '' ''" i] by (auto simp: is_digit_def)

lemma aiger_like_name: "aiger_like (aiger_name n)"
  by (simp add: aiger_like_def aiger_name_def)

lemma mentions_unlike:
  assumes "\<not> list_ex aiger_like (split_on CHR '' '' s)"
  shows "\<not> mentions (aiger_name n) s"
  using assms aiger_like_name by (auto simp: mentions_def list_ex_iff)

lemma select_words:
  "select_cmd name step props =
     join '' '' [''build/aig-manip'', ''build/all.aig'', ''select'', name, ''build/all.ywmap'', show_int step] @
     '' '' @ join '' '' props"
  by (simp add: select_cmd_def)

lemma mentions_join:
  "ws \<noteq> [] \<Longrightarrow> \<forall>w \<in> set ws. CHR '' '' \<notin> set w \<Longrightarrow> mentions name (join '' '' ws) \<longleftrightarrow> name \<in> set ws"
  using split_on_join[of ws "CHR '' ''"] by (simp add: mentions_def)

lemma aiger_plain: "CHR '' '' \<notin> set (aiger_name n)"
  by (simp add: aiger_name_def no_space)

lemma aiger_unlike: "\<not> aiger_like w \<Longrightarrow> aiger_name m \<noteq> w"
  using aiger_like_name by blast

lemma step_unlike: "\<not> aiger_like (show_int i)"
  using show_int_chars[of "CHR ''b''" i] by (cases "show_int i") (auto simp: aiger_like_def is_digit_def)

lemma mentions_select:
  assumes "clean_job job"
  shows "mentions (aiger_name m) (select_cmd (aiger_name n) (job_step job) (job_props job)) \<longleftrightarrow> m = n"
proof -
  let ?ws = "[''build/aig-manip'', ''build/all.aig'', ''select'', aiger_name n, ''build/all.ywmap'', show_int (job_step job)]"
  have "select_cmd (aiger_name n) (job_step job) (job_props job) = join '' '' ?ws @ CHR '' '' # join '' '' (job_props job)"
    using select_words[of "aiger_name n" "job_step job" "job_props job"] by simp
  moreover have "mentions (aiger_name m) (join '' '' ?ws) \<longleftrightarrow> aiger_name m \<in> set ?ws"
    by (rule mentions_join) (simp_all add: aiger_plain no_space)
  moreover have "aiger_name m \<in> set ?ws \<longleftrightarrow> m = n"
    by (simp add: aiger_unlike aiger_unlike[OF step_unlike] aiger.file_eq aiger_like_def)
  moreover have "\<not> mentions (aiger_name m) (join '' '' (job_props job))"
    using mentions_unlike assms by (simp add: clean_job_def)
  ultimately show ?thesis by (simp only: mentions_space simp_thms)
qed

lemma mentions_engine:
  assumes "clean_job job"
  shows "mentions (aiger_name m) (engine_cmd (job_config job) (aiger_name n)) \<longleftrightarrow> m = n"
proof -
  have "\<not> mentions (aiger_name m) (job_config job)"
    using mentions_unlike assms by (simp add: clean_job_def)
  then show ?thesis
    by (simp add: engine_cmd_def mentions_space mentions_word[OF aiger_plain] aiger.file_eq)
qed

lemma mentions_simulate: "\<not> mentions (aiger_name m) (simulate_cmd k)"
proof -
  let ?ws = "[''./aig-manip/target/release/aig-manip'', ''build/all.aig'', ''simulate'',
    ''build/all.ywmap'', ''build/all.vmap'', witness_name k, vcd_name k]"
  have "simulate_cmd k = join '' '' ?ws" by (simp add: simulate_cmd_def)
  moreover have "mentions (aiger_name m) (join '' '' ?ws) \<longleftrightarrow> aiger_name m \<in> set ?ws"
    by (rule mentions_join) (simp_all add: witness_name_def vcd_name_def no_space)
  moreover have "aiger_name m \<notin> set ?ws"
    by (simp add: aiger_unlike aiger_like_def witness_name_def vcd_name_def)
  ultimately show ?thesis by (simp only: simp_thms)
qed

text \<open>The commands of a turn: the preparation, the engine, at most a simulation.\<close>

definition waits_for_file :: "phase \<Rightarrow> bool" where
  "waits_for_file ph \<longleftrightarrow> (case ph of Fresh \<Rightarrow> True | Preparing _ \<Rightarrow> True | _ \<Rightarrow> False)"

lemma shell_cmds [simp]:
  "map cmd (asked (shell c mem tmo d)) = map cmd (asked d) @ [c]" "aiger_idx (shell c mem tmo d) = aiger_idx d"
  by (simp_all add: shell_def new_process_def)

lemma bmc_found_cmds:
  assumes "bmc_found env res d = (ph', d')"
  shows "aiger_idx d' = aiger_idx d \<and> \<not> waits_for_file ph' \<and>
    (\<exists>ks. map cmd (asked d') = map cmd (asked d) @ map simulate_cmd ks)"
proof -
  have "aiger_idx d' = aiger_idx d \<and> \<not> waits_for_file ph' \<and>
      (map cmd (asked d') = map cmd (asked d) @ map simulate_cmd [] \<or>
       map cmd (asked d') = map cmd (asked d) @ map simulate_cmd [cex_id d])"
    using assms
    by (auto simp: bmc_found_def waits_for_file_def Let_def simp del: map_eq_conv
        split: if_splits option.splits prod.splits)
  then show ?thesis by blast
qed

lemma resume_cmds:
  assumes "resume env job res ph d = (ph', d')"
  shows "ph = Fresh \<Longrightarrow> ph' = Preparing (aiger_name (aiger_idx d)) \<and> aiger_idx d' = Suc (aiger_idx d) \<and>
      map cmd (asked d') = map cmd (asked d) @ [select_cmd (aiger_name (aiger_idx d)) (job_step job) (job_props job)]"
    and "ph = Preparing name \<Longrightarrow> aiger_idx d' = aiger_idx d \<and> \<not> waits_for_file ph' \<and>
      (map cmd (asked d') = map cmd (asked d) \<or>
       \<not> explores job \<and> map cmd (asked d') = map cmd (asked d) @ [engine_cmd (job_config job) name])"
    and "\<not> waits_for_file ph \<Longrightarrow> aiger_idx d' = aiger_idx d \<and> \<not> waits_for_file ph' \<and>
      (\<exists>ks. map cmd (asked d') = map cmd (asked d) @ map simulate_cmd ks)"
proof -
  show "ph' = Preparing (aiger_name (aiger_idx d)) \<and> aiger_idx d' = Suc (aiger_idx d) \<and>
      map cmd (asked d') = map cmd (asked d) @ [select_cmd (aiger_name (aiger_idx d)) (job_step job) (job_props job)]"
    if "ph = Fresh"
    using assms that by (auto simp: prepare_aiger_def Let_def simp del: map_eq_conv)
  show "aiger_idx d' = aiger_idx d \<and> \<not> waits_for_file ph' \<and>
      (map cmd (asked d') = map cmd (asked d) \<or>
       \<not> explores job \<and> map cmd (asked d') = map cmd (asked d) @ [engine_cmd (job_config job) name])"
    if "ph = Preparing name"
    using assms that by (cases job) (auto simp: waits_for_file_def simp del: map_eq_conv split: if_splits)
  show "aiger_idx d' = aiger_idx d \<and> \<not> waits_for_file ph' \<and>
      (\<exists>ks. map cmd (asked d') = map cmd (asked d) @ map simulate_cmd ks)"
    if "\<not> waits_for_file ph"
  proof (cases "\<exists>name step props tmo first final. ph = Proving name \<and> job = Bmc_job step props tmo first final")
    case True
    then obtain e where "bmc_found env res e = (ph', d')" "asked e = asked d" "aiger_idx e = aiger_idx d"
      using assms by (auto simp: Let_def)
    then show ?thesis using bmc_found_cmds[of env res e] by (simp del: map_eq_conv)
  next
    case False
    then have "aiger_idx d' = aiger_idx d \<and> \<not> waits_for_file ph' \<and>
        map cmd (asked d') = map cmd (asked d) @ map simulate_cmd []"
      using assms that by (cases ph; cases job) (auto simp: waits_for_file_def Let_def simp del: map_eq_conv)
    then show ?thesis by blast
  qed
qed

text \<open>Every file that was prepared has one owner, and its commands so far are those of the owner.\<close>

definition owned :: "proof_job list \<Rightarrow> nat list \<Rightarrow> phase list \<times> desk \<Rightarrow> bool" where
  "owned jobs os st \<longleftrightarrow>
     (case st of (phs, d) \<Rightarrow> length phs = length jobs \<and> length os = aiger_idx d \<and> distinct os \<and>
        (\<forall>i. i \<in> set os \<longleftrightarrow> i < length jobs \<and> phs ! i \<noteq> Fresh) \<and>
        (\<forall>n < aiger_idx d. prefix (about (aiger_name n) d) (job_cmds (jobs ! (os ! n)) (aiger_name n))) \<and>
        (\<forall>n \<ge> aiger_idx d. about (aiger_name n) d = []) \<and>
        (\<forall>i < length jobs. \<forall>name. phs ! i = Preparing name \<longrightarrow>
           (\<exists>n < aiger_idx d. os ! n = i \<and> name = aiger_name n \<and>
              about name d = [select_cmd name (job_step (jobs ! i)) (job_props (jobs ! i))])))"

lemma ownedD:
  assumes "owned jobs os (phs, d)"
  shows "length phs = length jobs" "length os = aiger_idx d" "distinct os"
    "i \<in> set os \<longleftrightarrow> i < length jobs \<and> phs ! i \<noteq> Fresh"
    "n < aiger_idx d \<Longrightarrow> prefix (about (aiger_name n) d) (job_cmds (jobs ! (os ! n)) (aiger_name n))"
    "aiger_idx d \<le> n \<Longrightarrow> about (aiger_name n) d = []"
    "i < length jobs \<Longrightarrow> phs ! i = Preparing name \<Longrightarrow>
       \<exists>n < aiger_idx d. os ! n = i \<and> name = aiger_name n \<and>
         about name d = [select_cmd name (job_step (jobs ! i)) (job_props (jobs ! i))]"
  using assms by (auto simp: owned_def)

lemma about_append:
  "map cmd (asked d') = map cmd (asked d) @ cs \<Longrightarrow> about name d' = about name d @ filter (mentions name) cs"
  by (simp add: about_def)

lemma about_simulations:
  "map cmd (asked d') = map cmd (asked d) @ map simulate_cmd ks \<Longrightarrow> about (aiger_name n) d' = about (aiger_name n) d"
  by (simp add: about_append filter_empty_conv mentions_simulate)

text \<open>A turn that leaves the preparations alone.\<close>

lemma owned_kept:
  assumes "owned jobs os (phs, d)" and "aiger_idx d' = aiger_idx d" and "i < length jobs" "\<not> waits_for_file ph'" "phs ! i \<noteq> Fresh"
    and "\<And>n. n < aiger_idx d \<Longrightarrow> prefix (about (aiger_name n) d') (job_cmds (jobs ! (os ! n)) (aiger_name n))"
    and "\<And>n. n \<ge> aiger_idx d \<or> os ! n \<noteq> i \<Longrightarrow> about (aiger_name n) d' = about (aiger_name n) d"
  shows "owned jobs os (phs[i := ph'], d')"
proof -
  note o = ownedD[OF assms(1)]
  have ph': "ph' \<noteq> Fresh" "\<And>name. ph' \<noteq> Preparing name" using assms(4) by (auto simp: waits_for_file_def)
  have "\<exists>n < aiger_idx d. os ! n = j \<and> name = aiger_name n \<and>
      about name d' = [select_cmd name (job_step (jobs ! j)) (job_props (jobs ! j))]"
    if j: "j < length jobs" "phs[i := ph'] ! j = Preparing name" for j name
  proof -
    have "j \<noteq> i" using j ph'(2) o(1) by (cases "j = i") auto
    then have "phs ! j = Preparing name" using j(2) by simp
    then obtain n where n: "n < aiger_idx d" "os ! n = j" "name = aiger_name n"
        "about name d = [select_cmd name (job_step (jobs ! j)) (job_props (jobs ! j))]"
      using o(7)[OF j(1)] by blast
    then show ?thesis using assms(7)[of n] \<open>j \<noteq> i\<close> by auto
  qed
  moreover have "j \<in> set os \<longleftrightarrow> j < length jobs \<and> phs[i := ph'] ! j \<noteq> Fresh" for j
    using o(4)[of j] ph'(1) o(1) assms(5) by (cases "j = i") auto
  ultimately show ?thesis
    using o(1-3,6) assms(2,6,7) by (simp add: owned_def)
qed

lemma owned_new:
  assumes "owned jobs os (phs, d)" and i: "i < length jobs" and "phs ! i = Fresh"
    and "ph' = Preparing (aiger_name (aiger_idx d))" and k: "aiger_idx d' = Suc (aiger_idx d)"
    and a: "\<And>n. about (aiger_name n) d' = about (aiger_name n) d @
      (if n = aiger_idx d then [select_cmd (aiger_name n) (job_step (jobs ! i)) (job_props (jobs ! i))] else [])"
  shows "owned jobs (os @ [i]) (phs[i := ph'], d')"
proof -
  let ?k = "aiger_idx d"
  note o = ownedD[OF assms(1)]
  have i_new: "i \<notin> set os" using o(4) assms(3) by blast
  have "j \<in> set (os @ [i]) \<longleftrightarrow> j < length jobs \<and> phs[i := ph'] ! j \<noteq> Fresh" for j
    using o(4)[of j] o(1) i assms(4) by (cases "j = i") auto
  moreover have "prefix (about (aiger_name n) d') (job_cmds (jobs ! ((os @ [i]) ! n)) (aiger_name n))"
    if "n < aiger_idx d'" for n
  proof (cases "n = ?k")
    case True
    then show ?thesis using a[of n] o(2) o(6)[of n] by (simp add: job_cmds_def nth_append)
  next
    case False
    then show ?thesis using a[of n] o(2) o(5)[of n] that k by (simp add: nth_append)
  qed
  moreover have "about (aiger_name n) d' = []" if "aiger_idx d' \<le> n" for n
    using a[of n] o(6)[of n] that k by simp
  moreover have "\<exists>n < aiger_idx d'. (os @ [i]) ! n = j \<and> name = aiger_name n \<and>
      about name d' = [select_cmd name (job_step (jobs ! j)) (job_props (jobs ! j))]"
    if j: "j < length jobs" "phs[i := ph'] ! j = Preparing name" for j name
  proof (cases "j = i")
    case True
    then have "name = aiger_name ?k" using j o(1) assms(4) by simp
    then show ?thesis using True a[of ?k] o(2) o(6)[of ?k] k by (intro exI[of _ ?k]) (simp add: nth_append)
  next
    case False
    then have "phs ! j = Preparing name" using j by simp
    then obtain n where "n < ?k" "os ! n = j" "name = aiger_name n"
        "about name d = [select_cmd name (job_step (jobs ! j)) (job_props (jobs ! j))]"
      using o(7)[OF j(1)] by blast
    then show ?thesis using a[of n] o(2) k by (intro exI[of _ n]) (simp add: nth_append)
  qed
  ultimately show ?thesis
    using o(1-3) i i_new k assms(4) by (simp add: owned_def)
qed

lemma owned_engine:
  assumes "owned jobs os (phs, d)" and "i < length jobs" and "phs ! i = Preparing name" and clean: "clean_job (jobs ! i)"
    and c: "aiger_idx d' = aiger_idx d \<and> \<not> waits_for_file ph' \<and>
      (map cmd (asked d') = map cmd (asked d) \<or>
       \<not> explores (jobs ! i) \<and> map cmd (asked d') = map cmd (asked d) @ [engine_cmd (job_config (jobs ! i)) name])"
  shows "owned jobs os (phs[i := ph'], d')"
proof -
  note o = ownedD[OF assms(1)]
  obtain k where k: "k < aiger_idx d" "os ! k = i" "name = aiger_name k"
      "about name d = [select_cmd name (job_step (jobs ! i)) (job_props (jobs ! i))]"
    using o(7)[OF assms(2,3)] by blast
  have new: "about (aiger_name n) d' = about (aiger_name n) d \<or>
      n = k \<and> \<not> explores (jobs ! i) \<and> about (aiger_name n) d' = about (aiger_name n) d @ [engine_cmd (job_config (jobs ! i)) name]" for n
    using c about_append[of d' d "[]"] about_append[of d' d "[engine_cmd (job_config (jobs ! i)) name]"]
    by (auto simp: mentions_engine[OF clean] k(3) split: if_splits)
  show ?thesis
  proof (rule owned_kept[OF assms(1) _ assms(2)])
    show "prefix (about (aiger_name n) d') (job_cmds (jobs ! (os ! n)) (aiger_name n))" if "n < aiger_idx d" for n
      using new[of n] o(5)[OF that] k by (auto simp: job_cmds_def)
    show "about (aiger_name n) d' = about (aiger_name n) d" if "n \<ge> aiger_idx d \<or> os ! n \<noteq> i" for n
      using new[of n] k that by auto
  qed (use c assms(3) in auto)
qed

lemma resume_owned:
  assumes "owned jobs os (phs, d)" and "resume env (jobs ! i) r (phs ! i) d = (ph', d')"
    and "list_all clean_job jobs" and i_ok: "i < length jobs"
  shows "\<exists>os'. owned jobs os' (phs[i := ph'], d')"
proof -
  note o = ownedD[OF assms(1)]
  note cmds = resume_cmds[OF assms(2)]
  have clean: "clean_job (jobs ! i)" using assms(3) i_ok by (simp add: list_all_length)
  consider (fresh) "phs ! i = Fresh" | (prep) name where "phs ! i = Preparing name" | (rest) "\<not> waits_for_file (phs ! i)"
    by (cases "phs ! i") (auto simp: waits_for_file_def)
  then show ?thesis
  proof cases
    case fresh
    let ?k = "aiger_idx d"
    have new: "ph' = Preparing (aiger_name ?k)" "aiger_idx d' = Suc ?k"
        "about (aiger_name n) d' = about (aiger_name n) d @
          (if n = ?k then [select_cmd (aiger_name n) (job_step (jobs ! i)) (job_props (jobs ! i))] else [])" for n
      using cmds(1)[OF fresh] about_append[of d' d] by (simp_all add: mentions_select[OF clean])
    show ?thesis using owned_new[OF assms(1) i_ok fresh new] by auto
  next
    case (prep name)
    then show ?thesis
      using owned_engine[OF assms(1) i_ok prep clean] cmds(2)[OF prep] by auto
  next
    case rest
    have started: "phs ! i \<noteq> Fresh" using rest by (auto simp: waits_for_file_def)
    note c = cmds(3)[OF rest]
    then have "about (aiger_name n) d' = about (aiger_name n) d" for n using about_simulations by blast
    then have "owned jobs os (phs[i := ph'], d')"
      using owned_kept[OF assms(1) _ i_ok _ started] c o(5) by simp
    then show ?thesis by auto
  qed
qed

lemma turn_owned:
  assumes "owned jobs os st" and "list_all clean_job jobs"
  shows "\<exists>os'. owned jobs os' (turn env reply jobs i st)"
proof -
  obtain phs d where st: "st = (phs, d)" by (cases st)
  obtain ph' d' where r: "resume env (jobs ! i) (reply i (phs ! i)) (phs ! i) d = (ph', d')"
    by (cases "resume env (jobs ! i) (reply i (phs ! i)) (phs ! i) d")
  show ?thesis
    using resume_owned[OF assms(1)[unfolded st] r assms(2)] assms(1) r by (auto simp: st turn_def)
qed

text \<open>
  C18. The files that are prepared and the proofs that have started belong to each other one
  to one, whatever order the proofs take their turns in: the only commands that name a file are
  the one that prepares it for the step and the properties of its owner, and after that the
  engine of its owner.
\<close>

theorem aiger_files_private:
  assumes "list_all clean_job jobs" and "aiger_idx d = 0" "asked d = []"
    and "conduct env reply jobs schedule d = (phs, d')"
  shows "\<exists>owner. distinct owner \<and> length owner = aiger_idx d' \<and> set owner = {i. i < length jobs \<and> phs ! i \<noteq> Fresh} \<and>
    (\<forall>n < aiger_idx d'. prefix (about (aiger_name n) d') (job_cmds (jobs ! (owner ! n)) (aiger_name n)))"
proof -
  have "\<exists>os. owned jobs os (fold (turn env reply jobs) schedule st)" if "owned jobs os st" for os st
    using that
  proof (induction schedule arbitrary: os st)
    case (Cons i schedule)
    obtain os' where "owned jobs os' (turn env reply jobs i st)" using turn_owned[OF Cons.prems assms(1)] by blast
    then show ?case using Cons.IH by simp
  qed auto
  moreover have "owned jobs [] (replicate (length jobs) Fresh, d)"
    using assms(2,3) by (simp add: owned_def about_def)
  ultimately obtain os where "owned jobs os (phs, d')"
    using assms(4) by (metis conduct_def)
  then show ?thesis
    using ownedD[of jobs os phs d'] by (intro exI[of _ os]) auto
qed

lemma aiger_files_private_witness:
  "\<exists>owner. distinct owner \<and> length owner = aiger_idx (snd demo_conduct) \<and>
    list_all (\<lambda>n. prefix (about (aiger_name n) (snd demo_conduct)) (job_cmds (demo_jobs ! (owner ! n)) (aiger_name n)))
      [0..<aiger_idx (snd demo_conduct)]"
proof -
  have "list_all clean_job demo_jobs" by code_simp
  from aiger_files_private[OF this, of new_desk demo_log_env "demo_reply demo_engines demo_jobs" demo_schedule
      "fst demo_conduct" "snd demo_conduct"]
  show ?thesis by (auto simp: new_desk_def demo_conduct_def list_all_iff)
qed

section \<open>The log of the proofs\<close>

text \<open>
  A proof that ends adds one line to the log of the proofs, with its entry, whatever its
  process wrote: the newlines of its output are escaped, and the lines before stay as they are.
\<close>

theorem proof_log_line:
  assumes "\<not> no_log env" and "\<And>q. newline \<notin> set (float_text env q)"
    and "prooflog d = [] \<or> last (prooflog d) = newline"
  shows "file_lines (prooflog (proof_done env config path step props r d)) = file_lines (prooflog d) @
    [json_dumps (float_text env) (proof_entry env (clock_reading env (readings d)) config step props r) @ [newline]]"
proof -
  have "prooflog (proof_done env config path step props r d) = prooflog d @
      json_dumps (float_text env) (proof_entry env (clock_reading env (readings d)) config step props r) @ [newline]"
    using assms(1) by (simp add: proof_done_def write_proof_def now_def)
  then show ?thesis using file_lines_add[OF assms(3) json_dumps_one_line[OF assms(2)]] by simp
qed

lemma float_one_line: "newline \<notin> set (show_fixed n q)"
  using show_nat_plain[of newline] by (auto simp: show_fixed_def Let_def is_digit_def)

lemma proof_log_line_witness:
  "file_lines (prooflog (proof_done demo_log_env ''rIC3'' ''build/aiger-0.aig'' 1 [''LoadA'']
     (attempt demo_engines ''rIC3'' 1 [''LoadA''] None) new_desk)) =
   [json_dumps (\<lambda>q. show_fixed 1 q)
     (proof_entry demo_log_env 0 ''rIC3'' 1 [''LoadA''] (attempt demo_engines ''rIC3'' 1 [''LoadA''] None)) @ [newline]]"
  using proof_log_line[of demo_log_env new_desk "''rIC3''" "''build/aiger-0.aig''" 1 "[''LoadA'']"]
  by (simp add: demo_log_env_def new_desk_def float_one_line file_lines_def)

section \<open>The words of the commands\<close>

definition shell_word :: "string \<Rightarrow> bool" where
  "shell_word w \<longleftrightarrow> w \<noteq> [] \<and> list_all safe_char w"

lemma split_plain:
  assumes "list_all shell_word ws"
  shows "shlex_split (join '' '' ws) = Inr ws"
proof -
  have "map quote ws = ws"
    using assms by (intro map_idI) (auto simp: list_all_iff shell_word_def quote_def)
  then show ?thesis using sh.split_quoted[of ws] by simp
qed

lemma split_space: "shlex_split (CHR '' '' # s) = shlex_split s"
  by (simp add: shlex_split_def shlex_space_def)

lemma safe_digits: "list_all is_digit w \<Longrightarrow> list_all safe_char w"
  by (auto simp: list_all_iff safe_char_def is_word_def)

lemma safe_shown: "shell_word (show_int i)" "list_all safe_char (show_nat n)"
proof -
  have "safe_char c" if "c \<in> set (show_int i)" for c
    using show_int_chars[OF that] by (auto simp: safe_char_def is_word_def)
  then show "shell_word (show_int i)" by (auto simp: shell_word_def list_all_iff show_int_def show_nat_def)
  show "list_all safe_char (show_nat n)" using safe_digits show_nat_digits by blast
qed

text \<open>
  The command that prepares a file and the one that is advised for another engine split into
  words that name the same step and the same properties, each a word of its own, in their order.
\<close>

theorem commands_words:
  assumes "list_all shell_word props" and "props \<noteq> []"
  shows "shlex_split (select_cmd (aiger_name n) step props) =
      Inr ([''build/aig-manip'', ''build/all.aig'', ''select'', aiger_name n, ''build/all.ywmap'', show_int step] @ props) \<and>
    shlex_split (smt2_hint step props) =
      Inr ([''python3'', ''smt2manip.py'', ''build/all.smt2'', ''sel.smt2'', show_int step] @ props)"
proof -
  obtain p ps where props: "props = p # ps" using assms(2) by (cases props) auto
  let ?select = "[''build/aig-manip'', ''build/all.aig'', ''select'', aiger_name n, ''build/all.ywmap'', show_int step] @ props"
  let ?hint = "[''python3'', ''smt2manip.py'', ''build/all.smt2'', ''sel.smt2'', show_int step] @ props"
  have safe: "shell_word ''build/aig-manip''" "shell_word ''build/all.aig''" "shell_word ''select''" "shell_word ''build/all.ywmap''"
      "shell_word ''python3''" "shell_word ''smt2manip.py''" "shell_word ''build/all.smt2''" "shell_word ''sel.smt2''"
      "list_all safe_char ''build/aiger-''" "list_all safe_char ''.aig''"
    by code_simp+
  have name: "shell_word (aiger_name n)"
    unfolding shell_word_def aiger_name_def list_all_append using safe(9,10) safe_shown(2) by simp
  have "select_cmd (aiger_name n) step props = join '' '' ?select"
    unfolding select_words props by simp
  moreover have "list_all shell_word ?select" using safe name safe_shown(1) assms(1) by simp
  ultimately have "shlex_split (select_cmd (aiger_name n) step props) = Inr ?select"
    using split_plain by metis
  moreover have "smt2_hint step props = CHR '' '' # CHR '' '' # CHR '' '' # CHR '' '' # join '' '' ?hint"
    unfolding smt2_hint_def props by simp
  then have "shlex_split (smt2_hint step props) = shlex_split (join '' '' ?hint)"
    by (simp only: split_space)
  moreover have "list_all shell_word ?hint" using safe safe_shown(1) assms(1) by simp
  ultimately show ?thesis using split_plain[of ?hint] by simp
qed

lemma commands_words_witness:
  "shlex_split (smt2_hint 2 [''LoadA'', ''LoadB'']) =
   Inr [''python3'', ''smt2manip.py'', ''build/all.smt2'', ''sel.smt2'', ''2'', ''LoadA'', ''LoadB'']"
proof -
  have "list_all shell_word [''LoadA'', ''LoadB'']" "show_int 2 = ''2''" by code_simp+
  then show ?thesis using commands_words[of "[''LoadA'', ''LoadB'']" 2] by simp
qed

end
