(* ===== verification/CommandLine.thy ===== *)
theory CommandLine
  imports ArgParse GenTestlist IbexTrace Sv2v SynFlow ToolReq Reports FormalFiles ProofRunner Regression ProofLog Conductor
begin

text \<open>
  The command lines of the scripts: for each, its parser as data, what it makes of the words it
  is given, and the program for them.  The steps of a regression are shown to do, when they are
  started by the commands of the makefile, what their models do for the directory and the run.
\<close>

section \<open>The steps of a regression\<close>

definition metadata_option :: argument where
  "metadata_option = valued [''--dir-metadata''] any_text True"

definition dir_args :: "string list \<Rightarrow> arg_exit + path" where
  "dir_args ws =
     ebind (parse_args (argument_parser [metadata_option]) ws) (\<lambda>ns.
     ebind (text_of ns ''dir_metadata'') (\<lambda>d. Inr (path_of d)))"

definition is_test_dot_seed :: "string \<Rightarrow> bool" where
  "is_test_dot_seed w = (case read_test_dot_seed w of Inl _ \<Rightarrow> False | Inr _ \<Rightarrow> True)"

definition stage_args :: "string list \<Rightarrow> arg_exit + path \<times> run_id" where
  "stage_args ws =
     ebind (parse_args (argument_parser [metadata_option, valued [''--test-dot-seed''] is_test_dot_seed True]) ws) (\<lambda>ns.
     ebind (text_of ns ''dir_metadata'') (\<lambda>d.
     ebind (text_of ns ''test_dot_seed'') (\<lambda>w.
       case read_test_dot_seed w of Inl _ \<Rightarrow> Inl Bad_usage | Inr tds \<Rightarrow> Inr (path_of d, tds))))"

definition run_instr_gen_script :: "stage_env \<Rightarrow> regression_metadata store \<Rightarrow> string list \<Rightarrow> gen_state \<Rightarrow>
    arg_exit + (stage_error + int \<times> gen_state)" where
  "run_instr_gen_script env mds ws st = with_args (stage_args ws) (\<lambda>(dir, tds). run_stage env mds dir (Generate, tds) st)"

definition compile_test_script :: "stage_env \<Rightarrow> regression_metadata store \<Rightarrow> string list \<Rightarrow> gen_state \<Rightarrow>
    arg_exit + (stage_error + int \<times> gen_state)" where
  "compile_test_script env mds ws st = with_args (stage_args ws) (\<lambda>(dir, tds). run_stage env mds dir (Compile, tds) st)"

definition run_rtl_script :: "stage_env \<Rightarrow> regression_metadata store \<Rightarrow> string list \<Rightarrow> gen_state \<Rightarrow>
    arg_exit + (stage_error + int \<times> gen_state)" where
  "run_rtl_script env mds ws st = with_args (stage_args ws) (\<lambda>(dir, tds). run_stage env mds dir (Simulate, tds) st)"

definition check_logs_script :: "stage_env \<Rightarrow> regression_metadata store \<Rightarrow> string list \<Rightarrow> gen_state \<Rightarrow>
    arg_exit + (stage_error + int \<times> gen_state)" where
  "check_logs_script env mds ws st = with_args (stage_args ws) (\<lambda>(dir, tds). run_stage env mds dir (Check, tds) st)"

definition build_instr_gen_script :: "build_env \<Rightarrow> string list \<Rightarrow> build_state \<Rightarrow>
    arg_exit + (build_error + int) \<times> build_state" where
  "build_instr_gen_script env ws st = with_args (dir_args ws) (\<lambda>dir. build_instr_gen env dir st)"

definition compile_tb_script :: "build_env \<Rightarrow> string list \<Rightarrow> build_state \<Rightarrow>
    arg_exit + (build_error + int) \<times> build_state" where
  "compile_tb_script env ws st = with_args (dir_args ws) (\<lambda>dir. compile_tb env dir st)"

definition get_fcov_script :: "build_env \<Rightarrow> string list \<Rightarrow> build_state \<Rightarrow>
    arg_exit + (build_error + int) \<times> build_state" where
  "get_fcov_script env ws st = with_args (dir_args ws) (\<lambda>dir. get_fcov env dir st)"

definition merge_cov_script :: "build_env \<Rightarrow> string list \<Rightarrow> build_state \<Rightarrow>
    arg_exit + (build_error + int) \<times> build_state" where
  "merge_cov_script env ws st = with_args (dir_args ws) (\<lambda>dir. merge_cov env dir st)"

definition collect_results_script :: "report_env \<Rightarrow> test_run_result store \<Rightarrow> string list \<Rightarrow> build_state \<Rightarrow>
    arg_exit + (build_error + int) \<times> build_state" where
  "collect_results_script env trrs ws st = with_args (dir_args ws) (\<lambda>dir. collect_results env trrs dir st)"

definition template_args :: "string list \<Rightarrow> arg_exit + string \<times> path" where
  "template_args ws =
     ebind (parse_args (argument_parser [positional ''template_filename'' One any_text, metadata_option]) ws) (\<lambda>ns.
     ebind (text_of ns ''template_filename'') (\<lambda>template.
     ebind (text_of ns ''dir_metadata'') (\<lambda>d. Inr (template, path_of d))))"

definition render_template_script :: "build_env \<Rightarrow> string list \<Rightarrow> build_state \<Rightarrow>
    arg_exit + (build_error + string) \<times> build_state" where
  "render_template_script env ws st =
     with_args (template_args ws) (\<lambda>(template, dir). render_config_template env dir template st)"

section \<open>metadata.py\<close>

datatype Ops = CREATE | PRINT_FIELD

definition ops_value :: "Ops \<Rightarrow> string" where
  "ops_value op = (case op of CREATE \<Rightarrow> ''create_metadata'' | PRINT_FIELD \<Rightarrow> ''print_field'')"

definition ops_of :: "string \<Rightarrow> Ops option" where
  "ops_of w = List.find (\<lambda>op. ops_value op = w) [CREATE, PRINT_FIELD]"

definition is_op :: "string \<Rightarrow> bool" where
  "is_op w = (ops_of w \<noteq> None)"

record metadata_args =
  ma_op :: Ops
  ma_dir_metadata :: path
  ma_dir_out :: "path option"
  ma_args_list :: "string option"
  ma_field :: "string option"

definition metadata_parser :: "argument list" where
  "metadata_parser = argument_parser
     [valued [''--op''] is_op True, metadata_option, valued [''--dir-out''] any_text False,
      valued [''--args-list''] any_text False, valued [''--field''] any_text False]"

definition metadata_args_of :: "string list \<Rightarrow> arg_exit + metadata_args" where
  "metadata_args_of ws =
     ebind (parse_args metadata_parser ws) (\<lambda>ns.
     ebind (text_of ns ''op'') (\<lambda>w.
     ebind (of_option Bad_usage (ops_of w)) (\<lambda>op.
     ebind (text_of ns ''dir_metadata'') (\<lambda>d.
       Inr \<lparr>ma_op = op, ma_dir_metadata = path_of d,
            ma_dir_out = map_option path_of (text_or_None ns ''dir_out''),
            ma_args_list = text_or_None ns ''args_list'', ma_field = text_or_None ns ''field''\<rparr>))))"

text \<open>
  \<open>_main\<close>: the files of the record and of the results, and what is printed.  A creation needs the text
  of the arguments and a directory for the output; it is checked that there are, in this order,
  only when they are used.
\<close>

datatype metadata_error = Metadata_failed md_error | No_args_list | No_dir_out | No_field

definition metadata_lift :: "md_error + 'a \<Rightarrow> metadata_error + 'a" where
  "metadata_lift r = (case r of Inl e \<Rightarrow> Inl (Metadata_failed e) | Inr x \<Rightarrow> Inr x)"

definition create_op :: "(path \<Rightarrow> path) \<Rightarrow> md_inputs \<Rightarrow> path \<Rightarrow> (string \<times> string) list \<Rightarrow> string \<Rightarrow> string \<Rightarrow>
    metadata_args \<Rightarrow> regression_metadata store \<Rightarrow> test_run_result store \<Rightarrow>
    metadata_error + regression_metadata store \<times> test_run_result store" where
  "create_op resolve inp ibex_root environ today git_commit a mst st =
     (if child_of (ma_dir_metadata a) ''metadata.pickle'' \<in> set (dkeys (pickles mst)) then Inr (mst, st)
      else case ma_args_list a of
        None \<Rightarrow> Inl No_args_list
      | Some args_list \<Rightarrow>
          (case ma_dir_out a of
             None \<Rightarrow> ebind (metadata_lift (ebind (raw_args_of args_list) (\<lambda>kvs.
                        collect_args (make_dict (map (\<lambda>(k, v). (lower k, v)) kvs))))) (\<lambda>_. Inl No_dir_out)
           | Some dir_out \<Rightarrow>
               metadata_lift (create_metadata resolve inp ibex_root environ today (ma_dir_metadata a) dir_out
                 git_commit args_list mst st)))"

definition print_op :: "metadata_args \<Rightarrow> regression_metadata store \<Rightarrow> metadata_error + string" where
  "print_op a mst =
     ebind (metadata_lift (lift Script (md_from_metadata_dir mst (ma_dir_metadata a)))) (\<lambda>m.
     ebind (of_option No_field (ma_field a)) (\<lambda>field.
     ebind (metadata_lift (print_field m field)) (\<lambda>value. Inr (value @ [newline]))))"

definition metadata_script :: "(path \<Rightarrow> path) \<Rightarrow> md_inputs \<Rightarrow> path \<Rightarrow> (string \<times> string) list \<Rightarrow> string \<Rightarrow> string \<Rightarrow>
    string list \<Rightarrow> regression_metadata store \<Rightarrow> test_run_result store \<Rightarrow>
    arg_exit + (metadata_error + regression_metadata store \<times> test_run_result store \<times> string)" where
  "metadata_script resolve inp ibex_root environ today git_commit ws mst st =
     with_args (metadata_args_of ws) (\<lambda>a.
       case ma_op a of
         CREATE \<Rightarrow> ebind (create_op resolve inp ibex_root environ today git_commit a mst st) (\<lambda>(mst', st'). Inr (mst', st', []))
       | PRINT_FIELD \<Rightarrow> ebind (print_op a mst) (\<lambda>printed. Inr (mst, st, printed)))"

section \<open>The other scripts\<close>

definition smt2manip_parser :: "argument list" where
  "smt2manip_parser = argument_parser
     [positional ''yosys_smt2'' One any_text, positional ''smt2out'' One any_text,
      positional ''step'' One int_text, positional ''props'' Any_number any_text]"

definition smt2manip_args :: "string list \<Rightarrow> arg_exit + string \<times> string \<times> int \<times> string list" where
  "smt2manip_args ws =
     ebind (parse_args smt2manip_parser ws) (\<lambda>ns.
     ebind (text_of ns ''yosys_smt2'') (\<lambda>smt2.
     ebind (text_of ns ''smt2out'') (\<lambda>out.
     ebind (text_of ns ''step'') (\<lambda>w.
     ebind (of_option Bad_usage (read_int 10 w)) (\<lambda>step.
       Inr (smt2, out, step, given_all ns ''props''))))))"

definition float_text :: "string \<Rightarrow> bool" where
  "float_text w = (py_float w \<noteq> None)"

definition is_mode :: "string \<Rightarrow> bool" where
  "is_mode w = (w \<in> set [''prove'', ''explore'', ''bmc'', ''info''])"

definition conductor_parser :: "argument list" where
  "conductor_parser = argument_parser
     [positional ''mode'' One is_mode, switch [''--fresh''], switch [''--no-store''], switch [''--by-step''],
      many_valued [''-p'', ''--properties''] any_text, switch [''--missing''],
      valued [''-s'', ''--start''] int_text False, valued [''--bmc-step''] int_text False,
      valued [''--bmc-start''] int_text False, switch [''--hard''], switch [''--no-run''], switch [''--no-kill''],
      switch [''--check-complete''], valued [''--max-mem''] float_text False]"

text \<open>The arguments of the modes, and those of the runner for a number of processors.\<close>

definition conductor_args_of :: "nat option \<Rightarrow> string list \<Rightarrow> arg_exit + conductor_args \<times> settings" where
  "conductor_args_of cpu_count ws =
     ebind (parse_args conductor_parser ws) (\<lambda>ns.
     ebind (text_of ns ''mode'') (\<lambda>mode.
       Inr (\<lparr>ca_mode = mode, ca_fresh = is_given ns ''fresh'', ca_no_store = is_given ns ''no_store'',
             ca_by_step = is_given ns ''by_step'',
             ca_properties = (case given ns ''properties'' of None \<Rightarrow> [] | Some ps \<Rightarrow> ps),
             ca_missing = is_given ns ''missing'', ca_start = int_or 0 ns ''start'',
             ca_bmc_step = int_or 1 ns ''bmc_step'', ca_bmc_start = int_or 4 ns ''bmc_start'',
             ca_hard = is_given ns ''hard'', ca_no_run = is_given ns ''no_run'',
             ca_check_complete = is_given ns ''check_complete''\<rparr>,
            \<lparr>cpus = cpu_count,
             arg_max_mem = (case text_or_None ns ''max_mem'' of None \<Rightarrow> 0
                            | Some w \<Rightarrow> (case py_float w of None \<Rightarrow> 0 | Some q \<Rightarrow> q)),
             no_kill = is_given ns ''no_kill''\<rparr>)))"

definition conductor_script :: "nat option \<Rightarrow> engines \<Rightarrow> strategy_files \<Rightarrow> string list \<Rightarrow> string list \<Rightarrow>
    arg_exit + (conductor_error + mode_result)" where
  "conductor_script cpu_count env strats asserts ws =
     with_args (conductor_args_of cpu_count ws) (\<lambda>(args, cfg). conductor_main env args strats asserts)"

definition tool_script :: "'v tool_env \<Rightarrow> string \<Rightarrow> pyval option \<Rightarrow> string list \<Rightarrow>
    arg_exit + ((req_error + version_error) + int)" where
  "tool_script env path raw_yaml ws =
     with_args (parse_args (argument_parser [positional ''tool'' Any_number any_text]) ws)
       (\<lambda>ns. tool_main env path raw_yaml (given_all ns ''tool''))"

definition is_define_if :: "(string \<Rightarrow> string + pattern) \<Rightarrow> string \<Rightarrow> bool" where
  "is_define_if re_compile w = (case parse_define_if re_compile w of Inl _ \<Rightarrow> False | Inr _ \<Rightarrow> True)"

definition define_ifs :: "(string \<Rightarrow> string + pattern) \<Rightarrow> string list \<Rightarrow> (pattern \<times> string) list" where
  "define_ifs re_compile ws =
     concat (map (\<lambda>w. case parse_define_if re_compile w of Inl _ \<Rightarrow> [] | Inr d \<Rightarrow> [d]) ws)"

definition sv2v_args_of :: "(string \<Rightarrow> string + pattern) \<Rightarrow> string list \<Rightarrow> arg_exit + sv2v_args" where
  "sv2v_args_of re_compile ws =
     ebind (parse_args (argument_parser
       [positional ''file_list'' One any_text, switch [''--verbose'', ''-v''],
        appended [''--define'', ''-D''] ''defines'' any_text,
        appended [''--define-if''] ''defines_if'' (is_define_if re_compile),
        appended [''--incdir'', ''-I''] ''incdirs'' any_text, valued [''--incdir-list''] any_text False,
        valued [''--sv2v''] any_text False]) ws) (\<lambda>ns.
     ebind (text_of ns ''file_list'') (\<lambda>file_list.
       Inr \<lparr>sa_file_list = file_list, sa_defines = given_all ns ''defines'',
            sa_defines_if = define_ifs re_compile (given_all ns ''defines_if''),
            sa_incdirs = given_all ns ''incdirs'', sa_incdir_list = text_or_None ns ''incdir_list'',
            sa_sv2v = text_or ''sv2v'' ns ''sv2v''\<rparr>))"

definition kge_script :: "syn_files \<Rightarrow> string list \<Rightarrow> arg_exit + (syn_error + rat)" where
  "kge_script fs ws =
     ebind (parse_args (argument_parser [positional ''lib_file_path'' One any_text,
              positional ''report_path'' One any_text, valued [''--cell''] any_text False]) ws) (\<lambda>ns.
     ebind (text_of ns ''lib_file_path'') (\<lambda>lib.
     ebind (text_of ns ''report_path'') (\<lambda>report.
       Inr (kge_main fs lib report (text_or ''NAND2_X1'' ns ''cell'')))))"

definition names_script :: "(string \<Rightarrow> string list list) \<Rightarrow> (string set \<Rightarrow> string list) \<Rightarrow>
    (string list \<Rightarrow> syn_files \<Rightarrow> syn_files) \<Rightarrow> string list \<Rightarrow> syn_files \<Rightarrow> arg_exit + (syn_error + syn_files)" where
  "names_script read_csv set_order yosys ws fs =
     ebind (parse_args (argument_parser [positional ''top_level'' One any_text, positional ''gen_out'' One any_text,
              positional ''rpts'' At_least_one any_text]) ws) (\<lambda>ns.
     ebind (text_of ns ''top_level'') (\<lambda>top.
     ebind (text_of ns ''gen_out'') (\<lambda>gen_out.
       Inr (build_translated_names read_csv set_order yosys top gen_out (given_all ns ''rpts'') fs))))"

text \<open>The translated report is written to the first word of the command line.\<close>

definition timing_script :: "(string \<Rightarrow> string list list) \<Rightarrow> (rat \<Rightarrow> string) \<Rightarrow> string list \<Rightarrow>
    syn_files \<Rightarrow> arg_exit + (syn_error + syn_files)" where
  "timing_script read_csv show_float ws fs =
     ebind (parse_args (argument_parser [positional ''rpt_file'' One any_text, positional ''gen_out'' One any_text]) ws) (\<lambda>ns.
     ebind (text_of ns ''rpt_file'') (\<lambda>rpt.
     ebind (text_of ns ''gen_out'') (\<lambda>gen_out.
       Inr (translate_timing_into read_csv show_float rpt gen_out (hd ws) fs))))"

definition testlist_script :: "(string \<Rightarrow> string) \<Rightarrow> string option \<Rightarrow> string list \<Rightarrow> arg_exit + (string + string \<times> int)" where
  "testlist_script popen list_file ws =
     ebind (parse_args (argument_parser [valued [''--add_tests''] any_text True]) ws) (\<lambda>ns.
     ebind (text_of ns ''add_tests'') (\<lambda>test_suite. Inr (gen_testlist popen test_suite list_file)))"

text \<open>
  The input and output files (\<^verbatim>\<open>None\<close> for the standard ones), which are opened while the words
  are parsed, and whether everything is logged.
\<close>

definition trace_args :: "(string \<Rightarrow> bool) \<Rightarrow> (string \<Rightarrow> bool) \<Rightarrow> string list \<Rightarrow>
    arg_exit + string option \<times> string option \<times> bool" where
  "trace_args can_open can_create ws =
     ebind (parse_args (argument_parser [valued [''--log''] can_open False, valued [''--csv''] can_create False,
              valued [''--full_trace''] int_text False]) ws) (\<lambda>ns.
       Inr (text_or_None ns ''log'', text_or_None ns ''csv'', int_or 1 ns ''full_trace'' \<noteq> 0))"

section \<open>ibex_config.py\<close>

definition sim_subparser :: "argument list" where
  "sim_subparser = argument_parser
     [valued [''--ins_hier_path''] any_text False, valued [''--string_define_prefix''] any_text False]"

definition config_subparsers :: "(string \<times> argument list) list" where
  "config_subparsers =
     (''fusesoc_opts'', argument_parser []) #
     (''query_fields'', argument_parser [positional ''fields'' At_least_one any_text]) #
     map (\<lambda>so. (cmd_name so, sim_subparser)) sim_outputters"

definition config_parser :: "argument list" where
  "config_parser = argument_parser
     [positional ''config_name'' One any_text, valued [''--config_filename''] any_text False,
      subparsers ''output_fn'' config_subparsers]"

text \<open>The arguments of the output type, which its own parser finds in the words after its name.\<close>

definition out_args_of :: "namespace \<Rightarrow> out_args" where
  "out_args_of sub =
     \<lparr>query_fields = given_all sub ''fields'', ins_hier_path = text_or [] sub ''ins_hier_path'',
      string_define_prefix = text_or [] sub ''string_define_prefix''\<rparr>"

definition sub_args :: "string list \<Rightarrow> arg_exit + out_args" where
  "sub_args ws =
     (case ws of
        [] \<Rightarrow> Inl Bad_usage
      | t # rest \<Rightarrow>
          ebind (of_option Bad_usage (map_of config_subparsers t)) (\<lambda>args.
          ebind (parse_args args rest) (\<lambda>sub. Inr (out_args_of sub))))"

definition ibex_config_script :: "(string \<Rightarrow> string option) \<Rightarrow> (string \<Rightarrow> pyval option) \<Rightarrow> (string \<rightharpoonup> string) \<Rightarrow>
    string list \<Rightarrow> arg_exit + main_result" where
  "ibex_config_script read_file yaml_load environ ws =
     ebind (parse_args config_parser ws) (\<lambda>ns.
     ebind (text_of ns ''config_name'') (\<lambda>name.
       case given ns ''output_fn'' of
         None \<Rightarrow> Inr (main read_file yaml_load environ name (text_or_None ns ''config_filename'') None
                   \<lparr>query_fields = [], ins_hier_path = [], string_define_prefix = []\<rparr>)
       | Some selected_words \<Rightarrow>
           ebind (sub_args selected_words) (\<lambda>args.
             Inr (main read_file yaml_load environ name (text_or_None ns ''config_filename'') (Some (hd selected_words)) args))))"

text \<open>The words with which \<^verbatim>\<open>ibex_cmd.py\<close> starts it, and what becomes of its end.\<close>

definition ibex_config_words :: "string \<Rightarrow> string \<Rightarrow> string \<Rightarrow> string list" where
  "ibex_config_words ibex_root config_name t =
     [''--config_filename'', ibex_yaml_path ibex_root, config_name, t,
      ''--ins_hier_path'', ''core_ibex_tb_top'', ''--string_define_prefix'', ''IBEX_CFG_'']"

section \<open>The makefile and the steps\<close>

text \<open>The words after the name of the script, in the makefile's command for a step of a run.\<close>

definition stage_words :: "string \<Rightarrow> run_id \<Rightarrow> string list" where
  "stage_words d tds = [''--dir-metadata'', d, ''--test-dot-seed'', tds_str (fst tds) (snd tds)]"

fun stage_script :: "stage_env \<Rightarrow> regression_metadata store \<Rightarrow> stage \<Rightarrow> string list \<Rightarrow> gen_state \<Rightarrow>
    arg_exit + (stage_error + int \<times> gen_state)" where
  "stage_script env mds Generate = run_instr_gen_script env mds"
| "stage_script env mds Compile = compile_test_script env mds"
| "stage_script env mds Simulate = run_rtl_script env mds"
| "stage_script env mds Check = check_logs_script env mds"

definition run_lines :: "stage_env \<Rightarrow> regression_metadata store \<Rightarrow> (stage \<times> string list) list \<Rightarrow> gen_state \<Rightarrow>
    (arg_exit + stage_error) + gen_state" where
  "run_lines env mds = efold (\<lambda>(stage, ws) st.
     case stage_script env mds stage ws st of
       Inl e \<Rightarrow> Inl (Inl e)
     | Inr (Inl e) \<Rightarrow> Inl (Inr e)
     | Inr (Inr (rc, st')) \<Rightarrow> Inr st')"

definition named_run :: "run_id \<Rightarrow> bool" where
  "named_run tds \<longleftrightarrow> fst tds \<noteq> [] \<and> CHR ''.'' \<notin> set (fst tds) \<and> plain_word (fst tds) \<and> 0 \<le> snd tds"

abbreviation stage_parser :: "argument list" where
  "stage_parser \<equiv> argument_parser [metadata_option, valued [''--test-dot-seed''] is_test_dot_seed True]"

interpretation dir: option_parser "argument_parser [metadata_option]"
  by unfold_locales (simp add: argument_parser_def metadata_option_def valued_def)

interpretation stage: option_parser stage_parser
  by unfold_locales (simp add: argument_parser_def metadata_option_def valued_def)

lemma stage_flags:
  "takes_value stage_parser ''--dir-metadata'' ''dir_metadata'' w"
  "is_test_dot_seed w \<Longrightarrow> takes_value stage_parser ''--test-dot-seed'' ''test_dot_seed'' w"
  by (simp_all add: takes_value_def argument_parser_def metadata_option_def valued_def find_flag_def dest_of_def
      each_def any_text_def)

lemma stage_args_words:
  assumes "plain_word d" and "named_run tds"
  shows "stage_args (stage_words d tds) = Inr (path_of d, tds)"
proof -
  let ?w = "tds_str (fst tds) (snd tds)"
  have read: "read_test_dot_seed ?w = Inr tds"
    using test_dot_seed_roundtrip[of "fst tds" "snd tds"] assms(2) by (simp add: named_run_def)
  have w: "plain_word ?w" using assms(2) plain_append by (simp add: named_run_def tds_str_def)
  have seed: "is_test_dot_seed ?w" by (simp add: is_test_dot_seed_def read)
  let ?os = "[(''--dir-metadata'', ''dir_metadata'', d), (''--test-dot-seed'', ''test_dot_seed'', ?w)]"
  have "options_ok stage_parser ?os" using stage_flags seed w assms(1) by simp
  then have "parse_args stage_parser (option_words ?os) = Inr (option_values ?os)"
    by (rule stage.reads) (simp add: argument_parser_def metadata_option_def valued_def dest_of_def)
  then have "parse_args stage_parser (stage_words d tds) = Inr (option_values ?os)"
    by (simp add: stage_words_def)
  then show ?thesis by (simp add: stage_args_def text_of_def given_def read)
qed

text \<open>The steps that are one for the whole regression get the directory.\<close>

lemma dir_args_words:
  assumes "plain_word d"
  shows "dir_args [''--dir-metadata'', d] = Inr (path_of d)"
proof -
  let ?parser = "argument_parser [metadata_option]" and ?os = "[(''--dir-metadata'', ''dir_metadata'', d)]"
  have "options_ok ?parser ?os"
    using assms by (simp add: takes_value_def argument_parser_def metadata_option_def valued_def find_flag_def dest_of_def)
  then have "parse_args ?parser (option_words ?os) = Inr (option_values ?os)"
    by (rule dir.reads) (simp add: argument_parser_def metadata_option_def valued_def dest_of_def)
  then show ?thesis by (simp add: dir_args_def text_of_def given_def)
qed

lemma stage_script_words:
  "plain_word d \<Longrightarrow> named_run tds \<Longrightarrow>
   stage_script env mds stage (stage_words d tds) st = Inr (run_stage env mds (path_of d) (stage, tds) st)"
  by (cases stage) (simp_all add: stage_args_words run_instr_gen_script_def compile_test_script_def
      run_rtl_script_def check_logs_script_def with_args_def del: run_stage.simps)

text \<open>
  C11. Started with the makefile's commands, the steps of any runs, in any order, do exactly what
  the history of the same steps does for the directory and the runs: no command is refused, and
  the words name the run they were made from.
\<close>

theorem makefile_runs_stages:
  assumes "plain_word d" and "list_all (\<lambda>(stage, tds). named_run tds) es"
  shows "run_lines env mds (map (\<lambda>(stage, tds). (stage, stage_words d tds)) es) st =
    (case run_events env mds (path_of d) es st of Inl e \<Rightarrow> Inl (Inr e) | Inr st' \<Rightarrow> Inr st')"
  using assms(2)
proof (induction es arbitrary: st)
  case Nil
  then show ?case by (simp add: run_lines_def)
next
  case (Cons e es)
  obtain stage tds where e: "e = (stage, tds)" by (cases e)
  have "stage_script env mds stage (stage_words d tds) st = Inr (run_stage env mds (path_of d) (stage, tds) st)"
    using stage_script_words[OF assms(1), of tds] Cons.prems e by simp
  then show ?case using Cons e
    by (cases "run_stage env mds (path_of d) (stage, tds) st")
      (auto simp: run_lines_def run_events_def simp del: run_stage.simps split: sum.split)
qed

lemma makefile_runs_stages_witness:
  "run_lines demo_flow_env demo_flow_mds
     [(Compile, [''--dir-metadata'', ''/md'', ''--test-dot-seed'', ''empty.3'']),
      (Check, [''--dir-metadata'', ''/md'', ''--test-dot-seed'', ''empty.3''])]
     \<lparr>made_dirs = [], gen_files = Map.empty, gen_results = \<lparr>pickles = [], yamls = []\<rparr>\<rparr> =
   (case run_events demo_flow_env demo_flow_mds (path_of ''/md'') [(Compile, (''empty'', 3)), (Check, (''empty'', 3))]
     \<lparr>made_dirs = [], gen_files = Map.empty, gen_results = \<lparr>pickles = [], yamls = []\<rparr>\<rparr> of
      Inl e \<Rightarrow> Inl (Inr e) | Inr st' \<Rightarrow> Inr st')"
proof -
  have words: "stage_words ''/md'' (''empty'', 3) = [''--dir-metadata'', ''/md'', ''--test-dot-seed'', ''empty.3'']"
    by code_simp
  show ?thesis
    using makefile_runs_stages[of "''/md''" "[(Compile, (''empty'', 3)), (Check, (''empty'', 3))]" demo_flow_env demo_flow_mds]
    by (simp add: words plain_word_def named_run_def)
qed

section \<open>The options of a configuration\<close>

lemma config_flag: "takes_value config_parser ''--config_filename'' ''config_filename'' w"
  by (simp add: takes_value_def config_parser_def argument_parser_def positional_def subparsers_def valued_def
      find_flag_def dest_of_def each_def any_text_def)

interpretation sim: option_parser sim_subparser
  by unfold_locales (simp add: sim_subparser_def argument_parser_def valued_def)

lemma sim_flags:
  "takes_value sim_subparser ''--ins_hier_path'' ''ins_hier_path'' w"
  "takes_value sim_subparser ''--string_define_prefix'' ''string_define_prefix'' w"
  by (simp_all add: takes_value_def sim_subparser_def argument_parser_def valued_def find_flag_def dest_of_def
      each_def any_text_def)

text \<open>The options that \<^verbatim>\<open>ibex_cmd.py\<close> adds, in the parsers of the three kinds of output.\<close>

definition ibex_cmd_options :: "string list" where
  "ibex_cmd_options = [''--ins_hier_path'', ''core_ibex_tb_top'', ''--string_define_prefix'', ''IBEX_CFG_'']"

lemma sim_options_parsed:
  "parse_args sim_subparser ibex_cmd_options =
   Inr [(''ins_hier_path'', [''core_ibex_tb_top'']), (''string_define_prefix'', [''IBEX_CFG_''])]"
proof -
  let ?os = "[(''--ins_hier_path'', ''ins_hier_path'', ''core_ibex_tb_top''),
    (''--string_define_prefix'', ''string_define_prefix'', ''IBEX_CFG_'')]"
  have "options_ok sim_subparser ?os" using sim_flags by (simp add: plain_word_def)
  then have "parse_args sim_subparser (option_words ?os) = Inr (option_values ?os)"
    by (rule sim.reads) (simp add: sim_subparser_def argument_parser_def valued_def)
  then show ?thesis by (simp add: ibex_cmd_options_def)
qed

lemma other_options_refused:
  "parse_args (argument_parser []) ibex_cmd_options = Inl Bad_usage"
  "parse_args (argument_parser [positional ''fields'' At_least_one any_text]) ibex_cmd_options = Inl Bad_usage"
  by code_simp+

lemma subparser_of:
  "map_of config_subparsers t =
    (if t = ''fusesoc_opts'' then Some (argument_parser [])
     else if t = ''query_fields'' then Some (argument_parser [positional ''fields'' At_least_one any_text])
     else if t \<in> set (map cmd_name sim_outputters) then Some sim_subparser else None)"
proof -
  have "map_of (map (\<lambda>so. (cmd_name so, sim_subparser)) sos) t =
      (if t \<in> set (map cmd_name sos) then Some sim_subparser else None)" for sos :: "sim_opts list"
    by (induction sos) auto
  then show ?thesis by (simp add: config_subparsers_def)
qed

lemma sim_names: "t \<in> set (map cmd_name sim_outputters) \<Longrightarrow> t \<noteq> ''fusesoc_opts'' \<and> t \<noteq> ''query_fields''"
  by (auto simp: sim_outputters_def)

lemma ibex_cmd_chooses:
  "chooses config_subparsers (t # ibex_cmd_options) =
   (if t \<in> set (map cmd_name sim_outputters) then None else Some Bad_usage)"
  using sim_names[of t]
  by (auto simp: chooses_def subparser_of other_options_refused sim_options_parsed simp del: set_map)

lemma match_name_and_rest:
  "match_partial [One, Sub_command] (Word name # Word t # ts) = [1, Suc (length ts)]"
proof -
  have "group_fits One (take k (Word name # Word t # ts)) \<longleftrightarrow> k = 1" for k
    by (cases k; cases "k - 1") auto
  then have "match_groups [One, Sub_command] (Word name # Word t # ts) =
      map_option (Cons 1) (match_groups [Sub_command] (Word t # ts))"
    by (rule match_one)
  moreover have "match_groups [Sub_command] (Word t # ts) = Some [Suc (length ts)]" by simp
  ultimately show ?thesis by (intro match_partial_all) simp_all
qed

text \<open>The tokens of the added options in the parser of the program, which does not know them.\<close>

definition ibex_cmd_tokens :: "token list" where
  "ibex_cmd_tokens =
     [Flagged ''--ins_hier_path'' None None None, Word ''core_ibex_tb_top'',
      Flagged ''--string_define_prefix'' None None None, Word ''IBEX_CFG_'']"

lemma ibex_cmd_tokenized: "tokens config_parser ibex_cmd_options = Inr ibex_cmd_tokens"
  by (simp add: ibex_cmd_options_def ibex_cmd_tokens_def parse_optional_def guessed_def unmatched_def option_tuples_def
      option_strings_def config_parser_def argument_parser_def positional_def subparsers_def valued_def find_flag_def
      negative_number_def is_digit_def)

lemma ibex_cmd_texts: "map token_text ibex_cmd_tokens = ibex_cmd_options"
  by (simp add: ibex_cmd_options_def ibex_cmd_tokens_def)

lemma config_positionals:
  "filter (\<lambda>a. flags a = []) config_parser = [positional ''config_name'' One any_text, subparsers ''output_fn'' config_subparsers]"
  by (simp add: config_parser_def argument_parser_def positional_def subparsers_def valued_def)

lemma config_consumed:
  assumes "name \<noteq> ''--''"
  shows "consume config_parser [positional ''config_name'' One any_text, subparsers ''output_fn'' config_subparsers]
    \<lparr>found = F, surplus = []\<rparr> (Word name # Word t # ibex_cmd_tokens) =
   (if t \<in> set (map cmd_name sim_outputters)
    then Inr \<lparr>found = F @ [(''config_name'', [name]), (''output_fn'', t # ibex_cmd_options)], surplus = []\<rparr>
    else Inl Bad_usage)"
proof -
  let ?ts = "Word name # Word t # ibex_cmd_tokens"
  let ?ps = "[positional ''config_name'' One any_text, subparsers ''output_fn'' config_subparsers]"
  have kinds: "map nargs ?ps = [One, Sub_command]" by (simp add: positional_def subparsers_def)
  have name: "group_words (positional ''config_name'' One any_text) [Word name] = [name]"
    using assms by (simp add: group_words_def positional_def)
  have sub: "group_words (subparsers ''output_fn'' config_subparsers) (Word t # ibex_cmd_tokens) = t # ibex_cmd_options"
    by (simp add: group_words_def subparsers_def ibex_cmd_texts)
  have act1: "take_action (positional ''config_name'' One any_text, [name]) st =
      Inr (st\<lparr>found := found st @ [(''config_name'', [name])]\<rparr>)" for st
    by (simp add: take_action_def positional_def each_def any_text_def)
  have act2: "take_action (subparsers ''output_fn'' config_subparsers, t # ibex_cmd_options) st =
      (if t \<in> set (map cmd_name sim_outputters)
       then Inr (st\<lparr>found := found st @ [(''output_fn'', t # ibex_cmd_options)]\<rparr>) else Inl Bad_usage)" for st
    using ibex_cmd_chooses[of t] by (simp add: take_action_def subparsers_def del: set_map)
  have step: "consume_positionals ?ps ?ts \<lparr>found = F, surplus = []\<rparr> =
     (if t \<in> set (map cmd_name sim_outputters)
      then Inr ([], \<lparr>found = F @ [(''config_name'', [name]), (''output_fn'', t # ibex_cmd_options)], surplus = []\<rparr>, length ?ts)
      else Inl Bad_usage)"
    unfolding consume_positionals_def kinds match_name_and_rest
    by (simp add: Let_def name sub act1 act2 del: set_map)
  have opt: "list_ex is_option ?ts" by (simp add: ibex_cmd_tokens_def)
  show ?thesis
    unfolding consume.simps[of _ _ _ ?ts] step using opt by (simp add: consume_nothing)
qed

text \<open>What \<^verbatim>\<open>ibex_cmd.py\<close> makes of the end of the process.\<close>

definition process_output :: "arg_exit + main_result \<Rightarrow> cmd_error + string" where
  "process_output r =
     (case r of
        Inl _ \<Rightarrow> Inl (Gen_error Usage_error)
      | Inr res \<Rightarrow>
          (case res of
             Printed out rc \<Rightarrow> if rc = 0 then Inr (strip out) else Inl (Gen_error res)
           | _ \<Rightarrow> Inl (Gen_error res)))"

lemma config_words_parsed:
  assumes "plain_word ibex_root" and "plain_word name" and "plain_word t"
  shows "parse_args config_parser (ibex_config_words ibex_root name t) =
    (if t \<in> set (map cmd_name sim_outputters)
     then Inr [(''config_filename'', [ibex_yaml_path ibex_root]), (''config_name'', [name]), (''output_fn'', t # ibex_cmd_options)]
     else Inl Bad_usage)"
proof -
  let ?os = "[(''--config_filename'', ''config_filename'', ibex_yaml_path ibex_root)]"
  have yaml: "plain_word (ibex_yaml_path ibex_root)"
    using assms(1) by (cases ibex_root) (auto simp: ibex_yaml_path_def plain_word_def)
  have os: "options_ok config_parser ?os" using config_flag yaml by simp
  have words: "ibex_config_words ibex_root name t = option_words ?os @ name # t # ibex_cmd_options"
    by (simp add: ibex_config_words_def ibex_cmd_options_def)
  have tail: "tokens config_parser (name # t # ibex_cmd_options) = Inr (Word name # Word t # ibex_cmd_tokens)"
    using tokens_word[OF assms(2)] tokens_word[OF assms(3)] ibex_cmd_tokenized by simp
  show ?thesis
    using config_consumed[OF plain_not_dashes[OF assms(2)], of "option_values ?os" t]
    unfolding parse_args_def words tokens_options[OF os] tail config_positionals
    by (simp add: consume_option[OF config_flag] del: set_map)
      (simp add: config_parser_def argument_parser_def positional_def subparsers_def valued_def)
qed

text \<open>
  C13. The options of a simulator that \<^verbatim>\<open>ibex_cmd.py\<close> computes are what the process prints that it
  starts: the program of the configurations, with its parsers for the command line and for each
  kind of output, run on the words of the command.  Kinds of output that do not take the added
  options are refused by their own parsers.
\<close>

theorem ibex_cmd_runs_config:
  assumes "plain_word ibex_root" and "plain_word name" and "plain_word t"
  shows "run_ibex_config read_file yaml_load environ ibex_root name t =
    process_output (ibex_config_script read_file yaml_load environ (ibex_config_words ibex_root name t))"
proof (cases "t \<in> set (map cmd_name sim_outputters)")
  case True
  then have sub: "sub_args (t # ibex_cmd_options) =
      Inr \<lparr>query_fields = [], ins_hier_path = ''core_ibex_tb_top'', string_define_prefix = ''IBEX_CFG_''\<rparr>"
    using sim_names[OF True]
    by (simp add: sub_args_def subparser_of sim_options_parsed out_args_of_def given_all_def text_or_def
        text_or_None_def given_def del: set_map)
  have "ibex_config_script read_file yaml_load environ (ibex_config_words ibex_root name t) =
      Inr (main read_file yaml_load environ name (Some (ibex_yaml_path ibex_root)) (Some t)
        \<lparr>query_fields = [], ins_hier_path = ''core_ibex_tb_top'', string_define_prefix = ''IBEX_CFG_''\<rparr>)"
    using config_words_parsed[OF assms] True
    by (simp add: ibex_config_script_def text_of_def text_or_None_def given_def sub del: set_map)
  then show ?thesis using True by (simp add: run_ibex_config_def process_output_def Let_def del: set_map)
next
  case False
  then show ?thesis
    using config_words_parsed[OF assms]
    by (simp add: ibex_config_script_def run_ibex_config_def process_output_def Let_def del: set_map)
qed

lemma ibex_cmd_runs_config_witness:
  "run_ibex_config (\<lambda>f. None) (\<lambda>s. None) Map.empty ''/ibex'' ''small'' ''vcs_opts'' =
   process_output (ibex_config_script (\<lambda>f. None) (\<lambda>s. None) Map.empty
     [''--config_filename'', ''/ibex/ibex_configs.yaml'', ''small'', ''vcs_opts'',
      ''--ins_hier_path'', ''core_ibex_tb_top'', ''--string_define_prefix'', ''IBEX_CFG_''])"
  using ibex_cmd_runs_config[of "''/ibex''" "''small''" "''vcs_opts''"]
  by (simp add: ibex_config_words_def ibex_yaml_path_def plain_word_def)

section \<open>The problem that a log advises\<close>

lemma plain_words_kept: "list_all plain_word ws \<Longrightarrow> remove1 ''--'' ws = ws"
  by (induction ws) (auto simp: plain_word_def)

lemma smt2manip_words:
  assumes "list_all plain_word [smt2, out, w]" and "list_all plain_word props" and "read_int 10 w = Some step"
  shows "smt2manip_args ([smt2, out, w] @ props) = Inr (smt2, out, step, props)"
proof -
  let ?ws = "[smt2, out, w] @ props"
  let ?ps = "[positional ''yosys_smt2'' One any_text, positional ''smt2out'' One any_text,
      positional ''step'' One int_text, positional ''props'' Any_number any_text]"
  let ?ns = "[(''yosys_smt2'', [smt2]), (''smt2out'', [out]), (''step'', [w]), (''props'', props)]"
  have kinds: "map nargs ?ps = [One, One, One, Any_number]" by (simp add: positional_def)
  have "match_groups [One, One, One, Any_number] (map Word ?ws) = Some [1, 1, 1, length props]"
    by (simp only: append.simps match_first_word match_all_words option.map)
  then have fits: "match_groups (map nargs ?ps) (map Word ?ws) = Some [1, 1, 1, length props]" by (simp only: kinds)
  have texts: "token_text \<circ> Word = id" by (simp add: fun_eq_iff)
  have kept: "remove1 ''--'' props = props" "smt2 \<noteq> ''--''" "out \<noteq> ''--''" "w \<noteq> ''--''"
    using plain_words_kept[OF assms(2)] assms(1) plain_not_dashes by auto
  have step: "each int_text [w] = None" using assms(3) by (simp add: int_text_def each_def)
  have "consume smt2manip_parser ?ps \<lparr>found = [], surplus = []\<rparr> (map Word ?ws) = Inr \<lparr>found = ?ns, surplus = []\<rparr>"
  proof (rule consume_words[OF _ fits])
    show "take_groups ?ps [1, 1, 1, length props] (map Word ?ws) \<lparr>found = [], surplus = []\<rparr> =
        Inr \<lparr>found = ?ns, surplus = []\<rparr>"
      by (simp add: take_action_def group_words_def positional_def step kept not_sym[OF kept(2)]
          not_sym[OF kept(3)] not_sym[OF kept(4)] texts)
  qed simp_all
  then have "parse_args smt2manip_parser (option_words [] @ ?ws) = Inr ?ns"
    using parse_line[of smt2manip_parser "[]" ?ws "map Word ?ws"] tokens_words[of ?ws smt2manip_parser] assms(1,2)
    by (simp add: smt2manip_parser_def argument_parser_def positional_def)
  then show ?thesis using assms(3)
    by (simp add: smt2manip_args_def text_of_def given_def given_all_def)
qed

text \<open>
  C34. The command that the conductor advises for another engine, after it has proved or not proved
  a property, is read back by the script it names as exactly the step and the properties of that
  proof, however many they are, with the files it is to read and to write.
\<close>

theorem advised_command_read:
  assumes "0 \<le> step" and "props \<noteq> []" and "list_all (\<lambda>p. shell_word p \<and> plain_word p) props"
  shows "\<exists>ws. shlex_split (smt2_hint step props) = Inr ([''python3'', ''smt2manip.py''] @ ws) \<and>
    smt2manip_args ws = Inr (''build/all.smt2'', ''sel.smt2'', step, props)"
proof -
  have words: "list_all shell_word props" "list_all plain_word props" using assms(3) by (simp_all add: list_all_iff)
  have "shlex_split (smt2_hint step props) =
      Inr ([''python3'', ''smt2manip.py''] @ [''build/all.smt2'', ''sel.smt2'', show_int step] @ props)"
    using commands_words[OF words(1) assms(2)] by simp
  moreover have "plain_word (show_int step)"
    using show_nat_digits[of "nat step"] assms(1)
    by (cases "show_nat (nat step)") (auto simp: plain_word_def show_int_def is_digit_def)
  then have "smt2manip_args ([''build/all.smt2'', ''sel.smt2'', show_int step] @ props) =
      Inr (''build/all.smt2'', ''sel.smt2'', step, props)"
    using smt2manip_words[of "''build/all.smt2''" "''sel.smt2''" "show_int step" props step] words(2)
      read_int_show_int[of step]
    by (simp add: plain_word_def)
  ultimately show ?thesis by blast
qed

lemma advised_command_read_witness:
  "\<exists>ws. shlex_split (smt2_hint 2 [''LoadA'', ''LoadB'']) = Inr ([''python3'', ''smt2manip.py''] @ ws) \<and>
    smt2manip_args ws = Inr (''build/all.smt2'', ''sel.smt2'', 2, [''LoadA'', ''LoadB''])"
proof (rule advised_command_read)
  show "list_all (\<lambda>p. shell_word p \<and> plain_word p) [''LoadA'', ''LoadB'']" by code_simp
qed simp_all

section \<open>The conductor\<close>

text \<open>
  The command with which the proofs are checked, \<^verbatim>\<open>conductor.py prove --check-complete --max-mem M\<close>
  in \<^verbatim>\<open>.github/workflows/ci-formal.yml\<close>, and what it is read as.
\<close>

definition check_words :: "string \<Rightarrow> string list" where
  "check_words m = [''prove'', ''--check-complete'', ''--max-mem'', m]"

definition check_args :: conductor_args where
  "check_args = \<lparr>ca_mode = ''prove'', ca_fresh = False, ca_no_store = False, ca_by_step = False, ca_properties = [],
     ca_missing = False, ca_start = 0, ca_bmc_step = 1, ca_bmc_start = 4, ca_hard = False, ca_no_run = False,
     ca_check_complete = True\<rparr>"

lemma memory_flag: "py_float m \<noteq> None \<Longrightarrow> takes_value conductor_parser ''--max-mem'' ''max_mem'' m"
  by (simp add: takes_value_def conductor_parser_def argument_parser_def positional_def switch_def many_valued_def valued_def
      find_flag_def dest_of_def each_def float_text_def)

lemma check_flag:
  "find_flag conductor_parser ''--check-complete'' = Some (switch [''--check-complete''])"
  by (simp add: conductor_parser_def argument_parser_def positional_def switch_def many_valued_def valued_def find_flag_def)

lemma conductor_positionals: "filter (\<lambda>a. flags a = []) conductor_parser = [positional ''mode'' One is_mode]"
  by (simp add: conductor_parser_def argument_parser_def positional_def switch_def many_valued_def valued_def)

lemma check_words_parsed:
  assumes "plain_word m" and "py_float m \<noteq> None"
  shows "parse_args conductor_parser (check_words m) =
    Inr [(''mode'', [''prove'']), (''check_complete'', []), (''max_mem'', [m])]"
proof -
  let ?sw = "switch [''--check-complete'']"
  let ?c = "Flagged ''--check-complete'' (Some (?sw, ''--check-complete'')) None None"
  let ?o = "option_token conductor_parser ''--max-mem''"
  have p: "parse_optional conductor_parser ''prove'' = Inr (Word ''prove'')" by (rule parse_plain) (simp add: plain_word_def)
  have c: "parse_optional conductor_parser ''--check-complete'' = Inr ?c"
    by (simp add: parse_optional_def check_flag)
  have "tokens conductor_parser [''--max-mem'', m] = Inr [?o, Word m]"
    using tokens_option[OF memory_flag[OF assms(2)] assms(1), of "[]"] by simp
  then have ts: "tokens conductor_parser (check_words m) = Inr [Word ''prove'', ?c, ?o, Word m]"
    using p c by (simp add: check_words_def)
  have mode: "consume_positionals [positional ''mode'' One is_mode] [Word ''prove'', ?c, ?o, Word m] \<lparr>found = [], surplus = []\<rparr> =
      Inr ([], \<lparr>found = [(''mode'', [''prove''])], surplus = []\<rparr>, 1)"
    by (simp add: consume_positionals_def match_partial_def positional_def Let_def take_action_def each_def is_mode_def
        group_words_def option_token_def)
  have flag: "consume_optional conductor_parser ?c ts st = Inr (st\<lparr>found := found st @ [(''check_complete'', [])]\<rparr>, 0)" for ts st
    by (simp add: consume_optional_def following_def option_count_def switch_def Let_def take_action_def dest_of_def)
  have "consume conductor_parser [positional ''mode'' One is_mode] \<lparr>found = [], surplus = []\<rparr> [Word ''prove'', ?c, ?o, Word m] =
      consume conductor_parser [] \<lparr>found = [(''mode'', [''prove''])], surplus = []\<rparr> [?c, ?o, Word m]"
    by (subst consume.simps) (simp add: mode)
  also have "\<dots> = consume conductor_parser [] \<lparr>found = [(''mode'', [''prove'']), (''check_complete'', [])], surplus = []\<rparr> [?o, Word m]"
    by (subst consume.simps) (simp add: flag)
  also have "\<dots> = Inr \<lparr>found = [(''mode'', [''prove'']), (''check_complete'', []), (''max_mem'', [m])], surplus = []\<rparr>"
    using consume_option[OF memory_flag[OF assms(2)]] by (simp add: consume_nothing)
  finally show ?thesis
    by (simp add: parse_args_def ts conductor_positionals)
      (simp add: conductor_parser_def argument_parser_def positional_def switch_def many_valued_def valued_def)
qed

lemma check_words_read:
  assumes "plain_word m" and "py_float m = Some q"
  shows "conductor_args_of cpu_count (check_words m) =
    Inr (check_args, \<lparr>cpus = cpu_count, arg_max_mem = q, no_kill = False\<rparr>)"
  using assms
  by (simp add: conductor_args_of_def check_words_parsed text_of_def is_given_def given_def int_or_def text_or_None_def check_args_def)

text \<open>Without \<^verbatim>\<open>-p\<close> and \<^verbatim>\<open>--missing\<close> the properties of the design are proved, but for those that are skipped.\<close>

definition skips :: "string \<Rightarrow> bool" where
  "skips p \<longleftrightarrow> ends_with p ''_Cover'' \<or> p \<in> set SKIPPED_PROPS"

lemma check_main:
  assumes "conductor_main env check_args strats asserts = Inr r"
  shows "\<exists>names by_step results. emap preproc_name asserts = Inr names \<and> r = Proved results \<and>
    prove_mode env check_args strats (filter (\<lambda>(step, p). \<not> skips p) names) by_step = Inr results"
proof -
  obtain all_names where n: "emap preproc_name asserts = Inr all_names"
    using assms by (auto simp: conductor_main_def raise_simps)
  let ?names = "filter (\<lambda>(step, name). \<not> ends_with name ''_Cover'') all_names"
  let ?props = "filter (\<lambda>(step, p). p \<notin> set SKIPPED_PROPS) ?names"
  have select: "select_props check_args strats ?names = Inr sel \<Longrightarrow> sel = ?names" for sel
    by (auto simp: select_props_def check_args_def raise_simps)
  obtain by_step results where p: "r = Proved results" "prove_mode env check_args strats ?props by_step = Inr results"
    using assms n
    by (auto simp: conductor_main_def raise_simps Let_def check_args_def[THEN arg_cong[of _ _ ca_mode]] dest!: select)
  have "?props = filter (\<lambda>(step, p). \<not> skips p) all_names" by (auto simp: skips_def intro!: filter_cong)
  then show ?thesis using n p by auto
qed

text \<open>
  C37. When the command of the workflow ends without a failure, whatever limit of the memory it is
  given, every assertion of the design that is neither a cover property nor one of the skipped
  properties has been proved by it: its name gives its step and property, a strategy is stored
  for the property in one of the files, and an engine proved that strategy again in this run.
\<close>

theorem check_proves_design:
  assumes "plain_word m" and "py_float m = Some q"
    and "conductor_script cpu_count env strats asserts (check_words m) = Inr (Inr r)"
  shows "\<exists>results. r = Proved results \<and>
    (\<forall>a \<in> set asserts. \<exists>step p. preproc_name a = Inr (step, p) \<and>
       (skips p \<or> (\<exists>k res s. (res, s) \<in> set results \<and> proved_again env check_args strats k p res s)))"
proof -
  have "conductor_main env check_args strats asserts = Inr r"
    using assms(3) check_words_read[OF assms(1,2), of cpu_count] by (simp add: conductor_script_def with_args_def)
  then obtain names by_step results where n: "emap preproc_name asserts = Inr names" "r = Proved results"
      "prove_mode env check_args strats (filter (\<lambda>(step, p). \<not> skips p) names) by_step = Inr results"
    using check_main by blast
  have args: "ca_check_complete check_args" "\<not> ca_by_step check_args" by (simp_all add: check_args_def)
  have "\<exists>step p. preproc_name a = Inr (step, p) \<and>
      (skips p \<or> (\<exists>k res s. (res, s) \<in> set results \<and> proved_again env check_args strats k p res s))"
    if "a \<in> set asserts" for a
  proof -
    obtain i where i: "i < length asserts" "a = asserts ! i" using \<open>a \<in> set asserts\<close> by (auto simp: in_set_conv_nth)
    then have "preproc_name a = Inr (names ! i)" "names ! i \<in> set names"
      using n(1) by (simp_all add: emap_eq_Inr list_all2_conv_all_nth)
    then obtain step p where a: "preproc_name a = Inr (step, p)" "(step, p) \<in> set names" by (cases "names ! i") auto
    have "skips p \<or> (\<exists>k res s. (res, s) \<in> set results \<and> proved_again env check_args strats k p res s)"
      using prove_mode_covers[OF n(3) args, of step p] a(2) by auto
    then show ?thesis using a(1) by blast
  qed
  then show ?thesis using n(2) by blast
qed

lemma demo_checked:
  "conductor_script None proving (Map.empty(0 \<mapsto> Some (J_list [encode_strategy demo_step]))) [''$prop_Step0_Live'']
     (check_words ''60'') = Inr (Inr (Proved [(attempt proving ''rIC3'' 0 [''Live''] None, demo_step)]))"
proof -
  have m: "plain_word ''60''" "py_float ''60'' = Some 60" by code_simp+
  have n: "emap preproc_name [''$prop_Step0_Live''] = Inr [(0, ''Live'')]" by code_simp
  have s: "select_props check_args strats [(0, ''Live'')] = Inr [(0, ''Live'')]" for strats
    by (simp add: select_props_def check_args_def group_by_step_def add_at_def pad_to_def)
  have g: "group_by_step [(0, ''Live'')] (Some 0) = Inr [[''Live'']]" "group_by_step [] (Some 0) = Inr [[]]"
    by (simp_all add: group_by_step_def add_at_def pad_to_def)
  have e: "\<not> ends_with ''Live'' ''_Cover''" "''Live'' \<notin> set SKIPPED_PROPS" by code_simp+
  have a: "check_args = demo_args" by (simp add: check_args_def demo_args_def)
  have mode: "ca_mode demo_args = ''prove''" by (simp add: demo_args_def)
  show ?thesis
    using check_words_read[OF m, of None] s[unfolded a] demo_prove
    by (simp add: conductor_script_def with_args_def conductor_main_def a n g e mode del: emap.simps)
qed

lemma check_proves_design_witness:
  "\<exists>step p. preproc_name ''$prop_Step0_Live'' = Inr (step, p) \<and>
     (skips p \<or> (\<exists>k res s. (res, s) \<in> set [(attempt proving ''rIC3'' 0 [''Live''] None, demo_step)] \<and>
        proved_again proving check_args (Map.empty(0 \<mapsto> Some (J_list [encode_strategy demo_step]))) k p res s))"
proof -
  have "plain_word ''60''" "py_float ''60'' = Some 60" by code_simp+
  from check_proves_design[OF this demo_checked] show ?thesis by auto
qed

section \<open>From the record of a regression to its steps\<close>

interpretation meta: option_parser metadata_parser
  by unfold_locales (simp add: metadata_parser_def argument_parser_def metadata_option_def valued_def)

lemma metadata_flags:
  "is_op w \<Longrightarrow> takes_value metadata_parser ''--op'' ''op'' w"
  "takes_value metadata_parser ''--dir-metadata'' ''dir_metadata'' w"
  "takes_value metadata_parser ''--field'' ''field'' w"
  by (simp_all add: takes_value_def metadata_parser_def argument_parser_def metadata_option_def valued_def find_flag_def
      dest_of_def each_def any_text_def)

text \<open>The words with which the makefile asks for a field.\<close>

definition field_words :: "string \<Rightarrow> string \<Rightarrow> string list" where
  "field_words d field = [''--op'', ''print_field'', ''--dir-metadata'', d, ''--field'', field]"

lemma field_args:
  assumes "plain_word d" and "plain_word field"
  shows "metadata_args_of (field_words d field) =
    Inr \<lparr>ma_op = PRINT_FIELD, ma_dir_metadata = path_of d, ma_dir_out = None, ma_args_list = None, ma_field = Some field\<rparr>"
proof -
  let ?os = "[(''--op'', ''op'', ''print_field''), (''--dir-metadata'', ''dir_metadata'', d), (''--field'', ''field'', field)]"
  have op: "ops_of ''print_field'' = Some PRINT_FIELD" by (simp add: ops_of_def ops_value_def)
  then have "options_ok metadata_parser ?os"
    using metadata_flags assms by (simp add: is_op_def plain_word_def)
  then have "parse_args metadata_parser (option_words ?os) = Inr (option_values ?os)"
    by (rule meta.reads) (simp add: metadata_parser_def argument_parser_def metadata_option_def valued_def dest_of_def)
  then have "parse_args metadata_parser (field_words d field) = Inr (option_values ?os)"
    by (simp add: field_words_def)
  then show ?thesis by (simp add: metadata_args_of_def text_of_def text_or_None_def given_def op)
qed

definition printed_field :: "string \<Rightarrow> string \<Rightarrow> regression_metadata store \<Rightarrow> test_run_result store \<Rightarrow> string list \<Rightarrow> bool" where
  "printed_field d field mst st words \<longleftrightarrow>
     (\<forall>resolve inp ibex_root environ today git_commit. \<exists>printed.
        metadata_script resolve inp ibex_root environ today git_commit (field_words d field) mst st = Inr (Inr (mst, st, printed)) \<and>
        split_ws printed = words)"

lemma runs_printed:
  assumes "md_from_metadata_dir mst (path_of d) = Inr m" and "plain_word d" and "list_all word_ok (tds_list m ty)"
    and "field = (if ty = RISCVDV then ''riscvdv_tds'' else ''directed_tds'')"
  shows "printed_field d field mst st (tds_list m ty)"
proof -
  have "plain_word field" using assms(4) by (simp add: plain_word_def)
  note args = field_args[OF assms(2) this]
  have "print_field m field = Inr (join '' '' (tds_list m ty))"
    using assms(4) by (cases ty) (simp_all add: print_field_def)
  then show ?thesis
    using split_printed[OF assms(3)] assms(1)
    by (simp add: printed_field_def metadata_script_def args with_args_def print_op_def metadata_lift_def Metadata.lift_def)
qed

definition good_name :: "string \<Rightarrow> bool" where
  "good_name n \<longleftrightarrow> word_ok n \<and> CHR ''.'' \<notin> set n \<and> plain_word n"

lemma show_int_word: "word_ok (show_int i)"
proof -
  have "\<not> is_space c" if "c \<in> set (show_int i)" for c
    using show_int_chars[OF that] by (auto simp: is_digit_def is_space_def)
  then show ?thesis by (auto simp: word_ok_def list_all_iff show_int_def show_nat_def)
qed

lemma good_run:
  assumes "good_name n" and "0 \<le> i"
  shows "named_run (n, i)" and "word_ok (tds_str n i)"
  using assms show_int_word[of i] by (auto simp: good_name_def named_run_def word_ok_def tds_str_def is_space_def)

text \<open>
  C12. The makefile's loop closes: the words that \<^verbatim>\<open>metadata.py\<close> prints for the two lists of runs are,
  given back to a step on its command line, exactly the runs of the regression, each as often,
  with the directory they were printed for.
\<close>

theorem printed_runs_accepted:
  assumes "md_from_metadata_dir mst (path_of d) = Inr m" and "plain_word d"
    and "md_tests_and_counts m = map fst specs" and "0 \<le> md_seed m"
    and "list_all (\<lambda>s. good_name (fst (fst s))) specs"
  shows "\<exists>generated directed.
    printed_field d ''riscvdv_tds'' mst st generated \<and> printed_field d ''directed_tds'' mst st directed \<and>
    mset (map (\<lambda>w. stage_args [''--dir-metadata'', d, ''--test-dot-seed'', w]) (generated @ directed)) =
    mset (map (\<lambda>tds. Inr (path_of d, tds)) (run_names m specs))"
proof -
  let ?tds = "\<lambda>(n, i). tds_str n i" and ?words = "tds_list m RISCVDV @ tds_list m DIRECTED"
  have good: "good_name (fst r) \<and> 0 \<le> snd r" if "r \<in> set (run_names m specs)" for r
    using that assms(4,5) by (fastforce simp: run_names_def runs_def seeds_def list_all_iff)
  have all: "mset ?words = mset (map ?tds (run_names m specs))" by (rule tds_lists_runs[OF assms(3)])
  have "word_ok w" if "w \<in> set ?words" for w
  proof -
    have "w \<in> set (map ?tds (run_names m specs))" using that all by (metis set_mset_mset)
    then show ?thesis using good good_run(2) by fastforce
  qed
  then have words: "list_all word_ok (tds_list m ty)" for ty by (cases ty) (auto simp: list_all_iff)
  let ?parse = "\<lambda>w. stage_args [''--dir-metadata'', d, ''--test-dot-seed'', w]"
  have parsed: "?parse (?tds r) = Inr (path_of d, r)" if "r \<in> set (run_names m specs)" for r
    using stage_args_words[OF assms(2), of r] good_run(1)[of "fst r" "snd r"] good[OF that]
    by (cases r) (simp add: stage_words_def)
  have "mset (map ?parse ?words) = mset (map ?parse (map ?tds (run_names m specs)))"
    using all by (simp only: mset_map)
  also have "map ?parse (map ?tds (run_names m specs)) = map (\<lambda>tds. Inr (path_of d, tds)) (run_names m specs)"
    using parsed by (simp only: map_map comp_def) (rule map_cong; simp)
  finally have "mset (map ?parse ?words) = mset (map (\<lambda>tds. Inr (path_of d, tds)) (run_names m specs))" .
  then show ?thesis
    using runs_printed[OF assms(1,2) words, of _ RISCVDV] runs_printed[OF assms(1,2) words, of _ DIRECTED] by fastforce
qed

definition demo_counted :: regression_metadata where
  "demo_counted = demo_metadata\<lparr>md_tests_and_counts := map fst demo_specs\<rparr>"

definition demo_record :: "regression_metadata store" where
  "demo_record = \<lparr>pickles = [(path_of ''/out/metadata/metadata.pickle'', demo_counted)], yamls = []\<rparr>"

lemma printed_runs_accepted_witness:
  "\<exists>generated directed.
    printed_field ''/out/metadata'' ''riscvdv_tds'' demo_record \<lparr>pickles = [], yamls = []\<rparr> generated \<and>
    printed_field ''/out/metadata'' ''directed_tds'' demo_record \<lparr>pickles = [], yamls = []\<rparr> directed \<and>
    mset (map (\<lambda>w. stage_args [''--dir-metadata'', ''/out/metadata'', ''--test-dot-seed'', w]) (generated @ directed)) =
    mset (map (\<lambda>tds. Inr (path_of ''/out/metadata'', tds)) (run_names demo_counted demo_specs))"
proof (rule printed_runs_accepted)
  show "md_from_metadata_dir demo_record (path_of ''/out/metadata'') = Inr demo_counted"
    by (simp add: md_from_metadata_dir_def construct_from_pickle_def demo_record_def) code_simp
  show "list_all (\<lambda>s. good_name (fst (fst s))) demo_specs" by code_simp
qed (simp_all add: demo_counted_def demo_metadata_def plain_word_def)

section \<open>The translated timing report\<close>

lemma timing_words: "plain_word rpt \<Longrightarrow> plain_word gen_out \<Longrightarrow>
   timing_script read_csv show_float [rpt, gen_out] fs = Inr (translate_timing_csv read_csv show_float rpt gen_out fs)"
proof -
  assume plain: "plain_word rpt" "plain_word gen_out"
  let ?parser = "argument_parser [positional ''rpt_file'' One any_text, positional ''gen_out'' One any_text]"
  let ?ps = "[positional ''rpt_file'' One any_text, positional ''gen_out'' One any_text]"
  let ?ns = "[(''rpt_file'', [rpt]), (''gen_out'', [gen_out])]"
  have "match_groups [One, One] (map Word [rpt, gen_out]) = Some [1, 1]"
    by (simp only: match_first_word match_groups.simps(1) option.map)
  then have fits: "match_groups (map nargs ?ps) (map Word [rpt, gen_out]) = Some [1, 1]" by (simp add: positional_def)
  have kept: "''--'' \<noteq> rpt" "''--'' \<noteq> gen_out" using plain plain_not_dashes by blast+
  have "consume ?parser ?ps \<lparr>found = [], surplus = []\<rparr> (map Word [rpt, gen_out]) = Inr \<lparr>found = ?ns, surplus = []\<rparr>"
  proof (rule consume_words[OF _ fits])
    show "take_groups ?ps [1, 1] (map Word [rpt, gen_out]) \<lparr>found = [], surplus = []\<rparr> = Inr \<lparr>found = ?ns, surplus = []\<rparr>"
      using kept by (simp add: take_action_def group_words_def positional_def)
  qed simp_all
  then have "parse_args ?parser (option_words [] @ [rpt, gen_out]) = Inr ?ns"
    using parse_line[of ?parser "[]" "[rpt, gen_out]" "map Word [rpt, gen_out]"] tokens_words[of "[rpt, gen_out]" ?parser] plain
    by (simp add: argument_parser_def positional_def)
  then show ?thesis by (simp add: timing_script_def text_of_def given_def translate_timing_csv_def)
qed

text \<open>
  The dashes that end the options make the first word of the command line something else than the
  report, and the translated report is written to a file of that name.
\<close>

lemma timing_dashes:
  "timing_script read_csv show_float [''--'', ''r.csv'', ''gen''] fs =
   Inr (translate_timing_into read_csv show_float ''r.csv'' ''gen'' ''--'' fs)"
proof -
  let ?parser = "argument_parser [positional ''rpt_file'' One any_text, positional ''gen_out'' One any_text]"
  have "parse_args ?parser [''--'', ''r.csv'', ''gen''] = Inr [(''rpt_file'', [''r.csv'']), (''gen_out'', [''gen''])]"
    by code_simp
  then show ?thesis by (simp add: timing_script_def text_of_def given_def)
qed

end
