(* ===== verification/ProofFlow.thy ===== *)
theory ProofFlow
  imports ProofLog
begin

text \<open>
  \<^verbatim>\<open>dv/formal/conductor.py\<close>, the proofs and the runner together: the commands of the coroutines
  are handed to the runner, its cycles run them, put them back and end them, and a coroutine
  takes its turn when the process it waits for has its result.
\<close>

section \<open>What stays true of a process\<close>

text \<open>
  A law of a process that nothing the runner does to it breaks holds of all processes it keeps.
  What is seen of a process counts when it is polled to drop it; when it is taken back, what it
  gave is thrown away.
\<close>

locale process_law =
  fixes law :: "process \<Rightarrow> bool" and seen :: "nat \<Rightarrow> observation \<Rightarrow> bool"
  assumes law_start: "law p \<Longrightarrow> law (start t p)"
    and law_restart: "law p \<Longrightarrow> law (kill_restart p)"
    and law_poll: "law p \<Longrightarrow> kill_mark p = Some Restart \<or> seen (pid p) ob \<Longrightarrow> poll ob p = Inr (b, q) \<Longrightarrow> law q"
begin

lemma shed_law:
  assumes "shed cfg obs free rs pend = Inr (free', rs', pend')" and "list_all law rs" "list_all law pend"
  shows "list_all law rs' \<and> list_all law pend'"
  using assms
proof (induction cfg obs free rs pend rule: shed.induct)
  case (1 cfg obs free rs pend)
  show ?case
  proof (cases "\<not> no_kill cfg \<and> free < GLOBAL_MEMORY_BUFFER \<and> 1 < length rs")
    case True
    then obtain qs q where rs: "rs = qs @ [q]" using snoc_exhaust[of rs] by fastforce
    obtain b p where p: "poll (obs (pid (kill_restart q))) (kill_restart q) = Inr (b, p)"
        "shed cfg obs (free + max (max_memory (kill_restart q)) 3) qs (pend @ [p]) = Inr (free', rs', pend')"
      using "1.prems"(1) True rs by (subst (asm) shed.simps) (auto simp: Let_def raise_simps)
    have "law p" using law_poll[OF law_restart _ p(1)] "1.prems"(2) rs by (simp add: kill_restart_def)
    then show ?thesis
      using "1.IH"[OF True refl _ _ , of "(b, p)" b p] p "1.prems"(2,3) rs by simp
  next
    case False
    then show ?thesis using "1.prems" by (subst (asm) shed.simps) auto
  qed
qed

lemma launch_law:
  assumes "launch cfg clk free rs pend = (rs', pend')" and "list_all law rs" "list_all law pend"
  shows "list_all law rs' \<and> list_all law pend'"
  using assms
proof (induction cfg clk free rs pend rule: launch.induct)
  case (1 cfg clk free rs pend)
  let ?go = "int (length rs) < MAX_RUNNING (cpus cfg) \<and> pend \<noteq> [] \<and>
      expected_memory (last pend) + GLOBAL_MEMORY_BUFFER < free"
  show ?case
  proof (cases ?go)
    case True
    then obtain qs q where pend: "pend = qs @ [q]" using snoc_exhaust[of pend] by blast
    then show ?thesis
      using "1.IH"[OF True refl] "1.prems" True law_start by (subst (asm) (2) launch.simps) (simp add: Let_def)
  next
    case False
    then have "launch cfg clk free rs pend = (rs, pend)" by (subst launch.simps) (rule if_not_P)
    then show ?thesis using "1.prems" by simp
  qed
qed

lemma drop_law:
  "drop_finished obs rs = Inr (left, gone) \<Longrightarrow> \<forall>n. seen n (obs n) \<Longrightarrow> list_all law rs \<Longrightarrow>
    list_all law left \<and> list_all law gone"
proof (induction rs arbitrary: left gone)
  case (Cons p ps)
  then obtain b q left1 gone1 where "poll (obs (pid p)) p = Inr (b, q)" "drop_finished obs ps = Inr (left1, gone1)"
      "(left, gone) = (if b then (left1, q # gone1) else (q # left1, gone1))"
    by (auto simp: raise_simps split: prod.splits)
  moreover have "law q" using law_poll[of p "obs (pid p)" b q] Cons.prems(2,3) calculation(1) by simp
  ultimately show ?case using Cons by (auto split: if_splits)
qed simp

lemma cycle_law:
  assumes "runner_poll cfg c s = Inr (s', gone)" and "\<forall>n. seen n (drop_obs c n)" and "list_all law (pending s @ running s)"
  shows "list_all law (pending s' @ running s' @ gone)"
proof -
  obtain free rs pend where 1: "shed cfg (shed_obs c) (mem_avail cfg (global_free c) s) (running s) (pending s) = Inr (free, rs, pend)"
    using assms(1) by (auto simp: runner_poll_def raise_simps)
  obtain rs' pend' where 2: "launch cfg (start_clock c) free rs pend = (rs', pend')"
    by (cases "launch cfg (start_clock c) free rs pend")
  obtain left where 3: "drop_finished (drop_obs c) rs' = Inr (left, gone)" "pending s' = pend'" "running s' = left"
    using assms(1) 1 2 by (auto simp: runner_poll_def Let_def raise_simps)
  have "list_all law rs \<and> list_all law pend" by (rule shed_law[OF 1]) (use assms(3) in simp_all)
  then have "list_all law rs' \<and> list_all law pend'" using launch_law[OF 2] by simp
  then show ?thesis using drop_law[OF 3(1) assms(2)] 3(2,3) by simp
qed

end

text \<open>The number and the command of a process do not change.\<close>

definition named :: "(nat \<Rightarrow> string) \<Rightarrow> process \<Rightarrow> bool" where
  "named f p \<longleftrightarrow> cmd p = f (pid p)"

lemma finish_same:
  "finish c r ob p = Inr q \<Longrightarrow> cmd q = cmd p \<and> pid q = pid p \<and> (future p \<noteq> Cancelled \<longrightarrow> future q \<noteq> Cancelled)"
  by (auto simp: finish_def split: future.splits)

lemma poll_same:
  assumes "poll ob p = Inr (b, q)"
  shows "cmd q = cmd p \<and> pid q = pid p \<and> (future p \<noteq> Cancelled \<longrightarrow> future q \<noteq> Cancelled)"
  using assms
  by (auto simp: poll_def Let_def raise_simps dest!: finish_same split: if_splits)

interpretation named: process_law "named f" "\<lambda>_ _. True" for f
  by unfold_locales (auto simp: named_def start_def kill_restart_def dest: poll_same)

interpretation uncancelled: process_law "\<lambda>p. future p \<noteq> Cancelled" "\<lambda>_ _. True"
  by unfold_locales (auto simp: start_def kill_restart_def dest: poll_same)

section \<open>Coroutines and runner\<close>

text \<open>
  The coroutines with the number of the process each waits for, what they share, the runner,
  and the processes that it has ended.
\<close>

record flow =
  fl_phases :: "phase list"
  fl_waits :: "nat option list"
  fl_desk :: desk
  fl_runner :: runner
  fl_ended :: "process list"

definition open_flow :: "rat \<Rightarrow> proof_job list \<Rightarrow> desk \<Rightarrow> flow" where
  "open_flow t jobs d =
     \<lparr>fl_phases = replicate (length jobs) Fresh, fl_waits = replicate (length jobs) None, fl_desk = d,
      fl_runner = new_runner t, fl_ended = []\<rparr>"

text \<open>\<open>await proc.future\<close>\<close>

definition awaited_result :: "process list \<Rightarrow> nat \<Rightarrow> process_result option" where
  "awaited_result ps n =
     (case filter (\<lambda>p. pid p = n) ps of
        [] \<Rightarrow> None
      | p # _ \<Rightarrow> (case future p of Done r \<Rightarrow> Some r | _ \<Rightarrow> None))"

definition no_result :: process_result where
  "no_result = \<lparr>res_code = None, res_reason = OK, res_mem = 0, res_dt = 0, res_out = None, res_err = None\<rparr>"

text \<open>A coroutine starts, or goes on when its process has a result; a process it asks for is appended.\<close>

definition ready :: "flow \<Rightarrow> nat \<Rightarrow> process_result option" where
  "ready fl i =
     (if fl_phases fl ! i = Fresh then Some no_result
      else case fl_waits fl ! i of None \<Rightarrow> None | Some n \<Rightarrow> awaited_result (fl_ended fl) n)"

definition flow_turn :: "log_env \<Rightarrow> proof_job list \<Rightarrow> nat \<Rightarrow> flow \<Rightarrow> flow" where
  "flow_turn env jobs i fl =
     (if i < length jobs
      then case ready fl i of
             None \<Rightarrow> fl
           | Some r \<Rightarrow>
               (case resume env (jobs ! i) r (fl_phases fl ! i) (fl_desk fl) of (ph, d) \<Rightarrow>
                  (case drop (length (asked (fl_desk fl))) (asked d) of
                     [] \<Rightarrow> fl\<lparr>fl_phases := (fl_phases fl)[i := ph], fl_waits := (fl_waits fl)[i := None], fl_desk := d\<rparr>
                   | p # _ \<Rightarrow>
                       fl\<lparr>fl_phases := (fl_phases fl)[i := ph], fl_waits := (fl_waits fl)[i := Some (pid p)], fl_desk := d,
                          fl_runner := append_process p (fl_runner fl)\<rparr>))
      else fl)"

datatype flow_event = Turn nat | Cycle cycle

fun flow_step :: "settings \<Rightarrow> log_env \<Rightarrow> proof_job list \<Rightarrow> flow_event \<Rightarrow> flow \<Rightarrow> runner_error + flow" where
  "flow_step cfg env jobs (Turn i) fl = Inr (flow_turn env jobs i fl)"
| "flow_step cfg env jobs (Cycle c) fl =
     ebind (runner_poll cfg c (fl_runner fl)) (\<lambda>(s, gone).
       Inr (fl\<lparr>fl_runner := s, fl_ended := fl_ended fl @ gone\<rparr>))"

definition flow_run :: "settings \<Rightarrow> log_env \<Rightarrow> proof_job list \<Rightarrow> flow_event list \<Rightarrow> flow \<Rightarrow> runner_error + flow" where
  "flow_run cfg env jobs = efold (flow_step cfg env jobs)"

section \<open>The processes of the coroutines\<close>

text \<open>The command whose process a coroutine waits for.\<close>

fun awaited_cmd :: "proof_job \<Rightarrow> phase \<Rightarrow> string option" where
  "awaited_cmd job (Preparing name) = Some (select_cmd name (job_step job) (job_props job))"
| "awaited_cmd job (Proving name) = Some (engine_cmd (job_config job) name)"
| "awaited_cmd job (Simulating k res) = Some (simulate_cmd k)"
| "awaited_cmd job _ = None"

abbreviation all_processes :: "flow \<Rightarrow> process list" where
  "all_processes fl \<equiv> pending (fl_runner fl) @ running (fl_runner fl) @ fl_ended fl"

text \<open>At most one process is asked for in a turn, the one whose command is awaited then.\<close>

definition asks :: "desk \<Rightarrow> desk \<Rightarrow> string option \<Rightarrow> bool" where
  "asks d d' c \<longleftrightarrow>
     (case c of
        None \<Rightarrow> asked d' = asked d
      | Some c \<Rightarrow> \<exists>mem tmo. asked d' = asked d @ [new_process (length (asked d)) c mem 0 tmo])"

lemma asks_shell: "asked e = asked d \<Longrightarrow> asks d (shell c mem tmo e) (Some c)"
  by (auto simp: asks_def shell_def)

lemma asks_none: "asks d d' None \<longleftrightarrow> asked d' = asked d"
  by (simp add: asks_def)

lemma bmc_found_asks:
  assumes "bmc_found env res e = (ph', d')" and "asked e = asked d"
  shows "asks d d' (awaited_cmd job ph')"
  using assms
  by (auto simp: bmc_found_def Let_def asks_none intro!: asks_shell split: if_splits option.splits prod.splits)

lemma resume_asks:
  assumes "resume env job res ph d = (ph', d')" and "ph = Fresh \<or> awaited_cmd job ph \<noteq> None"
  shows "asks d d' (awaited_cmd job ph')"
proof (cases "\<exists>name step props tmo first final. ph = Proving name \<and> job = Bmc_job step props tmo first final")
  case True
  then obtain e where "bmc_found env res e = (ph', d')" "asked e = asked d"
    using assms(1) by (auto simp: Let_def)
  then show ?thesis by (rule bmc_found_asks)
next
  case False
  then show ?thesis
    using assms
    by (cases ph; cases job) (auto simp: prepare_aiger_def asks_none Let_def intro!: asks_shell split: if_splits)
qed

text \<open>What holds of every state: the runner has the processes that were asked for, each with its command.\<close>

definition asked_ok :: "desk \<Rightarrow> bool" where
  "asked_ok d \<longleftrightarrow> map pid (asked d) = [0..<length (asked d)]"

definition wait_ok :: "process list \<Rightarrow> proof_job \<Rightarrow> phase \<Rightarrow> nat option \<Rightarrow> bool" where
  "wait_ok ps job ph w \<longleftrightarrow>
     (case w of
        None \<Rightarrow> awaited_cmd job ph = None
      | Some n \<Rightarrow> n < length ps \<and> awaited_cmd job ph = Some (cmd (ps ! n)))"

definition waits_ok :: "proof_job list \<Rightarrow> flow \<Rightarrow> bool" where
  "waits_ok jobs fl \<longleftrightarrow> length (fl_phases fl) = length jobs \<and> length (fl_waits fl) = length jobs \<and>
     (\<forall>i < length jobs. wait_ok (asked (fl_desk fl)) (jobs ! i) (fl_phases fl ! i) (fl_waits fl ! i))"

definition flow_ok :: "settings \<Rightarrow> proof_job list \<Rightarrow> flow \<Rightarrow> bool" where
  "flow_ok cfg jobs fl \<longleftrightarrow>
     runner_inv cfg (fl_runner fl) (fl_ended fl) [0..<length (asked (fl_desk fl))] \<and> asked_ok (fl_desk fl) \<and> waits_ok jobs fl \<and>
     list_all (named (\<lambda>n. cmd (asked (fl_desk fl) ! n))) (all_processes fl) \<and>
     list_all (\<lambda>p. future p \<noteq> Cancelled) (all_processes fl)"

lemma open_flow_ok: "asked d = [] \<Longrightarrow> flow_ok cfg jobs (open_flow t jobs d)"
  by (simp add: flow_ok_def open_flow_def runner_inv_def new_runner_def asked_ok_def waits_ok_def wait_ok_def)

lemma cycle_ok:
  assumes "flow_ok cfg jobs fl"
  shows "\<exists>fl'. flow_step cfg env jobs (Cycle c) fl = Inr fl' \<and> flow_ok cfg jobs fl'"
proof -
  have inv: "runner_inv cfg (fl_runner fl) (fl_ended fl) [0..<length (asked (fl_desk fl))]"
    using assms by (simp add: flow_ok_def)
  then obtain s gone where s: "runner_poll cfg c (fl_runner fl) = Inr (s, gone)"
    using runner_poll_result[of "fl_runner fl" cfg c] by (auto simp: runner_inv_def)
  have "runner_inv cfg s (fl_ended fl @ gone) [0..<length (asked (fl_desk fl))]"
    by (rule cycle_inv[OF inv s])
  moreover have "list_all (named (\<lambda>n. cmd (asked (fl_desk fl) ! n))) (pending s @ running s @ gone)"
    by (rule named.cycle_law[OF s]) (use assms in \<open>simp_all add: flow_ok_def\<close>)
  moreover have "list_all (\<lambda>p. future p \<noteq> Cancelled) (pending s @ running s @ gone)"
    by (rule uncancelled.cycle_law[OF s]) (use assms in \<open>simp_all add: flow_ok_def\<close>)
  ultimately show ?thesis
    using assms s by (simp add: flow_ok_def waits_ok_def)
qed

lemma wait_ok_more: "wait_ok ps job ph w \<Longrightarrow> wait_ok (ps @ qs) job ph w"
  by (auto simp: wait_ok_def nth_append split: option.splits)

lemma waits_ok_update:
  assumes "waits_ok jobs fl" and "i < length jobs" and "asked (fl_desk fl') = asked (fl_desk fl) @ qs"
    and "fl_phases fl' = (fl_phases fl)[i := ph]" "fl_waits fl' = (fl_waits fl)[i := w]"
    and "wait_ok (asked (fl_desk fl')) (jobs ! i) ph w"
  shows "waits_ok jobs fl'"
proof -
  have "wait_ok (asked (fl_desk fl')) (jobs ! j) (fl_phases fl' ! j) (fl_waits fl' ! j)" if "j < length jobs" for j
    using assms that wait_ok_more[of "asked (fl_desk fl)" "jobs ! j" "fl_phases fl ! j" "fl_waits fl ! j" qs]
    by (cases "j = i") (simp_all add: waits_ok_def)
  then show ?thesis using assms(1,4,5) by (simp add: waits_ok_def)
qed

lemma named_more:
  assumes "list_all (named (\<lambda>n. cmd (as ! n))) ps" and "pids ps \<subseteq># mset [0..<length as]"
  shows "list_all (named (\<lambda>n. cmd ((as @ bs) ! n))) ps"
proof -
  have "pid p < length as" if "p \<in> set ps" for p
    using that mset_subset_eqD[OF assms(2), of "pid p"] by (auto simp: pids_def)
  then show ?thesis using assms(1) by (auto simp: list_all_iff named_def nth_append)
qed

text \<open>A new process is handed over.\<close>

lemma submitted_ok:
  assumes "flow_ok cfg jobs fl" and "i < length jobs"
    and p: "p = new_process (length (asked (fl_desk fl))) c mem 0 tmo"
    and d: "asked d = asked (fl_desk fl) @ [p]" and "awaited_cmd (jobs ! i) ph = Some c"
  shows "flow_ok cfg jobs (fl\<lparr>fl_phases := (fl_phases fl)[i := ph], fl_waits := (fl_waits fl)[i := Some (pid p)],
    fl_desk := d, fl_runner := append_process p (fl_runner fl)\<rparr>)" (is "flow_ok cfg jobs ?fl")
proof -
  let ?n = "length (asked (fl_desk fl))"
  have new: "pid p = ?n" "cmd p = c" "future p = Waiting" by (simp_all add: p new_process_def)
  have inv: "runner_inv cfg (fl_runner fl) (fl_ended fl) [0..<?n]" using assms(1) by (simp add: flow_ok_def)
  have "runner_inv cfg (append_process p (fl_runner fl)) (fl_ended fl) (?n # [0..<?n])"
    unfolding p by (rule submit_inv[OF inv]) simp
  then have "runner_inv cfg (append_process p (fl_runner fl)) (fl_ended fl) [0..<length (asked d)]"
    using d by (simp add: runner_inv_def)
  moreover have "waits_ok jobs ?fl"
    by (rule waits_ok_update[of jobs fl i _ "[p]" ph "Some (pid p)"])
      (use assms new in \<open>simp_all add: flow_ok_def wait_ok_def nth_append\<close>)
  moreover have "asked_ok d" using assms(1) d new(1) by (simp add: flow_ok_def asked_ok_def)
  moreover have "pids (all_processes fl) \<subseteq># mset [0..<?n]"
    using inv by (simp add: runner_inv_def ac_simps)
  then have "list_all (named (\<lambda>n. cmd (asked d ! n))) (all_processes fl)"
    unfolding d by (intro named_more) (use assms(1) in \<open>simp_all add: flow_ok_def\<close>)
  then have "list_all (named (\<lambda>n. cmd (asked d ! n))) (all_processes ?fl)"
    using new(1,2) d by (simp add: append_process_def named_def nth_append)
  ultimately show ?thesis
    using assms(1) new(3) by (simp add: flow_ok_def append_process_def)
qed

lemma turn_ok:
  assumes "flow_ok cfg jobs fl"
  shows "flow_ok cfg jobs (flow_turn env jobs i fl)"
proof (cases "i < length jobs \<and> ready fl i \<noteq> None")
  case True
  then obtain r where i: "i < length jobs" and r: "ready fl i = Some r" by blast
  obtain ph d where s: "resume env (jobs ! i) r (fl_phases fl ! i) (fl_desk fl) = (ph, d)" by fastforce
  have "wait_ok (asked (fl_desk fl)) (jobs ! i) (fl_phases fl ! i) (fl_waits fl ! i)"
    using assms i by (simp add: flow_ok_def waits_ok_def)
  then have "fl_phases fl ! i = Fresh \<or> awaited_cmd (jobs ! i) (fl_phases fl ! i) \<noteq> None"
    using r by (auto simp: ready_def wait_ok_def split: if_splits option.splits)
  then have a: "asks (fl_desk fl) d (awaited_cmd (jobs ! i) ph)" by (rule resume_asks[OF s])
  show ?thesis
  proof (cases "awaited_cmd (jobs ! i) ph")
    case None
    then have d: "asked d = asked (fl_desk fl)" using a by (simp add: asks_none)
    let ?fl = "fl\<lparr>fl_phases := (fl_phases fl)[i := ph], fl_waits := (fl_waits fl)[i := None], fl_desk := d\<rparr>"
    have "waits_ok jobs ?fl"
      by (rule waits_ok_update[of jobs fl i _ "[]" ph None])
        (use assms i d None in \<open>simp_all add: flow_ok_def wait_ok_def\<close>)
    then have "flow_ok cfg jobs ?fl" using assms d by (simp add: flow_ok_def asked_ok_def)
    then show ?thesis using i r s d by (simp add: flow_turn_def)
  next
    case (Some c)
    then obtain mem tmo where d: "asked d = asked (fl_desk fl) @ [new_process (length (asked (fl_desk fl))) c mem 0 tmo]"
      using a by (auto simp: asks_def)
    show ?thesis using submitted_ok[OF assms i refl d Some] i r s d by (simp add: flow_turn_def)
  qed
qed (use assms in \<open>auto simp: flow_turn_def\<close>)

lemma flow_step_ok:
  assumes "flow_ok cfg jobs fl"
  shows "\<exists>fl'. flow_step cfg env jobs e fl = Inr fl' \<and> flow_ok cfg jobs fl'"
  using assms cycle_ok turn_ok by (cases e) auto

lemma flow_run_ok:
  assumes "flow_ok cfg jobs fl"
  shows "\<exists>fl'. flow_run cfg env jobs es fl = Inr fl' \<and> flow_ok cfg jobs fl'"
  using assms
proof (induction es arbitrary: fl)
  case (Cons e es)
  obtain fl1 where 1: "flow_step cfg env jobs e fl = Inr fl1" "flow_ok cfg jobs fl1"
    using flow_step_ok[OF Cons.prems] by blast
  show ?case using Cons.IH[OF 1(2)] 1(1) by (simp add: flow_run_def)
qed (simp add: flow_run_def)

section \<open>Every proof gets the results of its own commands\<close>

lemma filter_single:
  assumes "distinct (map f ps)" and "p \<in> set ps"
  shows "filter (\<lambda>q. f q = f p) ps = [p]"
  using assms
proof (induction ps)
  case (Cons q ps)
  show ?case
  proof (cases "q = p")
    case True
    then have "\<forall>q' \<in> set ps. f q' \<noteq> f p" using Cons.prems(1) by (auto simp: image_iff)
    then show ?thesis using True by (simp add: filter_empty_conv)
  next
    case False
    then show ?thesis using Cons by (auto simp: image_iff)
  qed
qed simp

lemma filter_append_single:
  "filter Q (xs @ ys) = [p] \<Longrightarrow> p \<in> set ys \<Longrightarrow> Q p \<Longrightarrow> filter Q ys = [p]"
  by (auto simp: append_eq_Cons_conv filter_empty_conv)

lemma flow_holds:
  assumes "flow_ok cfg jobs fl" and "n < length (asked (fl_desk fl))"
  shows "\<exists>p. filter (\<lambda>q. pid q = n) (all_processes fl) = [p] \<and> cmd p = cmd (asked (fl_desk fl) ! n) \<and>
    (p \<in> set (fl_ended fl) \<longrightarrow> (\<exists>r. future p = Done r \<and> awaited_result (fl_ended fl) n = Some r))"
proof -
  let ?ps = "all_processes fl"
  have inv: "runner_inv cfg (fl_runner fl) (fl_ended fl) [0..<length (asked (fl_desk fl))]"
    using assms(1) by (simp add: flow_ok_def)
  then have m: "mset (map pid ?ps) = mset [0..<length (asked (fl_desk fl))]"
    by (simp add: runner_inv_def pids_def ac_simps)
  have "n \<in> set (map pid ?ps)" unfolding mset_eq_setD[OF m] using assms(2) by simp
  then obtain p where p: "p \<in> set ?ps" "pid p = n" by auto
  have "distinct (map pid ?ps)" using mset_eq_imp_distinct_iff[OF m] by simp
  from filter_single[OF this p(1)] have single: "filter (\<lambda>q. pid q = n) ?ps = [p]" by (simp only: p(2))
  have "\<exists>r. future p = Done r \<and> awaited_result (fl_ended fl) n = Some r" if e: "p \<in> set (fl_ended fl)"
  proof -
    have "filter (\<lambda>q. pid q = n) (fl_ended fl) = [p]"
      using filter_append_single[of _ "pending (fl_runner fl) @ running (fl_runner fl)" "fl_ended fl" p] single e p(2) by simp
    moreover have "future p \<noteq> Waiting" using inv e by (auto simp: runner_inv_def ended_def list_all_iff)
    moreover have "future p \<noteq> Cancelled" using assms(1) e by (auto simp: flow_ok_def list_all_iff)
    ultimately show ?thesis by (cases "future p") (simp_all add: awaited_result_def)
  qed
  moreover have "cmd p = cmd (asked (fl_desk fl) ! n)"
    using assms(1) p by (auto simp: flow_ok_def list_all_iff named_def)
  ultimately show ?thesis using single by blast
qed

text \<open>
  C6. The runner never fails, and a proof that waits is never forgotten or given what is not its
  own: the runner has exactly one process for it, with the command that the proof waits for,
  and once that process has ended the proof goes on with its result.
\<close>

theorem results_reach_proofs:
  assumes "asked d = []" and "i < length jobs"
  shows "\<exists>fl. flow_run cfg env jobs es (open_flow t jobs d) = Inr fl \<and>
    (\<forall>c. awaited_cmd (jobs ! i) (fl_phases fl ! i) = Some c \<longrightarrow>
      (\<exists>n p. fl_waits fl ! i = Some n \<and> filter (\<lambda>q. pid q = n) (all_processes fl) = [p] \<and> cmd p = c \<and>
         (p \<in> set (fl_ended fl) \<longrightarrow> (\<exists>r. future p = Done r \<and> ready fl i = Some r))))"
proof -
  obtain fl where fl: "flow_run cfg env jobs es (open_flow t jobs d) = Inr fl" "flow_ok cfg jobs fl"
    using flow_run_ok[OF open_flow_ok[OF assms(1)]] by blast
  have w: "wait_ok (asked (fl_desk fl)) (jobs ! i) (fl_phases fl ! i) (fl_waits fl ! i)"
    using fl(2) assms(2) by (simp add: flow_ok_def waits_ok_def)
  have "\<exists>n p. fl_waits fl ! i = Some n \<and> filter (\<lambda>q. pid q = n) (all_processes fl) = [p] \<and> cmd p = c \<and>
         (p \<in> set (fl_ended fl) \<longrightarrow> (\<exists>r. future p = Done r \<and> ready fl i = Some r))"
    if c: "awaited_cmd (jobs ! i) (fl_phases fl ! i) = Some c" for c
  proof -
    obtain n where n: "fl_waits fl ! i = Some n" "n < length (asked (fl_desk fl))" "c = cmd (asked (fl_desk fl) ! n)"
      using w c by (auto simp: wait_ok_def split: option.splits)
    have "fl_phases fl ! i \<noteq> Fresh" using c by auto
    then show ?thesis using n flow_holds[OF fl(2) n(2)] by (fastforce simp: ready_def)
  qed
  then show ?thesis using fl(1) by blast
qed

section \<open>What the processes leave\<close>

text \<open>The commands that write a prepared file, and the last of the ended processes that wrote it.\<close>

definition writes_aiger :: "nat \<Rightarrow> string \<Rightarrow> bool" where
  "writes_aiger m c \<longleftrightarrow>
     take 4 (split_on CHR '' '' c) = [''build/aig-manip'', ''build/all.aig'', ''select'', aiger_name m]"

definition written_by :: "process list \<Rightarrow> nat \<Rightarrow> string option" where
  "written_by ps m = map_option cmd (find (\<lambda>p. writes_aiger m (cmd p)) (rev ps))"

text \<open>The engines of the jobs are other programs than the one that prepares the files.\<close>

definition engine_jobs :: "proof_job list \<Rightarrow> bool" where
  "engine_jobs jobs \<longleftrightarrow>
     list_all (\<lambda>job. hd (split_on CHR '' '' (job_config job)) \<noteq> ''build/aig-manip'') jobs"

text \<open>
  The exit of a process and its output are what its command gives: the file is prepared when it
  can be, and an engine that is run on a file gives its answer for the step and the properties
  that the file was last prepared for.
\<close>

definition exit_result :: "int \<Rightarrow> observation \<Rightarrow> process_result" where
  "exit_result k ob =
     \<lparr>res_code = Some k, res_reason = OK, res_mem = 0, res_dt = 0, res_out = Some (out_text ob), res_err = Some (err_text ob)\<rparr>"

definition exits_right :: "engines \<Rightarrow> proof_job \<Rightarrow> nat \<Rightarrow> string option \<Rightarrow> string \<Rightarrow> observation \<Rightarrow> bool" where
  "exits_right eng job m written c ob \<longleftrightarrow>
     (case exit_code ob of
        None \<Rightarrow> True
      | Some k \<Rightarrow>
          (c = select_cmd (aiger_name m) (job_step job) (job_props job) \<longrightarrow>
             (k = 0 \<longleftrightarrow> aig_ok eng (job_step job) (job_props job))) \<and>
          (c = engine_cmd (job_config job) (aiger_name m) \<and>
             written = Some (select_cmd (aiger_name m) (job_step job) (job_props job)) \<longrightarrow>
             exit_result k ob = attempt eng (job_config job) (job_step job) (job_props job) (job_timeout job)))"

definition cycle_right :: "engines \<Rightarrow> proof_job list \<Rightarrow> flow \<Rightarrow> cycle \<Rightarrow> bool" where
  "cycle_right eng jobs fl c \<longleftrightarrow>
     (\<forall>n < length (asked (fl_desk fl)). \<forall>job \<in> set jobs. \<forall>m < aiger_idx (fl_desk fl).
        exits_right eng job m (written_by (fl_ended fl) m) (cmd (asked (fl_desk fl) ! n)) (drop_obs c n))"

fun world_right :: "settings \<Rightarrow> log_env \<Rightarrow> engines \<Rightarrow> proof_job list \<Rightarrow> flow_event list \<Rightarrow> flow \<Rightarrow> bool" where
  "world_right cfg env eng jobs [] fl \<longleftrightarrow> True"
| "world_right cfg env eng jobs (e # es) fl \<longleftrightarrow>
     (case e of Turn i \<Rightarrow> True | Cycle c \<Rightarrow> cycle_right eng jobs fl c) \<and>
     (case flow_step cfg env jobs e fl of Inl _ \<Rightarrow> True | Inr fl' \<Rightarrow> world_right cfg env eng jobs es fl')"

text \<open>A result, and where a coroutine stands, apart from the memory and the time that were measured.\<close>

definition unmeasured :: "process_result \<Rightarrow> process_result" where
  "unmeasured r = r\<lparr>res_mem := 0, res_dt := 0\<rparr>"

fun unmeasured_phase :: "phase \<Rightarrow> phase" where
  "unmeasured_phase (Simulating k r) = Simulating k (unmeasured r)"
| "unmeasured_phase (Ended r k) = Ended (unmeasured r) k"
| "unmeasured_phase ph = ph"

lemma unmeasured_sel [simp]:
  "res_code (unmeasured r) = res_code r" "res_out (unmeasured r) = res_out r"
  by (simp_all add: unmeasured_def)

section \<open>Each prepared file is written once\<close>

lemma words_select:
  "take 4 (split_on CHR '' '' (select_cmd (aiger_name m) step props)) =
     [''build/aig-manip'', ''build/all.aig'', ''select'', aiger_name m]"
proof -
  let ?ws = "[''build/aig-manip'', ''build/all.aig'', ''select'', aiger_name m, ''build/all.ywmap'', show_int step]"
  have "select_cmd (aiger_name m) step props = join '' '' ?ws @ CHR '' '' # join '' '' props"
    using select_words[of "aiger_name m" step props] by simp
  then have "split_on CHR '' '' (select_cmd (aiger_name m) step props) =
      split_on CHR '' '' (join '' '' ?ws) @ split_on CHR '' '' (join '' '' props)"
    by (simp only: split_on_sep)
  moreover have "split_on CHR '' '' (join '' '' ?ws) = ?ws"
    using split_on_join[of ?ws "CHR '' ''"] by (simp add: aiger_plain no_space)
  ultimately show ?thesis by (simp only:) simp
qed

lemma select_writes: "writes_aiger m (select_cmd (aiger_name n) step props) \<longleftrightarrow> m = n"
  by (auto simp: writes_aiger_def words_select aiger.file_eq)

lemma writes_program: "writes_aiger m c \<Longrightarrow> hd (split_on CHR '' '' c) = ''build/aig-manip''"
  by (cases "split_on CHR '' '' c") (simp_all add: writes_aiger_def)

lemma program_word: "hd (split_on CHR '' '' (a @ CHR '' '' # b)) = hd (split_on CHR '' '' a)"
  using split_on_nonempty[of "CHR '' ''" a] by (simp add: split_on_sep)

lemma engine_writes_not:
  "hd (split_on CHR '' '' config) \<noteq> ''build/aig-manip'' \<Longrightarrow> \<not> writes_aiger m (engine_cmd config name)"
  using writes_program[of m "engine_cmd config name"] program_word[of config name] by (auto simp: engine_cmd_def)

lemma simulate_writes_not: "\<not> writes_aiger m (simulate_cmd k)"
proof
  assume "writes_aiger m (simulate_cmd k)"
  then have "hd (split_on CHR '' '' (simulate_cmd k)) = ''build/aig-manip''" by (rule writes_program)
  then have "hd (split_on CHR '' '' ''./aig-manip/target/release/aig-manip'') = ''build/aig-manip''"
    using program_word[of "''./aig-manip/target/release/aig-manip''"] by (simp add: simulate_cmd_def)
  then show False by simp
qed

text \<open>What a turn does with the number of the prepared files and with the file of the coroutine.\<close>

fun phase_file :: "phase \<Rightarrow> string option" where
  "phase_file (Preparing name) = Some name"
| "phase_file (Proving name) = Some name"
| "phase_file _ = None"

lemma resume_file:
  assumes "resume env job r ph d = (ph', d')"
  shows "if ph = Fresh then ph' = Preparing (aiger_name (aiger_idx d)) \<and> aiger_idx d' = Suc (aiger_idx d)
    else aiger_idx d' = aiger_idx d \<and> (\<forall>name. ph' \<noteq> Preparing name) \<or> (ph', d') = (ph, d)"
  using assms
  by (cases "(env, job, r, ph, d)" rule: resume.cases)
    (auto simp: prepare_aiger_def shell_def bmc_found_def Let_def split: if_splits option.splits prod.splits proof_job.splits)

definition one_writer :: "desk \<Rightarrow> bool" where
  "one_writer d \<longleftrightarrow>
     (\<forall>c \<in> cmd ` set (asked d). \<forall>m. writes_aiger m c \<longrightarrow>
        m < aiger_idx d \<and> (\<forall>c' \<in> cmd ` set (asked d). writes_aiger m c' \<longrightarrow> c' = c))"

lemma one_writerD:
  "one_writer d \<Longrightarrow> c \<in> cmd ` set (asked d) \<Longrightarrow> c' \<in> cmd ` set (asked d) \<Longrightarrow> writes_aiger m c \<Longrightarrow> writes_aiger m c' \<Longrightarrow> c' = c"
  unfolding one_writer_def by blast

lemma engine_jobsD: "engine_jobs jobs \<Longrightarrow> i < length jobs \<Longrightarrow> hd (split_on CHR '' '' (job_config (jobs ! i))) \<noteq> ''build/aig-manip''"
  by (simp add: engine_jobs_def list_all_length)

lemma one_writer_turn:
  assumes "one_writer d" and "resume env job r ph d = (ph', d')" and "ph = Fresh \<or> awaited_cmd job ph \<noteq> None"
    and "hd (split_on CHR '' '' (job_config job)) \<noteq> ''build/aig-manip''"
  shows "one_writer d'"
proof -
  have a: "asks d d' (awaited_cmd job ph')" by (rule resume_asks[OF assms(2,3)])
  have f: "if ph = Fresh then ph' = Preparing (aiger_name (aiger_idx d)) \<and> aiger_idx d' = Suc (aiger_idx d)
      else aiger_idx d' = aiger_idx d \<and> (\<forall>name. ph' \<noteq> Preparing name) \<or> (ph', d') = (ph, d)"
    by (rule resume_file[OF assms(2)])
  show ?thesis
  proof (cases "ph = Fresh")
    case True
    let ?s = "select_cmd (aiger_name (aiger_idx d)) (job_step job) (job_props job)"
    have "cmd ` set (asked d') = insert ?s (cmd ` set (asked d))" "aiger_idx d' = Suc (aiger_idx d)"
      using a f True by (auto simp: asks_def new_process_def)
    moreover have "writes_aiger m ?s \<longleftrightarrow> m = aiger_idx d" for m by (rule select_writes)
    ultimately show ?thesis using assms(1) by (fastforce simp: one_writer_def)
  next
    case False
    show ?thesis
    proof (cases "(ph', d') = (ph, d)")
      case False
      then have idx: "aiger_idx d' = aiger_idx d" and p: "\<forall>name. ph' \<noteq> Preparing name" using f \<open>ph \<noteq> Fresh\<close> by auto
      have new: "\<not> writes_aiger m c" if "awaited_cmd job ph' = Some c" for c m
        using that p engine_writes_not[OF assms(4)] simulate_writes_not by (cases ph') auto
      show ?thesis
      proof (cases "awaited_cmd job ph'")
        case None
        then have "asked d' = asked d" using a by (simp add: asks_none)
        then show ?thesis using assms(1) idx by (simp add: one_writer_def)
      next
        case (Some c)
        then have "cmd ` set (asked d') = insert c (cmd ` set (asked d))" using a by (auto simp: asks_def new_process_def)
        then show ?thesis using assms(1) idx new[OF Some] by (auto simp: one_writer_def)
      qed
    qed (use assms(1) in simp)
  qed
qed

text \<open>The file of a coroutine that proves was written by its own process, and that process has ended.\<close>

definition file_ok :: "nat \<Rightarrow> process list \<Rightarrow> proof_job \<Rightarrow> phase \<Rightarrow> bool" where
  "file_ok n ps job ph \<longleftrightarrow>
     (case ph of
        Preparing name \<Rightarrow> (\<exists>m < n. name = aiger_name m)
      | Proving name \<Rightarrow> (\<exists>m < n. name = aiger_name m) \<and> select_cmd name (job_step job) (job_props job) \<in> cmd ` set ps
      | _ \<Rightarrow> True)"

lemma file_ok_more: "file_ok n ps job ph \<Longrightarrow> n \<le> n' \<Longrightarrow> set ps \<subseteq> set ps' \<Longrightarrow> file_ok n' ps' job ph"
  by (force simp: file_ok_def split: phase.splits)

lemma written_own:
  assumes "select_cmd (aiger_name m) step props \<in> cmd ` set ps"
    and "\<And>c. c \<in> cmd ` set ps \<Longrightarrow> writes_aiger m c \<Longrightarrow> c = select_cmd (aiger_name m) step props"
  shows "written_by ps m = Some (select_cmd (aiger_name m) step props)"
proof -
  obtain p where p: "p \<in> set ps" "cmd p = select_cmd (aiger_name m) step props" using assms(1) by auto
  then have "find (\<lambda>p. writes_aiger m (cmd p)) (rev ps) \<noteq> None"
    using select_writes[of m m step props] by (auto simp: find_None_iff)
  then obtain q where q: "find (\<lambda>p. writes_aiger m (cmd p)) (rev ps) = Some q" by blast
  then have "q \<in> set ps" "writes_aiger m (cmd q)" by (auto simp: find_Some_iff) (metis nth_mem length_rev set_rev)
  then show ?thesis using q assms(2)[of "cmd q"] by (simp add: written_by_def)
qed

text \<open>
  What a process has given is right for the coroutine that waits for it: its result was seen
  when it ended, and no process is stopped before.
\<close>

definition told :: "engines \<Rightarrow> proof_job list \<Rightarrow> phase list \<Rightarrow> nat option list \<Rightarrow> process \<Rightarrow> bool" where
  "told eng jobs phs ws p \<longleftrightarrow> timeout p = None \<and> kill_mark p \<noteq> Some Kill \<and>
     (\<forall>i < length jobs. ws ! i = Some (pid p) \<longrightarrow>
        (\<forall>r. future p = Done r \<longrightarrow> fits eng (jobs ! i) (phs ! i) (unmeasured r)))"

definition exit_fits :: "engines \<Rightarrow> proof_job list \<Rightarrow> phase list \<Rightarrow> nat option list \<Rightarrow> nat \<Rightarrow> observation \<Rightarrow> bool" where
  "exit_fits eng jobs phs ws n ob \<longleftrightarrow>
     (\<forall>k. exit_code ob = Some k \<longrightarrow>
        (\<forall>i < length jobs. ws ! i = Some n \<longrightarrow> fits eng (jobs ! i) (phs ! i) (exit_result k ob)))"

lemma told_poll:
  assumes "told eng jobs phs ws p" and "kill_mark p = Some Restart \<or> exit_fits eng jobs phs ws (pid p) ob"
    and "poll ob p = Inr (b, q)"
  shows "told eng jobs phs ws q"
proof -
  have u: "unmeasured \<lparr>res_code = Some k, res_reason = OK, res_mem = m, res_dt = t, res_out = Some (out_text ob),
      res_err = Some (err_text ob)\<rparr> = exit_result k ob" for k m t
    by (simp add: unmeasured_def exit_result_def)
  show ?thesis
    using assms kill_mark_cases[of "kill_mark p"]
    by (auto simp: told_def exit_fits_def poll_def finish_def Let_def raise_simps u split: if_splits future.splits)
qed

interpretation told: process_law "told eng jobs phs ws" "exit_fits eng jobs phs ws" for eng jobs phs ws
proof unfold_locales
  show "told eng jobs phs ws p \<Longrightarrow> told eng jobs phs ws (start t p)" for t p by (simp add: told_def start_def)
  show "told eng jobs phs ws p \<Longrightarrow> told eng jobs phs ws (kill_restart p)" for p by (simp add: told_def kill_restart_def)
qed (rule told_poll)

section \<open>What the coroutines are told\<close>

definition flow_told :: "engines \<Rightarrow> proof_job list \<Rightarrow> flow \<Rightarrow> bool" where
  "flow_told eng jobs fl \<longleftrightarrow> one_writer (fl_desk fl) \<and>
     (\<forall>i < length jobs. file_ok (aiger_idx (fl_desk fl)) (fl_ended fl) (jobs ! i) (fl_phases fl ! i)) \<and>
     list_all (told eng jobs (fl_phases fl) (fl_waits fl)) (all_processes fl)"

lemma open_flow_told: "asked d = [] \<Longrightarrow> flow_told eng jobs (open_flow t jobs d)"
  by (simp add: flow_told_def open_flow_def new_runner_def one_writer_def file_ok_def)

text \<open>The processes are those that were asked for.\<close>

lemma process_asked:
  assumes "flow_ok cfg jobs fl" and "p \<in> set (all_processes fl)"
  shows "pid p < length (asked (fl_desk fl)) \<and> cmd p = cmd (asked (fl_desk fl) ! pid p) \<and> cmd p \<in> cmd ` set (asked (fl_desk fl))"
proof -
  let ?n = "length (asked (fl_desk fl))"
  have "pids (all_processes fl) = mset [0..<?n]"
    using assms(1) by (simp add: flow_ok_def runner_inv_def ac_simps)
  then have "pid p \<in># mset [0..<?n]" using assms(2) by (metis image_eqI pids_def set_map set_mset_mset)
  then have "pid p < ?n" by simp
  moreover have "cmd p = cmd (asked (fl_desk fl) ! pid p)"
    using assms by (auto simp: flow_ok_def list_all_iff named_def)
  ultimately show ?thesis by simp
qed

lemma wait_asked:
  assumes "flow_ok cfg jobs fl" and "i < length jobs" and "fl_waits fl ! i = Some n"
  shows "n < length (asked (fl_desk fl)) \<and> awaited_cmd (jobs ! i) (fl_phases fl ! i) = Some (cmd (asked (fl_desk fl) ! n))"
proof -
  have "wait_ok (asked (fl_desk fl)) (jobs ! i) (fl_phases fl ! i) (fl_waits fl ! i)"
    using assms(1,2) by (simp add: flow_ok_def waits_ok_def)
  then show ?thesis using assms(3) by (simp add: wait_ok_def)
qed

text \<open>The file that a coroutine proves on holds what it prepared.\<close>

lemma proving_written:
  assumes "flow_ok cfg jobs fl" and "one_writer (fl_desk fl)"
    and "select_cmd (aiger_name m) step props \<in> cmd ` set (fl_ended fl)"
  shows "written_by (fl_ended fl) m = Some (select_cmd (aiger_name m) step props)"
proof (rule written_own[OF assms(3)])
  fix c assume c: "c \<in> cmd ` set (fl_ended fl)" "writes_aiger m c"
  have "cmd ` set (fl_ended fl) \<subseteq> cmd ` set (asked (fl_desk fl))" using process_asked[OF assms(1)] by auto
  then have "c \<in> cmd ` set (asked (fl_desk fl))" "select_cmd (aiger_name m) step props \<in> cmd ` set (asked (fl_desk fl))"
    using c(1) assms(3) by auto
  moreover have "writes_aiger m (select_cmd (aiger_name m) step props)" by (simp add: select_writes)
  ultimately show "c = select_cmd (aiger_name m) step props" using one_writerD[OF assms(2)] c(2) by blast
qed

lemma cycle_exit_fits:
  assumes "flow_ok cfg jobs fl" and "flow_told eng jobs fl" and "cycle_right eng jobs fl c"
  shows "exit_fits eng jobs (fl_phases fl) (fl_waits fl) n (drop_obs c n)"
  unfolding exit_fits_def
proof (intro allI impI)
  fix k i
  let ?job = "jobs ! i"
  assume k: "exit_code (drop_obs c n) = Some k" and i: "i < length jobs" "fl_waits fl ! i = Some n"
  note w = wait_asked[OF assms(1) i]
  have ok: "file_ok (aiger_idx (fl_desk fl)) (fl_ended fl) ?job (fl_phases fl ! i)" and one: "one_writer (fl_desk fl)"
    using assms(2) i(1) by (auto simp: flow_told_def)
  have right: "exits_right eng ?job m (written_by (fl_ended fl) m) (cmd (asked (fl_desk fl) ! n)) (drop_obs c n)"
    if "m < aiger_idx (fl_desk fl)" for m
    using assms(3) w i(1) that by (simp add: cycle_right_def)
  show "fits eng ?job (fl_phases fl ! i) (exit_result k (drop_obs c n))"
  proof (cases "fl_phases fl ! i")
    case (Preparing name)
    then show ?thesis using ok w right k by (auto simp: file_ok_def exits_right_def exit_result_def)
  next
    case (Proving name)
    then obtain m where m: "m < aiger_idx (fl_desk fl)" "name = aiger_name m"
        "select_cmd (aiger_name m) (job_step ?job) (job_props ?job) \<in> cmd ` set (fl_ended fl)"
      using ok by (auto simp: file_ok_def)
    show ?thesis
      using right[OF m(1)] proving_written[OF assms(1) one m(3)] Proving m(2) w k by (simp add: exits_right_def)
  qed auto
qed

lemma cycle_told:
  assumes "flow_ok cfg jobs fl" and "flow_told eng jobs fl" and "cycle_right eng jobs fl c"
    and "flow_step cfg env jobs (Cycle c) fl = Inr fl'"
  shows "flow_told eng jobs fl'"
proof -
  obtain s gone where s: "runner_poll cfg c (fl_runner fl) = Inr (s, gone)"
      and fl': "fl' = fl\<lparr>fl_runner := s, fl_ended := fl_ended fl @ gone\<rparr>"
    using assms(4) by (auto simp: raise_simps)
  have "list_all (told eng jobs (fl_phases fl) (fl_waits fl)) (pending s @ running s @ gone)"
    by (rule told.cycle_law[OF s]) (use assms(2) cycle_exit_fits[OF assms(1-3)] in \<open>simp_all add: flow_told_def\<close>)
  moreover have "file_ok (aiger_idx (fl_desk fl)) (fl_ended fl @ gone) (jobs ! i) (fl_phases fl ! i)" if "i < length jobs" for i
    by (rule file_ok_more[of _ "fl_ended fl"]) (use assms(2) that in \<open>auto simp: flow_told_def\<close>)
  ultimately show ?thesis using assms(2) fl' by (simp add: flow_told_def)
qed

lemma ready_told:
  assumes "flow_ok cfg jobs fl" and "flow_told eng jobs fl" and "i < length jobs" and "ready fl i = Some r"
  shows "fits eng (jobs ! i) (fl_phases fl ! i) (unmeasured r)"
    and "fl_phases fl ! i = Fresh \<or> awaited_cmd (jobs ! i) (fl_phases fl ! i) \<noteq> None"
    and "awaited_cmd (jobs ! i) (fl_phases fl ! i) = Some c \<Longrightarrow> c \<in> cmd ` set (fl_ended fl)"
proof -
  have "fits eng (jobs ! i) (fl_phases fl ! i) (unmeasured r) \<and>
      (fl_phases fl ! i = Fresh \<or> (\<exists>c \<in> cmd ` set (fl_ended fl). awaited_cmd (jobs ! i) (fl_phases fl ! i) = Some c))"
  proof (cases "fl_phases fl ! i = Fresh")
    case False
    then obtain n where n: "fl_waits fl ! i = Some n" "awaited_result (fl_ended fl) n = Some r"
      using assms(4) by (auto simp: ready_def split: option.splits)
    obtain p ps where p: "filter (\<lambda>p. pid p = n) (fl_ended fl) = p # ps" "future p = Done r"
      using n(2) by (auto simp: awaited_result_def split: list.splits future.splits)
    then have "p \<in> set (filter (\<lambda>p. pid p = n) (fl_ended fl))" by simp
    then have e: "p \<in> set (fl_ended fl)" "pid p = n" by auto
    then have "told eng jobs (fl_phases fl) (fl_waits fl) p" using assms(2) by (auto simp: flow_told_def list_all_iff)
    then have "fits eng (jobs ! i) (fl_phases fl ! i) (unmeasured r)"
      using assms(3) n(1) e(2) p(2) by (simp add: told_def)
    moreover have "awaited_cmd (jobs ! i) (fl_phases fl ! i) = Some (cmd p)"
      using wait_asked[OF assms(1,3) n(1)] process_asked[OF assms(1), of p] e by simp
    ultimately show ?thesis using e(1) by blast
  qed simp
  then show "fits eng (jobs ! i) (fl_phases fl ! i) (unmeasured r)"
    "fl_phases fl ! i = Fresh \<or> awaited_cmd (jobs ! i) (fl_phases fl ! i) \<noteq> None"
    "awaited_cmd (jobs ! i) (fl_phases fl ! i) = Some c \<Longrightarrow> c \<in> cmd ` set (fl_ended fl)"
    by auto
qed

lemma bmc_found_untimed:
  "bmc_found env res e = (ph', d') \<Longrightarrow> list_all (\<lambda>p. timeout p = None) (asked e) \<Longrightarrow> list_all (\<lambda>p. timeout p = None) (asked d')"
  by (auto simp: bmc_found_def Let_def shell_def new_process_def split: if_splits option.splits prod.splits)

lemma resume_untimed:
  assumes "resume env job r ph d = (ph', d')" and "job_timeout job = None"
    and "list_all (\<lambda>p. timeout p = None) (asked d)"
  shows "list_all (\<lambda>p. timeout p = None) (asked d')"
  using assms
  by (cases "(env, job, r, ph, d)" rule: resume.cases)
    (auto simp: prepare_aiger_def shell_def new_process_def Let_def split: if_splits proof_job.splits
      intro: bmc_found_untimed)

text \<open>The file of a coroutine after its turn.\<close>

lemma turn_file_ok:
  assumes "file_ok (aiger_idx d) ps job ph" and "resume env job r ph d = (ph', d')"
    and "\<And>c. awaited_cmd job ph = Some c \<Longrightarrow> c \<in> cmd ` set ps"
  shows "file_ok (aiger_idx d') ps job ph' \<and> aiger_idx d \<le> aiger_idx d'"
proof -
  have f: "if ph = Fresh then ph' = Preparing (aiger_name (aiger_idx d)) \<and> aiger_idx d' = Suc (aiger_idx d)
      else aiger_idx d' = aiger_idx d \<and> (\<forall>name. ph' \<noteq> Preparing name) \<or> (ph', d') = (ph, d)"
    by (rule resume_file[OF assms(2)])
  have p: "ph = Preparing name" if "ph' = Proving name" "ph \<noteq> ph'" for name
    using assms(2) that
    by (cases "(env, job, r, ph, d)" rule: resume.cases)
      (auto simp: Let_def bmc_found_def split: if_splits option.splits prod.splits proof_job.splits)
  show ?thesis
  proof (cases "ph = Fresh \<or> (ph', d') = (ph, d)")
    case True
    then show ?thesis using f assms(1) by (auto simp: file_ok_def split: if_splits)
  next
    case False
    then have i: "aiger_idx d' = aiger_idx d" "\<forall>name. ph' \<noteq> Preparing name" using f by auto
    have "file_ok (aiger_idx d') ps job ph'" if "ph' = Proving name" for name
      using p[OF that] assms(1,3) i(1) that by (cases "ph = ph'") (auto simp: file_ok_def)
    then have "file_ok (aiger_idx d') ps job ph'" using i(2) by (cases ph') (auto simp: file_ok_def)
    then show ?thesis using i(1) by simp
  qed
qed

lemma told_more:
  assumes "told eng jobs phs ws p" and "w = None \<or> w = Some n \<and> pid p \<noteq> n" and "length ws = length jobs" "length phs = length jobs"
  shows "told eng jobs (phs[i := ph]) (ws[i := w]) p"
  unfolding told_def
proof (intro conjI allI impI)
  fix j r assume j: "j < length jobs" "ws[i := w] ! j = Some (pid p)" "future p = Done r"
  then have "j \<noteq> i" using assms(2,3) by auto
  then show "fits eng (jobs ! j) (phs[i := ph] ! j) (unmeasured r)" using assms(1) j by (simp add: told_def)
qed (use assms(1) in \<open>simp_all add: told_def\<close>)

lemma turn_told:
  assumes "flow_ok cfg jobs fl" and "flow_told eng jobs fl" and "plain_jobs jobs" and "engine_jobs jobs"
    and "list_all (\<lambda>p. timeout p = None) (asked (fl_desk fl))"
  shows "flow_told eng jobs (flow_turn env jobs i fl) \<and>
    list_all (\<lambda>p. timeout p = None) (asked (fl_desk (flow_turn env jobs i fl)))"
proof (cases "i < length jobs \<and> ready fl i \<noteq> None")
  case True
  then obtain r where i: "i < length jobs" and r: "ready fl i = Some r" by blast
  obtain ph d where s: "resume env (jobs ! i) r (fl_phases fl ! i) (fl_desk fl) = (ph, d)" by fastforce
  note awaits = ready_told(2)[OF assms(1,2) i r]
  have told: "list_all (told eng jobs (fl_phases fl) (fl_waits fl)) (all_processes fl)" and one: "one_writer (fl_desk fl)"
    and own: "\<And>j. j < length jobs \<Longrightarrow> file_ok (aiger_idx (fl_desk fl)) (fl_ended fl) (jobs ! j) (fl_phases fl ! j)"
    using assms(2) by (auto simp: flow_told_def)
  have len: "length (fl_waits fl) = length jobs" "length (fl_phases fl) = length jobs"
    using assms(1) by (auto simp: flow_ok_def waits_ok_def)
  have one': "one_writer d" by (rule one_writer_turn[OF one s awaits engine_jobsD[OF assms(4) i]])
  have own': "file_ok (aiger_idx d) (fl_ended fl) (jobs ! i) ph \<and> aiger_idx (fl_desk fl) \<le> aiger_idx d"
    by (rule turn_file_ok[OF own[OF i] s ready_told(3)[OF assms(1,2) i r]])
  have files: "file_ok (aiger_idx d) (fl_ended fl) (jobs ! j) ((fl_phases fl)[i := ph] ! j)" if "j < length jobs" for j
    using own' file_ok_more[OF own[OF that], of "aiger_idx d" "fl_ended fl"] that len(2) by (cases "j = i") auto
  have untimed: "list_all (\<lambda>p. timeout p = None) (asked d)"
    by (rule resume_untimed[OF s _ assms(5)]) (use assms(3) i in \<open>simp add: plain_jobs_def list_all_length\<close>)
  have a: "asks (fl_desk fl) d (awaited_cmd (jobs ! i) ph)" by (rule resume_asks[OF s awaits])
  show ?thesis
  proof (cases "awaited_cmd (jobs ! i) ph")
    case None
    then have d: "asked d = asked (fl_desk fl)" using a by (simp add: asks_none)
    have "list_all (told eng jobs ((fl_phases fl)[i := ph]) ((fl_waits fl)[i := None])) (all_processes fl)"
      using told told_more[of eng jobs "fl_phases fl" "fl_waits fl" _ None _ i ph] len unfolding list_all_iff by blast
    then show ?thesis using i r s d one' files untimed by (simp add: flow_turn_def flow_told_def)
  next
    case (Some c)
    let ?n = "length (asked (fl_desk fl))"
    obtain mem tmo where d: "asked d = asked (fl_desk fl) @ [new_process ?n c mem 0 tmo]"
      using a Some by (auto simp: asks_def)
    let ?told = "told eng jobs ((fl_phases fl)[i := ph]) ((fl_waits fl)[i := Some ?n])"
    have "?told p" if "p \<in> set (all_processes fl)" for p
      by (rule told_more) (use told that process_asked[OF assms(1) that] len in \<open>auto simp: list_all_iff\<close>)
    then have "list_all ?told (all_processes fl)" by (simp add: list_all_iff)
    moreover have "?told (new_process ?n c mem 0 tmo)" using untimed d by (simp add: told_def new_process_def)
    moreover have "pid (new_process ?n c mem 0 tmo) = ?n" by (simp add: new_process_def)
    ultimately show ?thesis
      using i r s d one' files untimed by (simp add: flow_turn_def flow_told_def append_process_def)
  qed
qed (use assms in \<open>auto simp: flow_turn_def\<close>)

section \<open>What the proofs give\<close>

lemma bmc_found_unmeasured:
  assumes "bmc_found env r d = (ph, e)" and "traces d1 = traces d" "cex_id d1 = cex_id d"
  shows "\<exists>e1. bmc_found env (unmeasured r) d1 = (unmeasured_phase ph, e1) \<and> traces e1 = traces e \<and> cex_id e1 = cex_id e"
  using assms
  by (auto simp: bmc_found_def Let_def shell_def split: if_splits option.splits prod.splits)

lemma resume_unmeasured:
  assumes "resume env job r ph d = (ph', d')"
  shows "\<exists>e. resume env job (unmeasured r) (unmeasured_phase ph) d = (unmeasured_phase ph', e) \<and>
    traces e = traces d' \<and> cex_id e = cex_id d'"
proof (cases "\<exists>name step props tmo first final. ph = Proving name \<and> job = Bmc_job step props tmo first final")
  case True
  then obtain name step props tmo first final where 1: "ph = Proving name" "job = Bmc_job step props tmo first final" by blast
  have "bmc_found env r (proof_done env (job_config job) name step props r d) = (ph', d')"
    using assms 1 by (simp add: Let_def)
  from bmc_found_unmeasured[OF this, of "proof_done env (job_config job) name step props (unmeasured r) d"]
  show ?thesis using 1 by (simp add: Let_def)
next
  case False
  then show ?thesis
    using assms by (cases ph; cases job) (auto simp: prepare_aiger_def shell_def Let_def split: if_splits)
qed

abbreviation coroutines :: "flow \<Rightarrow> phase list \<times> desk" where
  "coroutines fl \<equiv> (map unmeasured_phase (fl_phases fl), fl_desk fl)"

lemma consistent_desk:
  "traces e = traces d \<Longrightarrow> cex_id e = cex_id d \<Longrightarrow> consistent eng jobs (phs, e) \<longleftrightarrow> consistent eng jobs (phs, d)"
  by (simp add: consistent_def)

lemma fits_unmeasured: "fits eng job (unmeasured_phase ph) r \<longleftrightarrow> fits eng job ph r"
  by (cases ph) auto

lemma turn_flow_consistent:
  assumes "flow_ok cfg jobs fl" and "flow_told eng jobs fl" and "plain_jobs jobs" and "consistent eng jobs (coroutines fl)"
  shows "consistent eng jobs (coroutines (flow_turn env jobs i fl))"
proof (cases "i < length jobs \<and> ready fl i \<noteq> None")
  case True
  then obtain r where i: "i < length jobs" and r: "ready fl i = Some r" by blast
  obtain ph d where s: "resume env (jobs ! i) r (fl_phases fl ! i) (fl_desk fl) = (ph, d)" by fastforce
  obtain e where e: "resume env (jobs ! i) (unmeasured r) (unmeasured_phase (fl_phases fl ! i)) (fl_desk fl) = (unmeasured_phase ph, e)"
      "traces e = traces d" "cex_id e = cex_id d"
    using resume_unmeasured[OF s] by blast
  have n: "map unmeasured_phase (fl_phases fl) ! i = unmeasured_phase (fl_phases fl ! i)"
    using assms(1) i by (simp add: flow_ok_def waits_ok_def)
  have "consistent eng jobs ((map unmeasured_phase (fl_phases fl))[i := unmeasured_phase ph], e)"
    by (rule resume_consistent[OF assms(4) _ assms(3) _ i])
      (use e(1) ready_told(1)[OF assms(1,2) i r] in \<open>simp_all add: n fits_unmeasured\<close>)
  then have "consistent eng jobs (map unmeasured_phase ((fl_phases fl)[i := ph]), d)"
    using consistent_desk[OF e(2,3)] by (simp add: map_update)
  moreover have "coroutines (flow_turn env jobs i fl) = (map unmeasured_phase ((fl_phases fl)[i := ph]), d)"
    using i r s by (simp add: flow_turn_def split: list.splits)
  ultimately show ?thesis by simp
qed (use assms in \<open>auto simp: flow_turn_def\<close>)

lemma flow_consistent:
  assumes "flow_run cfg env jobs es fl = Inr fl'" and "world_right cfg env eng jobs es fl" and "plain_jobs jobs" "engine_jobs jobs"
    and "flow_ok cfg jobs fl" "flow_told eng jobs fl" "list_all (\<lambda>p. timeout p = None) (asked (fl_desk fl))"
    and "consistent eng jobs (coroutines fl)"
  shows "consistent eng jobs (coroutines fl')"
  using assms
proof (induction es arbitrary: fl)
  case (Cons e es)
  obtain fl1 where 1: "flow_step cfg env jobs e fl = Inr fl1" "flow_run cfg env jobs es fl1 = Inr fl'"
    using Cons.prems(1) by (auto simp: flow_run_def raise_simps)
  have ok: "flow_ok cfg jobs fl1" using flow_step_ok[OF Cons.prems(5), of env e] 1(1) by simp
  have w: "world_right cfg env eng jobs es fl1" using Cons.prems(2) 1(1) by simp
  have "flow_told eng jobs fl1 \<and> list_all (\<lambda>p. timeout p = None) (asked (fl_desk fl1)) \<and> consistent eng jobs (coroutines fl1)"
  proof (cases e)
    case (Turn i)
    then have fl1: "fl1 = flow_turn env jobs i fl" using 1(1) by simp
    show ?thesis
      unfolding fl1 using turn_told[OF Cons.prems(5,6,3,4,7)] turn_flow_consistent[OF Cons.prems(5,6,3,8)] by blast
  next
    case (Cycle c)
    then have "flow_told eng jobs fl1"
      using cycle_told[OF Cons.prems(5,6), of c env fl1] Cons.prems(2) 1(1) by simp
    moreover have "fl_phases fl1 = fl_phases fl" "fl_desk fl1 = fl_desk fl" using 1(1) Cycle by (auto simp: raise_simps)
    ultimately show ?thesis using Cons.prems(7,8) by simp
  qed
  then show ?case using Cons.IH[OF 1(2) w Cons.prems(3,4) ok] by blast
qed (simp add: flow_run_def)

text \<open>
  C5. Proofs and searches run through the runner, started, put back and ended by its cycles in
  any order, give what the modes take them to give.  What is assumed is what each process does
  when it exits: the one that prepares a file succeeds just when the file can be prepared, and
  an engine answers for what its file was last prepared for.  Then whichever proof is over has
  the engine's result for its own step and properties, or the error of the model without
  processes, and its trace in a file of its own.  The memory and the time of a result are set
  apart, since they are the runner's measurements and not the engine's.
\<close>

theorem proofs_through_runner:
  assumes "asked d = []" and "plain_jobs jobs" and "engine_jobs jobs"
    and "world_right cfg env eng jobs es (open_flow t jobs d)"
  shows "\<exists>fl. flow_run cfg env jobs es (open_flow t jobs d) = Inr fl \<and>
    (\<forall>i < length jobs. rank (fl_phases fl ! i) = 4 \<longrightarrow>
       agrees (outcome eng (jobs ! i)) (traces (fl_desk fl)) (unmeasured_phase (fl_phases fl ! i)))"
proof -
  obtain fl where fl: "flow_run cfg env jobs es (open_flow t jobs d) = Inr fl" "flow_ok cfg jobs fl"
    using flow_run_ok[OF open_flow_ok[OF assms(1)]] by blast
  have "consistent eng jobs (coroutines (open_flow t jobs d))"
    by (simp add: consistent_def so_far_def open_flow_def)
  moreover have "list_all (\<lambda>p. timeout p = None) (asked (fl_desk (open_flow t jobs d)))"
    using assms(1) by (simp add: open_flow_def)
  ultimately have c: "consistent eng jobs (coroutines fl)"
    using flow_consistent[OF fl(1) assms(4,2,3) open_flow_ok[OF assms(1)] open_flow_told[OF assms(1)]] by blast
  have len: "length (fl_phases fl) = length jobs" using fl(2) by (simp add: flow_ok_def waits_ok_def)
  have rank: "rank (unmeasured_phase ph) = rank ph" for ph by (cases ph) simp_all
  have "agrees (outcome eng (jobs ! i)) (traces (fl_desk fl)) (unmeasured_phase (fl_phases fl ! i))"
    if i: "i < length jobs" "rank (fl_phases fl ! i) = 4" for i
    using consistent_agrees[OF c assms(2) i(1)] i len rank by simp
  then show ?thesis using fl(1) by blast
qed

section \<open>A search through the runner\<close>

definition demo_found_result :: "nat \<Rightarrow> process_result" where
  "demo_found_result n =
     \<lparr>res_code = Some (if n = 1 then 10 else 0), res_reason = OK, res_mem = 1, res_dt = 0,
      res_out = Some (if n = 1 then ''1'' @ [newline] @ ''trace'' else []), res_err = Some []\<rparr>"

definition demo_search_engines :: engines where
  "demo_search_engines = \<lparr>aig_ok = (\<lambda>step props. True), attempt = (\<lambda>config step props tmo. unmeasured (demo_found_result 1))\<rparr>"

definition demo_search_jobs :: "proof_job list" where
  "demo_search_jobs = [Bmc_job 1 [''LoadA''] None None None]"

text \<open>Each process ends in the cycle that starts it.\<close>

definition demo_search_obs :: "nat \<Rightarrow> observation" where
  "demo_search_obs n =
     \<lparr>rss = 1, exit_code = res_code (demo_found_result n), clock = 0, out_text = the (res_out (demo_found_result n)), err_text = []\<rparr>"

definition demo_search_cycle :: cycle where
  "demo_search_cycle =
     \<lparr>global_free = 100, shed_obs = demo_search_obs, drop_obs = demo_search_obs, start_clock = (\<lambda>n. 0), now = 0\<rparr>"

lemma demo_cycle_ends:
  assumes "pending s = [new_process n c mem 0 None]" "running s = []" and "mem < 95"
  shows "\<exists>s' p. runner_poll demo_settings demo_search_cycle s = Inr (s', [p]) \<and> pending s' = [] \<and> running s' = [] \<and>
    pid p = n \<and> future p = Done (demo_found_result n)"
proof -
  have "shed demo_settings demo_search_obs 100 [] [new_process n c mem 0 None] = Inr (100, [], [new_process n c mem 0 None])"
    by (subst shed.simps) simp
  moreover have "launch demo_settings (\<lambda>n. 0) 100 [] [new_process n c mem 0 None] = ([start 0 (new_process n c mem 0 None)], [])"
    using assms(3)
    by (subst launch.simps, subst launch.simps)
      (simp add: demo_settings_def MAX_RUNNING_def new_process_def start_def GLOBAL_MEMORY_BUFFER_def Let_def)
  ultimately show ?thesis
    using assms(1,2)
    by (simp add: runner_poll_def demo_search_cycle_def mem_avail_def demo_settings_def children_used_mem_def Let_def
        poll_def finish_def start_def new_process_def demo_search_obs_def demo_found_result_def)
qed

text \<open>A cycle and a turn of a coroutine that waits for the process that was asked for last.\<close>

lemma demo_search_next:
  assumes "fl_phases fl = [ph]" "fl_waits fl = [Some n]" "fl_runner fl = r" "pending r = [new_process n c mem 0 None]"
    and "running r = []" "list_all (\<lambda>p. pid p < n) (fl_ended fl)" "mem < 95" "ph \<noteq> Fresh"
  shows "\<exists>fl'. flow_step demo_settings env jobs (Cycle demo_search_cycle) fl = Inr fl' \<and> ready fl' 0 = Some (demo_found_result n) \<and>
    fl_phases fl' = [ph] \<and> fl_waits fl' = [Some n] \<and> fl_desk fl' = fl_desk fl \<and> pending (fl_runner fl') = [] \<and>
    running (fl_runner fl') = [] \<and> list_all (\<lambda>p. pid p < Suc n) (fl_ended fl')"
proof -
  obtain s' p where p: "runner_poll demo_settings demo_search_cycle r = Inr (s', [p])" "pending s' = []" "running s' = []"
      "pid p = n" "future p = Done (demo_found_result n)"
    using demo_cycle_ends[OF assms(4,5,7)] by blast
  have "filter (\<lambda>q. pid q = n) (fl_ended fl) = []" using assms(6) by (auto simp: filter_empty_conv list_all_iff)
  then have "awaited_result (fl_ended fl @ [p]) n = Some (demo_found_result n)"
    using p(4,5) by (simp add: awaited_result_def)
  then show ?thesis
    using assms p by (auto simp: ready_def list_all_iff less_Suc_eq)
qed

lemma demo_search_turn:
  assumes "ready fl 0 = Some r" "fl_phases fl = [ph]" "fl_waits fl = [w]" "pending (fl_runner fl) = []"
    and "resume env job r ph (fl_desk fl) = (ph', d)" and "asked d = asked (fl_desk fl) @ [p]"
  shows "fl_phases (flow_turn env [job] 0 fl) = [ph'] \<and> fl_waits (flow_turn env [job] 0 fl) = [Some (pid p)] \<and>
    fl_desk (flow_turn env [job] 0 fl) = d \<and> pending (fl_runner (flow_turn env [job] 0 fl)) = [p] \<and>
    running (fl_runner (flow_turn env [job] 0 fl)) = running (fl_runner fl) \<and>
    fl_ended (flow_turn env [job] 0 fl) = fl_ended fl"
  using assms by (simp add: flow_turn_def append_process_def)

definition demo_search_events :: "flow_event list" where
  "demo_search_events =
     [Turn 0, Cycle demo_search_cycle, Turn 0, Cycle demo_search_cycle, Turn 0, Cycle demo_search_cycle, Turn 0]"

lemma new_process_pid [simp]: "pid (new_process n c mem time tmo) = n"
  by (simp add: new_process_def)

lemma demo_found_split: "split1 newline (''1'' @ [newline] @ ''trace'') = (''1'', Some ''trace'')"
  by code_simp

text \<open>The only coroutine waits for the process asked for last; a cycle and a turn take it to the next.\<close>

definition demo_waits :: "flow \<Rightarrow> phase \<Rightarrow> nat \<Rightarrow> string \<Rightarrow> rat \<Rightarrow> bool" where
  "demo_waits fl ph n c mem \<longleftrightarrow>
     fl_phases fl = [ph] \<and> fl_waits fl = [Some n] \<and> pending (fl_runner fl) = [new_process n c mem 0 None] \<and>
     running (fl_runner fl) = [] \<and> list_all (\<lambda>p. pid p < n) (fl_ended fl) \<and> mem < 95 \<and> ph \<noteq> Fresh"

lemma demo_cycle_ready:
  assumes "demo_waits fl ph n c mem"
  shows "\<exists>fl'. flow_step demo_settings env jobs (Cycle demo_search_cycle) fl = Inr fl' \<and> ready fl' 0 = Some (demo_found_result n) \<and>
    fl_phases fl' = [ph] \<and> fl_waits fl' = [Some n] \<and> fl_desk fl' = fl_desk fl \<and> pending (fl_runner fl') = [] \<and>
    running (fl_runner fl') = [] \<and> list_all (\<lambda>p. pid p < Suc n) (fl_ended fl')"
  by (rule demo_search_next) (use assms in \<open>auto simp: demo_waits_def\<close>)

lemma demo_search_round:
  assumes "demo_waits fl ph n c mem" and "resume env job (demo_found_result n) ph (fl_desk fl) = (ph', d)"
    and "asked d = asked (fl_desk fl) @ [new_process (Suc n) c' mem' 0 None]" and "mem' < 95" "ph' \<noteq> Fresh"
  shows "\<exists>g. flow_step demo_settings env [job] (Cycle demo_search_cycle) fl = Inr g \<and> ready g 0 = Some (demo_found_result n) \<and>
    fl_phases g = [ph] \<and> demo_waits (flow_turn env [job] 0 g) ph' (Suc n) c' mem' \<and> fl_desk (flow_turn env [job] 0 g) = d"
proof -
  obtain g where g: "flow_step demo_settings env [job] (Cycle demo_search_cycle) fl = Inr g" "ready g 0 = Some (demo_found_result n)"
      "fl_phases g = [ph]" "fl_waits g = [Some n]" "fl_desk g = fl_desk fl" "pending (fl_runner g) = []"
      "running (fl_runner g) = []" "list_all (\<lambda>p. pid p < Suc n) (fl_ended g)"
    using demo_cycle_ready[OF assms(1)] by blast
  have "demo_waits (flow_turn env [job] 0 g) ph' (Suc n) c' mem' \<and> fl_desk (flow_turn env [job] 0 g) = d"
    using demo_search_turn[OF g(2,3,4,6), of env job ph' d] assms(2-5) g(5,7,8) by (simp add: demo_waits_def)
  then show ?thesis using g(1-3) by blast
qed

text \<open>What the processes of the search are seen to give is right.\<close>

definition demo_search_cmds :: "string list" where
  "demo_search_cmds =
     [select_cmd (aiger_name 0) 1 [''LoadA''], engine_cmd (bmc_config None None) (aiger_name 0), simulate_cmd 0]"

lemma demo_engine_writes_not: "\<not> writes_aiger m (engine_cmd (bmc_config None None) name)"
  by (rule engine_writes_not) (simp add: bmc_config_def)

lemma demo_engine_jobs: "engine_jobs demo_search_jobs"
  by (simp add: engine_jobs_def demo_search_jobs_def bmc_config_def)

lemma demo_cmds_differ:
  "select_cmd (aiger_name m) step props \<noteq> engine_cmd (bmc_config None None) name"
  "simulate_cmd k \<noteq> select_cmd (aiger_name m) step props"
  "simulate_cmd k \<noteq> engine_cmd (bmc_config None None) name"
proof -
  show "select_cmd (aiger_name m) step props \<noteq> engine_cmd (bmc_config None None) name"
    using select_writes[of m m] demo_engine_writes_not by metis
  show "simulate_cmd k \<noteq> select_cmd (aiger_name m) step props"
    using select_writes[of m m] simulate_writes_not by metis
  show "simulate_cmd k \<noteq> engine_cmd (bmc_config None None) name"
    by (simp add: simulate_cmd_def engine_cmd_def bmc_config_def)
qed

lemma demo_cycle_right:
  assumes "map cmd (asked (fl_desk fl)) = take k demo_search_cmds" and "aiger_idx (fl_desk fl) = 1"
  shows "cycle_right demo_search_engines demo_search_jobs fl demo_search_cycle"
proof -
  let ?job = "Bmc_job 1 [''LoadA''] None None None"
  have "exits_right demo_search_engines ?job 0 w (demo_search_cmds ! n) (demo_search_obs n)"
    if "n < 3" for n w
    using that demo_cmds_differ demo_cmds_differ(1)[symmetric]
    by (auto simp: less_Suc_eq numeral_3_eq_3 demo_search_cmds_def exits_right_def demo_search_obs_def demo_found_result_def
        demo_search_engines_def exit_result_def unmeasured_def)
  moreover have "cmd (asked (fl_desk fl) ! n) = demo_search_cmds ! n \<and> n < 3" if "n < length (asked (fl_desk fl))" for n
  proof -
    have "length (asked (fl_desk fl)) = length (take k demo_search_cmds)" using assms(1) by (metis length_map)
    then have "n < k" "n < 3" using that by (simp_all add: demo_search_cmds_def)
    moreover have "map cmd (asked (fl_desk fl)) ! n = take k demo_search_cmds ! n" by (simp only: assms(1))
    ultimately show ?thesis using that by simp
  qed
  ultimately show ?thesis
    using assms(2) by (simp add: cycle_right_def demo_search_jobs_def demo_search_cycle_def)
qed

lemma demo_search_over:
  "\<exists>fl. flow_run demo_settings demo_log_env demo_search_jobs demo_search_events (open_flow 0 demo_search_jobs new_desk) = Inr fl \<and>
     world_right demo_settings demo_log_env demo_search_engines demo_search_jobs demo_search_events (open_flow 0 demo_search_jobs new_desk) \<and>
     fl_phases fl = [Ended (demo_found_result 1) (Some 0)]"
proof -
  let ?env = demo_log_env and ?cfg = demo_settings and ?res = "demo_found_result (Suc 0)"
  let ?job = "Bmc_job 1 [''LoadA''] None None None" and ?nm = "aiger_name 0"
  let ?select = "select_cmd ?nm 1 [''LoadA'']" and ?engine = "engine_cmd (bmc_config None None) ?nm"
  let ?f0 = "open_flow 0 [?job] new_desk"
  have f0: "ready ?f0 0 = Some no_result" "fl_phases ?f0 = [Fresh]" "fl_waits ?f0 = [None]" "pending (fl_runner ?f0) = []"
    by (simp_all add: open_flow_def ready_def new_runner_def)
  obtain d1 where r1: "resume ?env ?job no_result Fresh (fl_desk ?f0) = (Preparing ?nm, d1)" "cex_id d1 = 0 \<and> aiger_idx d1 = 1"
      "asked d1 = asked (fl_desk ?f0) @ [new_process 0 ?select (1 / 2) 0 None]"
    by (simp add: prepare_aiger_def new_desk_def open_flow_def shell_def Let_def)
  let ?f1 = "flow_turn ?env [?job] 0 ?f0"
  have f1: "demo_waits ?f1 (Preparing ?nm) 0 ?select (1 / 2)" "fl_desk ?f1 = d1"
    using demo_search_turn[OF f0 r1(1,3)] by (simp_all add: demo_waits_def open_flow_def new_runner_def)
  obtain d2 where r2: "resume ?env ?job (demo_found_result 0) (Preparing ?nm) d1 = (Proving ?nm, d2)" "cex_id d2 = 0 \<and> aiger_idx d2 = 1"
      "asked d2 = asked d1 @ [new_process (Suc 0) ?engine 10 0 None]"
    using r1(2,3) by (simp add: demo_found_result_def shell_def open_flow_def new_desk_def)
  let ?f2 = "flow_turn ?env [?job] 0"
  obtain g1 where g1: "flow_step ?cfg ?env [?job] (Cycle demo_search_cycle) ?f1 = Inr g1" "ready g1 0 = Some (demo_found_result 0)"
      "fl_phases g1 = [Preparing ?nm]" "demo_waits (?f2 g1) (Proving ?nm) (Suc 0) ?engine 10" "fl_desk (?f2 g1) = d2"
    using demo_search_round[OF f1(1), unfolded f1(2), OF r2(1,3)] by (auto simp del: flow_step.simps)
  obtain d3 where r3: "resume ?env ?job ?res (Proving ?nm) d2 = (Simulating 0 ?res, d3)"
      "asked d3 = asked d2 @ [new_process (Suc (Suc 0)) (simulate_cmd 0) 0 0 None]" "aiger_idx d3 = 1"
    using r1(3) r2(2,3) demo_found_split
    by (simp add: demo_found_result_def bmc_found_def shell_def Let_def open_flow_def new_desk_def)
  obtain g2 where g2: "flow_step ?cfg ?env [?job] (Cycle demo_search_cycle) (?f2 g1) = Inr g2" "ready g2 0 = Some ?res"
      "fl_phases g2 = [Proving ?nm]" "demo_waits (?f2 g2) (Simulating 0 ?res) (Suc (Suc 0)) (simulate_cmd 0) 0" "fl_desk (?f2 g2) = d3"
    using demo_search_round[OF g1(4), unfolded g1(5), OF r3(1,2)] by (auto simp del: flow_step.simps)
  obtain g3 where g3: "flow_step ?cfg ?env [?job] (Cycle demo_search_cycle) (?f2 g2) = Inr g3"
      "ready g3 0 = Some (demo_found_result (Suc (Suc 0)))" "fl_phases g3 = [Simulating 0 ?res]"
    using demo_cycle_ready[OF g2(4)] by blast
  have over: "fl_phases (?f2 g3) = [Ended ?res (Some 0)]" using g3 by (simp add: flow_turn_def)
  have "flow_run ?cfg ?env demo_search_jobs demo_search_events (open_flow 0 demo_search_jobs new_desk) = Inr (?f2 g3)"
    using g1(1) g2(1) g3(1) by (simp add: flow_run_def demo_search_events_def demo_search_jobs_def del: flow_step.simps(2))
  moreover have "cycle_right demo_search_engines [?job] ?f1 demo_search_cycle"
    using demo_cycle_right[of ?f1 1] r1(2,3) f1(2)
    by (simp add: demo_search_cmds_def demo_search_jobs_def open_flow_def new_desk_def new_process_def)
  moreover have "cycle_right demo_search_engines [?job] (?f2 g1) demo_search_cycle"
    using demo_cycle_right[of "?f2 g1" 2] r1(3) r2(2,3) g1(5)
    by (simp add: demo_search_cmds_def demo_search_jobs_def open_flow_def new_desk_def new_process_def)
  moreover have "cycle_right demo_search_engines [?job] (?f2 g2) demo_search_cycle"
    using demo_cycle_right[of "?f2 g2" 3] r1(3) r2(3) r3(2,3) g2(5)
    by (simp add: demo_search_cmds_def demo_search_jobs_def open_flow_def new_desk_def new_process_def)
  ultimately have "world_right ?cfg ?env demo_search_engines demo_search_jobs demo_search_events (open_flow 0 demo_search_jobs new_desk) \<and>
      flow_run ?cfg ?env demo_search_jobs demo_search_events (open_flow 0 demo_search_jobs new_desk) = Inr (?f2 g3)"
    using g1(1) g2(1) g3(1) by (simp add: demo_search_events_def demo_search_jobs_def del: flow_step.simps(2))
  then show ?thesis using over by auto
qed

lemma proofs_through_runner_witness:
  "\<exists>fl. flow_run demo_settings demo_log_env demo_search_jobs demo_search_events (open_flow 0 demo_search_jobs new_desk) = Inr fl \<and>
     fl_phases fl = [Ended (demo_found_result 1) (Some 0)] \<and>
     agrees (outcome demo_search_engines (demo_search_jobs ! 0)) (traces (fl_desk fl)) (unmeasured_phase (fl_phases fl ! 0))"
proof -
  have plain: "plain_jobs demo_search_jobs" by (simp add: plain_jobs_def demo_search_jobs_def)
  have start: "asked new_desk = []" by (simp add: new_desk_def)
  obtain fl where fl: "flow_run demo_settings demo_log_env demo_search_jobs demo_search_events (open_flow 0 demo_search_jobs new_desk) = Inr fl"
      "world_right demo_settings demo_log_env demo_search_engines demo_search_jobs demo_search_events (open_flow 0 demo_search_jobs new_desk)"
      "fl_phases fl = [Ended (demo_found_result 1) (Some 0)]"
    using demo_search_over by blast
  show ?thesis
    using proofs_through_runner[OF start plain demo_engine_jobs fl(2)] fl(1,3) by (auto simp: demo_search_jobs_def)
qed

lemma results_reach_proofs_witness:
  "\<exists>fl n p. flow_run demo_settings demo_log_env demo_search_jobs [Turn 0] (open_flow 0 demo_search_jobs new_desk) = Inr fl \<and>
     fl_waits fl ! 0 = Some n \<and> filter (\<lambda>q. pid q = n) (all_processes fl) = [p] \<and> cmd p = select_cmd (aiger_name 0) 1 [''LoadA'']"
proof -
  have start: "asked new_desk = []" "0 < length demo_search_jobs" by (simp_all add: new_desk_def demo_search_jobs_def)
  have "\<exists>fl. flow_run demo_settings demo_log_env demo_search_jobs [Turn 0] (open_flow 0 demo_search_jobs new_desk) = Inr fl \<and>
      awaited_cmd (demo_search_jobs ! 0) (fl_phases fl ! 0) = Some (select_cmd (aiger_name 0) 1 [''LoadA''])"
    by (simp add: flow_run_def demo_search_jobs_def open_flow_def flow_turn_def ready_def prepare_aiger_def shell_def new_desk_def Let_def)
  then show ?thesis
    using results_reach_proofs[OF start, of demo_settings demo_log_env "[Turn 0]" 0] by fastforce
qed

end
