(* ===== verification/Spec2Isabelle.thy ===== *)
theory Spec2Isabelle
  imports CommandLine ProofFlow
begin

text \<open>
  The Python tooling of the Ibex core, modelled and verified.

  \<^bold>\<open>The program.\<close>  The repository holds a RISC-V core in SystemVerilog and the scripts around it.
  The configurations of the core are read and rendered by \<^verbatim>\<open>util/ibex_config.py\<close>.  A regression
  under \<^verbatim>\<open>dv/uvm/core_ibex/scripts\<close> goes through a makefile whose steps are scripts that meet in
  files: \<^verbatim>\<open>metadata.py\<close> creates the record of the regression and a result for every test and seed;
  \<^verbatim>\<open>build_instr_gen.py\<close>, \<^verbatim>\<open>run_instr_gen.py\<close> and \<^verbatim>\<open>compile_test.py\<close> make the tests, \<^verbatim>\<open>compile_tb.py\<close>
  and \<^verbatim>\<open>run_rtl.py\<close> build and run the simulation, \<^verbatim>\<open>check_logs.py\<close> compares the trace of the core
  with the one of the instruction set simulator, and \<^verbatim>\<open>collect_results.py\<close> and \<^verbatim>\<open>merge_cov.py\<close> make
  the reports.  Each step loads the pickled record or result it works on, runs commands, and
  writes the object back.  The formal proofs have a conductor, \<^verbatim>\<open>dv/formal/conductor.py\<close>, which
  runs solvers as processes on a queue, splits lists of properties and stores what worked as
  strategies.  Synthesis, tool checks, conversion to Verilog and the list of the directed tests
  are scripts of their own.

  \<^bold>\<open>The foundation.\<close>  \<^verbatim>\<open>Prelude\<close>: computations that raise are sums, \<open>Inl\<close> the exception, with \<open>ebind\<close>,
  \<open>emap\<close> and \<open>efold\<close> for sequences, comprehensions and loops; dictionaries are association lists
  in insertion order, with the locale \<open>mapping_contract\<close>; \<^verbatim>\<open>JsonText\<close>: the text of JSON values.  \<^verbatim>\<open>PyStr\<close>, \<^verbatim>\<open>PyVal\<close>, \<^verbatim>\<open>PyRe\<close>, \<^verbatim>\<open>PyPath\<close>,
  \<^verbatim>\<open>Shlex\<close>: strings, values, regular expressions (all matches in the order of a backtracking
  matcher), paths, and the quoting of command lines, with the locale \<open>command_line\<close>: splitting
  undoes quoting.  \<^verbatim>\<open>ArgParse\<close>: what the scripts use of argparse, parsers as data, with the locale
  \<open>option_parser\<close> of the parsers that have only options.

  \<^bold>\<open>The theories and the files they model.\<close>
  \<^item> \<^verbatim>\<open>IbexConfig\<close>: \<^verbatim>\<open>util/ibex_config.py\<close>; \<^verbatim>\<open>IbexCmd\<close>: \<^verbatim>\<open>ibex_cmd.py\<close>, which runs it, reads its output
    and filters the tests.
  \<^item> \<^verbatim>\<open>ScriptsLib\<close>: \<^verbatim>\<open>scripts_lib.py\<close>, with the locale \<open>testdata\<close> of objects kept in files, which
    \<^verbatim>\<open>TestRunResult\<close> (\<^verbatim>\<open>test_run_result.py\<close>, \<^verbatim>\<open>test_entry.py\<close>) interprets; \<^verbatim>\<open>Metadata\<close>: \<^verbatim>\<open>metadata.py\<close>,
    \<^verbatim>\<open>setup_imports.py\<close>; \<^verbatim>\<open>DirectedSchema\<close>: \<^verbatim>\<open>directed_test_schema.py\<close>.
  \<^item> \<^verbatim>\<open>RiscvDvInterface\<close>: \<^verbatim>\<open>riscvdv_interface.py\<close>; \<^verbatim>\<open>RunInstrGen\<close>, \<^verbatim>\<open>CompileTest\<close>, \<^verbatim>\<open>RunRtl\<close>, \<^verbatim>\<open>CheckLogs\<close>:
    the steps of the same names; \<^verbatim>\<open>Builds\<close>: \<^verbatim>\<open>compile_tb.py\<close>, \<^verbatim>\<open>build_instr_gen.py\<close>, \<^verbatim>\<open>get_fcov.py\<close>,
    \<^verbatim>\<open>merge_cov.py\<close>, \<^verbatim>\<open>render_config_template.py\<close>.
  \<^item> \<^verbatim>\<open>IbexTrace\<close>: \<^verbatim>\<open>ibex_log_to_trace_csv.py\<close>; \<^verbatim>\<open>SpikeTrace\<close>, \<^verbatim>\<open>TraceCompare\<close>, \<^verbatim>\<open>RiscvDvLib\<close>: the modules of
    riscv-dv the scripts import (\<^verbatim>\<open>spike_log_to_trace_csv.py\<close>, \<^verbatim>\<open>instr_trace_compare.py\<close>,
    \<^verbatim>\<open>riscv_trace_csv.py\<close>, \<^verbatim>\<open>lib.py\<close>).
  \<^item> \<^verbatim>\<open>ReportUtil\<close>, \<^verbatim>\<open>Reports\<close>: \<^verbatim>\<open>collect_results.py\<close> and \<^verbatim>\<open>report_lib\<close>; \<^verbatim>\<open>Regression\<close>: the steps of all the
    runs together, in any interleaving the makefile allows, over the files of the results.
  \<^item> \<^verbatim>\<open>ProofRunner\<close>, \<^verbatim>\<open>Strategies\<close>, \<^verbatim>\<open>Conductor\<close>: \<^verbatim>\<open>dv/formal/conductor.py\<close>, its processes and their runner,
    races and exploration over the tree of the properties, and the modes; \<^verbatim>\<open>ProofLog\<close>: the files,
    counters and logs its proofs share while they take turns; \<^verbatim>\<open>ProofFlow\<close>: the proofs and the
    runner together; \<^verbatim>\<open>FormalFiles\<close>:
    \<^verbatim>\<open>smt2manip.py\<close> and \<^verbatim>\<open>spec/fix_bugs.py\<close>.
  \<^item> \<^verbatim>\<open>ToolReq\<close>: \<^verbatim>\<open>check_tool_requirements.py\<close>, \<^verbatim>\<open>tool_requirements.py\<close> and the end of \<^verbatim>\<open>doc/conf.py\<close>; \<^verbatim>\<open>Sv2v\<close>: \<^verbatim>\<open>sv2v_in_place.py\<close>; \<^verbatim>\<open>SynFlow\<close>: \<^verbatim>\<open>syn/python\<close>;
    \<^verbatim>\<open>GenTestlist\<close>: \<^verbatim>\<open>gen_testlist.py\<close>.
  \<^item> \<^verbatim>\<open>CommandLine\<close>: the command lines of all these scripts, their parsers and how they start.

  \<^bold>\<open>What is shown.\<close>  Of the runner of the conductor: in every reachable state each process is in
  exactly one place, at most the allowed number runs, the loop does not fail, its cycles refine
  an abstract pool of jobs, and the end of a process is delivered.  Of the modes: a run
  that proves for completeness, and not step by step, covers every property when it ends well, searches account for every failure, stored strategies
  load again.  Of proofs beside each other: each gives what it gives alone, no two share a file, the
  log of the proofs has a line for each, and through the runner every proof gets the results of
  its own commands, which are those of the engines where each process exits as its command says (the locale \<open>process_law\<close> is what the runner leaves alone of a process).  Of a regression as a whole: however the steps of its runs are interleaved, every
  result stays in its file, no step decides the result of another run, and the status that is
  collected is zero exactly when every run passed its own check.  Of its steps: the results created load again and no two share a file, locked
  updates compose, each step records its outcome (also a timeout), the comparison of two traces
  counts what a specification over the lists of register updates says, the traces of the two
  logs have the form it takes, pseudo instructions other than \<^verbatim>\<open>csrr\<close> mean what they are replaced by, the status
  is zero exactly when every run passed, and the reports account for every run.  Of the commands: template
  parameters are replaced each by itself, no parameter is left, flags split into the words they
  were made of.  Of the others: a failed conversion to Verilog changes no file and a good one
  converts the original files; the problem of a step of a formal proof asserts and assumes the
  right properties; timing reports give the same paths with readable names; checks of tools answer for every tool.  Of the
  command lines: the words the makefile makes start the steps they are meant to, the runs that
  are printed are read back, a script that starts another one or advises a command gets what it
  means, and the command of the workflow that checks the proofs proves every assertion of the
  design but the skipped ones and the cover properties.
  Where the code does something else than it means to, a theorem says what it does.

  \<^bold>\<open>Parameters and bounds.\<close>  The operating system, the YAML, JSON, XML, HTML and template
  libraries, clocks and memory, simulators, compilers, solvers, Yosys, sv2v and the CSV reader are arguments
  of the definitions, and what is needed of them is a hypothesis.  Floating point numbers are
  exact rationals.  Text is ASCII.  The reader of regression lists may recur for ever, as its files
  may import each other, and has fuel; it is shown that enough fuel gives a result when the
  files do not.  Loops that poll, as in the runner, are step relations.

  \<^bold>\<open>Not modelled.\<close>  the settings of \<^verbatim>\<open>doc/conf.py\<close>; the Python of riscv-dv and OpenTitan that is
  vendored and not imported by the scripts; the core, the test benches and the C++ of the
  co-simulation; messages of the logging module that do not change a result, but the errors
  that are the only output of a script; the texts of the usage and the help.
\<close>

end
